(* ===== verification/Prelude.thy ===== *)
theory Prelude
  imports Complex_Main "HOL-Library.Word" "HOL-Library.Char_ord" "HOL-Library.List_Lexorder"
    "HOL-Library.AList"
begin

text \<open>
  What every other theory of the development shares: the collections of simplification
  rules, the result type of fallible operations, saturating machine arithmetic, the two
  map containers of the program (the key-sorted \<open>BTreeMap\<close> and the unordered \<open>HashMap\<close>)
  behind one interface, and lists of generic lemmas.
\<close>

named_theorems json_simps \<open>evaluation rules of the JSON value accessors\<close>
named_theorems store_simps \<open>functional behaviour of the data store\<close>
named_theorems health_simps \<open>definitions of the connection health transitions\<close>
named_theorems can_simps \<open>evaluation rules of the SLCAN codec\<close>

section \<open>Names and results\<close>

type_synonym u8 = "8 word"
type_synonym u16 = "16 word"
type_synonym u32 = "32 word"
type_synonym u64 = "64 word"
type_synonym usize = "64 word"
type_synonym uuid = "128 word"

text \<open>
  Human-readable texts of the program are Chinese format strings. A text is represented by
  an ASCII key, one for each format string of the source, and the values put into it.
\<close>

datatype msg = Msg string "string list"

definition ok_or :: "'e \<Rightarrow> 'a option \<Rightarrow> 'e + 'a" where
  "ok_or e x = (case x of None \<Rightarrow> Inl e | Some a \<Rightarrow> Inr a)"

definition and_then :: "'e + 'a \<Rightarrow> ('a \<Rightarrow> 'e + 'b) \<Rightarrow> 'e + 'b" where
  "and_then x f = (case x of Inl e \<Rightarrow> Inl e | Inr a \<Rightarrow> f a)"

definition is_ok :: "'e + 'a \<Rightarrow> bool" where
  "is_ok x = (case x of Inl _ \<Rightarrow> False | Inr _ \<Rightarrow> True)"

lemma ok_or_simps [simp]:
  "ok_or e None = Inl e"
  "ok_or e (Some a) = Inr a"
  by (simp_all add: ok_or_def)

lemma ok_or_Inr [simp]: "ok_or e x = Inr a \<longleftrightarrow> x = Some a"
  by (cases x) simp_all

lemma ok_or_Inl [simp]: "ok_or e x = Inl e' \<longleftrightarrow> x = None \<and> e' = e"
  by (cases x) auto

lemma and_then_simps [simp]:
  "and_then (Inl e) f = Inl e"
  "and_then (Inr a) f = f a"
  by (simp_all add: and_then_def)

lemma and_then_Inr: "and_then x f = Inr b \<longleftrightarrow> (\<exists>a. x = Inr a \<and> f a = Inr b)"
  by (cases x) simp_all

lemma and_then_Inl: "and_then x f = Inl e \<longleftrightarrow> x = Inl e \<or> (\<exists>a. x = Inr a \<and> f a = Inl e)"
  by (cases x) auto

lemma is_ok_simps [simp]:
  "\<not> is_ok (Inl e)"
  "is_ok (Inr a)"
  by (simp_all add: is_ok_def)

lemma is_ok_iff: "is_ok x \<longleftrightarrow> (\<exists>a. x = Inr a)"
  by (cases x) simp_all

text \<open>The loop \<open>for x in xs \<dots>\<close> whose body may return early with an error.\<close>

fun try_fold :: "('s \<Rightarrow> 'a \<Rightarrow> 'e + 's) \<Rightarrow> 's \<Rightarrow> 'a list \<Rightarrow> 'e + 's" where
  "try_fold f s [] = Inr s"
| "try_fold f s (x # xs) = (case f s x of Inl e \<Rightarrow> Inl e | Inr s' \<Rightarrow> try_fold f s' xs)"

lemma try_fold_append:
  "try_fold f s (xs @ ys) = and_then (try_fold f s xs) (\<lambda>s'. try_fold f s' ys)"
  by (induction xs arbitrary: s) (auto split: sum.splits)

lemma try_fold_invariant:
  assumes "try_fold f s xs = Inr t" and "P s"
    and "\<And>u x v. x \<in> set xs \<Longrightarrow> P u \<Longrightarrow> f u x = Inr v \<Longrightarrow> P v"
  shows "P t"
  using assms
proof (induction xs arbitrary: s)
  case Nil
  then show ?case by simp
next
  case (Cons x xs)
  from Cons.prems(1) obtain s' where s': "f s x = Inr s'" and t: "try_fold f s' xs = Inr t"
    by (auto split: sum.splits)
  have "P s'" using Cons.prems(2) s' by (rule Cons.prems(3) [rotated]) simp
  then show ?case using t Cons.prems(3) by (intro Cons.IH [of s']) auto
qed

text \<open>The loop \<open>for x in xs { check(x)?; }\<close>: the first error, if there is one.\<close>

fun try_all :: "('a \<Rightarrow> 'e option) \<Rightarrow> 'a list \<Rightarrow> 'e + unit" where
  "try_all f [] = Inr ()"
| "try_all f (x # xs) = (case f x of Some e \<Rightarrow> Inl e | None \<Rightarrow> try_all f xs)"

lemma try_all_Inr: "try_all f xs = Inr u \<longleftrightarrow> (\<forall>x\<in>set xs. f x = None)"
  by (induction xs) (auto split: option.splits)

lemma try_all_Inl: "try_all f xs = Inl e \<Longrightarrow> \<exists>x\<in>set xs. f x = Some e"
  by (induction xs) (auto split: option.splits)

section \<open>Saturating machine arithmetic\<close>

definition sat_add :: "'a::len word \<Rightarrow> 'a word \<Rightarrow> 'a word" where
  "sat_add a b = (if unat a + unat b < 2 ^ LENGTH('a) then a + b else - 1)"

definition sat_sub :: "'a::len word \<Rightarrow> 'a word \<Rightarrow> 'a word" where
  "sat_sub a b = (if b \<le> a then a - b else 0)"

definition sat_mul :: "'a::len word \<Rightarrow> 'a word \<Rightarrow> 'a word" where
  "sat_mul a b = (if unat a * unat b < 2 ^ LENGTH('a) then a * b else - 1)"

lemma unat_max_word: "unat (- 1 :: 'a::len word) = 2 ^ LENGTH('a) - 1"
  by (simp add: unsigned_minus_1_eq_mask mask_eq_exp_minus_1)

lemma one_less_exp_len: "(1::nat) < 2 ^ LENGTH('a::len)"
  by (rule one_less_power) simp_all

lemma unat_sat_add:
  "unat (sat_add a b) = min (unat a + unat b) (2 ^ LENGTH('a) - 1)" for a b :: "'a::len word"
  by (auto simp: sat_add_def unat_max_word unat_word_ariths)

lemma unat_sat_sub: "unat (sat_sub a b) = unat a - unat b" for a b :: "'a::len word"
  by (auto simp: sat_sub_def unat_sub word_le_nat_alt)

lemma unat_sat_mul:
  "unat (sat_mul a b) = min (unat a * unat b) (2 ^ LENGTH('a) - 1)" for a b :: "'a::len word"
  by (auto simp: sat_mul_def unat_max_word unat_word_ariths)

lemma sat_add_ge: "a \<le> sat_add a b" for a b :: "'a::len word"
proof -
  have "unat a < 2 ^ LENGTH('a)" by (rule unsigned_less)
  then have "unat a \<le> 2 ^ LENGTH('a) - 1" by linarith
  then have "unat a \<le> min (unat a + unat b) (2 ^ LENGTH('a) - 1)" by simp
  then show ?thesis by (simp add: word_le_nat_alt unat_sat_add)
qed

lemma sat_mul_mono: "b \<le> c \<Longrightarrow> sat_mul a b \<le> sat_mul a c" for a b c :: "'a::len word"
  by (simp add: word_le_nat_alt unat_sat_mul min.coboundedI1 mult_le_mono2 min.mono)

lemma sat_add_pos: "b \<noteq> 0 \<Longrightarrow> sat_add a b \<noteq> 0" for a b :: "'a::len word"
proof
  assume b: "b \<noteq> 0" and "sat_add a b = 0"
  then have "unat (sat_add a b) = 0" by simp
  moreover have "0 < unat b" using b by (simp add: unat_gt_0)
  moreover have "(1::nat) < 2 ^ LENGTH('a)" by (rule one_less_exp_len)
  ultimately show False by (simp add: unat_sat_add min_def split: if_splits)
qed

lemma unat_gt_1: "w \<noteq> 0 \<Longrightarrow> w \<noteq> 1 \<Longrightarrow> 1 < unat w" for w :: "'a::len word"
proof -
  assume "w \<noteq> 0" "w \<noteq> 1"
  then have "unat w \<noteq> unat (0 :: 'a word)" "unat w \<noteq> unat (1 :: 'a word)"
    by (simp_all add: word_eq_iff_unsigned [symmetric] del: unsigned_0 unsigned_1)
  then show ?thesis by simp
qed

section \<open>Map containers\<close>

text \<open>
  The interface the program uses of its maps: look a key up, bind a key, drop a key. The
  clients' lemmas about runs of insertions are proved once, from the laws.
\<close>

locale map_container =
  fixes get :: "'m \<Rightarrow> 'k \<Rightarrow> 'v option"
    and put :: "'k \<Rightarrow> 'v \<Rightarrow> 'm \<Rightarrow> 'm"
    and del :: "'k \<Rightarrow> 'm \<Rightarrow> 'm"
    and wf :: "'m \<Rightarrow> bool"
  assumes get_put: "wf m \<Longrightarrow> get (put k v m) k' = (if k' = k then Some v else get m k')"
    and get_del: "wf m \<Longrightarrow> get (del k m) k' = (if k' = k then None else get m k')"
    and wf_put: "wf m \<Longrightarrow> wf (put k v m)"
    and wf_del: "wf m \<Longrightarrow> wf (del k m)"
begin

lemma wf_put_all: "wf m \<Longrightarrow> wf (fold (\<lambda>(k, v). put k v) kvs m)"
  by (induction kvs arbitrary: m) (auto simp: wf_put)

lemma get_put_all_notin:
  "wf m \<Longrightarrow> k \<notin> fst ` set kvs \<Longrightarrow> get (fold (\<lambda>(k, v). put k v) kvs m) k = get m k"
  by (induction kvs arbitrary: m) (auto simp: wf_put get_put image_iff)

lemma get_put_all:
  "wf m \<Longrightarrow> distinct (map fst kvs) \<Longrightarrow>
    get (fold (\<lambda>(k, v). put k v) kvs m) k =
      (case map_of kvs k of Some v \<Rightarrow> Some v | None \<Rightarrow> get m k)"
proof (induction kvs arbitrary: m)
  case Nil
  then show ?case by simp
next
  case (Cons kv kvs)
  obtain k' v' where kv: "kv = (k', v')" by (cases kv)
  have wf: "wf (put k' v' m)" using Cons.prems(1) by (rule wf_put)
  show ?case
  proof (cases "k = k'")
    case True
    then have "k \<notin> fst ` set kvs" using Cons.prems(2) kv by simp
    then show ?thesis using True kv wf Cons.prems(1) by (simp add: get_put_all_notin get_put)
  next
    case False
    then show ?thesis using Cons.IH [OF wf] Cons.prems kv
      by (simp add: get_put split: option.splits)
  qed
qed

text \<open>The last entry of a key wins.\<close>

lemma get_put_seq:
  "wf m \<Longrightarrow>
    get (fold (\<lambda>(k, v). put k v) kvs m) k =
      (case map_of (rev kvs) k of Some v \<Rightarrow> Some v | None \<Rightarrow> get m k)"
proof (induction kvs arbitrary: m)
  case Nil
  then show ?case by simp
next
  case (Cons kv kvs)
  obtain k' v' where kv: "kv = (k', v')" by (cases kv)
  have wf: "wf (put k' v' m)" using Cons.prems by (rule wf_put)
  show ?case using Cons.IH [OF wf] Cons.prems kv
    by (auto simp: get_put map_add_def split: option.splits)
qed

lemma get_del_put: "wf m \<Longrightarrow> get (del k (put k v m)) k' = get (del k m) k'"
  by (simp add: get_put get_del wf_put)

end

subsection \<open>The sorted map: \<open>BTreeMap\<close>\<close>

fun bt_put :: "'k::linorder \<Rightarrow> 'v \<Rightarrow> ('k \<times> 'v) list \<Rightarrow> ('k \<times> 'v) list" where
  "bt_put k v [] = [(k, v)]"
| "bt_put k v ((k', v') # m) =
     (if k < k' then (k, v) # (k', v') # m
      else if k = k' then (k, v) # m
      else (k', v') # bt_put k v m)"

definition bt_del :: "'k::linorder \<Rightarrow> ('k \<times> 'v) list \<Rightarrow> ('k \<times> 'v) list" where
  "bt_del k m = filter (\<lambda>kv. fst kv \<noteq> k) m"

definition bt_wf :: "('k::linorder \<times> 'v) list \<Rightarrow> bool" where
  "bt_wf m \<longleftrightarrow> sorted (map fst m) \<and> distinct (map fst m)"

lemma bt_wf_Nil [simp]: "bt_wf []"
  by (simp add: bt_wf_def)

lemma map_of_bt_put: "map_of (bt_put k v m) k' = (if k' = k then Some v else map_of m k')"
  by (induction m) auto

lemma keys_bt_put: "fst ` set (bt_put k v m) = insert k (fst ` set m)"
  by (simp add: dom_map_of_conv_image_fst [symmetric] map_of_bt_put dom_def set_eq_iff)

lemma bt_wf_bt_put: "bt_wf m \<Longrightarrow> bt_wf (bt_put k v m)"
proof (induction m)
  case Nil
  then show ?case by (simp add: bt_wf_def)
next
  case (Cons kv m)
  obtain k' v' where kv: "kv = (k', v')" by (cases kv)
  have IH: "bt_wf (bt_put k v m)" using Cons by (auto simp: bt_wf_def)
  have keys: "set (map fst (bt_put k v m)) = insert k (set (map fst m))"
    using keys_bt_put [of k v m] by simp
  show ?case using Cons.prems kv IH keys
    by (auto simp: bt_wf_def simp del: set_map)
qed

lemma map_of_bt_del: "map_of (bt_del k m) k' = (if k' = k then None else map_of m k')"
  unfolding bt_del_def by (induction m) auto

lemma bt_wf_bt_del: "bt_wf m \<Longrightarrow> bt_wf (bt_del k m)"
  by (simp add: bt_wf_def bt_del_def sorted_filter distinct_map_filter)

interpretation btree: map_container map_of bt_put bt_del bt_wf
  by unfold_locales (simp_all add: map_of_bt_put map_of_bt_del bt_wf_bt_put bt_wf_bt_del)

subsection \<open>The unordered map: \<open>HashMap\<close> and \<open>DashMap\<close>\<close>

text \<open>
  An unordered map is a list of pairs with distinct keys. The position of a pair stands for
  the iteration order, which the program does not control: results that depend on the order
  are stated for every such list.
\<close>

type_synonym ('k, 'v) hash_map = "('k \<times> 'v) list"

definition hm_wf :: "('k, 'v) hash_map \<Rightarrow> bool" where
  "hm_wf m \<longleftrightarrow> distinct (map fst m)"

definition hm_remove :: "'k \<Rightarrow> ('k, 'v) hash_map \<Rightarrow> ('k, 'v) hash_map" where
  "hm_remove k m = AList.delete k m"

definition hm_insert :: "'k \<Rightarrow> 'v \<Rightarrow> ('k, 'v) hash_map \<Rightarrow> ('k, 'v) hash_map" where
  "hm_insert k v m = AList.update k v m"

definition hm_contains :: "('k, 'v) hash_map \<Rightarrow> 'k \<Rightarrow> bool" where
  "hm_contains m k \<longleftrightarrow> map_of m k \<noteq> None"

lemma hm_wf_Nil [simp]: "hm_wf []"
  by (simp add: hm_wf_def)

lemma hm_contains_iff: "hm_contains m k \<longleftrightarrow> k \<in> fst ` set m"
  by (simp add: hm_contains_def map_of_eq_None_iff)

lemma map_of_hm_insert [simp]: "map_of (hm_insert k v m) = (map_of m)(k \<mapsto> v)"
  by (simp add: hm_insert_def update_conv')

lemma map_of_hm_remove [simp]: "map_of (hm_remove k m) = (map_of m)(k := None)"
  by (simp add: hm_remove_def delete_conv')

lemma hm_wf_hm_insert [simp]: "hm_wf m \<Longrightarrow> hm_wf (hm_insert k v m)"
  by (simp add: hm_wf_def hm_insert_def distinct_update)

lemma hm_wf_hm_remove [simp]: "hm_wf m \<Longrightarrow> hm_wf (hm_remove k m)"
  by (simp add: hm_wf_def hm_remove_def distinct_delete)

interpretation hmap: map_container map_of hm_insert hm_remove hm_wf
  by unfold_locales simp_all

lemma length_hm_insert_new: "map_of m k = None \<Longrightarrow> length (hm_insert k v m) = Suc (length m)"
  unfolding hm_insert_def by (induction m) (auto split: if_splits)

lemma length_hm_insert_old: "map_of m k \<noteq> None \<Longrightarrow> length (hm_insert k v m) = length m"
  unfolding hm_insert_def by (induction m) (auto split: if_splits)

lemma length_hm_remove_le: "length (hm_remove k m) \<le> length m"
  unfolding hm_remove_def by (simp add: length_delete_le)

lemma keys_hm_insert: "fst ` set (hm_insert k v m) = insert k (fst ` set m)"
  unfolding hm_insert_def by (simp add: dom_update)

end
