(* ===== verification/Engine_Error.thy ===== *)
theory Engine_Error
  imports Prelude
begin

text \<open>
  \<open>crates/core/src/error.rs\<close> and the enumerations of \<open>crates/core/src/pin.rs\<close> its variants
  carry: every fallible operation of the engine returns an \<open>engine_error\<close> or a value.
\<close>

datatype pin_direction = Input | Output

datatype pin_kind = Exec | Data | Reactive

datatype engine_error =
    InvalidGraph msg
  | GraphDeserialization msg
  | StageExecution string uuid msg
  | StageTimeout string uuid nat
  | StagePanicked string uuid
  | ChannelClosed string
  | NodeConfig string msg
  | UnsupportedNodeType string
  | ScriptCompile string msg
  | ScriptRuntime string msg
  | PayloadConversion string msg
  | ConnectionAlreadyExists string
  | ConnectionNotFound string
  | ConnectionBusy string
  | ConnectionInvalidConfiguration string msg
  | ConnectionRateLimited string u64
  | ConnectionCircuitOpen string u64 msg
  | WorkflowUnavailable
  | DataNotFound uuid
  | DataStoreCapacityExceeded usize
  | AiNodeError string msg
  | IncompatiblePinTypes string string msg msg
  | IncompatiblePinKinds string string pin_kind pin_kind
  | UnknownPin string string pin_direction
  | DuplicatePinId string string pin_direction
  | UnknownVariable string
  | VariableTypeMismatch string string string
  | VariableInitialMismatch string string string
  | DataPinUpstreamMissing string string
  | DataPinCacheEmpty string string
  | DataPinPullTimeout string string u64
  | ReservedPinId string string msg

type_synonym 'a result = "engine_error + 'a"

end
