(* ===== verification/Json.thy ===== *)
theory Json
  imports Engine_Error
begin

text \<open>
  The dynamic values of the program, \<open>serde_json::Value\<close>. Its six variants and the
  accessors the program calls are modelled from their documented meaning: a number is an
  unsigned or negative 64-bit integer or a finite float, compared by its value; an object
  is a \<open>BTreeMap\<close>, a list of pairs sorted by key (\<open>json_wf\<close>).
\<close>

datatype json_number = PosInt u64 | NegInt "64 word" | Float rat

datatype json =
    JNull
  | JBool bool
  | JNumber json_number
  | JString string
  | JArray "json list"
  | JObject "(string \<times> json) list"

type_synonym json_map = "(string \<times> json) list"

fun is_i64 :: "json_number \<Rightarrow> bool" where
  "is_i64 (PosInt n) = (unat n < 2 ^ 63)"
| "is_i64 (NegInt n) = True"
| "is_i64 (Float f) = False"

fun is_u64 :: "json_number \<Rightarrow> bool" where
  "is_u64 (PosInt n) = True"
| "is_u64 _ = False"

fun as_u64 :: "json \<Rightarrow> u64 option" where
  "as_u64 (JNumber (PosInt n)) = Some n"
| "as_u64 _ = None"

fun as_str :: "json \<Rightarrow> string option" where
  "as_str (JString s) = Some s"
| "as_str _ = None"

fun as_object :: "json \<Rightarrow> json_map option" where
  "as_object (JObject m) = Some m"
| "as_object _ = None"

text \<open>\<open>Value::get\<close> with a string index: the member of an object, \<open>None\<close> elsewhere.\<close>

fun json_get :: "json \<Rightarrow> string \<Rightarrow> json option" where
  "json_get (JObject m) k = map_of m k"
| "json_get _ k = None"

text \<open>The invariant every value built by the program has: objects are sorted by key.\<close>

fun json_wf :: "json \<Rightarrow> bool" where
  "json_wf (JArray vs) = (\<forall>v\<in>set vs. json_wf v)"
| "json_wf (JObject m) = (bt_wf m \<and> (\<forall>kv\<in>set m. json_wf (snd kv)))"
| "json_wf _ = True"

lemmas [json_simps] = is_i64.simps is_u64.simps as_u64.simps as_str.simps as_object.simps json_get.simps

lemma as_u64_Some: "as_u64 v = Some n \<longleftrightarrow> v = JNumber (PosInt n)"
  by (cases v rule: as_u64.cases) auto

lemma as_str_Some: "as_str v = Some s \<longleftrightarrow> v = JString s"
  by (cases v) auto

lemma json_get_Some: "json_get v k = Some x \<longleftrightarrow> (\<exists>m. v = JObject m \<and> map_of m k = Some x)"
  by (cases v) auto

lemma json_wf_put:
  "json_wf (JObject m) \<Longrightarrow> json_wf v \<Longrightarrow> json_wf (JObject (bt_put k v m))"
proof -
  assume m: "json_wf (JObject m)" and v: "json_wf v"
  have "set (bt_put k v m) \<subseteq> insert (k, v) (set m)"
    by (induction m) (auto split: if_splits)
  with m v show ?thesis by (auto simp: bt_wf_bt_put)
qed

lemma json_wf_put_all:
  "json_wf (JObject m) \<Longrightarrow> \<forall>kv\<in>set kvs. json_wf (snd kv) \<Longrightarrow>
    json_wf (JObject (fold (\<lambda>(k, v). bt_put k v) kvs m))"
proof (induction kvs arbitrary: m)
  case Nil
  then show ?case by simp
next
  case (Cons kv kvs)
  obtain k v where kv: "kv = (k, v)" by (cases kv)
  have "json_wf (JObject (bt_put k v m))" using Cons.prems kv by (intro json_wf_put) auto
  then show ?case using Cons kv by simp
qed

end
