(* ===== verification/Channels.thy ===== *)
theory Channels
  imports Json
begin

text \<open>
  The two channels of the runtime, by their documented behaviour: a bounded queue
  (\<open>tokio::sync::mpsc\<close>) whose \<open>try_send\<close> fails when the queue is full or closed, and a
  latest-value cell (\<open>tokio::sync::watch\<close>) with a version that receivers compare with the
  version they have seen. A blocking \<open>send\<close> of the bounded queue succeeds exactly when the
  receiver still exists: waiting for room is not a step of the model, so an accepted message is
  appended even to a full queue (it arrives when the consumer has made room).
\<close>

section \<open>Bounded queues\<close>

record 'a chan =
  queue :: "'a list"
  max_capacity :: nat
  closed :: bool

datatype try_send_error = Full | Closed

definition chan_new :: "nat \<Rightarrow> 'a chan" where
  "chan_new c = \<lparr>queue = [], max_capacity = c, closed = False\<rparr>"

definition try_send :: "'a chan \<Rightarrow> 'a \<Rightarrow> try_send_error option \<times> 'a chan" where
  "try_send c x =
     (if closed c then (Some Closed, c)
      else if length (queue c) \<ge> max_capacity c then (Some Full, c)
      else (None, c\<lparr>queue := queue c @ [x]\<rparr>))"

definition send :: "'a chan \<Rightarrow> 'a \<Rightarrow> bool \<times> 'a chan" where
  "send c x = (if closed c then (False, c) else (True, c\<lparr>queue := queue c @ [x]\<rparr>))"

definition recv :: "'a chan \<Rightarrow> ('a \<times> 'a chan) option" where
  "recv c = (case queue c of [] \<Rightarrow> None | x # xs \<Rightarrow> Some (x, c\<lparr>queue := xs\<rparr>))"

lemma try_send_bounded:
  "length (queue c) \<le> max_capacity c \<Longrightarrow> try_send c x = (r, c') \<Longrightarrow>
    length (queue c') \<le> max_capacity c'"
  by (auto simp: try_send_def split: if_splits)

lemma try_send_queue:
  "try_send c x = (r, c') \<Longrightarrow> queue c' = (if r = None then queue c @ [x] else queue c)"
  by (auto simp: try_send_def split: if_splits)

text \<open>Emitting an event never blocks and never fails: a full or closed queue drops it.\<close>

definition emit_event :: "'a chan \<Rightarrow> 'a \<Rightarrow> 'a chan" where
  "emit_event c e = snd (try_send c e)"

lemma emit_event_queue:
  "queue (emit_event c e) = queue c \<or> queue (emit_event c e) = queue c @ [e]"
  by (auto simp: emit_event_def try_send_def)

lemma emit_event_room:
  "\<not> closed c \<Longrightarrow> length (queue c) < max_capacity c \<Longrightarrow> queue (emit_event c e) = queue c @ [e]"
  by (simp add: emit_event_def try_send_def)

lemma emit_event_fixed [simp]:
  "max_capacity (emit_event c e) = max_capacity c"
  "closed (emit_event c e) = closed c"
  by (auto simp: emit_event_def try_send_def)

section \<open>Latest-value cells\<close>

record 'a watch =
  wval :: 'a
  wversion :: nat
  wreceivers :: nat

definition watch_new :: "'a \<Rightarrow> 'a watch" where
  "watch_new v = \<lparr>wval = v, wversion = 0, wreceivers = 1\<rparr>"

text \<open>\<open>Sender::send\<close> fails, and keeps the old value, when every receiver is gone.\<close>

definition watch_send :: "'a watch \<Rightarrow> 'a \<Rightarrow> 'a watch" where
  "watch_send w v = (if wreceivers w = 0 then w else w\<lparr>wval := v, wversion := Suc (wversion w)\<rparr>)"

text \<open>\<open>Sender::subscribe\<close>: the new receiver has seen the current version.\<close>

definition watch_subscribe :: "'a watch \<Rightarrow> nat \<times> 'a watch" where
  "watch_subscribe w = (wversion w, w\<lparr>wreceivers := Suc (wreceivers w)\<rparr>)"

text \<open>\<open>Receiver::changed\<close> returns at once when the receiver has not seen the current version.\<close>

definition watch_pending :: "'a watch \<Rightarrow> nat \<Rightarrow> bool" where
  "watch_pending w seen \<longleftrightarrow> wversion w \<noteq> seen"

lemma watch_send_live [simp]:
  "wreceivers w \<noteq> 0 \<Longrightarrow> wval (watch_send w v) = v"
  "wreceivers w \<noteq> 0 \<Longrightarrow> wversion (watch_send w v) = Suc (wversion w)"
  "wreceivers (watch_send w v) = wreceivers w"
  by (simp_all add: watch_send_def)

end
