(* ===== verification/Pin.thy ===== *)
theory Pin
  imports Json
begin

text \<open>
  \<open>crates/core/src/pin.rs\<close>, \<open>crates/core/src/variables/value.rs\<close> and \<open>is_pure_form\<close> of
  \<open>crates/core/src/node.rs\<close>: the typed ports of a node, the two compatibility matrices checked
  when a workflow is deployed, and the run-time check of a value against a port type.
\<close>

section \<open>Port kinds\<close>

fun kind_compatible :: "pin_kind \<Rightarrow> pin_kind \<Rightarrow> bool" where
  "kind_compatible Exec Exec = True"
| "kind_compatible Data Data = True"
| "kind_compatible Reactive Reactive = True"
| "kind_compatible Reactive Exec = True"
| "kind_compatible Reactive Data = True"
| "kind_compatible Exec Reactive = False"
| "kind_compatible Data Reactive = False"
| "kind_compatible Exec Data = False"
| "kind_compatible Data Exec = False"

text \<open>
  What the documentation of the matrix promises: a kind is a set of mechanisms (wake the
  consumer with a message, keep the latest value in a cache slot).
\<close>

datatype facet = Pushes | Caches

fun kind_facets :: "pin_kind \<Rightarrow> facet set" where
  "kind_facets Exec = {Pushes}"
| "kind_facets Data = {Caches}"
| "kind_facets Reactive = {Pushes, Caches}"

section \<open>Port types\<close>

datatype pin_type =
    TAny
  | TBool
  | TInteger
  | TFloat
  | TString
  | TJson
  | TBinary
  | TArray pin_type
  | TCustom string

fun type_compatible :: "pin_type \<Rightarrow> pin_type \<Rightarrow> bool" where
  "type_compatible TAny _ = True"
| "type_compatible _ TAny = True"
| "type_compatible TBool TBool = True"
| "type_compatible TInteger TInteger = True"
| "type_compatible TFloat TFloat = True"
| "type_compatible TString TString = True"
| "type_compatible TJson TJson = True"
| "type_compatible TBinary TBinary = True"
| "type_compatible (TArray a) (TArray b) = type_compatible a b"
| "type_compatible (TCustom a) (TCustom b) = (a = b)"
| "type_compatible _ _ = False"

text \<open>The label of a type in error messages.\<close>

fun type_label :: "pin_type \<Rightarrow> string" where
  "type_label TAny = ''any''"
| "type_label TBool = ''bool''"
| "type_label TInteger = ''integer''"
| "type_label TFloat = ''float''"
| "type_label TString = ''string''"
| "type_label TJson = ''json''"
| "type_label TBinary = ''binary''"
| "type_label (TArray _) = ''array''"
| "type_label (TCustom _) = ''custom''"

text \<open>
  The specification of type compatibility: \<open>TAny\<close> is a hole, and two types are compatible
  when some type fills the holes of both.
\<close>

inductive fills :: "pin_type \<Rightarrow> pin_type \<Rightarrow> bool" where
  fills_any: "fills t TAny"
| fills_refl: "fills t t"
| fills_array: "fills a b \<Longrightarrow> fills (TArray a) (TArray b)"

inductive_cases fills_TBoolE: "fills t TBool"
inductive_cases fills_TArrayE: "fills t (TArray a)"
inductive_simps fills_scalar:
  "fills t TBool" "fills t TInteger" "fills t TFloat" "fills t TString" "fills t TJson"
  "fills t TBinary" "fills t (TCustom c)"
inductive_simps fills_TArray: "fills t (TArray a)"

lemma type_compatible_TAny [simp]: "type_compatible t TAny"
  by (cases t) simp_all

lemma type_compatible_refl [simp]: "type_compatible t t"
  by (induction t) simp_all

lemma type_compatible_sym: "type_compatible a b = type_compatible b a"
  by (induction a b rule: type_compatible.induct) auto

lemma fills_common: "type_compatible a b \<Longrightarrow> \<exists>t. fills t a \<and> fills t b"
  by (induction a b rule: type_compatible.induct) (auto intro: fills.intros)

lemma fills_compatible: "fills t a \<Longrightarrow> fills t b \<Longrightarrow> type_compatible a b"
proof (induction t a arbitrary: b rule: fills.induct)
  case (fills_any t)
  show ?case by simp
next
  case (fills_refl t)
  from fills_refl show ?case by (induction rule: fills.induct) simp_all
next
  case (fills_array x y)
  from fills_array.prems show ?case
    by (cases rule: fills.cases) (auto intro: fills_array.IH fills_refl)
qed

section \<open>Port definitions\<close>

datatype empty_policy = BlockUntilReady | DefaultValue json | Skip

definition DEFAULT_BLOCK_TIMEOUT_MS :: u64 where
  "DEFAULT_BLOCK_TIMEOUT_MS = 5000"

record pin_definition =
  pin_id :: string
  pin_label :: string
  pin_ty :: pin_type
  pin_dir :: pin_direction
  pin_required :: bool
  pin_kind_of :: pin_kind
  pin_description :: "string option"
  pin_empty_policy :: empty_policy
  pin_block_timeout_ms :: "u64 option"
  pin_ttl_ms :: "u64 option"

definition default_input :: pin_definition where
  "default_input = \<lparr>pin_id = ''in'', pin_label = ''in'', pin_ty = TAny, pin_dir = Input,
     pin_required = True, pin_kind_of = Exec, pin_description = None,
     pin_empty_policy = BlockUntilReady, pin_block_timeout_ms = None, pin_ttl_ms = None\<rparr>"

definition default_output :: pin_definition where
  "default_output = \<lparr>pin_id = ''out'', pin_label = ''out'', pin_ty = TAny, pin_dir = Output,
     pin_required = False, pin_kind_of = Exec, pin_description = None,
     pin_empty_policy = BlockUntilReady, pin_block_timeout_ms = None, pin_ttl_ms = None\<rparr>"

definition required_input :: "pin_type \<Rightarrow> string \<Rightarrow> pin_definition" where
  "required_input t d = \<lparr>pin_id = ''in'', pin_label = ''in'', pin_ty = t, pin_dir = Input,
     pin_required = True, pin_kind_of = Exec, pin_description = Some d,
     pin_empty_policy = BlockUntilReady, pin_block_timeout_ms = None, pin_ttl_ms = None\<rparr>"

definition output_pin :: "pin_type \<Rightarrow> string \<Rightarrow> pin_definition" where
  "output_pin t d = \<lparr>pin_id = ''out'', pin_label = ''out'', pin_ty = t, pin_dir = Output,
     pin_required = False, pin_kind_of = Exec, pin_description = Some d,
     pin_empty_policy = BlockUntilReady, pin_block_timeout_ms = None, pin_ttl_ms = None\<rparr>"

definition output_named_data ::
    "string \<Rightarrow> string \<Rightarrow> pin_type \<Rightarrow> string \<Rightarrow> pin_definition" where
  "output_named_data i l t d = \<lparr>pin_id = i, pin_label = l, pin_ty = t, pin_dir = Output,
     pin_required = False, pin_kind_of = Data, pin_description = Some d,
     pin_empty_policy = BlockUntilReady, pin_block_timeout_ms = None, pin_ttl_ms = None\<rparr>"

text \<open>
  A node is pure-form when no port takes part in the trigger chain: it is evaluated on
  demand by the consumers of its data ports.
\<close>

definition is_pure_form :: "pin_definition list \<Rightarrow> pin_definition list \<Rightarrow> bool" where
  "is_pure_form inputs outputs =
     (let no_exec_input = list_all (\<lambda>p. pin_kind_of p \<noteq> Exec \<and> pin_kind_of p \<noteq> Reactive) inputs;
          no_exec_output = list_all (\<lambda>p. pin_kind_of p \<noteq> Exec \<and> pin_kind_of p \<noteq> Reactive) outputs
      in no_exec_input \<and> no_exec_output)"

lemma is_pure_form_iff:
  "is_pure_form ins outs \<longleftrightarrow> (\<forall>p\<in>set ins \<union> set outs. pin_kind_of p = Data)"
proof -
  have "k \<noteq> Exec \<and> k \<noteq> Reactive \<longleftrightarrow> k = Data" for k by (cases k) simp_all
  then show ?thesis by (auto simp: is_pure_form_def Let_def list_all_iff)
qed

section \<open>Values against types\<close>

fun pin_type_matches_value :: "pin_type \<Rightarrow> json \<Rightarrow> bool" where
  "pin_type_matches_value TAny _ = True"
| "pin_type_matches_value TBool (JBool _) = True"
| "pin_type_matches_value TFloat (JNumber _) = True"
| "pin_type_matches_value TString (JString _) = True"
| "pin_type_matches_value TBinary (JString _) = True"
| "pin_type_matches_value TJson (JObject _) = True"
| "pin_type_matches_value TJson (JArray _) = True"
| "pin_type_matches_value TInteger (JNumber n) = (is_i64 n \<or> is_u64 n)"
| "pin_type_matches_value TBinary (JArray vs) =
     list_all (\<lambda>v. case as_u64 v of Some n \<Rightarrow> unat n < 2 ^ 8 | None \<Rightarrow> False) vs"
| "pin_type_matches_value (TArray inner) (JArray vs) =
     list_all (\<lambda>v. pin_type_matches_value inner v) vs"
| "pin_type_matches_value _ _ = False"

fun json_value_label :: "json \<Rightarrow> string" where
  "json_value_label JNull = ''null''"
| "json_value_label (JBool _) = ''bool''"
| "json_value_label (JNumber n) = (if is_i64 n \<or> is_u64 n then ''integer'' else ''float'')"
| "json_value_label (JString _) = ''string''"
| "json_value_label (JArray _) = ''array''"
| "json_value_label (JObject _) = ''object''"

lemma integer_matches_iff:
  "pin_type_matches_value TInteger v \<longleftrightarrow> (\<exists>n. v = JNumber n \<and> (\<forall>f. n \<noteq> Float f))"
proof (cases v)
  case (JNumber n)
  then show ?thesis by (cases n) auto
qed auto

lemma custom_matches_nothing: "\<not> pin_type_matches_value (TCustom c) v"
  by (cases v) simp_all

lemma array_matches_iff:
  "pin_type_matches_value (TArray t) v \<longleftrightarrow>
    (\<exists>vs. v = JArray vs \<and> (\<forall>x\<in>set vs. pin_type_matches_value t x))"
  by (cases v) (auto simp: list_all_iff)

lemma matches_fills:
  "fills t a \<Longrightarrow> pin_type_matches_value t v \<Longrightarrow> pin_type_matches_value a v"
  by (induction t a arbitrary: v rule: fills.induct) (auto simp: array_matches_iff)

text \<open>The kind matrix is the inclusion of the mechanisms a consumer needs.\<close>

theorem kind_compatible_iff_facets:
  "kind_compatible a b \<longleftrightarrow> kind_facets b \<subseteq> kind_facets a"
  by (cases a; cases b) auto

text \<open>Type compatibility is unifiability.\<close>

theorem type_compatible_iff_common_instance:
  "type_compatible a b \<longleftrightarrow> (\<exists>t. fills t a \<and> fills t b)"
  using fills_common fills_compatible by blast

end
