(* ===== verification/Output_Cache.thy ===== *)
theory Output_Cache
  imports Channels Pin
begin

text \<open>
  \<open>crates/core/src/cache.rs\<close>: one latest-value slot for each \<open>Data\<close> or \<open>Reactive\<close> output port of
  a node. Times are nanoseconds of the wall clock; the clock is an argument of what reads it.
\<close>

type_synonym time = int

definition num_milliseconds :: "int \<Rightarrow> int" where
  "num_milliseconds d = sgn d * (\<bar>d\<bar> div 1000000)"

definition age_ms :: "time \<Rightarrow> time \<Rightarrow> nat" where
  "age_ms now t = nat \<bar>num_milliseconds (now - t)\<bar>"

record cached_output =
  co_value :: json
  produced_at :: time
  co_trace :: uuid

text \<open>A slot keeps a sender and the first receiver, which never looks at the cell.\<close>

record slot =
  slot_cell :: "cached_output option watch"
  slot_rx_seen :: nat

type_synonym output_cache = "(string, slot) hash_map"

definition slot_new :: slot where
  "slot_new = \<lparr>slot_cell = watch_new None, slot_rx_seen = 0\<rparr>"

definition prepare_slot :: "output_cache \<Rightarrow> string \<Rightarrow> output_cache" where
  "prepare_slot c p = (if \<not> hm_contains c p then hm_insert p slot_new c else c)"

definition cache_write :: "output_cache \<Rightarrow> string \<Rightarrow> cached_output \<Rightarrow> bool \<times> output_cache" where
  "cache_write c p out =
     (case map_of c p of
        Some s \<Rightarrow>
          (let changed = (case wval (slot_cell s) of None \<Rightarrow> True | Some old \<Rightarrow> co_value old \<noteq> co_value out)
           in (changed, hm_insert p (s\<lparr>slot_cell := watch_send (slot_cell s) (Some out)\<rparr>) c))
      | None \<Rightarrow> (False, c))"

definition cache_write_now ::
    "time \<Rightarrow> output_cache \<Rightarrow> string \<Rightarrow> json \<Rightarrow> uuid \<Rightarrow> bool \<times> output_cache" where
  "cache_write_now now c p v t =
     cache_write c p \<lparr>co_value = v, produced_at = now, co_trace = t\<rparr>"

definition expired :: "time \<Rightarrow> u64 option \<Rightarrow> cached_output \<Rightarrow> bool" where
  "expired now ttl c = (case ttl of None \<Rightarrow> False | Some t \<Rightarrow> age_ms now (produced_at c) > unat t)"

definition cache_read :: "time \<Rightarrow> output_cache \<Rightarrow> string \<Rightarrow> u64 option \<Rightarrow> cached_output option" where
  "cache_read now c p ttl =
     (case map_of c p of
        None \<Rightarrow> None
      | Some s \<Rightarrow>
          (case wval (slot_cell s) of
             None \<Rightarrow> None
           | Some cached \<Rightarrow> if expired now ttl cached then None else Some cached))"

text \<open>\<open>subscribe\<close> clones the slot's receiver, with the version that receiver has seen.\<close>

definition cache_subscribe :: "output_cache \<Rightarrow> string \<Rightarrow> (slot \<times> nat) option" where
  "cache_subscribe c p = map_option (\<lambda>s. (s, slot_rx_seen s)) (map_of c p)"

definition slot_ids :: "output_cache \<Rightarrow> string list" where
  "slot_ids c = map fst c"

text \<open>Every slot keeps a live receiver, and a value appears with the first write.\<close>

definition cache_inv :: "output_cache \<Rightarrow> bool" where
  "cache_inv c \<longleftrightarrow> hm_wf c \<and>
     (\<forall>p s. map_of c p = Some s \<longrightarrow> wreceivers (slot_cell s) \<noteq> 0 \<and> slot_rx_seen s = 0 \<and>
        (wval (slot_cell s) = None \<longleftrightarrow> wversion (slot_cell s) = 0))"

lemma cache_inv_Nil [simp]: "cache_inv []"
  by (simp add: cache_inv_def)

lemma cache_inv_prepare: "cache_inv c \<Longrightarrow> cache_inv (prepare_slot c p)"
  by (auto simp: cache_inv_def prepare_slot_def slot_new_def watch_new_def)

lemma cache_inv_write: "cache_inv c \<Longrightarrow> cache_inv (snd (cache_write c p v))"
  by (auto simp: cache_inv_def cache_write_def Let_def split: option.splits)

lemma prepare_slot_idem: "prepare_slot (prepare_slot c p) p = prepare_slot c p"
  by (simp add: prepare_slot_def hm_contains_def)

lemma prepare_slot_keeps:
  "map_of c q = Some s \<Longrightarrow> map_of (prepare_slot c p) q = Some s"
  by (auto simp: prepare_slot_def hm_contains_def)

lemma slot_ids_iff: "p \<in> set (slot_ids c) \<longleftrightarrow> (\<exists>s. map_of c p = Some s)"
  using map_of_eq_None_iff [of c p] by (auto simp: slot_ids_def)

lemma slot_ids_prepare: "set (slot_ids (prepare_slot c p)) = insert p (set (slot_ids c))"
  by (auto simp: slot_ids_iff set_eq_iff prepare_slot_def hm_contains_def)

lemma cache_read_write_same:
  "cache_inv c \<Longrightarrow> p \<in> set (slot_ids c) \<Longrightarrow>
    cache_read now (snd (cache_write c p out)) p ttl = (if expired now ttl out then None else Some out)"
  by (auto simp: cache_write_def cache_read_def cache_inv_def slot_ids_iff Let_def)

lemma cache_read_write_other:
  "p \<noteq> q \<Longrightarrow> cache_read now (snd (cache_write c p out)) q ttl = cache_read now c q ttl"
  by (auto simp: cache_write_def cache_read_def Let_def split: option.splits)

lemma cache_write_missing:
  "p \<notin> set (slot_ids c) \<Longrightarrow> cache_write c p out = (False, c)"
  by (cases "map_of c p") (simp_all add: cache_write_def slot_ids_iff)

lemma cache_read_ttl_None: "cache_read now c p (Some t) = Some v \<Longrightarrow> cache_read now' c p None = Some v"
  by (auto simp: cache_read_def expired_def split: option.splits if_splits)

end
