(* ===== verification/Node.thy ===== *)
theory Node
  imports Pin
begin

text \<open>
  \<open>crates/core/src/node.rs\<close> and \<open>crates/core/src/plugin.rs\<close>: the metadata of a node, what one
  execution of it returns, the definition of a node in a workflow file and the registry of node
  factories. The \<open>transform\<close> method of a node is not here: the operations that call it take it as
  an argument.
\<close>

section \<open>Capabilities\<close>

definition PURE :: u32 where "PURE = 1"
definition NETWORK_IO :: u32 where "NETWORK_IO = 2"
definition FILE_IO :: u32 where "FILE_IO = 4"
definition DEVICE_IO :: u32 where "DEVICE_IO = 8"
definition TRIGGER :: u32 where "TRIGGER = 16"
definition BRANCHING :: u32 where "BRANCHING = 32"
definition MULTI_OUTPUT :: u32 where "MULTI_OUTPUT = 64"
definition BLOCKING :: u32 where "BLOCKING = 128"

definition caps_contains :: "u32 \<Rightarrow> u32 \<Rightarrow> bool" where
  "caps_contains caps flags \<longleftrightarrow> and caps flags = flags"

lemmas capability_defs = PURE_def NETWORK_IO_def FILE_IO_def DEVICE_IO_def TRIGGER_def
  BRANCHING_def MULTI_OUTPUT_def BLOCKING_def

section \<open>Executions\<close>

datatype node_dispatch = Broadcast | Route "string list"

record node_output =
  no_payload :: json
  no_metadata :: "json_map option"
  no_dispatch :: node_dispatch

type_synonym node_execution = "node_output list"

definition broadcast :: "json \<Rightarrow> node_execution" where
  "broadcast payload = [\<lparr>no_payload = payload, no_metadata = None, no_dispatch = Broadcast\<rparr>]"

definition route :: "json \<Rightarrow> string list \<Rightarrow> node_execution" where
  "route payload ports =
     [\<lparr>no_payload = payload, no_metadata = None, no_dispatch = Route ports\<rparr>]"

definition with_metadata :: "json_map option \<Rightarrow> node_execution \<Rightarrow> node_execution" where
  "with_metadata metadata outputs =
     (case metadata of
        None \<Rightarrow> outputs
      | Some m \<Rightarrow> map (\<lambda>out. out\<lparr>no_metadata := Some m\<rparr>) outputs)"

definition into_payload_map :: "json \<Rightarrow> json_map" where
  "into_payload_map payload =
     (case payload of JObject m \<Rightarrow> m | other \<Rightarrow> bt_put ''value'' other [])"

lemma into_payload_map_wf: "json_wf v \<Longrightarrow> json_wf (JObject (into_payload_map v))"
  by (cases v) (simp_all add: into_payload_map_def bt_wf_def)

lemma with_metadata_payloads:
  "map no_payload (with_metadata md outs) = map no_payload outs"
  "map no_dispatch (with_metadata md outs) = map no_dispatch outs"
  by (simp_all add: with_metadata_def comp_def split: option.splits)

section \<open>Node metadata\<close>

text \<open>What the engine asks of a node besides \<open>transform\<close> and \<open>on_deploy\<close>.\<close>

record node_trait =
  nt_id :: string
  nt_kind :: string
  nt_input_pins :: "pin_definition list"
  nt_output_pins :: "pin_definition list"

definition node_is_pure_form :: "node_trait \<Rightarrow> bool" where
  "node_is_pure_form node = is_pure_form (nt_input_pins node) (nt_output_pins node)"

section \<open>Node definitions of a workflow file\<close>

definition default_node_buffer :: usize where
  "default_node_buffer = 32"

record workflow_node_definition =
  wd_id :: string
  wd_node_type :: string
  wd_connection_id :: "string option"
  wd_config :: json
  wd_timeout_ms :: "u64 option"
  wd_buffer :: usize

definition probe :: "string \<Rightarrow> json \<Rightarrow> workflow_node_definition" where
  "probe node_type config =
     \<lparr>wd_id = ''_probe'', wd_node_type = node_type, wd_connection_id = None, wd_config = config,
      wd_timeout_ms = None, wd_buffer = default_node_buffer\<rparr>"

definition normalize ::
    "string \<Rightarrow> string option \<Rightarrow> workflow_node_definition \<Rightarrow> workflow_node_definition" where
  "normalize fallback_id fallback_connection_id d =
     (let d1 = (if wd_id d = [] then d\<lparr>wd_id := fallback_id\<rparr> else d)
      in case (wd_connection_id d1, fallback_connection_id) of
           (None, Some c) \<Rightarrow> d1\<lparr>wd_connection_id := Some c\<rparr>
         | _ \<Rightarrow> d1)"

lemma normalize_keeps:
  "wd_id d \<noteq> [] \<Longrightarrow> wd_id (normalize i c d) = wd_id d"
  "wd_connection_id d = Some x \<Longrightarrow> wd_connection_id (normalize i c d) = Some x"
  "wd_node_type (normalize i c d) = wd_node_type d"
  "wd_config (normalize i c d) = wd_config d"
  by (simp_all add: normalize_def Let_def split: option.splits)

lemma normalize_idem: "normalize i c (normalize i c d) = normalize i c d"
  by (simp add: normalize_def Let_def split: option.splits)

section \<open>The registry of node types\<close>

text \<open>
  A factory builds a node from its definition and the shared resources, or fails. The bundle of
  resources, keyed by Rust type, is opaque to the registry: its type is a parameter.
\<close>

type_synonym 'r factory = "workflow_node_definition \<Rightarrow> 'r \<Rightarrow> node_trait result"

record 'r node_entry =
  ne_factory :: "'r factory"
  ne_capabilities :: u32

type_synonym 'r node_registry = "(string, 'r node_entry) hash_map"

definition register_with_capabilities ::
    "string \<Rightarrow> u32 \<Rightarrow> 'r factory \<Rightarrow> 'r node_registry \<Rightarrow> 'r node_registry" where
  "register_with_capabilities node_type caps f reg =
     hm_insert node_type \<lparr>ne_factory = f, ne_capabilities = caps\<rparr> reg"

definition create ::
    "'r node_registry \<Rightarrow> workflow_node_definition \<Rightarrow> 'r \<Rightarrow> node_trait result" where
  "create reg d res =
     and_then (ok_or (UnsupportedNodeType (wd_node_type d)) (map_of reg (wd_node_type d)))
       (\<lambda>entry. ne_factory entry d res)"

definition registered_types :: "'r node_registry \<Rightarrow> string list" where
  "registered_types reg = map fst reg"

definition capabilities_of :: "'r node_registry \<Rightarrow> string \<Rightarrow> u32 option" where
  "capabilities_of reg node_type = map_option ne_capabilities (map_of reg node_type)"

text \<open>A plugin host registers the entries of its plugins in order: the last one of a type wins.\<close>

type_synonym 'r plugin = "(string \<times> u32 \<times> 'r factory) list"

definition load :: "'r plugin \<Rightarrow> 'r node_registry \<Rightarrow> 'r node_registry" where
  "load plugin reg = fold (\<lambda>(t, caps, f). register_with_capabilities t caps f) plugin reg"

lemma load_as_inserts:
  "load plugin reg =
    fold (\<lambda>(k, v). hm_insert k v)
      (map (\<lambda>(t, caps, f). (t, \<lparr>ne_factory = f, ne_capabilities = caps\<rparr>)) plugin) reg"
  unfolding load_def
  by (induction plugin arbitrary: reg) (auto simp: register_with_capabilities_def)

lemma load_lookup:
  assumes "hm_wf reg"
  shows "map_of (load plugin reg) t =
    (case map_of (rev (map (\<lambda>(t, caps, f). (t, \<lparr>ne_factory = f, ne_capabilities = caps\<rparr>)) plugin)) t of
       Some e \<Rightarrow> Some e
     | None \<Rightarrow> map_of reg t)"
  unfolding load_as_inserts by (rule hmap.get_put_seq [OF assms])

lemma create_after_register:
  "create (register_with_capabilities (wd_node_type d) caps f reg) d res = f d res"
  by (simp add: create_def register_with_capabilities_def)

end
