(* ===== verification/Kahn.thy ===== *)
theory Kahn
  imports Prelude
begin

text \<open>
  Kahn's loop, written twice in the engine (\<open>crates/graph/src/topology/mod.rs\<close> and
  \<open>crates/graph/src/topology/classify.rs\<close>): pop a node, count its out-edges off the in-degrees
  of their targets, push a target whose in-degree reaches zero. The result \<open>None\<close> is the panic
  of \<open>*count -= 1\<close> on a count of zero; the lemmas show that a loop started on the in-degrees of
  a graph never panics, always ends, and consumes every node exactly when the graph is acyclic.
\<close>

section \<open>The loop\<close>

fun relax :: "('a, nat) hash_map \<Rightarrow> 'a list \<Rightarrow> 'a list \<Rightarrow> (('a, nat) hash_map \<times> 'a list) option" where
  "relax inc q [] = Some (inc, q)"
| "relax inc q (t # ts) =
     (case map_of inc t of
        None \<Rightarrow> relax inc q ts
      | Some 0 \<Rightarrow> None
      | Some (Suc k) \<Rightarrow> relax (hm_insert t k inc) (if k = 0 then q @ [t] else q) ts)"

lemma sum_hm_insert:
  "map_of m k = Some v \<Longrightarrow>
    sum_list (map snd (hm_insert k v' m)) + v = sum_list (map snd m) + (v' :: nat)"
  unfolding hm_insert_def by (induction m) (auto split: if_splits)

lemma relax_measure:
  "relax inc q ts = Some (inc', q') \<Longrightarrow>
    sum_list (map snd inc') + length q' \<le> sum_list (map snd inc) + length q"
proof (induction inc q ts rule: relax.induct)
  case (1 inc q)
  then show ?case by simp
next
  case (2 inc q t ts)
  show ?case
  proof (cases "map_of inc t")
    case None
    with 2 show ?thesis by simp
  next
    case (Some c)
    with 2 obtain k where c: "c = Suc k" by (cases c) auto
    with 2 Some sum_hm_insert [of inc t "Suc k" k] show ?thesis by (auto split: if_splits)
  qed
qed

function kahn_loop ::
    "('a \<Rightarrow> 'a list) \<Rightarrow> ('a, nat) hash_map \<Rightarrow> 'a list \<Rightarrow> 'a list \<Rightarrow> 'a list option" where
  "kahn_loop succs inc [] acc = Some acc"
| "kahn_loop succs inc (n # q) acc =
     (case relax inc q (succs n) of
        None \<Rightarrow> None
      | Some (inc', q') \<Rightarrow> kahn_loop succs inc' q' (acc @ [n]))"
  by pat_completeness auto
termination
proof (relation "measure (\<lambda>(succs, inc, q, _). sum_list (map snd inc) + length q)", goal_cases)
  case 1
  show ?case by simp
next
  case (2 succs inc n q acc r inc' q')
  then show ?case using relax_measure [of inc q "succs n" inc' q'] by simp
qed

section \<open>Orders\<close>

text \<open>\<open>u\<close> stands before the occurrences of \<open>v\<close> in a list.\<close>

definition before :: "'a list \<Rightarrow> 'a \<Rightarrow> 'a \<Rightarrow> bool" where
  "before xs u v \<longleftrightarrow> (\<exists>ys zs. xs = ys @ v # zs \<and> u \<in> set ys)"

lemma before_append: "before xs u v \<Longrightarrow> before (xs @ ys) u v"
  unfolding before_def by (metis append.assoc append_Cons)

lemma before_last: "u \<in> set xs \<Longrightarrow> before (xs @ [v]) u v"
  by (auto simp: before_def)

lemma before_set: "before xs u v \<Longrightarrow> u \<in> set xs \<and> v \<in> set xs"
  by (auto simp: before_def)

lemma before_index:
  assumes "distinct xs" and "before xs u v"
  shows "\<exists>i j. i < j \<and> j < length xs \<and> xs ! i = u \<and> xs ! j = v"
proof -
  obtain ys zs where xs: "xs = ys @ v # zs" and u: "u \<in> set ys"
    using assms(2) by (auto simp: before_def)
  then obtain i where "i < length ys" "ys ! i = u" by (auto simp: in_set_conv_nth)
  then show ?thesis using xs
    by (intro exI [of _ i] exI [of _ "length ys"]) (auto simp: nth_append)
qed

text \<open>An order in which every edge goes forward rules cycles out.\<close>

lemma ordered_acyclic:
  assumes "distinct xs" and "\<And>u v. (u, v) \<in> E \<Longrightarrow> before xs u v"
  shows "acyclic E"
proof -
  let ?pos = "\<lambda>v. THE i. i < length xs \<and> xs ! i = v"
  have pos: "?pos (xs ! i) = i" if "i < length xs" for i
    using that assms(1) by (intro the_equality) (auto simp: nth_eq_iff_index_eq)
  have "E \<subseteq> measure ?pos"
  proof
    fix e assume "e \<in> E"
    then obtain u v where e: "e = (u, v)" "(u, v) \<in> E" by (cases e) auto
    from before_index [OF assms(1) assms(2) [OF e(2)]] obtain i j
      where "i < j" "j < length xs" "xs ! i = u" "xs ! j = v" by blast
    then show "e \<in> measure ?pos" using e pos by auto
  qed
  then show ?thesis using wf_measure wf_subset wf_acyclic by metis
qed

text \<open>A finite nonempty set in which every member has a predecessor inside the set has a cycle.\<close>

lemma predecessors_cycle:
  assumes "finite W" and "W \<noteq> {}" and "\<And>v. v \<in> W \<Longrightarrow> \<exists>u\<in>W. (u, v) \<in> E"
  shows "\<not> acyclic E"
proof
  assume "acyclic E"
  then have "wf (E \<inter> W \<times> W)"
    using assms(1) by (intro finite_acyclic_wf) (auto intro: finite_subset acyclic_subset)
  then obtain z where "z \<in> W" "\<And>y. (y, z) \<in> E \<inter> W \<times> W \<Longrightarrow> y \<notin> W"
    using assms(2) by (metis wfE_min equals0I)
  then show False using assms(3) by blast
qed

section \<open>Correctness\<close>

lemma relax_correct:
  "\<lbrakk>\<And>v. v \<in> V \<Longrightarrow> map_of inc v = Some (c v); set ts \<subseteq> V; \<And>v. count_list ts v \<le> c v\<rbrakk> \<Longrightarrow>
    \<exists>inc' q2. relax inc q ts = Some (inc', q @ q2) \<and>
      (\<forall>v\<in>V. map_of inc' v = Some (c v - count_list ts v)) \<and>
      distinct q2 \<and> set q2 = {v \<in> set ts. c v = count_list ts v}"
proof (induction ts arbitrary: inc q c)
  case Nil
  then show ?case by simp
next
  case (Cons t ts)
  have "count_list (t # ts) t \<le> c t" by (rule Cons.prems(3))
  then obtain k where k: "c t = Suc k" "count_list ts t \<le> k" by (cases "c t") auto
  let ?c = "c(t := k)" and ?inc = "hm_insert t k inc" and ?q = "if k = 0 then q @ [t] else q"
  have ct: "count_list ts v \<le> ?c v" for v using k Cons.prems(3) [of v] by auto
  have "\<exists>inc' q2. relax ?inc ?q ts = Some (inc', ?q @ q2) \<and>
      (\<forall>v\<in>V. map_of inc' v = Some (?c v - count_list ts v)) \<and>
      distinct q2 \<and> set q2 = {v \<in> set ts. ?c v = count_list ts v}"
    by (rule Cons.IH) (use Cons.prems ct in auto)
  then obtain inc' q2 where IH: "relax ?inc ?q ts = Some (inc', ?q @ q2)"
      "\<forall>v\<in>V. map_of inc' v = Some (?c v - count_list ts v)"
      "distinct q2" "set q2 = {v \<in> set ts. ?c v = count_list ts v}" by blast
  have r: "relax inc q (t # ts) = Some (inc', ?q @ q2)"
    using IH(1) Cons.prems(1) [of t] Cons.prems(2) k by simp
  have counts: "\<forall>v\<in>V. map_of inc' v = Some (c v - count_list (t # ts) v)"
    using IH(2) k by auto
  show ?case
  proof (cases "k = 0")
    case True
    then have "t \<notin> set ts" using k(2) by (simp add: count_list_0_iff)
    with r counts IH(3,4) True k show ?thesis
      by (intro exI [of _ inc'] exI [of _ "t # q2"]) (auto simp: count_list_0_iff)
  next
    case False
    have "t \<in> set ts" if "k = count_list ts t" using that False
      by (metis count_list_0_iff)
    with r counts IH(3,4) False k show ?thesis
      by (intro exI [of _ inc'] exI [of _ q2]) auto
  qed
qed

text \<open>The in-degree of a node from the edges whose source has not been consumed.\<close>

definition open_degree :: "('a \<times> 'a) list \<Rightarrow> 'a set \<Rightarrow> 'a \<Rightarrow> nat" where
  "open_degree es D v = length (filter (\<lambda>(u, w). w = v \<and> u \<notin> D) es)"

lemma open_degree_0: "open_degree es D v = 0 \<longleftrightarrow> (\<forall>u. (u, v) \<in> set es \<longrightarrow> u \<in> D)"
  by (auto simp: open_degree_def filter_empty_conv)

definition targets :: "('a \<times> 'a) list \<Rightarrow> 'a \<Rightarrow> 'a list" where
  "targets es n = map snd (filter (\<lambda>(u, _). u = n) es)"

lemma set_targets: "set (targets es n) = {v. (n, v) \<in> set es}"
  by (force simp: targets_def)

lemma open_degree_insert:
  "n \<notin> D \<Longrightarrow> open_degree es D v = open_degree es (insert n D) v + count_list (targets es n) v"
  by (induction es) (auto simp: open_degree_def targets_def)

definition kahn_inv ::
    "'a set \<Rightarrow> ('a \<times> 'a) list \<Rightarrow> ('a, nat) hash_map \<Rightarrow> 'a list \<Rightarrow> 'a list \<Rightarrow> bool" where
  "kahn_inv V es inc q d \<longleftrightarrow>
     distinct (d @ q) \<and> set (d @ q) \<subseteq> V \<and>
     (\<forall>v\<in>V. map_of inc v = Some (open_degree es (set d) v)) \<and>
     (\<forall>v\<in>V. v \<in> set (d @ q) \<longleftrightarrow> open_degree es (set d) v = 0) \<and>
     (\<forall>u v. (u, v) \<in> set es \<longrightarrow> v \<in> set (d @ q) \<longrightarrow> before (d @ q) u v)"

lemma before_append_many:
  "u \<in> set xs \<Longrightarrow> v \<in> set ys \<Longrightarrow> before (xs @ ys) u v"
proof -
  assume u: "u \<in> set xs" and v: "v \<in> set ys"
  from v obtain as bs where "ys = as @ v # bs" by (meson split_list)
  then have "xs @ ys = (xs @ as) @ v # bs" "u \<in> set (xs @ as)" using u by simp_all
  then show ?thesis unfolding before_def by blast
qed

lemma kahn_inv_step:
  assumes inv: "kahn_inv V es inc (n # q) d" and E: "set es \<subseteq> V \<times> V"
  shows "\<exists>inc' q'. relax inc q (targets es n) = Some (inc', q') \<and> kahn_inv V es inc' q' (d @ [n])"
proof -
  let ?c = "open_degree es (set d)" and ?c' = "open_degree es (insert n (set d))"
  have nd: "n \<notin> set d" "n \<in> V" "distinct (d @ n # q)" using inv by (auto simp: kahn_inv_def)
  have split: "?c v = ?c' v + count_list (targets es n) v" for v
    using nd(1) by (rule open_degree_insert)
  have V: "set (targets es n) \<subseteq> V" using E by (auto simp: set_targets)
  have "\<exists>inc' q2. relax inc q (targets es n) = Some (inc', q @ q2) \<and>
      (\<forall>v\<in>V. map_of inc' v = Some (?c v - count_list (targets es n) v)) \<and>
      distinct q2 \<and> set q2 = {v \<in> set (targets es n). ?c v = count_list (targets es n) v}"
    by (rule relax_correct [OF _ V]) (use inv split in \<open>auto simp: kahn_inv_def\<close>)
  then obtain inc' q2 where r: "relax inc q (targets es n) = Some (inc', q @ q2)"
    and c': "\<forall>v\<in>V. map_of inc' v = Some (?c' v)" and d2: "distinct q2"
    and q2: "set q2 = {v \<in> set (targets es n). ?c' v = 0}"
    unfolding split by auto
  let ?L = "d @ n # q"
  have zero: "v \<in> set ?L \<longleftrightarrow> ?c v = 0" if "v \<in> V" for v
    using inv that by (simp add: kahn_inv_def)
  have fresh: "v \<notin> set ?L" if "v \<in> set q2" for v
  proof -
    have "v \<in> V" "count_list (targets es n) v \<noteq> 0"
      using that q2 V by (auto simp: count_list_0_iff)
    then show ?thesis using zero [of v] split [of v] by simp
  qed
  have zero': "v \<in> set ?L \<union> set q2 \<longleftrightarrow> ?c' v = 0" if "v \<in> V" for v
    using zero [OF that] split [of v] q2 by (auto simp: count_list_0_iff)
  have ord: "before (?L @ q2) u v" if e: "(u, v) \<in> set es" and v: "v \<in> set (?L @ q2)" for u v
  proof (cases "v \<in> set ?L")
    case True
    then have "before ?L u v" using inv e by (metis kahn_inv_def)
    then show ?thesis by (rule before_append)
  next
    case False
    with v have v2: "v \<in> set q2" by simp
    then have "?c' v = 0" using q2 by simp
    then have "u \<in> set ?L" using e by (auto simp: open_degree_0)
    then show ?thesis using before_append_many [of u ?L v q2] v2 by simp
  qed
  have "kahn_inv V es inc' (q @ q2) (d @ [n])"
    unfolding kahn_inv_def
  proof (intro conjI)
    show "distinct ((d @ [n]) @ q @ q2)" using nd(3) d2 fresh by auto
    show "set ((d @ [n]) @ q @ q2) \<subseteq> V" using inv q2 V by (auto simp: kahn_inv_def)
    show "\<forall>v\<in>V. map_of inc' v = Some (open_degree es (set (d @ [n])) v)" using c' by simp
    show "\<forall>v\<in>V. v \<in> set ((d @ [n]) @ q @ q2) \<longleftrightarrow> open_degree es (set (d @ [n])) v = 0"
      using zero' by auto
    show "\<forall>u v. (u, v) \<in> set es \<longrightarrow> v \<in> set ((d @ [n]) @ q @ q2) \<longrightarrow> before ((d @ [n]) @ q @ q2) u v"
      using ord by simp
  qed
  with r show ?thesis by blast
qed

lemma kahn_loop_inv:
  "kahn_inv V es inc q d \<Longrightarrow> set es \<subseteq> V \<times> V \<Longrightarrow>
    \<exists>inc' r. kahn_loop (targets es) inc q d = Some r \<and> kahn_inv V es inc' [] r"
proof (induction "targets es" inc q d rule: kahn_loop.induct)
  case (1 inc d)
  then show ?case by auto
next
  case (2 inc n q d)
  obtain inc' q' where step: "relax inc q (targets es n) = Some (inc', q')"
    and inv': "kahn_inv V es inc' q' (d @ [n])"
    using kahn_inv_step [OF 2(2,3)] by blast
  obtain inc'' r where "kahn_loop (targets es) inc' q' (d @ [n]) = Some r" "kahn_inv V es inc'' [] r"
    using 2(1) [OF step refl inv' 2(3)] by blast
  then show ?case using step by auto
qed

text \<open>
  The loop started on the in-degrees of a finite graph, with its nodes of in-degree zero in any
  order, ends without a panic; it consumes a set of nodes in an order in which edges go forward,
  and all nodes exactly when the graph is acyclic.
\<close>

lemma kahn_loop_correct:
  assumes E: "set es \<subseteq> V \<times> V" and fin: "finite V"
    and inc: "\<forall>v\<in>V. map_of inc v = Some (open_degree es {} v)"
    and q: "distinct q" "set q = {v \<in> V. open_degree es {} v = 0}"
  shows "\<exists>r. kahn_loop (targets es) inc q [] = Some r \<and> distinct r \<and> set r \<subseteq> V \<and>
    (\<forall>(u, v)\<in>set es. v \<in> set r \<longrightarrow> before r u v) \<and> (set r = V \<longleftrightarrow> acyclic (set es))"
proof -
  have "kahn_inv V es inc q []"
    using inc q by (auto simp: kahn_inv_def open_degree_0)
  from kahn_loop_inv [OF this E] obtain inc' r
    where r: "kahn_loop (targets es) inc q [] = Some r" and inv: "kahn_inv V es inc' [] r" by blast
  have ord: "before r u v" if "(u, v) \<in> set es" "v \<in> set r" for u v
    using inv that by (simp add: kahn_inv_def)
  have "acyclic (set es)" if "set r = V"
    using inv E that by (intro ordered_acyclic [of r]) (auto simp: kahn_inv_def intro: ord)
  moreover have "set r = V" if "acyclic (set es)"
  proof (rule ccontr)
    assume "set r \<noteq> V"
    then have ne: "V - set r \<noteq> {}" using inv by (auto simp: kahn_inv_def)
    have "\<exists>u\<in>V - set r. (u, v) \<in> set es" if "v \<in> V - set r" for v
    proof -
      have "open_degree es (set r) v \<noteq> 0" using inv that by (auto simp: kahn_inv_def)
      then show ?thesis using E by (auto simp: open_degree_0)
    qed
    then show False using predecessors_cycle [OF _ ne] fin that by blast
  qed
  ultimately show ?thesis using r inv ord by (auto simp: kahn_inv_def)
qed

end
