(* ===== verification/Graph_Types.thy ===== *)
theory Graph_Types
  imports Node Kahn
begin

text \<open>
  The data of \<open>crates/graph/src/types.rs\<close>, \<open>crates/graph/src/lib.rs\<close> and the backpressure policy
  of \<open>crates/core/src/event.rs\<close>: a workflow graph, its edges, and the result of the topology
  analysis. The tables of a graph keyed by node id are hash maps.
\<close>

definition DEFAULT_INPUT_PIN_ID :: string where
  "DEFAULT_INPUT_PIN_ID = ''in''"

definition DEFAULT_OUTPUT_PIN_ID :: string where
  "DEFAULT_OUTPUT_PIN_ID = ''out''"

datatype backpressure_policy = Block | DropNewest

definition parse_backpressure_policy :: "string \<Rightarrow> backpressure_policy option" where
  "parse_backpressure_policy s =
     (if s = ''block'' then Some Block
      else if s = ''dropNewest'' \<or> s = ''sample'' \<or> s = ''overflow'' then Some DropNewest
      else None)"

record workflow_edge =
  e_from :: string
  e_to :: string
  e_source_port_id :: "string option"
  e_target_port_id :: "string option"
  e_backpressure_policy :: "backpressure_policy option"

text \<open>\<open>as_deref().unwrap_or("out")\<close> and its counterpart for the input side.\<close>

definition source_pin_id :: "workflow_edge \<Rightarrow> string" where
  "source_pin_id e =
     (case e_source_port_id e of Some p \<Rightarrow> p | None \<Rightarrow> DEFAULT_OUTPUT_PIN_ID)"

definition target_pin_id :: "workflow_edge \<Rightarrow> string" where
  "target_pin_id e =
     (case e_target_port_id e of Some p \<Rightarrow> p | None \<Rightarrow> DEFAULT_INPUT_PIN_ID)"

text \<open>
  The part of a workflow file the graph engine works on; its connections and its variable
  declarations are handed to the components that own them.
\<close>

record workflow_graph =
  g_name :: "string option"
  g_nodes :: "(string, workflow_node_definition) hash_map"
  g_edges :: "workflow_edge list"

record workflow_topology =
  root_nodes :: "string list"
  downstream :: "(string, workflow_edge list) hash_map"
  deployment_order :: "string list"

text \<open>The edges of a graph as pairs of node ids.\<close>

definition edge_pairs :: "workflow_edge list \<Rightarrow> (string \<times> string) list" where
  "edge_pairs es = map (\<lambda>e. (e_from e, e_to e)) es"

lemma edge_pairs_simps [simp]:
  "edge_pairs [] = []"
  "edge_pairs (e # es) = (e_from e, e_to e) # edge_pairs es"
  "edge_pairs (es @ fs) = edge_pairs es @ edge_pairs fs"
  by (simp_all add: edge_pairs_def)

lemma set_edge_pairs: "set (edge_pairs es) = (\<lambda>e. (e_from e, e_to e)) ` set es"
  by (simp add: edge_pairs_def)

lemma targets_edge_pairs:
  "targets (edge_pairs es) n = map e_to (filter (\<lambda>e. e_from e = n) es)"
  by (induction es) (auto simp: targets_def)

end
