(* ===== verification/Events.thy ===== *)
theory Events
  imports Channels Output_Cache Graph_Types
begin

text \<open>
  \<open>crates/core/src/event.rs\<close>: the execution events, the enumeration they are serialised through,
  and their non-blocking emission. Instants printed into an event are kept as instants, the
  average queue depth (an \<open>f64\<close> quotient) as a rational, and the text of a failure as the error it
  displays.
\<close>

record edge_transmit_summary =
  es_from_node :: string
  es_from_pin :: string
  es_to_node :: string
  es_to_pin :: string
  es_edge_kind :: pin_kind
  es_transmit_count :: usize
  es_max_queue_depth :: usize
  es_avg_queue_depth :: rat
  es_total_payload_bytes :: u64
  es_window_started_at :: time
  es_window_ended_at :: time

record backpressure_detected =
  bp_at_node :: string
  bp_incoming_pin :: string
  bp_channel_capacity :: usize
  bp_channel_depth :: usize
  bp_policy :: backpressure_policy
  bp_dropped_since_last_report :: u64
  bp_detected_at :: time

record completed_event =
  cp_stage :: string
  cp_trace_id :: uuid
  cp_metadata :: "json_map option"

datatype execution_event =
    Started string uuid
  | Completed completed_event
  | Failed string uuid engine_error
  | Output string uuid
  | Finished uuid
  | EdgeTransmitSummary edge_transmit_summary
  | BackpressureDetected backpressure_detected

text \<open>The serialised form flattens the completed event.\<close>

datatype execution_event_serde =
    SStarted string uuid
  | SCompleted string uuid "json_map option"
  | SFailed string uuid engine_error
  | SOutput string uuid
  | SFinished uuid
  | SEdgeTransmitSummary edge_transmit_summary
  | SBackpressureDetected backpressure_detected

fun to_serde :: "execution_event \<Rightarrow> execution_event_serde" where
  "to_serde (Started s t) = SStarted s t"
| "to_serde (Completed c) = SCompleted (cp_stage c) (cp_trace_id c) (cp_metadata c)"
| "to_serde (Failed s t e) = SFailed s t e"
| "to_serde (Output s t) = SOutput s t"
| "to_serde (Finished t) = SFinished t"
| "to_serde (EdgeTransmitSummary x) = SEdgeTransmitSummary x"
| "to_serde (BackpressureDetected x) = SBackpressureDetected x"

fun from_serde :: "execution_event_serde \<Rightarrow> execution_event" where
  "from_serde (SStarted s t) = Started s t"
| "from_serde (SCompleted s t m) = Completed \<lparr>cp_stage = s, cp_trace_id = t, cp_metadata = m\<rparr>"
| "from_serde (SFailed s t e) = Failed s t e"
| "from_serde (SOutput s t) = Output s t"
| "from_serde (SFinished t) = Finished t"
| "from_serde (SEdgeTransmitSummary x) = EdgeTransmitSummary x"
| "from_serde (SBackpressureDetected x) = BackpressureDetected x"

lemma from_to_serde: "from_serde (to_serde e) = e"
  by (cases e) simp_all

lemma to_from_serde: "to_serde (from_serde e) = e"
  by (cases e) simp_all

type_synonym event_chan = "execution_event chan"

definition emit_failure ::
    "event_chan \<Rightarrow> string \<Rightarrow> uuid \<Rightarrow> engine_error \<Rightarrow> event_chan" where
  "emit_failure tx stage trace err = emit_event tx (Failed stage trace err)"

definition emit_all :: "event_chan \<Rightarrow> execution_event list \<Rightarrow> event_chan" where
  "emit_all tx es = foldl emit_event tx es"

lemma emit_all_fixed [simp]:
  "max_capacity (emit_all tx es) = max_capacity tx"
  "closed (emit_all tx es) = closed tx"
  unfolding emit_all_def by (induction es arbitrary: tx) auto

end
