(* ===== verification/Edge_Window.thy ===== *)
theory Edge_Window
  imports Events
begin

text \<open>
  \<open>crates/graph/src/edge_window.rs\<close>: the statistics of one edge over a window of 100 ms and the
  backpressure alarm. An operation returns the new window and the event it emits; sums wrap at
  64 bits as in a release build.
\<close>

definition EDGE_WINDOW_NS :: int where
  "EDGE_WINDOW_NS = 100000000"

record edge_window =
  ew_from_pin :: string
  ew_to_node :: string
  ew_to_pin :: string
  ew_edge_kind :: pin_kind
  ew_channel_capacity :: usize
  ew_transmit_count :: usize
  ew_max_queue_depth :: usize
  ew_queue_depth_sum :: usize
  ew_total_payload_bytes :: u64
  ew_window_start :: time
  ew_backpressure_reported :: bool
  ew_policy :: backpressure_policy
  ew_dropped_in_window :: u64

definition window_new ::
    "string \<Rightarrow> string \<Rightarrow> string \<Rightarrow> pin_kind \<Rightarrow> usize \<Rightarrow> backpressure_policy \<Rightarrow> time \<Rightarrow> edge_window" where
  "window_new from_pin to_node to_pin kind capacity policy now =
     \<lparr>ew_from_pin = from_pin, ew_to_node = to_node, ew_to_pin = to_pin, ew_edge_kind = kind,
      ew_channel_capacity = capacity, ew_transmit_count = 0, ew_max_queue_depth = 0,
      ew_queue_depth_sum = 0, ew_total_payload_bytes = 0, ew_window_start = now,
      ew_backpressure_reported = False, ew_policy = policy, ew_dropped_in_window = 0\<rparr>"

definition record_transmit ::
    "edge_window \<Rightarrow> usize \<Rightarrow> u64 \<Rightarrow> time \<Rightarrow> edge_window \<times> execution_event list" where
  "record_transmit w queue_depth payload_bytes now =
     (let w1 = w\<lparr>ew_transmit_count := ew_transmit_count w + 1,
                 ew_max_queue_depth := max (ew_max_queue_depth w) queue_depth,
                 ew_queue_depth_sum := ew_queue_depth_sum w + queue_depth,
                 ew_total_payload_bytes := ew_total_payload_bytes w + payload_bytes\<rparr>
      in if \<not> ew_backpressure_reported w1 \<and> ew_channel_capacity w1 > 0 \<and>
            queue_depth * 10 \<ge> ew_channel_capacity w1 * 8
         then (w1\<lparr>ew_backpressure_reported := True\<rparr>,
               [BackpressureDetected
                 \<lparr>bp_at_node = ew_to_node w1, bp_incoming_pin = ew_to_pin w1,
                  bp_channel_capacity = ew_channel_capacity w1, bp_channel_depth = queue_depth,
                  bp_policy = ew_policy w1,
                  bp_dropped_since_last_report = ew_dropped_in_window w1, bp_detected_at = now\<rparr>])
         else (w1, []))"

definition record_drop :: "edge_window \<Rightarrow> u64 \<Rightarrow> edge_window" where
  "record_drop w payload_bytes = w\<lparr>ew_dropped_in_window := ew_dropped_in_window w + 1\<rparr>"

definition do_flush :: "edge_window \<Rightarrow> string \<Rightarrow> time \<Rightarrow> edge_window \<times> execution_event list" where
  "do_flush w from_node now =
     (let avg = (if ew_transmit_count w > 0
                 then of_nat (unat (ew_queue_depth_sum w)) / of_nat (unat (ew_transmit_count w)) else 0)
      in (w\<lparr>ew_transmit_count := 0, ew_max_queue_depth := 0, ew_queue_depth_sum := 0,
            ew_total_payload_bytes := 0, ew_backpressure_reported := False,
            ew_dropped_in_window := 0, ew_window_start := now\<rparr>,
          [EdgeTransmitSummary
            \<lparr>es_from_node = from_node, es_from_pin = ew_from_pin w, es_to_node = ew_to_node w,
             es_to_pin = ew_to_pin w, es_edge_kind = ew_edge_kind w,
             es_transmit_count = ew_transmit_count w, es_max_queue_depth = ew_max_queue_depth w,
             es_avg_queue_depth = avg, es_total_payload_bytes = ew_total_payload_bytes w,
             es_window_started_at = ew_window_start w, es_window_ended_at = now\<rparr>]))"

definition flush_if_ready :: "edge_window \<Rightarrow> string \<Rightarrow> time \<Rightarrow> edge_window \<times> execution_event list" where
  "flush_if_ready w from_node now =
     (if ew_transmit_count w = 0 \<or> now - ew_window_start w < EDGE_WINDOW_NS then (w, [])
      else do_flush w from_node now)"

definition force_flush :: "edge_window \<Rightarrow> string \<Rightarrow> time \<Rightarrow> edge_window \<times> execution_event list" where
  "force_flush w from_node now =
     (if ew_transmit_count w = 0 then (w, []) else do_flush w from_node now)"

section \<open>Runs\<close>

datatype window_op =
    WRecord usize u64 time
  | WDrop u64
  | WTick time
  | WForce time

fun window_step :: "string \<Rightarrow> edge_window \<Rightarrow> window_op \<Rightarrow> edge_window \<times> execution_event list" where
  "window_step n w (WRecord d b t) = record_transmit w d b t"
| "window_step n w (WDrop b) = (record_drop w b, [])"
| "window_step n w (WTick t) = flush_if_ready w n t"
| "window_step n w (WForce t) = force_flush w n t"

fun window_run ::
    "string \<Rightarrow> edge_window \<Rightarrow> window_op list \<Rightarrow> edge_window \<times> execution_event list" where
  "window_run n w [] = (w, [])"
| "window_run n w (x # xs) =
     (let (w1, es1) = window_step n w x; (w2, es2) = window_run n w1 xs in (w2, es1 @ es2))"

text \<open>What the events of a run report, and what it was given.\<close>

fun reported :: "execution_event \<Rightarrow> nat \<times> nat" where
  "reported (EdgeTransmitSummary s) = (unat (es_transmit_count s), unat (es_total_payload_bytes s))"
| "reported _ = (0, 0)"

fun given :: "window_op \<Rightarrow> nat \<times> nat" where
  "given (WRecord d b t) = (1, unat b)"
| "given _ = (0, 0)"

definition pending :: "edge_window \<Rightarrow> nat \<times> nat" where
  "pending w = (unat (ew_transmit_count w), unat (ew_total_payload_bytes w))"

definition total :: "(nat \<times> nat) list \<Rightarrow> nat \<times> nat" where
  "total ps = (sum_list (map fst ps), sum_list (map snd ps))"

lemma total_simps [simp]:
  "total [] = (0, 0)"
  "total (p # ps) = (fst p + fst (total ps), snd p + snd (total ps))"
  "fst (total (xs @ ys)) = fst (total xs) + fst (total ys)"
  "snd (total (xs @ ys)) = snd (total xs) + snd (total ys)"
  by (simp_all add: total_def)

lemma fst_record_transmit [simp]:
  "ew_transmit_count (fst (record_transmit w d b t)) = ew_transmit_count w + 1"
  "ew_total_payload_bytes (fst (record_transmit w d b t)) = ew_total_payload_bytes w + b"
  by (simp_all add: record_transmit_def Let_def)

lemma reported_record_transmit [simp]: "total (map reported (snd (record_transmit w d b t))) = (0, 0)"
  by (simp add: record_transmit_def Let_def)

lemma flush_conserves:
  "fst (pending (fst (do_flush w n t))) + fst (total (map reported (snd (do_flush w n t)))) = fst (pending w)"
  "snd (pending (fst (do_flush w n t))) + snd (total (map reported (snd (do_flush w n t)))) = snd (pending w)"
  by (simp_all add: do_flush_def pending_def Let_def)

text \<open>A step conserves both totals as long as the sums do not overflow.\<close>

lemma window_step_conserves:
  assumes "fst (pending w) + fst (given x) < 2 ^ 64" and "snd (pending w) + snd (given x) < 2 ^ 64"
  shows "fst (pending (fst (window_step n w x))) + fst (total (map reported (snd (window_step n w x)))) =
      fst (pending w) + fst (given x) \<and>
    snd (pending (fst (window_step n w x))) + snd (total (map reported (snd (window_step n w x)))) =
      snd (pending w) + snd (given x)"
proof (cases x)
  case (WRecord d b t)
  then have "unat (ew_transmit_count w + 1) = unat (ew_transmit_count w) + 1"
    "unat (ew_total_payload_bytes w + b) = unat (ew_total_payload_bytes w) + unat b"
    using assms by (simp_all add: pending_def unat_word_ariths)
  then show ?thesis using WRecord by (simp add: pending_def)
next
  case (WDrop b)
  then show ?thesis by (simp add: record_drop_def pending_def)
next
  case (WTick t)
  then show ?thesis using flush_conserves [of w n t] by (simp add: flush_if_ready_def)
next
  case (WForce t)
  then show ?thesis using flush_conserves [of w n t] by (simp add: force_flush_def)
qed

lemma window_run_conserves:
  assumes "fst (pending w) + fst (total (map given xs)) < 2 ^ 64"
    and "snd (pending w) + snd (total (map given xs)) < 2 ^ 64"
  shows "fst (pending (fst (window_run n w xs))) + fst (total (map reported (snd (window_run n w xs)))) =
      fst (pending w) + fst (total (map given xs)) \<and>
    snd (pending (fst (window_run n w xs))) + snd (total (map reported (snd (window_run n w xs)))) =
      snd (pending w) + snd (total (map given xs))"
  using assms
proof (induction xs arbitrary: w)
  case Nil
  then show ?case by simp
next
  case (Cons x xs)
  obtain w1 es1 where s: "window_step n w x = (w1, es1)" by (cases "window_step n w x")
  obtain w2 es2 where r: "window_run n w1 xs = (w2, es2)" by (cases "window_run n w1 xs")
  have one: "fst (pending w1) + fst (total (map reported es1)) = fst (pending w) + fst (given x)"
    "snd (pending w1) + snd (total (map reported es1)) = snd (pending w) + snd (given x)"
    using window_step_conserves [of w x n] Cons.prems s by simp_all
  have "fst (pending w1) + fst (total (map given xs)) < 2 ^ 64"
    "snd (pending w1) + snd (total (map given xs)) < 2 ^ 64"
    using one Cons.prems by simp_all
  from Cons.IH [OF this] r one s show ?case by simp
qed

lemma window_step_idle:
  assumes "fst (pending w) + fst (given x) < 2 ^ 64" and "fst (pending w) = 0 \<longrightarrow> snd (pending w) = 0"
  shows "fst (pending (fst (window_step n w x))) = 0 \<longrightarrow> snd (pending (fst (window_step n w x))) = 0"
proof (cases x)
  case (WRecord d b t)
  then have "unat (ew_transmit_count w + 1) = unat (ew_transmit_count w) + 1"
    using assms(1) by (simp add: pending_def unat_word_ariths)
  then show ?thesis using WRecord by (simp add: pending_def)
qed (use assms(2) in \<open>simp_all add: record_drop_def flush_if_ready_def force_flush_def do_flush_def
       pending_def Let_def\<close>)

lemma window_run_idle:
  assumes "fst (pending w) + fst (total (map given xs)) < 2 ^ 64"
    and "snd (pending w) + snd (total (map given xs)) < 2 ^ 64"
    and "fst (pending w) = 0 \<longrightarrow> snd (pending w) = 0"
  shows "fst (pending (fst (window_run n w xs))) = 0 \<longrightarrow> snd (pending (fst (window_run n w xs))) = 0"
  using assms
proof (induction xs arbitrary: w)
  case Nil
  then show ?case by simp
next
  case (Cons x xs)
  obtain w1 es1 where s: "window_step n w x = (w1, es1)" by (cases "window_step n w x")
  have one: "fst (pending w1) \<le> fst (pending w) + fst (given x)"
    "snd (pending w1) \<le> snd (pending w) + snd (given x)"
    using window_step_conserves [of w x n] Cons.prems s by simp_all
  have "fst (pending w1) + fst (total (map given xs)) < 2 ^ 64"
    "snd (pending w1) + snd (total (map given xs)) < 2 ^ 64"
    using one Cons.prems by simp_all
  moreover have "fst (pending w1) = 0 \<longrightarrow> snd (pending w1) = 0"
    using window_step_idle [of w x n] Cons.prems s by simp
  ultimately show ?case using Cons.IH [of w1] s by (simp add: split_beta)
qed

lemma window_run_append:
  "window_run n w (xs @ ys) =
    (let (w1, es1) = window_run n w xs; (w2, es2) = window_run n w1 ys in (w2, es1 @ es2))"
  by (induction xs arbitrary: w) (simp_all add: Let_def split_beta)

text \<open>
  The summaries emitted over the life of an edge, from its creation to the flush at the end of
  the node's loop, account for every transmission and every byte exactly once.
\<close>

theorem window_reports_everything:
  assumes "fst (total (map given xs)) < 2 ^ 64" and "snd (total (map given xs)) < 2 ^ 64"
  shows "total (map reported (snd (window_run n (window_new fp tn tp k c policy t0) (xs @ [WForce t]))))
    = total (map given xs)"
proof -
  let ?w = "window_new fp tn tp k c policy t0"
  have p: "pending ?w = (0, 0)" by (simp add: pending_def window_new_def)
  obtain w1 es1 where r: "window_run n ?w xs = (w1, es1)" by (cases "window_run n ?w xs")
  have sums: "fst (pending w1) + fst (total (map reported es1)) = fst (total (map given xs))"
    "snd (pending w1) + snd (total (map reported es1)) = snd (total (map given xs))"
    using window_run_conserves [of ?w xs n] assms p r by simp_all
  have idle: "fst (pending w1) = 0 \<longrightarrow> snd (pending w1) = 0"
    using window_run_idle [of ?w xs n] assms p r by simp
  have "total (map reported (snd (force_flush w1 n t))) = pending w1"
  proof (cases "ew_transmit_count w1 = 0")
    case True
    then show ?thesis using idle by (auto simp: force_flush_def pending_def)
  next
    case False
    then show ?thesis by (simp add: force_flush_def do_flush_def pending_def Let_def)
  qed
  then show ?thesis using r sums
    by (simp add: window_run_append Let_def split_beta prod_eq_iff)
qed

definition demo_window_ops :: "window_op list" where
  "demo_window_ops = [WRecord 9 100 0, WRecord 3 50 1, WTick 100000000, WDrop 7, WRecord 1 5 100000001]"

theorem window_reports_everything_witness:
  "total (map reported (snd (window_run ''n'' (window_new ''out'' ''m'' ''in'' Exec 10 DropNewest 0)
     (demo_window_ops @ [WForce 200000000])))) = (3, 155)"
  using window_reports_everything [of demo_window_ops "''n''" "''out''" "''m''" "''in''" Exec 10 DropNewest 0 200000000]
  by (simp add: demo_window_ops_def)

text \<open>
  Dropped messages are only reported by an alarm that comes after them in the same window: drops
  between the alarm and the next flush are reported by no event.
\<close>

lemma drops_after_the_alarm_are_lost:
  "map (\<lambda>e. case e of BackpressureDetected b \<Rightarrow> Some (bp_dropped_since_last_report b) | _ \<Rightarrow> None)
     (snd (window_run ''n'' (window_new ''out'' ''m'' ''in'' Exec 10 DropNewest 0)
       [WRecord 9 1 0, WDrop 1, WDrop 1, WTick 100000000, WRecord 9 1 100000001, WForce 200000000])) =
   [Some 0, None, Some 0, None]"
  by (simp add: window_new_def record_transmit_def record_drop_def do_flush_def force_flush_def
      flush_if_ready_def EDGE_WINDOW_NS_def Let_def)

end
