(* ===== verification/Data_Store.thy ===== *)
theory Data_Store
  imports Json
begin

text \<open>
  \<open>crates/core/src/data.rs\<close>: the payload store shared by the nodes of a workflow. A payload is
  written with the number of its consumers and removed by the last release. The trait
  \<open>DataStore\<close> is the locale \<open>data_store\<close>; \<open>ArenaDataStore\<close> is the record \<open>arena\<close> with one
  function per method, and interprets the locale. The identifier a write draws
  (\<open>Uuid::new_v4\<close>) is an argument. The last part splits a write into its two atomic
  actions on the concurrent map and interleaves them.
\<close>

section \<open>The interface\<close>

text \<open>A payload and the number of releases it still waits for; what one release does to it.\<close>

type_synonym refs = "uuid \<Rightarrow> (json \<times> nat) option"

fun drop_ref :: "(json \<times> nat) option \<Rightarrow> (json \<times> nat) option" where
  "drop_ref None = None"
| "drop_ref (Some (p, k)) = (if k \<le> 1 then None else Some (p, k - 1))"

lemma drop_ref_funpow:
  "(drop_ref ^^ m) (Some (p, k)) = (if m = 0 \<or> m < k then Some (p, k - m) else None)"
proof (induction m)
  case 0
  then show ?case by simp
next
  case (Suc m)
  have [simp]: "(drop_ref ^^ j) None = None" for j by (induction j) auto
  show ?case using Suc by (auto simp: funpow_swap1)
qed

locale data_store =
  fixes wr :: "'s \<Rightarrow> uuid \<Rightarrow> json \<Rightarrow> usize \<Rightarrow> (uuid \<times> 's) result"
    and rd :: "'s \<Rightarrow> uuid \<Rightarrow> json result"
    and rel :: "'s \<Rightarrow> uuid \<Rightarrow> 's"
    and refs :: "'s \<Rightarrow> refs"
    and inv :: "'s \<Rightarrow> bool"
  assumes write_refs:
      "inv s \<Longrightarrow> wr s i p n = Inr (j, s') \<Longrightarrow> j = i \<and> refs s' = (refs s)(i \<mapsto> (p, max 1 (unat n)))"
    and write_inv: "inv s \<Longrightarrow> wr s i p n = Inr (j, s') \<Longrightarrow> inv s'"
    and read_refs:
      "inv s \<Longrightarrow> rd s i = (case refs s i of None \<Rightarrow> Inl (DataNotFound i) | Some (p, _) \<Rightarrow> Inr p)"
    and release_refs: "inv s \<Longrightarrow> refs (rel s i) = (refs s)(i := drop_ref (refs s i))"
    and release_inv: "inv s \<Longrightarrow> inv (rel s i)"
begin

lemma release_many_inv: "inv s \<Longrightarrow> inv (((\<lambda>s. rel s i) ^^ m) s)"
  by (induction m) (auto intro: release_inv)

lemma release_many:
  "inv s \<Longrightarrow> refs (((\<lambda>s. rel s i) ^^ m) s) = (refs s)(i := (drop_ref ^^ m) (refs s i))"
proof (induction m)
  case 0
  then show ?case by simp
next
  case (Suc m)
  then show ?case by (simp add: release_refs release_many_inv fun_eq_iff)
qed

text \<open>A write followed by as many releases as it has consumers leaves every other payload alone
  and drops its own: nothing leaks.\<close>

lemma write_then_release_all:
  assumes "inv s" and "wr s i p n = Inr (j, s')"
  shows "refs (((\<lambda>s. rel s i) ^^ (max 1 (unat n))) s') = (refs s)(i := None)"
proof -
  have s': "inv s'" "refs s' = (refs s)(i \<mapsto> (p, max 1 (unat n)))"
    using assms write_refs write_inv by blast+
  then show ?thesis by (simp only: release_many fun_upd_same drop_ref_funpow fun_upd_upd) simp
qed

lemma write_then_read:
  assumes "inv s" and "wr s i p n = Inr (j, s')"
  shows "rd s' i = Inr p"
  using assms write_refs write_inv read_refs by (metis fun_upd_same option.simps(5) prod.simps(2))

end

section \<open>\<open>ArenaDataStore\<close>\<close>

record data_entry =
  entry_payload :: json
  entry_remaining :: usize

record arena =
  entries :: "(uuid, data_entry) hash_map"
  capacity :: usize

definition arena_new :: arena where
  "arena_new = \<lparr>entries = [], capacity = 0\<rparr>"

definition arena_with_capacity :: "usize \<Rightarrow> arena" where
  "arena_with_capacity c = \<lparr>entries = [], capacity = c\<rparr>"

definition arena_len :: "arena \<Rightarrow> nat" where
  "arena_len s = length (entries s)"

text \<open>The two actions of \<open>write\<close>: the capacity test and the insertion.\<close>

definition write_admits :: "arena \<Rightarrow> bool" where
  "write_admits s \<longleftrightarrow> \<not> (capacity s > 0 \<and> arena_len s \<ge> unat (capacity s))"

definition write_insert :: "arena \<Rightarrow> uuid \<Rightarrow> json \<Rightarrow> usize \<Rightarrow> arena" where
  "write_insert s i p consumers =
     s\<lparr>entries := hm_insert i \<lparr>entry_payload = p, entry_remaining = max consumers 1\<rparr> (entries s)\<rparr>"

definition store_write :: "arena \<Rightarrow> uuid \<Rightarrow> json \<Rightarrow> usize \<Rightarrow> (uuid \<times> arena) result" where
  "store_write s i p consumers =
     (if \<not> write_admits s then Inl (DataStoreCapacityExceeded (capacity s))
      else Inr (i, write_insert s i p consumers))"

definition store_read :: "arena \<Rightarrow> uuid \<Rightarrow> json result" where
  "store_read s i = ok_or (DataNotFound i) (map_option entry_payload (map_of (entries s) i))"

definition store_read_mut :: "arena \<Rightarrow> uuid \<Rightarrow> json result" where
  "store_read_mut s i = ok_or (DataNotFound i) (map_option entry_payload (map_of (entries s) i))"

text \<open>
  \<open>remove_if\<close> with the decrement as its test: \<open>fetch_sub\<close> returns the old count and leaves the
  decremented one behind when the entry stays.
\<close>

definition store_release :: "arena \<Rightarrow> uuid \<Rightarrow> arena" where
  "store_release s i =
     (case map_of (entries s) i of
        None \<Rightarrow> s
      | Some e \<Rightarrow>
          (let old = entry_remaining e; e' = e\<lparr>entry_remaining := old - 1\<rparr> in
           if old = 1 then s\<lparr>entries := hm_remove i (entries s)\<rparr>
           else s\<lparr>entries := hm_insert i e' (entries s)\<rparr>))"

text \<open>The invariant: keys are distinct, and no entry has a count of zero.\<close>

definition arena_inv :: "arena \<Rightarrow> bool" where
  "arena_inv s \<longleftrightarrow>
     hm_wf (entries s) \<and> (\<forall>i e. map_of (entries s) i = Some e \<longrightarrow> entry_remaining e \<noteq> 0)"

definition arena_refs :: "arena \<Rightarrow> refs" where
  "arena_refs s i = map_option (\<lambda>e. (entry_payload e, unat (entry_remaining e))) (map_of (entries s) i)"

lemma unat_max_one: "unat (max n 1) = max 1 (unat n)" for n :: "'a::len word"
  by (simp add: max_def word_le_nat_alt)

lemma max_one_nonzero: "max n 1 \<noteq> (0::'a::len word)"
  by (metis max.commute max.cobounded1 unat_max_one unat_0 max_def not_one_le_zero)

lemma arena_inv_new [simp]: "arena_inv arena_new" "arena_inv (arena_with_capacity c)"
  by (simp_all add: arena_inv_def arena_new_def arena_with_capacity_def)

lemma arena_inv_insert: "arena_inv s \<Longrightarrow> arena_inv (write_insert s i p n)"
  by (auto simp: arena_inv_def write_insert_def max_one_nonzero)

lemma arena_inv_write: "arena_inv s \<Longrightarrow> store_write s i p n = Inr (j, s') \<Longrightarrow> arena_inv s'"
  by (auto simp: store_write_def arena_inv_insert split: if_splits)

lemma arena_inv_release: "arena_inv s \<Longrightarrow> arena_inv (store_release s i)"
  by (auto simp: arena_inv_def store_release_def Let_def split: option.splits if_splits)

lemma arena_refs_insert:
  "arena_refs (write_insert s i p n) = (arena_refs s)(i \<mapsto> (p, max 1 (unat n)))"
  by (rule ext) (simp add: arena_refs_def write_insert_def unat_max_one)

lemma arena_refs_release:
  assumes "arena_inv s"
  shows "arena_refs (store_release s i) = (arena_refs s)(i := drop_ref (arena_refs s i))"
proof (cases "map_of (entries s) i")
  case None
  then show ?thesis by (auto simp: store_release_def arena_refs_def)
next
  case (Some e)
  with assms have pos: "entry_remaining e \<noteq> 0" by (auto simp: arena_inv_def)
  show ?thesis
  proof (cases "entry_remaining e = 1")
    case True
    with Some show ?thesis by (intro ext) (simp add: store_release_def arena_refs_def)
  next
    case False
    with pos have k: "unat (entry_remaining e) > 1" "unat (entry_remaining e - 1) = unat (entry_remaining e) - 1"
      using False unat_gt_1 [of "entry_remaining e"] by (simp_all add: unat_minus_one)
    from Some False k show ?thesis
      by (intro ext) (simp add: store_release_def arena_refs_def Let_def)
  qed
qed

interpretation arena: data_store store_write store_read store_release arena_refs arena_inv
proof unfold_locales
  fix s i p n j s'
  assume "arena_inv s" and "store_write s i p n = Inr (j, s')"
  then show "j = i \<and> arena_refs s' = (arena_refs s)(i \<mapsto> (p, max 1 (unat n)))"
    by (auto simp: store_write_def arena_refs_insert split: if_splits)
qed (auto simp: arena_inv_write arena_inv_release arena_refs_release store_read_def
    arena_refs_def split: option.splits)

section \<open>Runs of operations\<close>

datatype store_op = OpWrite uuid json usize | OpRelease uuid

fun store_step :: "arena \<Rightarrow> store_op \<Rightarrow> arena" where
  "store_step s (OpWrite i p n) = (case store_write s i p n of Inl _ \<Rightarrow> s | Inr (_, s') \<Rightarrow> s')"
| "store_step s (OpRelease i) = store_release s i"

definition store_run :: "arena \<Rightarrow> store_op list \<Rightarrow> arena" where
  "store_run s ops = foldl store_step s ops"

fun writes_id :: "uuid \<Rightarrow> store_op \<Rightarrow> bool" where
  "writes_id i (OpWrite j _ _) = (i = j)"
| "writes_id i (OpRelease _) = False"

lemma arena_inv_step: "arena_inv s \<Longrightarrow> arena_inv (store_step s x)"
  by (cases x) (auto intro: arena_inv_write arena_inv_release split: sum.splits)

lemma arena_inv_run: "arena_inv s \<Longrightarrow> arena_inv (store_run s ops)"
  unfolding store_run_def by (induction ops arbitrary: s) (auto intro: arena_inv_step)

lemma refs_step_release:
  "arena_inv s \<Longrightarrow> arena_refs (store_step s (OpRelease i)) i = drop_ref (arena_refs s i)"
  by (simp add: arena_refs_release)

lemma refs_step_other:
  "arena_inv s \<Longrightarrow> \<not> writes_id i x \<Longrightarrow> x \<noteq> OpRelease i \<Longrightarrow>
    arena_refs (store_step s x) i = arena_refs s i"
  by (cases x) (auto simp: store_write_def arena_refs_insert arena_refs_release)

lemma refs_run:
  "arena_inv s \<Longrightarrow> \<forall>x\<in>set ops. \<not> writes_id i x \<Longrightarrow>
    arena_refs (store_run s ops) i = (drop_ref ^^ count_list ops (OpRelease i)) (arena_refs s i)"
proof (induction ops arbitrary: s)
  case Nil
  then show ?case by (simp add: store_run_def)
next
  case (Cons x ops)
  have IH: "arena_refs (store_run (store_step s x) ops) i =
      (drop_ref ^^ count_list ops (OpRelease i)) (arena_refs (store_step s x) i)"
    using Cons.prems by (intro Cons.IH) (auto intro: arena_inv_step)
  show ?case
  proof (cases "x = OpRelease i")
    case True
    with IH refs_step_release [OF Cons.prems(1), of i] show ?thesis
      by (simp add: store_run_def funpow_swap1)
  next
    case False
    with IH Cons.prems refs_step_other [of s i x] show ?thesis by (simp add: store_run_def)
  qed
qed

section \<open>Interleaved writers\<close>

text \<open>
  The capacity test and the insertion are two actions on the concurrent map, so writers
  running in parallel interleave: a state is the store and the writers that passed the
  test and have not inserted yet, at most \<open>w\<close> of them.
\<close>

type_synonym writer = "uuid \<times> json \<times> usize"

inductive writer_step :: "nat \<Rightarrow> arena \<times> writer list \<Rightarrow> arena \<times> writer list \<Rightarrow> bool" for w where
  admit: "write_admits s \<Longrightarrow> length ws < w \<Longrightarrow> writer_step w (s, ws) (s, (i, p, n) # ws)"
| insert: "writer_step w (s, us @ (i, p, n) # vs) (write_insert s i p n, us @ vs)"
| release: "writer_step w (s, ws) (store_release s i, ws)"

inductive_cases writer_stepE: "writer_step w st st'"

abbreviation writer_steps :: "nat \<Rightarrow> arena \<times> writer list \<Rightarrow> arena \<times> writer list \<Rightarrow> bool" where
  "writer_steps w \<equiv> (writer_step w)\<^sup>*\<^sup>*"

lemma arena_len_insert_le: "arena_len (write_insert s i p n) \<le> Suc (arena_len s)"
  by (cases "map_of (entries s) i = None")
    (simp_all add: arena_len_def write_insert_def length_hm_insert_new length_hm_insert_old)

lemma arena_len_release_le: "arena_len (store_release s i) \<le> arena_len s"
  by (auto simp: arena_len_def store_release_def Let_def length_hm_remove_le length_hm_insert_old
      split: option.splits)

lemma capacity_unchanged [simp]:
  "capacity (write_insert s i p n) = capacity s"
  "capacity (store_release s i) = capacity s"
  by (auto simp: write_insert_def store_release_def Let_def split: option.splits)

definition overshoot_inv :: "nat \<Rightarrow> usize \<Rightarrow> arena \<times> writer list \<Rightarrow> bool" where
  "overshoot_inv w c st \<longleftrightarrow> capacity (fst st) = c \<and>
     arena_len (fst st) + length (snd st) + 1 \<le> unat c + w"

lemma writer_step_overshoot:
  assumes "writer_step w st st'" and "overshoot_inv w c st" and "0 < c"
  shows "overshoot_inv w c st'"
  using assms(1)
proof cases
  case (admit s ws i p n)
  then have "arena_len s < unat c" using assms(2,3)
    by (auto simp: overshoot_inv_def write_admits_def)
  then show ?thesis using admit assms(2) by (simp add: overshoot_inv_def)
next
  case (insert s us i p n vs)
  then show ?thesis using assms(2) arena_len_insert_le [of s i p n] by (simp add: overshoot_inv_def)
next
  case (release s ws i)
  then show ?thesis using assms(2) arena_len_release_le [of s i] by (simp add: overshoot_inv_def)
qed

lemma writer_steps_overshoot:
  "writer_steps w st st' \<Longrightarrow> overshoot_inv w c st \<Longrightarrow> 0 < c \<Longrightarrow> overshoot_inv w c st'"
  by (induction rule: rtranclp_induct) (auto intro: writer_step_overshoot)

section \<open>Properties\<close>

text \<open>C7: a payload written for \<open>n\<close> consumers stays readable, unchanged, for exactly
  \<open>max 1 n\<close> releases, whatever else happens to the store in between; then reading it
  is the error \<open>DataNotFound\<close>.\<close>

theorem payload_lifetime:
  assumes "arena_inv s" and "store_write s i p n = Inr (i, s')"
    and "\<forall>x\<in>set ops. \<not> writes_id i x"
  shows "store_read (store_run s' ops) i =
    (if count_list ops (OpRelease i) < max 1 (unat n) then Inr p else Inl (DataNotFound i))"
proof -
  have s': "arena_inv s'" "arena_refs s' = (arena_refs s)(i \<mapsto> (p, max 1 (unat n)))"
    using assms arena.write_refs arena.write_inv by blast+
  then show ?thesis using assms(3)
    by (simp only: arena.read_refs [OF arena_inv_run] refs_run fun_upd_same drop_ref_funpow) auto
qed

theorem payload_lifetime_witness:
  "let s = arena_with_capacity 4;
       ops = [OpRelease 7, OpWrite 9 JNull 1, OpRelease 9, OpRelease 7]
   in (case store_write s 7 (JBool True) 2 of
         Inr (_, s') \<Rightarrow> store_read (store_run s' (take 3 ops)) 7 = Inr (JBool True) \<and>
                       store_read (store_run s' ops) 7 = Inl (DataNotFound 7)
       | Inl _ \<Rightarrow> False)"
proof -
  let ?s = "arena_with_capacity 4"
  let ?s' = "write_insert ?s 7 (JBool True) 2"
  have w: "store_write ?s 7 (JBool True) 2 = Inr (7, ?s')"
    by (simp add: store_write_def write_admits_def arena_with_capacity_def arena_len_def)
  note life = payload_lifetime [OF arena_inv_new(2) w]
  show ?thesis
    using life [of "[OpRelease 7, OpWrite 9 JNull 1, OpRelease 9]"]
      life [of "[OpRelease 7, OpWrite 9 JNull 1, OpRelease 9, OpRelease 7]"] w
    by simp
qed

text \<open>With at most \<open>w\<close> writers between the capacity test and the insertion, a store of
  capacity \<open>c\<close> never holds more than \<open>c + w - 1\<close> entries; a single writer never exceeds \<open>c\<close>.\<close>

theorem capacity_bound_interleaved:
  assumes "writer_steps w (arena_with_capacity c, []) (s, ws)" and "0 < c" and "0 < w"
  shows "arena_len s + length ws \<le> unat c + (w - 1)"
proof -
  have "overshoot_inv w c (arena_with_capacity c, [])"
    using assms(3) by (simp add: overshoot_inv_def arena_with_capacity_def arena_len_def)
  from writer_steps_overshoot [OF assms(1) this assms(2)]
  have "arena_len s + length ws + 1 \<le> unat c + w" by (simp add: overshoot_inv_def)
  with assms(3) show ?thesis by linarith
qed

theorem capacity_bound_interleaved_witness:
  "\<exists>s. writer_steps 2 (arena_with_capacity 1, []) (s, []) \<and> arena_len s = 2 \<and> arena_len s \<le> 1 + 1"
proof -
  let ?a = "arena_with_capacity 1"
  let ?b = "write_insert ?a 7 JNull 1"
  let ?c = "write_insert ?b 8 JNull 1"
  have "writer_step 2 (?a, []) (?a, [(7, JNull, 1)])"
    by (rule admit) (simp_all add: write_admits_def arena_with_capacity_def arena_len_def)
  moreover have "writer_step 2 (?a, [(7, JNull, 1)]) (?a, [(8, JNull, 1), (7, JNull, 1)])"
    by (rule admit) (simp_all add: write_admits_def arena_with_capacity_def arena_len_def)
  moreover have "writer_step 2 (?a, [(8, JNull, 1), (7, JNull, 1)]) (?b, [(8, JNull, 1)])"
    using insert [of 2 ?a "[(8, JNull, 1)]" 7 JNull 1 "[]"] by simp
  moreover have "writer_step 2 (?b, [(8, JNull, 1)]) (?c, [])"
    using insert [of 2 ?b "[]" 8 JNull 1 "[]"] by simp
  ultimately have run: "writer_steps 2 (?a, []) (?c, [])"
    by (meson converse_rtranclp_into_rtranclp rtranclp.rtrancl_refl)
  have "arena_len ?c + length ([] :: writer list) \<le> unat (1 :: usize) + (2 - 1)"
    by (rule capacity_bound_interleaved [OF run]) simp_all
  moreover have "arena_len ?c = 2"
    by (simp add: arena_len_def write_insert_def arena_with_capacity_def hm_insert_def)
  ultimately show ?thesis using run by auto
qed

end
