(* ===== verification/Guard.thy ===== *)
theory Guard
  imports Engine_Error
begin

text \<open>
  \<open>crates/core/src/guard.rs\<close>: running a future under panic isolation and an optional timeout. What
  the future does is one of three outcomes; \<open>Hangs\<close> stands for a future that has not finished when
  the timeout expires.
\<close>

datatype 'a outcome = Finishes "'a result" | Panics | Hangs

text \<open>\<open>None\<close> is a call that does not return: a future without a timeout that never finishes.\<close>

definition guarded_execute ::
    "string \<Rightarrow> uuid \<Rightarrow> nat option \<Rightarrow> 'a outcome \<Rightarrow> 'a result option" where
  "guarded_execute stage trace timeout fut =
     (case timeout of
        Some ms \<Rightarrow>
          (case fut of
             Finishes r \<Rightarrow> Some r
           | Panics \<Rightarrow> Some (Inl (StagePanicked stage trace))
           | Hangs \<Rightarrow> Some (Inl (StageTimeout stage trace ms)))
      | None \<Rightarrow>
          (case fut of
             Finishes r \<Rightarrow> Some r
           | Panics \<Rightarrow> Some (Inl (StagePanicked stage trace))
           | Hangs \<Rightarrow> None))"

lemma guarded_returns: "timeout \<noteq> None \<or> fut \<noteq> Hangs \<Longrightarrow> guarded_execute s t timeout fut \<noteq> None"
  by (cases fut) (auto simp: guarded_execute_def split: option.splits)

lemma guarded_Inr: "guarded_execute s t timeout fut = Some (Inr x) \<longleftrightarrow> fut = Finishes (Inr x)"
  by (cases fut) (auto simp: guarded_execute_def split: option.splits)

end
