(* ===== verification/Pull.thy ===== *)
theory Pull
  imports Graph_Types Output_Cache Guard
begin

text \<open>
  \<open>crates/graph/src/pull/\<close>: before a node runs, the values of its data inputs are pulled from
  upstream: a pure-form node is evaluated on demand (recursively, with a memo for each trace), any
  other node is read from its output cache.

  What happens around a pull is an argument: \<open>pc_env\<close> says, for the n-th cache access of a pull,
  what the caches hold, what the clock shows and what a blocked consumer sees while it waits;
  \<open>pc_exec\<close> says what \<open>transform\<close> does. The recursion of the source is the recursion on a fuel
  argument: \<open>None\<close> is running out of it, which \<open>pull_terminates\<close> excludes, or a \<open>transform\<close>
  without timeout that never ends.
\<close>

section \<open>The reverse index of data edges\<close>

record data_in_edge =
  di_input_pin :: string
  di_upstream :: string
  di_output_pin :: string

type_synonym edges_by_consumer = "(string, data_in_edge list) hash_map"

definition for_consumer :: "edges_by_consumer \<Rightarrow> string \<Rightarrow> data_in_edge list" where
  "for_consumer idx n = (case map_of idx n of Some es \<Rightarrow> es | None \<Rightarrow> [])"

definition data_in_edge_of :: "workflow_edge \<Rightarrow> data_in_edge" where
  "data_in_edge_of e =
     \<lparr>di_input_pin = (case e_target_port_id e of Some p \<Rightarrow> p | None \<Rightarrow> ''in''),
      di_upstream = e_from e,
      di_output_pin = (case e_source_port_id e of Some p \<Rightarrow> p | None \<Rightarrow> DEFAULT_OUTPUT_PIN_ID)\<rparr>"

definition build_edges_by_consumer :: "workflow_edge list \<Rightarrow> edges_by_consumer" where
  "build_edges_by_consumer data_edges =
     fold (\<lambda>e idx. hm_insert (e_to e) (for_consumer idx (e_to e) @ [data_in_edge_of e]) idx) data_edges []"

lemma for_consumer_fold:
  "for_consumer (fold (\<lambda>e idx. hm_insert (e_to e) (for_consumer idx (e_to e) @ [data_in_edge_of e]) idx) es idx) n
    = for_consumer idx n @ map data_in_edge_of (filter (\<lambda>e. e_to e = n) es)"
  by (induction es arbitrary: idx) (auto simp: for_consumer_def)

lemma for_consumer_build:
  "for_consumer (build_edges_by_consumer es) n = map data_in_edge_of (filter (\<lambda>e. e_to e = n) es)"
  unfolding build_edges_by_consumer_def for_consumer_fold by (simp add: for_consumer_def)

section \<open>The memo of pure nodes\<close>

type_synonym pure_memo = "(string \<times> uuid \<times> u64, json) hash_map"

definition memo_get :: "pure_memo \<Rightarrow> string \<Rightarrow> uuid \<Rightarrow> u64 \<Rightarrow> json option" where
  "memo_get m n t h = map_of m (n, t, h)"

definition memo_insert :: "pure_memo \<Rightarrow> string \<Rightarrow> uuid \<Rightarrow> u64 \<Rightarrow> json \<Rightarrow> pure_memo" where
  "memo_insert m n t h v = hm_insert (n, t, h) v m"

definition clear_trace :: "pure_memo \<Rightarrow> uuid \<Rightarrow> pure_memo" where
  "clear_trace m t = filter (\<lambda>(k, _). fst (snd k) \<noteq> t) m"

lemma map_of_filter_key: "map_of (filter (\<lambda>(k, _). P k) m) k = (if P k then map_of m k else None)"
  by (induction m) auto

lemma clear_trace_get:
  "memo_get (clear_trace m t) n t' h = (if t' = t then None else memo_get m n t' h)"
  unfolding memo_get_def clear_trace_def map_of_filter_key by simp

section \<open>Merging pulled values into the payload\<close>

definition merge_payload :: "json \<Rightarrow> json_map \<Rightarrow> json" where
  "merge_payload exec_payload data_values =
     (case exec_payload of
        JObject m \<Rightarrow> JObject (fold (\<lambda>(k, v). bt_put k v) data_values m)
      | other \<Rightarrow> JObject (bt_put ''in'' other data_values))"

definition extract_pin_from_payload :: "json \<Rightarrow> string \<Rightarrow> json option" where
  "extract_pin_from_payload payload pin =
     (case payload of JObject m \<Rightarrow> map_of m pin | _ \<Rightarrow> None)"

section \<open>Reading a cache slot\<close>

text \<open>
  What a consumer blocked on a slot sees first: a new value at a time, the expiry of the timer
  (with the value a write racing with it may have left), or the loss of the sender.
\<close>

datatype wait_event =
    Arrives cached_output time
  | TimesOut "cached_output option" time
  | SenderGone

record cache_env =
  ce_caches :: "(string, output_cache) hash_map"
  ce_now :: time
  ce_check :: time
  ce_wait :: wait_event

definition block_until_ready ::
    "cache_env \<Rightarrow> output_cache \<Rightarrow> string \<Rightarrow> string \<Rightarrow> u64 option \<Rightarrow> u64 option \<Rightarrow> json result" where
  "block_until_ready env cache up pin block_timeout ttl =
     (case cache_subscribe cache pin of
        None \<Rightarrow> Inl (DataPinCacheEmpty up pin)
      | Some (s, seen) \<Rightarrow>
          (let timeout_ms = (case block_timeout of Some t \<Rightarrow> t | None \<Rightarrow> DEFAULT_BLOCK_TIMEOUT_MS);
               after_change = (\<lambda>snapshot now.
                  case snapshot of
                    Some cached \<Rightarrow>
                      (if expired now ttl cached then Inl (DataPinPullTimeout up pin timeout_ms)
                       else Inr (co_value cached))
                  | None \<Rightarrow> Inl (DataPinCacheEmpty up pin))
           in case wval (slot_cell s) of
                Some cached \<Rightarrow>
                  (if \<not> expired (ce_check env) ttl cached then Inr (co_value cached)
                   else if watch_pending (slot_cell s) seen
                   then after_change (Some cached) (ce_check env)
                   else (case ce_wait env of
                           Arrives c t \<Rightarrow> after_change (Some c) t
                         | TimesOut c t \<Rightarrow>
                             (let last = (case c of Some x \<Rightarrow> x | None \<Rightarrow> cached)
                              in if expired t ttl last then Inl (DataPinPullTimeout up pin timeout_ms)
                                 else Inr (co_value last))
                         | SenderGone \<Rightarrow> Inl (DataPinCacheEmpty up pin)))
              | None \<Rightarrow>
                  (if watch_pending (slot_cell s) seen then after_change None (ce_check env)
                   else (case ce_wait env of
                           Arrives c t \<Rightarrow> after_change (Some c) t
                         | TimesOut (Some x) t \<Rightarrow>
                             (if expired t ttl x then Inl (DataPinPullTimeout up pin timeout_ms)
                              else Inr (co_value x))
                         | TimesOut None t \<Rightarrow> Inl (DataPinPullTimeout up pin timeout_ms)
                         | SenderGone \<Rightarrow> Inl (DataPinCacheEmpty up pin)))))"

definition read_upstream ::
    "cache_env \<Rightarrow> string \<Rightarrow> string \<Rightarrow> empty_policy \<Rightarrow> u64 option \<Rightarrow> u64 option \<Rightarrow> json result" where
  "read_upstream env up pin policy block_timeout ttl =
     and_then (ok_or (InvalidGraph (Msg ''upstream-cache-missing'' [up])) (map_of (ce_caches env) up))
       (\<lambda>cache.
          case cache_read (ce_now env) cache pin ttl of
            Some cached \<Rightarrow> Inr (co_value cached)
          | None \<Rightarrow>
              (case policy of
                 BlockUntilReady \<Rightarrow> block_until_ready env cache up pin block_timeout ttl
               | DefaultValue v \<Rightarrow> Inr v
               | Skip \<Rightarrow> Inr JNull))"

section \<open>Pulling\<close>

record pull_ctx =
  pc_edges :: edges_by_consumer
  pc_nodes :: "(string, node_trait) hash_map"
  pc_timeouts :: "(string, nat option) hash_map"
  pc_trace :: uuid
  pc_hash :: "json \<Rightarrow> u64"
  pc_exec :: "nat \<Rightarrow> string \<Rightarrow> json \<Rightarrow> node_execution outcome"
  pc_env :: "nat \<Rightarrow> cache_env"

text \<open>
  The state threaded through a pull: the memo and the numbers of cache accesses and of
  \<open>transform\<close> calls so far.
\<close>

record pull_state =
  ps_memo :: pure_memo
  ps_tick :: nat
  ps_runs :: nat

type_synonym ('a, 's) pull = "'s \<Rightarrow> ('a result \<times> 's) option"

text \<open>The port a pulled value is for: its policy, timeout and time to live.\<close>

definition consumer_policy ::
    "pin_definition list \<Rightarrow> string \<Rightarrow> empty_policy \<times> u64 option \<times> u64 option" where
  "consumer_policy pins pin =
     (case map_of (rev (map (\<lambda>p. (pin_id p, p)) pins)) pin of
        Some p \<Rightarrow> (pin_empty_policy p, pin_block_timeout_ms p, pin_ttl_ms p)
      | None \<Rightarrow> (BlockUntilReady, None, None))"

type_synonym 's puller =
  "string \<Rightarrow> string \<Rightarrow> empty_policy \<Rightarrow> u64 option \<Rightarrow> u64 option \<Rightarrow> (json, 's) pull"

fun pull_entries ::
    "'s puller \<Rightarrow> pin_definition list \<Rightarrow> data_in_edge list \<Rightarrow> json_map \<Rightarrow> (json_map, 's) pull" where
  "pull_entries one pins [] acc st = Some (Inr acc, st)"
| "pull_entries one pins (e # es) acc st =
     (let (policy, timeout, ttl) = consumer_policy pins (di_input_pin e)
      in case one (di_upstream e) (di_output_pin e) policy timeout ttl st of
           None \<Rightarrow> None
         | Some (Inl err, st') \<Rightarrow> Some (Inl err, st')
         | Some (Inr v, st') \<Rightarrow> pull_entries one pins es (bt_put (di_input_pin e) v acc) st')"

definition pull_data_inputs_with ::
    "'s puller \<Rightarrow> pull_ctx \<Rightarrow> string \<Rightarrow> node_trait \<Rightarrow> json \<Rightarrow> (json, 's) pull" where
  "pull_data_inputs_with one ctx consumer node exec_payload st =
     (let entries = for_consumer (pc_edges ctx) consumer
      in if entries = [] then Some (Inr exec_payload, st)
         else (case pull_entries one (nt_input_pins node) entries [] st of
                 None \<Rightarrow> None
               | Some (Inl err, st') \<Rightarrow> Some (Inl err, st')
               | Some (Inr vals, st') \<Rightarrow> Some (Inr (merge_payload exec_payload vals), st')))"

definition find_output :: "string \<Rightarrow> node_execution \<Rightarrow> json option" where
  "find_output pin outs =
     (case List.map_filter (\<lambda>out. extract_pin_from_payload (no_payload out) pin) outs of
        v # _ \<Rightarrow> Some v
      | [] \<Rightarrow> (case outs of [] \<Rightarrow> None | out # _ \<Rightarrow> Some (no_payload out)))"

primrec pull_one :: "nat \<Rightarrow> pull_ctx \<Rightarrow> pull_state puller" where
  "pull_one 0 ctx = (\<lambda>up pin policy timeout ttl st. None)"
| "pull_one (Suc fuel) ctx = (\<lambda>up pin policy block_timeout ttl st.
     case map_of (pc_nodes ctx) up of
       None \<Rightarrow> Some (Inl (InvalidGraph (Msg ''pull-upstream-missing'' [up])), st)
     | Some upstream \<Rightarrow>
         if node_is_pure_form upstream then
           (case pull_data_inputs_with (pull_one fuel ctx) ctx up upstream (JObject []) st of
              None \<Rightarrow> None
            | Some (Inl err, st1) \<Rightarrow> Some (Inl err, st1)
            | Some (Inr payload, st1) \<Rightarrow>
                (let ih = pc_hash ctx payload
                 in case memo_get (ps_memo st1) up (pc_trace ctx) ih of
                      Some cached \<Rightarrow>
                        Some (ok_or (DataPinCacheEmpty up pin) (extract_pin_from_payload cached pin), st1)
                    | None \<Rightarrow>
                        (let st2 = st1\<lparr>ps_runs := Suc (ps_runs st1)\<rparr>;
                             timeout = (case map_of (pc_timeouts ctx) up of Some t \<Rightarrow> t | None \<Rightarrow> None)
                         in case guarded_execute up (pc_trace ctx) timeout
                                   (pc_exec ctx (ps_runs st1) up payload) of
                              None \<Rightarrow> None
                            | Some (Inl err) \<Rightarrow> Some (Inl err, st2)
                            | Some (Inr outs) \<Rightarrow>
                                (let st3 = (case outs of
                                       [] \<Rightarrow> st2
                                     | out # _ \<Rightarrow>
                                         st2\<lparr>ps_memo := memo_insert (ps_memo st2) up (pc_trace ctx) ih (no_payload out)\<rparr>)
                                 in Some (ok_or (DataPinCacheEmpty up pin) (find_output pin outs), st3)))))
         else
           Some (read_upstream (pc_env ctx (ps_tick st)) up pin policy block_timeout ttl,
                 st\<lparr>ps_tick := Suc (ps_tick st)\<rparr>))"

definition pull_data_inputs ::
    "nat \<Rightarrow> pull_ctx \<Rightarrow> string \<Rightarrow> node_trait \<Rightarrow> json \<Rightarrow> (json, pull_state) pull" where
  "pull_data_inputs fuel ctx consumer node exec_payload =
     pull_data_inputs_with (pull_one fuel ctx) ctx consumer node exec_payload"

section \<open>Termination\<close>

lemma pull_entries_total:
  "\<forall>e\<in>set es. \<forall>policy timeout ttl st. one (di_upstream e) (di_output_pin e) policy timeout ttl st \<noteq> None
    \<Longrightarrow> pull_entries one pins es acc st \<noteq> None"
proof (induction es arbitrary: acc st)
  case Nil
  then show ?case by simp
next
  case (Cons e es)
  obtain policy timeout ttl where p: "consumer_policy pins (di_input_pin e) = (policy, timeout, ttl)"
    by (cases "consumer_policy pins (di_input_pin e)")
  obtain r st' where "one (di_upstream e) (di_output_pin e) policy timeout ttl st = Some (r, st')"
    using Cons.prems by fastforce
  then show ?case using p Cons by (auto split: sum.splits)
qed

definition runs_return :: "pull_ctx \<Rightarrow> bool" where
  "runs_return ctx \<longleftrightarrow>
     (\<forall>k n x. map_of (pc_timeouts ctx) n \<in> {None, Some None} \<longrightarrow> pc_exec ctx k n x \<noteq> Hangs)"

lemma pull_one_total:
  assumes rank: "\<And>n e. e \<in> set (for_consumer (pc_edges ctx) n) \<Longrightarrow> rank (di_upstream e) < (rank n :: nat)"
    and runs: "runs_return ctx"
  shows "rank up < fuel \<Longrightarrow> pull_one fuel ctx up pin policy timeout ttl st \<noteq> None"
proof (induction fuel arbitrary: up pin policy timeout ttl st)
  case 0
  then show ?case by simp
next
  case (Suc fuel)
  show ?case
  proof (cases "map_of (pc_nodes ctx) up")
    case None
    then show ?thesis by simp
  next
    case (Some node)
    have entries: "pull_entries (pull_one fuel ctx) (nt_input_pins node)
        (for_consumer (pc_edges ctx) up) [] st \<noteq> None"
      by (rule pull_entries_total) (use Suc rank in \<open>fastforce\<close>)
    then have inputs: "pull_data_inputs_with (pull_one fuel ctx) ctx up node (JObject []) st \<noteq> None"
      by (auto simp: pull_data_inputs_with_def Let_def split: sum.splits)
    have guarded: "guarded_execute up (pc_trace ctx)
        (case map_of (pc_timeouts ctx) up of Some t \<Rightarrow> t | None \<Rightarrow> None) (pc_exec ctx k up x) \<noteq> None" for k x
      using runs by (intro guarded_returns) (auto simp: runs_return_def split: option.splits)
    obtain r st1 where r: "pull_data_inputs_with (pull_one fuel ctx) ctx up node (JObject []) st = Some (r, st1)"
      using inputs by auto
    show ?thesis
    proof (cases r)
      case (Inl err)
      then show ?thesis using Some r by simp
    next
      case (Inr payload)
      obtain g where "guarded_execute up (pc_trace ctx)
          (case map_of (pc_timeouts ctx) up of Some t \<Rightarrow> t | None \<Rightarrow> None)
          (pc_exec ctx (ps_runs st1) up payload) = Some g"
        using guarded by blast
      then show ?thesis using Some r Inr by (simp add: Let_def split: option.split sum.split)
    qed
  qed
qed

lemma pull_entries_mono:
  assumes "\<And>up pin policy timeout ttl st r.
      one up pin policy timeout ttl st = Some r \<Longrightarrow> two up pin policy timeout ttl st = Some r"
  shows "pull_entries one pins es acc st = Some r \<Longrightarrow> pull_entries two pins es acc st = Some r"
  by (induction es arbitrary: acc st) (auto split: option.splits sum.splits prod.splits dest!: assms)

lemma pull_inputs_mono:
  assumes "\<And>up pin policy timeout ttl st r.
      one up pin policy timeout ttl st = Some r \<Longrightarrow> two up pin policy timeout ttl st = Some r"
    and "pull_data_inputs_with one ctx n node x st = Some r"
  shows "pull_data_inputs_with two ctx n node x st = Some r"
proof (cases "for_consumer (pc_edges ctx) n = []")
  case True
  then show ?thesis using assms(2) by (simp add: pull_data_inputs_with_def)
next
  case False
  then obtain p where p: "pull_entries one (nt_input_pins node) (for_consumer (pc_edges ctx) n) [] st = Some p"
    using assms(2) by (auto simp: pull_data_inputs_with_def Let_def split: option.splits)
  have "pull_entries two (nt_input_pins node) (for_consumer (pc_edges ctx) n) [] st = Some p"
    using p by (rule pull_entries_mono [rotated]) (rule assms(1))
  then show ?thesis using assms(2) p False by (simp add: pull_data_inputs_with_def Let_def)
qed

text \<open>More fuel never changes a result.\<close>

lemma pull_one_mono:
  "pull_one fuel ctx up pin policy timeout ttl st = Some r \<Longrightarrow>
    pull_one (fuel + k) ctx up pin policy timeout ttl st = Some r"
proof (induction fuel arbitrary: up pin policy timeout ttl st r)
  case 0
  then show ?case by simp
next
  case (Suc fuel)
  show ?case
  proof (cases "map_of (pc_nodes ctx) up")
    case None
    then show ?thesis using Suc.prems by simp
  next
    case (Some node)
    show ?thesis
    proof (cases "node_is_pure_form node")
      case False
      then show ?thesis using Some Suc.prems by simp
    next
      case True
      then obtain p where p: "pull_data_inputs_with (pull_one fuel ctx) ctx up node (JObject []) st = Some p"
        using Suc.prems Some by (auto split: option.splits)
      have "pull_data_inputs_with (pull_one (fuel + k) ctx) ctx up node (JObject []) st = Some p"
        by (rule pull_inputs_mono [OF Suc.IH p])
      then show ?thesis using Suc.prems Some True p by simp
    qed
  qed
qed

text \<open>Acyclic edges have a rank below the number of their end points.\<close>

lemma acyclic_rank:
  assumes E: "set es \<subseteq> V \<times> V" and fin: "finite V" and ac: "acyclic (set es)"
  shows "\<exists>rank :: 'a \<Rightarrow> nat. (\<forall>(u, v)\<in>set es. rank u < rank v) \<and> (\<forall>v. rank v < Suc (card V))"
proof -
  have "wf (set es)" using ac by (simp add: finite_acyclic_wf)
  let ?pred = "\<lambda>v. {u. (u, v) \<in> (set es)\<^sup>+}"
  have sub: "?pred v \<subseteq> V" for v
    using E by (auto dest: trancl_domain [THEN equalityD1, THEN subsetD, OF DomainI])
  have finp: "finite (?pred v)" for v using sub fin by (rule finite_subset)
  have "card (?pred u) < card (?pred v)" if "(u, v) \<in> set es" for u v
  proof (rule psubset_card_mono [OF finp])
    have "u \<in> ?pred v" using that by blast
    moreover have "u \<notin> ?pred u" using ac by (auto simp: acyclic_def)
    moreover have "?pred u \<subseteq> ?pred v" using that by (auto intro: trancl_into_trancl)
    ultimately show "?pred u \<subset> ?pred v" by blast
  qed
  moreover have "card (?pred v) < Suc (card V)" for v
    using card_mono [OF fin sub [of v]] by simp
  ultimately show ?thesis by (intro exI [of _ "\<lambda>v. card (?pred v)"]) auto
qed

lemma pull_data_inputs_total:
  assumes "pc_edges ctx = build_edges_by_consumer es" and "acyclic (set (edge_pairs es))"
    and "runs_return ctx" and "card (e_from ` set es \<union> e_to ` set es) < fuel"
  shows "pull_data_inputs fuel ctx n node x st \<noteq> None"
proof -
  let ?V = "e_from ` set es \<union> e_to ` set es"
  have E: "set (edge_pairs es) \<subseteq> ?V \<times> ?V" by (auto simp: set_edge_pairs)
  obtain rank where rank: "\<forall>(u, v)\<in>set (edge_pairs es). rank u < rank v" "\<forall>v. rank v < Suc (card ?V)"
    using acyclic_rank [OF E _ assms(2)] by auto
  have step: "rank (di_upstream e) < rank m" if "e \<in> set (for_consumer (pc_edges ctx) m)" for m e
    using that rank(1) by (auto simp: assms(1) for_consumer_build set_edge_pairs data_in_edge_of_def)
  have "pull_one fuel ctx up pin policy timeout ttl st \<noteq> None" for up pin policy timeout ttl st
  proof -
    have "rank up < fuel" using rank(2) assms(4) by (meson less_Suc_eq_le order_le_less_trans)
    then show ?thesis
      by (intro pull_one_total [where rank = rank] assms(3)) (use step in \<open>auto\<close>)
  qed
  then have "pull_entries (pull_one fuel ctx) (nt_input_pins node) (for_consumer (pc_edges ctx) n) [] st \<noteq> None"
    by (intro pull_entries_total) blast
  then show ?thesis
    by (auto simp: pull_data_inputs_def pull_data_inputs_with_def Let_def split: sum.splits)
qed

text \<open>
  C5: when the data edges have no cycle (which deployment checks) and the transforms of pure nodes that
  run without a time-out return, a pull returns: the recursion through pure nodes is never deeper than
  the number of nodes on data edges.
\<close>

theorem pull_terminates:
  assumes "pc_edges ctx = build_edges_by_consumer es" and "acyclic (set (edge_pairs es))"
    and "runs_return ctx" and "card (e_from ` set es \<union> e_to ` set es) < fuel"
  shows "pull_data_inputs fuel ctx n node x st \<noteq> None"
  using assms by (rule pull_data_inputs_total)

section \<open>The memo is transparent\<close>

text \<open>
  The specification: the same pull without a memo, every pure node being run each time its value
  is asked for. Its state is the number of cache accesses.
\<close>

primrec pull_plain :: "nat \<Rightarrow> pull_ctx \<Rightarrow> nat puller" where
  "pull_plain 0 ctx = (\<lambda>up pin policy timeout ttl k. None)"
| "pull_plain (Suc fuel) ctx = (\<lambda>up pin policy block_timeout ttl k.
     case map_of (pc_nodes ctx) up of
       None \<Rightarrow> Some (Inl (InvalidGraph (Msg ''pull-upstream-missing'' [up])), k)
     | Some upstream \<Rightarrow>
         if node_is_pure_form upstream then
           (case pull_data_inputs_with (pull_plain fuel ctx) ctx up upstream (JObject []) k of
              None \<Rightarrow> None
            | Some (Inl err, k1) \<Rightarrow> Some (Inl err, k1)
            | Some (Inr payload, k1) \<Rightarrow>
                (let timeout = (case map_of (pc_timeouts ctx) up of Some t \<Rightarrow> t | None \<Rightarrow> None)
                 in case guarded_execute up (pc_trace ctx) timeout (pc_exec ctx 0 up payload) of
                      None \<Rightarrow> None
                    | Some (Inl err) \<Rightarrow> Some (Inl err, k1)
                    | Some (Inr outs) \<Rightarrow>
                        Some (ok_or (DataPinCacheEmpty up pin) (find_output pin outs), k1)))
         else Some (read_upstream (pc_env ctx k) up pin policy block_timeout ttl, Suc k))"

text \<open>The payloads a pure node can be given in this environment.\<close>

definition pure_inputs :: "pull_ctx \<Rightarrow> json set" where
  "pure_inputs ctx =
     {v. \<exists>fuel up node k k'. map_of (pc_nodes ctx) up = Some node \<and> node_is_pure_form node \<and>
           pull_data_inputs_with (pull_plain fuel ctx) ctx up node (JObject []) k = Some (Inr v, k')}"

text \<open>
  What the memo relies on: \<open>transform\<close> of a pure-form node depends on its payload alone, the hash
  separates the payloads that occur, and the first output of a pure node carries the value of
  each of its output ports.
\<close>

definition memo_assumptions :: "pull_ctx \<Rightarrow> bool" where
  "memo_assumptions ctx \<longleftrightarrow>
     (\<forall>k n x. pc_exec ctx k n x = pc_exec ctx 0 n x) \<and>
     inj_on (pc_hash ctx) (pure_inputs ctx) \<and>
     (\<forall>n node x outs. map_of (pc_nodes ctx) n = Some node \<longrightarrow> node_is_pure_form node \<longrightarrow>
        x \<in> pure_inputs ctx \<longrightarrow> pc_exec ctx 0 n x = Finishes (Inr outs) \<longrightarrow>
        outs \<noteq> [] \<and> (\<forall>p\<in>set (nt_output_pins node).
          extract_pin_from_payload (no_payload (hd outs)) (pin_id p) \<noteq> None))"

definition asks_declared :: "pull_ctx \<Rightarrow> string \<Rightarrow> string \<Rightarrow> bool" where
  "asks_declared ctx up pin \<longleftrightarrow>
     (\<forall>node. map_of (pc_nodes ctx) up = Some node \<longrightarrow> pin \<in> pin_id ` set (nt_output_pins node))"

definition edges_declared :: "pull_ctx \<Rightarrow> bool" where
  "edges_declared ctx \<longleftrightarrow>
     (\<forall>n. \<forall>e\<in>set (for_consumer (pc_edges ctx) n). asks_declared ctx (di_upstream e) (di_output_pin e))"

definition memo_sound :: "pull_ctx \<Rightarrow> pure_memo \<Rightarrow> bool" where
  "memo_sound ctx m \<longleftrightarrow>
     (\<forall>n h v. memo_get m n (pc_trace ctx) h = Some v \<longrightarrow>
        (\<exists>x outs. x \<in> pure_inputs ctx \<and> pc_hash ctx x = h \<and>
           pc_exec ctx 0 n x = Finishes (Inr outs) \<and> outs \<noteq> [] \<and> no_payload (hd outs) = v))"

text \<open>A pull and its specification agree on the result and on the cache accesses.\<close>

definition agrees :: "pull_ctx \<Rightarrow> ('a result \<times> pull_state) option \<Rightarrow> ('a result \<times> nat) option \<Rightarrow> bool" where
  "agrees ctx a b \<longleftrightarrow>
     (case a of
        None \<Rightarrow> b = None
      | Some (r, st) \<Rightarrow> b = Some (r, ps_tick st) \<and> memo_sound ctx (ps_memo st))"

lemma pull_entries_agrees:
  assumes "\<And>up pin policy timeout ttl st. memo_sound ctx (ps_memo st) \<Longrightarrow> asks_declared ctx up pin \<Longrightarrow>
      agrees ctx (one up pin policy timeout ttl st) (plain up pin policy timeout ttl (ps_tick st))"
    and "\<forall>e\<in>set es. asks_declared ctx (di_upstream e) (di_output_pin e)"
  shows "memo_sound ctx (ps_memo st) \<Longrightarrow>
    agrees ctx (pull_entries one pins es acc st) (pull_entries plain pins es acc (ps_tick st))"
  using assms(2)
proof (induction es arbitrary: acc st)
  case Nil
  then show ?case by (simp add: agrees_def)
next
  case (Cons e es)
  obtain policy timeout ttl where p: "consumer_policy pins (di_input_pin e) = (policy, timeout, ttl)"
    by (cases "consumer_policy pins (di_input_pin e)")
  let ?one = "one (di_upstream e) (di_output_pin e) policy timeout ttl st"
  have a: "agrees ctx ?one (plain (di_upstream e) (di_output_pin e) policy timeout ttl (ps_tick st))"
    using Cons.prems by (intro assms(1)) simp_all
  show ?case
  proof (cases ?one)
    case None
    then show ?thesis using a p by (simp add: agrees_def)
  next
    case (Some q)
    obtain r st' where q: "q = (r, st')" by (cases q)
    show ?thesis
      using a Some q p Cons.IH [of st'] Cons.prems by (cases r) (simp_all add: agrees_def)
  qed
qed

lemma pull_inputs_agrees:
  assumes "\<And>up pin policy timeout ttl st. memo_sound ctx (ps_memo st) \<Longrightarrow> asks_declared ctx up pin \<Longrightarrow>
      agrees ctx (one up pin policy timeout ttl st) (plain up pin policy timeout ttl (ps_tick st))"
    and "edges_declared ctx" and "memo_sound ctx (ps_memo st)"
  shows "agrees ctx (pull_data_inputs_with one ctx n node x st)
    (pull_data_inputs_with plain ctx n node x (ps_tick st))"
proof -
  let ?es = "for_consumer (pc_edges ctx) n"
  have "agrees ctx (pull_entries one (nt_input_pins node) ?es [] st)
      (pull_entries plain (nt_input_pins node) ?es [] (ps_tick st))"
    using assms(2) by (intro pull_entries_agrees assms(1,3)) (simp_all add: edges_declared_def)
  then show ?thesis using assms(3)
    by (auto simp: agrees_def pull_data_inputs_with_def Let_def split: option.splits sum.splits)
qed

lemma find_output_hd:
  "outs \<noteq> [] \<Longrightarrow> extract_pin_from_payload (no_payload (hd outs)) pin = Some v \<Longrightarrow>
    find_output pin outs = Some v"
  by (cases outs) (simp_all add: find_output_def List.map_filter_simps)

lemma memo_sound_insert:
  assumes "memo_sound ctx m" "x \<in> pure_inputs ctx"
    "pc_exec ctx 0 n x = Finishes (Inr (out # outs))"
  shows "memo_sound ctx (memo_insert m n (pc_trace ctx) (pc_hash ctx x) (no_payload out))"
  using assms unfolding memo_sound_def memo_get_def memo_insert_def
  by (auto split: if_splits)

lemma pull_one_agrees:
  assumes A: "memo_assumptions ctx" and D: "edges_declared ctx"
  shows "memo_sound ctx (ps_memo st) \<Longrightarrow> asks_declared ctx up pin \<Longrightarrow>
    agrees ctx (pull_one fuel ctx up pin policy timeout ttl st)
      (pull_plain fuel ctx up pin policy timeout ttl (ps_tick st))"
proof (induction fuel arbitrary: up pin policy timeout ttl st)
  case 0
  then show ?case by (simp add: agrees_def)
next
  case (Suc fuel)
  show ?case
  proof (cases "map_of (pc_nodes ctx) up")
    case None
    then show ?thesis using Suc.prems by (simp add: agrees_def)
  next
    case node: (Some node)
    show ?thesis
    proof (cases "node_is_pure_form node")
      case False
      then show ?thesis using node Suc.prems by (simp add: agrees_def)
    next
      case pure: True
      let ?in = "pull_data_inputs_with (pull_one fuel ctx) ctx up node (JObject []) st"
      have a: "agrees ctx ?in
          (pull_data_inputs_with (pull_plain fuel ctx) ctx up node (JObject []) (ps_tick st))"
        by (intro pull_inputs_agrees D Suc.prems(1)) (rule Suc.IH)
      show ?thesis
      proof (cases ?in)
        case None
        then show ?thesis using a node pure by (simp add: agrees_def)
      next
        case (Some q)
        obtain r st1 where q: "q = (r, st1)" by (cases q)
        have plain: "pull_data_inputs_with (pull_plain fuel ctx) ctx up node (JObject []) (ps_tick st)
            = Some (r, ps_tick st1)" and m1: "memo_sound ctx (ps_memo st1)"
          using a Some q by (simp_all add: agrees_def)
        show ?thesis
        proof (cases r)
          case (Inl err)
          then show ?thesis using Some q plain m1 node pure by (simp add: agrees_def)
        next
          case (Inr payload)
          have x: "payload \<in> pure_inputs ctx"
            using plain Inr node pure unfolding pure_inputs_def by blast
          have det: "pc_exec ctx k up payload = pc_exec ctx 0 up payload" for k
            using A unfolding memo_assumptions_def by blast
          let ?t = "case map_of (pc_timeouts ctx) up of Some t \<Rightarrow> t | None \<Rightarrow> None"
          obtain p where p: "p \<in> set (nt_output_pins node)" "pin_id p = pin"
            using Suc.prems(2) node by (auto simp: asks_declared_def)
          have shape: "outs \<noteq> [] \<and> extract_pin_from_payload (no_payload (hd outs)) pin \<noteq> None"
            if "pc_exec ctx 0 up payload = Finishes (Inr outs)" for outs
            using A node pure x that p unfolding memo_assumptions_def by blast
          show ?thesis
          proof (cases "memo_get (ps_memo st1) up (pc_trace ctx) (pc_hash ctx payload)")
            case None
            show ?thesis
            proof (cases "guarded_execute up (pc_trace ctx) ?t (pc_exec ctx 0 up payload)")
              case g: None
              then show ?thesis using None Some q plain node pure Inr
                by (simp add: agrees_def det [of "ps_runs st1"] Let_def)
            next
              case g: (Some w)
              show ?thesis
              proof (cases w)
                case (Inl err)
                then show ?thesis using g None Some q plain node pure \<open>r = Inr payload\<close> m1
                  by (simp add: agrees_def det [of "ps_runs st1"] Let_def)
              next
                case w: (Inr outs)
                then have e: "pc_exec ctx 0 up payload = Finishes (Inr outs)"
                  using g by (simp add: guarded_Inr)
                then obtain out rest where outs: "outs = out # rest"
                  using shape by (cases outs) auto
                have "memo_sound ctx (memo_insert (ps_memo st1) up (pc_trace ctx) (pc_hash ctx payload) (no_payload out))"
                  using m1 x e outs by (intro memo_sound_insert) simp_all
                then show ?thesis using g w outs None Some q plain node pure \<open>r = Inr payload\<close>
                  by (simp add: agrees_def det [of "ps_runs st1"] Let_def)
              qed
            qed
          next
            case hit: (Some cached)
            then obtain y outs where y: "y \<in> pure_inputs ctx" "pc_hash ctx y = pc_hash ctx payload"
              "pc_exec ctx 0 up y = Finishes (Inr outs)" "outs \<noteq> []" "no_payload (hd outs) = cached"
              using m1 unfolding memo_sound_def by blast
            have "inj_on (pc_hash ctx) (pure_inputs ctx)" using A by (simp add: memo_assumptions_def)
            then have "y = payload" using y(1,2) x by (simp add: inj_on_def)
            then have e: "pc_exec ctx 0 up payload = Finishes (Inr outs)" using y(3) by simp
            then obtain v where v: "extract_pin_from_payload cached pin = Some v"
              using shape y(5) by blast
            have "find_output pin outs = Some v" using find_output_hd y(4,5) v by blast
            moreover have "guarded_execute up (pc_trace ctx) ?t (pc_exec ctx 0 up payload) = Some (Inr outs)"
              using e by (simp add: guarded_Inr)
            ultimately show ?thesis using hit v Some q plain node pure Inr m1
              by (simp add: agrees_def Let_def)
          qed
        qed
      qed
    qed
  qed
qed

text \<open>The example of this theory: a constant pure node feeds two ports of one consumer.\<close>

definition demo_pure :: node_trait where
  "demo_pure = \<lparr>nt_id = ''k'', nt_kind = ''constant'', nt_input_pins = [],
     nt_output_pins = [output_named_data ''out'' ''out'' TAny ''d'']\<rparr>"

definition demo_view :: node_trait where
  "demo_view = \<lparr>nt_id = ''view'', nt_kind = ''debugConsole'',
     nt_input_pins = [default_input], nt_output_pins = []\<rparr>"

definition demo_pull_edge :: "string \<Rightarrow> workflow_edge" where
  "demo_pull_edge pin = \<lparr>e_from = ''k'', e_to = ''view'', e_source_port_id = Some ''out'',
     e_target_port_id = Some pin, e_backpressure_policy = None\<rparr>"

definition demo_pull_edges :: "workflow_edge list" where
  "demo_pull_edges = [demo_pull_edge ''x'', demo_pull_edge ''y'']"

text \<open>\<open>value\<close> is what the constant node returns.\<close>

definition demo_ctx :: "json \<Rightarrow> pull_ctx" where
  "demo_ctx value = \<lparr>pc_edges = build_edges_by_consumer demo_pull_edges,
     pc_nodes = [(''k'', demo_pure), (''view'', demo_view)], pc_timeouts = [], pc_trace = 7,
     pc_hash = (\<lambda>_. 0), pc_exec = (\<lambda>_ _ _. Finishes (Inr (broadcast value))),
     pc_env = (\<lambda>_. \<lparr>ce_caches = [], ce_now = 0, ce_check = 0, ce_wait = SenderGone\<rparr>)\<rparr>"

definition demo_start :: pull_state where
  "demo_start = \<lparr>ps_memo = [], ps_tick = 0, ps_runs = 0\<rparr>"

theorem pull_terminates_witness:
  "pull_data_inputs 3 (demo_ctx JNull) ''view'' demo_view JNull demo_start \<noteq> None"
proof (rule pull_terminates [of _ demo_pull_edges])
  show "pc_edges (demo_ctx JNull) = build_edges_by_consumer demo_pull_edges" by (simp add: demo_ctx_def)
  have "acyclic ({} :: (string \<times> string) set)" by (simp add: acyclic_def)
  then show "acyclic (set (edge_pairs demo_pull_edges))"
    by (simp add: demo_pull_edges_def demo_pull_edge_def)
  show "runs_return (demo_ctx JNull)" by (simp add: runs_return_def demo_ctx_def)
  show "card (e_from ` set demo_pull_edges \<union> e_to ` set demo_pull_edges) < 3"
    by (simp add: demo_pull_edges_def demo_pull_edge_def card_insert_if)
qed

lemma memo_transparent_spec:
  assumes "memo_assumptions ctx" and "edges_declared ctx" and "memo_sound ctx (ps_memo st)"
    and "pull_data_inputs fuel ctx n node x st = Some (r, st')"
  shows "pull_data_inputs_with (pull_plain fuel ctx) ctx n node x (ps_tick st) = Some (r, ps_tick st') \<and>
    memo_sound ctx (ps_memo st')"
proof -
  have "agrees ctx (pull_data_inputs fuel ctx n node x st)
      (pull_data_inputs_with (pull_plain fuel ctx) ctx n node x (ps_tick st))"
    unfolding pull_data_inputs_def
    by (intro pull_inputs_agrees assms(2,3)) (rule pull_one_agrees [OF assms(1,2)])
  then show ?thesis using assms(4) by (simp add: agrees_def)
qed

text \<open>
  C8: under the assumptions on pure nodes, a pull with the memo returns the value, performs the
  cache accesses and raises the errors of a pull without one, and leaves a memo that is sound for
  the next pull of the trace.
\<close>

theorem memo_transparent:
  assumes "memo_assumptions ctx" and "edges_declared ctx" and "memo_sound ctx (ps_memo st)"
    and "pull_data_inputs fuel ctx n node x st = Some (r, st')"
  shows "pull_data_inputs_with (pull_plain fuel ctx) ctx n node x (ps_tick st) = Some (r, ps_tick st') \<and>
    memo_sound ctx (ps_memo st')"
  by (rule memo_transparent_spec [OF assms])

lemma demo_pure_inputs: "pure_inputs (demo_ctx v) \<subseteq> {JObject []}"
proof
  fix x assume "x \<in> pure_inputs (demo_ctx v)"
  then obtain fuel up node k k' where node: "map_of (pc_nodes (demo_ctx v)) up = Some node"
    "node_is_pure_form node"
    and x: "pull_data_inputs_with (pull_plain fuel (demo_ctx v)) (demo_ctx v) up node (JObject []) k
      = Some (Inr x, k')"
    unfolding pure_inputs_def by blast
  have "up = ''k''" using node
    by (auto simp: demo_ctx_def node_is_pure_form_def is_pure_form_def demo_view_def default_input_def
        split: if_splits)
  then have "for_consumer (pc_edges (demo_ctx v)) up = []"
    by (simp add: demo_ctx_def for_consumer_build demo_pull_edges_def demo_pull_edge_def)
  then show "x \<in> {JObject []}" using x by (simp add: pull_data_inputs_with_def)
qed

theorem memo_transparent_witness:
  "pull_data_inputs_with (pull_plain 2 (demo_ctx (JObject [(''out'', JBool True)])))
     (demo_ctx (JObject [(''out'', JBool True)])) ''view'' demo_view JNull 0
   = Some (Inr (JObject [(''in'', JNull), (''x'', JBool True), (''y'', JBool True)]), 0)"
proof -
  let ?c = "demo_ctx (JObject [(''out'', JBool True)])"
  have "inj_on (pc_hash ?c) (pure_inputs ?c)"
    by (rule inj_on_subset [OF _ demo_pure_inputs]) simp
  then have A: "memo_assumptions ?c"
    by (auto simp: memo_assumptions_def demo_ctx_def broadcast_def extract_pin_from_payload_def
        demo_pure_def demo_view_def output_named_data_def split: if_splits)
  have D: "edges_declared ?c"
    by (auto simp: edges_declared_def demo_ctx_def for_consumer_build demo_pull_edges_def
        demo_pull_edge_def data_in_edge_of_def asks_declared_def demo_pure_def output_named_data_def)
  have S: "memo_sound ?c (ps_memo demo_start)" by (simp add: memo_sound_def demo_start_def memo_get_def)
  have "case pull_data_inputs 2 ?c ''view'' demo_view JNull demo_start of
      Some (r, st') \<Rightarrow>
        r = Inr (JObject [(''in'', JNull), (''x'', JBool True), (''y'', JBool True)]) \<and> ps_tick st' = 0
    | None \<Rightarrow> False"
    by code_simp
  then show ?thesis using memo_transparent [OF A D S]
    by (auto simp: demo_start_def split: option.splits)
qed

text \<open>
  Without the last assumption the memo shows: a pure node that returns a bare value serves the
  first consumer port, and fails the second one, which finds the memo.
\<close>

lemma memo_hit_loses_bare_value:
  "case pull_one 1 (demo_ctx (JBool True)) ''k'' ''out'' Skip None None demo_start of
     None \<Rightarrow> False
   | Some (r, st') \<Rightarrow> r = Inr (JBool True) \<and>
       map_option fst (pull_one 1 (demo_ctx (JBool True)) ''k'' ''out'' Skip None None st') =
         Some (Inl (DataPinCacheEmpty ''k'' ''out''))"
  by code_simp

section \<open>Freshness of pulled values\<close>

definition slot_value :: "cache_env \<Rightarrow> string \<Rightarrow> string \<Rightarrow> cached_output option" where
  "slot_value env up pin =
     Option.bind (map_of (ce_caches env) up)
       (\<lambda>cache. Option.bind (map_of cache pin) (\<lambda>s. wval (slot_cell s)))"

definition seen_at :: "cache_env \<Rightarrow> string \<Rightarrow> string \<Rightarrow> cached_output \<Rightarrow> time \<Rightarrow> bool" where
  "seen_at env up pin c t \<longleftrightarrow>
     (slot_value env up pin = Some c \<and> (t = ce_now env \<or> t = ce_check env \<or> (\<exists>x. ce_wait env = TimesOut x t))) \<or>
     ce_wait env = Arrives c t \<or> ce_wait env = TimesOut (Some c) t"

text \<open>
  C9: a value pulled from the cache of an upstream node was in its slot, or written to it while the
  consumer waited, and had not outlived the time to live of the consumer's port when it was read;
  any other value is the one the port's policy gives for an empty slot.
\<close>

theorem pulled_value_is_fresh:
  assumes "read_upstream env up pin policy block_timeout ttl = Inr v"
  shows "policy = DefaultValue v \<or> policy = Skip \<and> v = JNull \<or>
    (\<exists>c t. v = co_value c \<and> seen_at env up pin c t \<and> \<not> expired t ttl c)"
proof -
  obtain cache where cache: "map_of (ce_caches env) up = Some cache"
    using assms by (auto simp: read_upstream_def and_then_Inr)
  show ?thesis
  proof (cases "cache_read (ce_now env) cache pin ttl")
    case (Some cached)
    then have "slot_value env up pin = Some cached" "\<not> expired (ce_now env) ttl cached"
      using cache by (auto simp: cache_read_def slot_value_def split: option.splits if_splits)
    then show ?thesis using assms cache Some by (auto simp: read_upstream_def seen_at_def)
  next
    case None
    show ?thesis
    proof (cases policy)
      case BlockUntilReady
      then have b: "block_until_ready env cache up pin block_timeout ttl = Inr v"
        using assms cache None by (simp add: read_upstream_def)
      then obtain s where s: "map_of cache pin = Some s"
        by (auto simp: block_until_ready_def cache_subscribe_def split: option.splits)
      then have sv: "slot_value env up pin = wval (slot_cell s)" using cache by (simp add: slot_value_def)
      show ?thesis using b s sv
        by (auto simp: block_until_ready_def cache_subscribe_def Let_def seen_at_def
            split: option.splits if_splits wait_event.splits)
    qed (use assms cache None in \<open>auto simp: read_upstream_def\<close>)
  qed
qed

definition demo_slot_env :: "time \<Rightarrow> wait_event \<Rightarrow> cache_env" where
  "demo_slot_env now w = \<lparr>ce_caches = [(''s'', snd (cache_write_now 0 (prepare_slot [] ''p'') ''p'' (JBool True) 1))],
     ce_now = now, ce_check = now, ce_wait = w\<rparr>"

theorem pulled_value_is_fresh_witness:
  "\<exists>c t. JBool True = co_value c \<and> seen_at (demo_slot_env 5000000 SenderGone) ''s'' ''p'' c t \<and>
    \<not> expired t (Some 10) c"
proof -
  have "read_upstream (demo_slot_env 5000000 SenderGone) ''s'' ''p'' BlockUntilReady None (Some 10) =
      Inr (JBool True)" by code_simp
  then show ?thesis using pulled_value_is_fresh by blast
qed

text \<open>
  An expired value is not waited for: the subscription has never looked at the cell, so the first
  look at it counts as a change, and the pull fails at once whatever would have arrived.
\<close>

lemma expired_slot_is_not_awaited:
  assumes "map_of (ce_caches env) up = Some cache" "cache_inv cache"
    and "slot_value env up pin = Some c" "expired (ce_now env) ttl c" "expired (ce_check env) ttl c"
  shows "read_upstream env up pin BlockUntilReady block_timeout ttl =
    Inl (DataPinPullTimeout up pin (case block_timeout of Some t \<Rightarrow> t | None \<Rightarrow> DEFAULT_BLOCK_TIMEOUT_MS))"
proof -
  obtain s where s: "map_of cache pin = Some s" "wval (slot_cell s) = Some c"
    using assms(1,3) by (auto simp: slot_value_def bind_eq_Some_conv)
  then have "wversion (slot_cell s) \<noteq> 0" "slot_rx_seen s = 0"
    using assms(2) unfolding cache_inv_def by (metis option.distinct(1), blast)
  then show ?thesis using assms s
    by (simp add: read_upstream_def cache_read_def block_until_ready_def cache_subscribe_def
        watch_pending_def Let_def)
qed

end
