(* ===== verification/Runner.thy ===== *)
theory Runner
  imports Edge_Window Data_Store Pull
begin

text \<open>
  \<open>crates/graph/src/runner.rs\<close> and the envelopes of \<open>crates/core/src/context.rs\<close>: the loop that
  takes a reference from a node's input, reads and releases its payload, pulls the data inputs,
  runs the node and distributes its outputs to caches, downstream inputs or the result stream.

  The state shared by all nodes is \<open>engine\<close>: the payload store, the input queue of every node,
  the result queue and the event queue. \<open>eg_lost\<close> is a ghost field: the identifiers of references
  that were still queued when a receiver was dropped. What the run-time draws from outside during
  one message (clock, fresh identifiers, receivers that disappear in the middle of a send) is the
  argument \<open>run_env\<close>.
\<close>

section \<open>Envelopes\<close>

record workflow_context =
  wc_trace_id :: uuid
  wc_timestamp :: time
  wc_payload :: json

record context_ref =
  cr_trace_id :: uuid
  cr_timestamp :: time
  cr_data_id :: uuid
  cr_source_node :: "string option"

definition context_ref_new :: "time \<Rightarrow> uuid \<Rightarrow> uuid \<Rightarrow> string option \<Rightarrow> context_ref" where
  "context_ref_new now trace data source =
     \<lparr>cr_trace_id = trace, cr_timestamp = now, cr_data_id = data, cr_source_node = source\<rparr>"

section \<open>The shared state\<close>

record engine =
  eg_store :: arena
  eg_inputs :: "(string, context_ref chan) hash_map"
  eg_results :: "context_ref chan"
  eg_events :: event_chan
  eg_lost :: "uuid list"

text \<open>A sender whose channel is gone behaves as a closed one.\<close>

definition input_chan :: "engine \<Rightarrow> string \<Rightarrow> context_ref chan" where
  "input_chan eg n =
     (case map_of (eg_inputs eg) n of
        Some c \<Rightarrow> c
      | None \<Rightarrow> \<lparr>queue = [], max_capacity = 0, closed = True\<rparr>)"

definition set_input :: "engine \<Rightarrow> string \<Rightarrow> context_ref chan \<Rightarrow> engine" where
  "set_input eg n c = eg\<lparr>eg_inputs := hm_insert n c (eg_inputs eg)\<rparr>"

text \<open>Dropping the receiver of a node's input: what is queued is dropped with it.\<close>

definition close_input :: "engine \<Rightarrow> string \<Rightarrow> engine" where
  "close_input eg n =
     (case map_of (eg_inputs eg) n of
        None \<Rightarrow> eg
      | Some c \<Rightarrow>
          (set_input eg n (c\<lparr>queue := [], closed := True\<rparr>))
            \<lparr>eg_lost := map cr_data_id (queue c) @ eg_lost eg\<rparr>)"

definition eg_release :: "engine \<Rightarrow> uuid \<Rightarrow> engine" where
  "eg_release eg i = eg\<lparr>eg_store := store_release (eg_store eg) i\<rparr>"

definition eg_emit :: "engine \<Rightarrow> execution_event list \<Rightarrow> engine" where
  "eg_emit eg es = eg\<lparr>eg_events := emit_all (eg_events eg) es\<rparr>"

section \<open>Static configuration of a running node\<close>

record downstream_target =
  dt_source_port_id :: "string option"
  dt_target_node_id :: string
  dt_target_port_id :: "string option"
  dt_edge_kind :: pin_kind
  dt_backpressure_policy :: backpressure_policy

record runtime_node =
  rn_id :: string
  rn_timeout :: "nat option"
  rn_targets :: "downstream_target list"
  rn_data_pins :: "string list"
  rn_reactive_pins :: "string list"
  rn_has_non_data_output :: bool

type_synonym edge_key = "string \<times> string \<times> string"

definition from_pin_of :: "downstream_target \<Rightarrow> string" where
  "from_pin_of t = (case dt_source_port_id t of Some p \<Rightarrow> p | None \<Rightarrow> ''out'')"

definition to_pin_of :: "downstream_target \<Rightarrow> string" where
  "to_pin_of t = (case dt_target_port_id t of Some p \<Rightarrow> p | None \<Rightarrow> ''in'')"

definition edge_key_of :: "downstream_target \<Rightarrow> edge_key" where
  "edge_key_of t = (from_pin_of t, dt_target_node_id t, to_pin_of t)"

definition initial_windows ::
    "engine \<Rightarrow> time \<Rightarrow> downstream_target list \<Rightarrow> (edge_key, edge_window) hash_map" where
  "initial_windows eg now tgts =
     fold (\<lambda>t m. hm_insert (edge_key_of t)
             (window_new (from_pin_of t) (dt_target_node_id t) (to_pin_of t) (dt_edge_kind t)
                (of_nat (max_capacity (input_chan eg (dt_target_node_id t))))
                (dt_backpressure_policy t) now) m)
       tgts []"

section \<open>What an output is sent to\<close>

definition data_cache_value_for_pin :: "string \<Rightarrow> json \<Rightarrow> json" where
  "data_cache_value_for_pin pin payload =
     (case payload of
        JObject m \<Rightarrow> (case map_of m pin of Some v \<Rightarrow> v | None \<Rightarrow> payload)
      | _ \<Rightarrow> payload)"

definition cache_pins_to_write :: "runtime_node \<Rightarrow> node_dispatch \<Rightarrow> string list" where
  "cache_pins_to_write rn dispatch =
     (if rn_data_pins rn \<noteq> [] \<or> rn_reactive_pins rn \<noteq> [] then
        (case dispatch of
           Broadcast \<Rightarrow> rn_data_pins rn @ rn_reactive_pins rn
         | Route ports \<Rightarrow>
             filter (\<lambda>p. p \<in> set (rn_data_pins rn) \<or> p \<in> set (rn_reactive_pins rn)) ports)
      else [])"

definition write_caches ::
    "time \<Rightarrow> uuid \<Rightarrow> json \<Rightarrow> string list \<Rightarrow> output_cache \<Rightarrow> output_cache" where
  "write_caches now trace payload pins cache =
     fold (\<lambda>p c. snd (cache_write_now now c p (data_cache_value_for_pin p payload) trace)) pins cache"

definition matching_targets :: "runtime_node \<Rightarrow> node_dispatch \<Rightarrow> downstream_target list" where
  "matching_targets rn dispatch =
     (case dispatch of
        Broadcast \<Rightarrow>
          filter (\<lambda>t. case dt_source_port_id t of
                        None \<Rightarrow> True | Some port \<Rightarrow> port \<notin> set (rn_data_pins rn)) (rn_targets rn)
      | Route ports \<Rightarrow>
          filter (\<lambda>t. case dt_source_port_id t of
                        None \<Rightarrow> False
                      | Some port \<Rightarrow> port \<notin> set (rn_data_pins rn) \<and> port \<in> set ports) (rn_targets rn))"

definition output_is_data_only ::
    "runtime_node \<Rightarrow> node_dispatch \<Rightarrow> downstream_target list \<Rightarrow> bool" where
  "output_is_data_only rn dispatch tgts =
     (if tgts \<noteq> [] then False
      else (case dispatch of
              Broadcast \<Rightarrow>
                rn_data_pins rn \<noteq> [] \<and> rn_reactive_pins rn = [] \<and> \<not> rn_has_non_data_output rn
            | Route ports \<Rightarrow> ports \<noteq> [] \<and> list_all (\<lambda>p. p \<in> set (rn_data_pins rn)) ports))"

definition merge_metadata :: "json_map option \<Rightarrow> json_map option \<Rightarrow> json_map option" where
  "merge_metadata merged meta =
     (case meta of
        None \<Rightarrow> merged
      | Some m \<Rightarrow>
          Some (fold (\<lambda>(k, v). bt_put k v) m (case merged of Some old \<Rightarrow> old | None \<Rightarrow> [])))"

section \<open>Sending\<close>

text \<open>
  \<open>re_ids k\<close> is the identifier drawn for the k-th output of the message, \<open>re_draws\<close> a bound on the
  number of outputs; \<open>re_size\<close> is the length of a serialised value.
\<close>

record run_env =
  re_now :: time
  re_ids :: "nat \<Rightarrow> uuid"
  re_draws :: nat
  re_race :: "nat \<Rightarrow> nat \<Rightarrow> bool"
  re_size :: "json \<Rightarrow> u64"

text \<open>The local state of a running node besides its configuration.\<close>

record run_state =
  rs_engine :: engine
  rs_windows :: "(edge_key, edge_window) hash_map"
  rs_cache :: output_cache
  rs_pull :: pull_state

definition with_window ::
    "edge_key \<Rightarrow> (edge_window \<Rightarrow> edge_window \<times> execution_event list) \<Rightarrow> run_state \<Rightarrow> run_state" where
  "with_window key f st =
     (case map_of (rs_windows st) key of
        None \<Rightarrow> st
      | Some w \<Rightarrow>
          (let (w', es) = f w
           in st\<lparr>rs_windows := hm_insert key w' (rs_windows st),
                 rs_engine := eg_emit (rs_engine st) es\<rparr>))"

definition queue_depth :: "'a chan \<Rightarrow> usize" where
  "queue_depth c =
     (let available = max_capacity c - length (queue c)
      in of_nat (max_capacity c - available))"

definition release_st :: "run_state \<Rightarrow> uuid \<Rightarrow> run_state" where
  "release_st st i = st\<lparr>rs_engine := eg_release (rs_engine st) i\<rparr>"

text \<open>One send by the policy of the edge: whether it was accepted, and the state after it.\<close>

definition send_one ::
    "context_ref \<Rightarrow> u64 \<Rightarrow> downstream_target \<Rightarrow> run_state \<Rightarrow> bool \<times> run_state" where
  "send_one ref bytes t st =
     (let eg = rs_engine st; n = dt_target_node_id t; c = input_chan eg n
      in case dt_backpressure_policy t of
           Block \<Rightarrow>
             (let (ok, c') = send c ref
              in (ok, if ok then st\<lparr>rs_engine := set_input eg n c'\<rparr> else st))
         | DropNewest \<Rightarrow>
             (case try_send c ref of
                (None, c') \<Rightarrow> (True, st\<lparr>rs_engine := set_input eg n c'\<rparr>)
              | (Some Full, c') \<Rightarrow>
                  (False, release_st (with_window (edge_key_of t) (\<lambda>w. (record_drop w bytes, [])) st)
                            (cr_data_id ref))
              | (Some Closed, c') \<Rightarrow> (False, st)))"

text \<open>
  The loop over the targets of one output. \<open>i\<close> counts the targets tried so far; \<open>race i\<close> says
  that the receiver of target \<open>i\<close> is dropped between the failed send and the test \<open>is_closed\<close>.
\<close>

fun send_targets ::
    "run_env \<Rightarrow> string \<Rightarrow> (nat \<Rightarrow> bool) \<Rightarrow> context_ref \<Rightarrow> u64 \<Rightarrow> nat \<Rightarrow> downstream_target list \<Rightarrow>
     run_state \<Rightarrow> engine_error option \<times> run_state" where
  "send_targets env node race ref bytes i [] st = (None, st)"
| "send_targets env node race ref bytes i (t # ts) st =
     (let (ok, st1) = send_one ref bytes t st;
          n = dt_target_node_id t
      in if \<not> ok then
           (let st2 = (if race i then st1\<lparr>rs_engine := close_input (rs_engine st1) n\<rparr> else st1)
            in if closed (input_chan (rs_engine st2) n) then
                 (Some (ChannelClosed node),
                  ((\<lambda>s. release_st s (cr_data_id ref)) ^^ length (t # ts)) st2)
               else send_targets env node race ref bytes (Suc i) ts st2)
         else
           (let st2 = with_window (edge_key_of t)
                  (\<lambda>w. record_transmit w (queue_depth (input_chan (rs_engine st1) n)) bytes (re_now env)) st1
            in send_targets env node race ref bytes (Suc i) ts st2))"

section \<open>The outputs of one execution\<close>

text \<open>The write of one output and its distribution; an error ends the node's loop.\<close>

definition deliver_output ::
    "run_env \<Rightarrow> runtime_node \<Rightarrow> uuid \<Rightarrow> nat \<Rightarrow> json \<Rightarrow> downstream_target list \<Rightarrow> run_state \<Rightarrow>
     engine_error option \<times> run_state" where
  "deliver_output env rn trace k payload tgts st =
     (let consumer_count = (if tgts = [] then 1 else length tgts);
          bytes = re_size env payload
      in case store_write (eg_store (rs_engine st)) (re_ids env k) payload (of_nat consumer_count) of
           Inl err \<Rightarrow> (Some err, st)
         | Inr (i, store') \<Rightarrow>
             (let st1 = st\<lparr>rs_engine := (rs_engine st)\<lparr>eg_store := store'\<rparr>\<rparr>;
                  ref = context_ref_new (re_now env) trace i (Some (rn_id rn))
              in if tgts = [] then
                   (let (ok, c') = send (eg_results (rs_engine st1)) ref
                    in if \<not> ok then (Some (ChannelClosed (rn_id rn)), release_st st1 i)
                       else (None, st1\<lparr>rs_engine :=
                               eg_emit ((rs_engine st1)\<lparr>eg_results := c'\<rparr>) [Output (rn_id rn) trace]\<rparr>))
                 else send_targets env (rn_id rn) (re_race env k) ref bytes 0 tgts st1))"

fun process_outputs ::
    "run_env \<Rightarrow> runtime_node \<Rightarrow> uuid \<Rightarrow> node_execution \<Rightarrow> nat \<Rightarrow> json_map option \<Rightarrow> run_state \<Rightarrow>
     engine_error option \<times> json_map option \<times> run_state" where
  "process_outputs env rn trace [] k merged st = (None, merged, st)"
| "process_outputs env rn trace (out # outs) k merged st =
     (let payload = no_payload out;
          st1 = st\<lparr>rs_cache := write_caches (re_now env) trace payload
                                 (cache_pins_to_write rn (no_dispatch out)) (rs_cache st)\<rparr>;
          tgts = matching_targets rn (no_dispatch out);
          merged' = merge_metadata merged (no_metadata out)
      in if output_is_data_only rn (no_dispatch out) tgts
         then process_outputs env rn trace outs (Suc k) merged' st1
         else (case deliver_output env rn trace k payload tgts st1 of
                 (Some err, st2) \<Rightarrow> (Some err, merged', st2)
               | (None, st2) \<Rightarrow> process_outputs env rn trace outs (Suc k) merged' st2))"

section \<open>One message\<close>

definition flush_windows :: "string \<Rightarrow> (edge_window \<Rightarrow> edge_window \<times> execution_event list) \<Rightarrow> run_state \<Rightarrow> run_state"
  where
  "flush_windows node f st =
     foldl (\<lambda>s key. with_window key f s) st (map fst (rs_windows st))"

definition tick_windows :: "run_env \<Rightarrow> runtime_node \<Rightarrow> run_state \<Rightarrow> run_state" where
  "tick_windows env rn st =
     flush_windows (rn_id rn) (\<lambda>w. flush_if_ready w (rn_id rn) (re_now env)) st"

definition emit_st :: "run_state \<Rightarrow> execution_event \<Rightarrow> run_state" where
  "emit_st st e = st\<lparr>rs_engine := eg_emit (rs_engine st) [e]\<rparr>"

text \<open>Whether the loop goes on after a message.\<close>

datatype loop_next = Continue | Break

text \<open>
  \<open>pulled\<close> is the pull of the data inputs of this node, \<open>exec\<close> the outcome of its \<open>transform\<close>.
  The result \<open>None\<close> is a message whose processing never ends.
\<close>

definition process_message ::
    "run_env \<Rightarrow> runtime_node \<Rightarrow> (json \<Rightarrow> (json, pull_state) pull) \<Rightarrow> (json \<Rightarrow> node_execution outcome) \<Rightarrow>
     context_ref \<Rightarrow> run_state \<Rightarrow> (loop_next \<times> run_state) option" where
  "process_message env rn pulled exec ref st =
     (let trace = cr_trace_id ref;
          st1 = emit_st st (Started (rn_id rn) trace);
          payload_result = store_read_mut (eg_store (rs_engine st1)) (cr_data_id ref);
          st2 = release_st st1 (cr_data_id ref)
      in case payload_result of
           Inl err \<Rightarrow> Some (Continue, emit_st st2 (Failed (rn_id rn) trace err))
         | Inr payload \<Rightarrow>
             (case pulled payload (rs_pull st2) of
                None \<Rightarrow> None
              | Some (Inl err, ps) \<Rightarrow>
                  Some (Continue, emit_st (st2\<lparr>rs_pull := ps\<rparr>) (Failed (rn_id rn) trace err))
              | Some (Inr merged, ps) \<Rightarrow>
                  (let st3 = st2\<lparr>rs_pull := ps\<rparr>
                   in case guarded_execute (rn_id rn) trace (rn_timeout rn) (exec merged) of
                        None \<Rightarrow> None
                      | Some r \<Rightarrow>
                          (let (stop, st4) =
                             (case r of
                                Inl err \<Rightarrow> (False, emit_st st3 (Failed (rn_id rn) trace err))
                              | Inr outs \<Rightarrow>
                                  (case process_outputs env rn trace outs 0 None st3 of
                                     (Some err, _, s) \<Rightarrow> (True, emit_st s (Failed (rn_id rn) trace err))
                                   | (None, md, s) \<Rightarrow>
                                       (False, emit_st s (Completed
                                          \<lparr>cp_stage = rn_id rn, cp_trace_id = trace, cp_metadata = md\<rparr>))))
                           in if stop then Some (Break, st4)
                              else
                                (let st5 = st4\<lparr>rs_pull := (rs_pull st4)
                                         \<lparr>ps_memo := clear_trace (ps_memo (rs_pull st4)) trace\<rparr>\<rparr>
                                 in Some (Continue, tick_windows env rn st5))))))"

text \<open>
  One turn of the loop on a non-empty input queue. Leaving the loop flushes the windows and drops
  the receiver.
\<close>

definition leave_loop :: "run_env \<Rightarrow> runtime_node \<Rightarrow> run_state \<Rightarrow> run_state" where
  "leave_loop env rn st =
     (let st1 = flush_windows (rn_id rn) (\<lambda>w. force_flush w (rn_id rn) (re_now env)) st
      in st1\<lparr>rs_engine := close_input (rs_engine st1) (rn_id rn)\<rparr>)"

definition run_node_turn ::
    "run_env \<Rightarrow> runtime_node \<Rightarrow> (json \<Rightarrow> (json, pull_state) pull) \<Rightarrow> (json \<Rightarrow> node_execution outcome) \<Rightarrow>
     run_state \<Rightarrow> run_state option" where
  "run_node_turn env rn pulled exec st =
     (case recv (input_chan (rs_engine st) (rn_id rn)) of
        None \<Rightarrow> Some st
      | Some (ref, c') \<Rightarrow>
          (case process_message env rn pulled exec ref
                  (st\<lparr>rs_engine := set_input (rs_engine st) (rn_id rn) c'\<rparr>) of
             None \<Rightarrow> None
           | Some (Continue, st') \<Rightarrow> Some st'
           | Some (Break, st') \<Rightarrow> Some (leave_loop env rn st')))"

end
