(* ===== verification/Ingress.thy ===== *)
theory Ingress
  imports Runner
begin

text \<open>
  The handles of a deployed workflow in \<open>crates/graph/src/types.rs\<close>: submitting a payload to the
  root nodes and reading the result stream. The senders of the root nodes are a hash map; its
  iteration order is the order of the list.
\<close>

record workflow_ingress =
  in_root_nodes :: "string list"
  in_root_senders :: "string list"

definition ingress_ref :: "workflow_context \<Rightarrow> uuid \<Rightarrow> context_ref" where
  "ingress_ref ctx i =
     \<lparr>cr_trace_id = wc_trace_id ctx, cr_timestamp = wc_timestamp ctx, cr_data_id = i,
      cr_source_node = None\<rparr>"

text \<open>The loop of \<open>submit\<close>: the first failing send releases its own reference and all later ones.\<close>

fun submit_all :: "context_ref \<Rightarrow> string list \<Rightarrow> engine \<Rightarrow> unit result \<times> engine" where
  "submit_all ref [] eg = (Inr (), eg)"
| "submit_all ref (n # ns) eg =
     (let (ok, c') = send (input_chan eg n) ref
      in if ok then submit_all ref ns (set_input eg n c')
         else (Inl (ChannelClosed ''workflow-ingress''),
               ((\<lambda>e. eg_release e (cr_data_id ref)) ^^ length (n # ns)) eg))"

definition submit ::
    "workflow_ingress \<Rightarrow> uuid \<Rightarrow> workflow_context \<Rightarrow> engine \<Rightarrow> unit result \<times> engine" where
  "submit ingress fresh_id ctx eg =
     (if in_root_senders ingress = []
      then (Inl (InvalidGraph (Msg ''no-root-sender'' [])), eg)
      else
        (let consumer_count = length (in_root_senders ingress)
         in case store_write (eg_store eg) fresh_id (wc_payload ctx) (of_nat consumer_count) of
              Inl err \<Rightarrow> (Inl err, eg)
            | Inr (i, store') \<Rightarrow>
                submit_all (ingress_ref ctx i) (in_root_senders ingress) (eg\<lparr>eg_store := store'\<rparr>)))"

text \<open>\<open>submit_to\<close>; \<open>blocking_submit_to\<close> differs only in how it waits.\<close>

definition submit_to ::
    "workflow_ingress \<Rightarrow> uuid \<Rightarrow> string \<Rightarrow> workflow_context \<Rightarrow> engine \<Rightarrow> unit result \<times> engine" where
  "submit_to ingress fresh_id node ctx eg =
     (if node \<notin> set (in_root_senders ingress)
      then (Inl (InvalidGraph (Msg ''root-sender-missing'' [node])), eg)
      else
        (case store_write (eg_store eg) fresh_id (wc_payload ctx) 1 of
           Inl err \<Rightarrow> (Inl err, eg)
         | Inr (i, store') \<Rightarrow>
             (let eg1 = eg\<lparr>eg_store := store'\<rparr>;
                  (ok, c') = send (input_chan eg1 node) (ingress_ref ctx i)
              in if ok then (Inr (), set_input eg1 node c')
                 else (Inl (ChannelClosed ''workflow-ingress''), eg_release eg1 i))))"

definition next_result :: "engine \<Rightarrow> workflow_context option \<times> engine" where
  "next_result eg =
     (case recv (eg_results eg) of
        None \<Rightarrow> (None, eg)
      | Some (ref, c') \<Rightarrow>
          (let eg1 = eg\<lparr>eg_results := c'\<rparr>
           in case store_read (eg_store eg1) (cr_data_id ref) of
                Inl _ \<Rightarrow> (None, eg1)
              | Inr payload \<Rightarrow>
                  (Some \<lparr>wc_trace_id = cr_trace_id ref, wc_timestamp = cr_timestamp ref, wc_payload = payload\<rparr>,
                   eg_release eg1 (cr_data_id ref))))"

text \<open>Dropping the streams of a deployment closes the result queue.\<close>

definition close_results :: "engine \<Rightarrow> engine" where
  "close_results eg =
     eg\<lparr>eg_results := (eg_results eg)\<lparr>queue := [], closed := True\<rparr>,
        eg_lost := map cr_data_id (queue (eg_results eg)) @ eg_lost eg\<rparr>"

end
