(* ===== verification/Lifecycle.thy ===== *)
theory Lifecycle
  imports Runner
begin

text \<open>
  \<open>crates/core/src/lifecycle.rs\<close>: the handle through which a trigger node pushes a payload into the
  graph, the guard that stops the background task of a node, and the interruptible sleep.
\<close>

section \<open>Emitting from a trigger\<close>

record emit_target =
  et_from_pin :: string
  et_to_node :: string
  et_to_pin :: string
  et_edge_kind :: pin_kind

record node_handle =
  nh_node_id :: string
  nh_downstream :: "emit_target list"

definition emit_summary ::
    "node_handle \<Rightarrow> emit_target \<Rightarrow> time \<Rightarrow> usize \<Rightarrow> u64 \<Rightarrow> execution_event" where
  "emit_summary h t now depth bytes =
     EdgeTransmitSummary
       \<lparr>es_from_node = nh_node_id h, es_from_pin = et_from_pin t, es_to_node = et_to_node t,
        es_to_pin = et_to_pin t, es_edge_kind = et_edge_kind t, es_transmit_count = 1,
        es_max_queue_depth = depth, es_avg_queue_depth = of_nat (unat depth),
        es_total_payload_bytes = bytes, es_window_started_at = now, es_window_ended_at = now\<rparr>"

fun emit_targets ::
    "node_handle \<Rightarrow> time \<Rightarrow> u64 \<Rightarrow> context_ref \<Rightarrow> emit_target list \<Rightarrow> engine \<Rightarrow> engine" where
  "emit_targets h now bytes ref [] eg = eg"
| "emit_targets h now bytes ref (t # ts) eg =
     (let (ok, c') = send (input_chan eg (et_to_node t)) ref
      in if \<not> ok then emit_targets h now bytes ref ts (eg_release eg (cr_data_id ref))
         else
           (let eg1 = set_input eg (et_to_node t) c';
                depth = queue_depth (input_chan eg1 (et_to_node t))
            in emit_targets h now bytes ref ts (eg_emit eg1 [emit_summary h t now depth bytes])))"

definition handle_emit ::
    "node_handle \<Rightarrow> time \<Rightarrow> uuid \<Rightarrow> uuid \<Rightarrow> (json \<Rightarrow> u64) \<Rightarrow> json \<Rightarrow> json_map \<Rightarrow> engine \<Rightarrow>
     unit result \<times> engine" where
  "handle_emit h now trace fresh_id json_size payload metadata eg =
     (let bytes = json_size payload;
          consumers = max (length (nh_downstream h)) 1
      in case store_write (eg_store eg) fresh_id payload (of_nat consumers) of
           Inl err \<Rightarrow> (Inl err, eg)
         | Inr (i, store') \<Rightarrow>
             (let eg1 = eg_emit (eg\<lparr>eg_store := store'\<rparr>) [Started (nh_node_id h) trace];
                  ref = context_ref_new now trace i (Some (nh_node_id h));
                  eg2 = (if nh_downstream h = [] then eg_release eg1 i else eg1);
                  eg3 = emit_targets h now bytes ref (nh_downstream h) eg2;
                  md = (if metadata = [] then None else Some metadata)
              in (Inr (), eg_emit eg3 [Completed
                    \<lparr>cp_stage = nh_node_id h, cp_trace_id = trace, cp_metadata = md\<rparr>])))"

section \<open>Lifecycle guards\<close>

text \<open>
  A guard either does nothing or holds the token of a background task and, until it is taken, the
  handle to wait for it. What a guard does to the outside is a list of actions: cancelling the
  token, and waiting for the task for at most a time.
\<close>

type_synonym token = nat

record guard_inner =
  gi_token :: token
  gi_join :: bool
  gi_shutdown_timeout :: nat

type_synonym lifecycle_guard = "guard_inner option"

datatype guard_action = CancelToken token | AwaitTask token nat

definition guard_noop :: lifecycle_guard where
  "guard_noop = None"

definition guard_from_task :: "token \<Rightarrow> lifecycle_guard" where
  "guard_from_task t = Some \<lparr>gi_token = t, gi_join = True, gi_shutdown_timeout = 5000\<rparr>"

definition with_shutdown_timeout :: "nat \<Rightarrow> lifecycle_guard \<Rightarrow> lifecycle_guard" where
  "with_shutdown_timeout timeout g = map_option (\<lambda>i. i\<lparr>gi_shutdown_timeout := timeout\<rparr>) g"

definition guard_drop :: "lifecycle_guard \<Rightarrow> guard_action list" where
  "guard_drop g = (case g of None \<Rightarrow> [] | Some i \<Rightarrow> [CancelToken (gi_token i)])"

text \<open>\<open>shutdown\<close> takes the inner state, so the drop at its end finds nothing.\<close>

definition guard_shutdown :: "lifecycle_guard \<Rightarrow> guard_action list" where
  "guard_shutdown g =
     (case g of
        None \<Rightarrow> guard_drop None
      | Some i \<Rightarrow>
          CancelToken (gi_token i) #
          (if gi_join i then [AwaitTask (gi_token i) (gi_shutdown_timeout i)] else []) @
          guard_drop None)"

text \<open>\<open>WorkflowDeployment::shutdown\<close>: the root token, then the guards in reverse order of deployment.\<close>

definition shutdown_workflow :: "token \<Rightarrow> (string \<times> lifecycle_guard) list \<Rightarrow> guard_action list" where
  "shutdown_workflow root_token guards =
     CancelToken root_token # concat (map (\<lambda>(_, g). guard_shutdown g) (rev guards))"

section \<open>The interruptible sleep\<close>

text \<open>
  \<open>cancelled k\<close> is the answer of the k-th poll; the result is the time slept, in nanoseconds.
\<close>

function blocking_sleep_or_cancel :: "(nat \<Rightarrow> bool) \<Rightarrow> nat \<Rightarrow> nat \<Rightarrow> nat" where
  "blocking_sleep_or_cancel cancelled k remaining =
     (if remaining > 0 then
        (if cancelled k then 0
         else (let chunk = min remaining 100000000
               in chunk + blocking_sleep_or_cancel cancelled (Suc k) (remaining - chunk)))
      else 0)"
  by pat_completeness auto
termination by (relation "measure (\<lambda>(_, _, r). r)") auto

declare blocking_sleep_or_cancel.simps [simp del]

lemma sleep_uncancelled: "blocking_sleep_or_cancel (\<lambda>_. False) k t = t"
proof (induction t arbitrary: k rule: less_induct)
  case (less t)
  show ?case
  proof (cases "t = 0")
    case True
    then show ?thesis by (subst blocking_sleep_or_cancel.simps) simp
  next
    case False
    then have "blocking_sleep_or_cancel (\<lambda>_. False) (Suc k) (t - min t 100000000) = t - min t 100000000"
      by (intro less.IH) auto
    then show ?thesis using False by (subst blocking_sleep_or_cancel.simps) (simp add: Let_def)
  qed
qed

text \<open>A cancellation seen at poll \<open>m\<close> ends the sleep within \<open>m\<close> chunks of 100 ms.\<close>

lemma sleep_cancelled_within:
  "cancelled m \<Longrightarrow> k \<le> m \<Longrightarrow> blocking_sleep_or_cancel cancelled k t \<le> (m - k) * 100000000"
proof (induction t arbitrary: k rule: less_induct)
  case (less t)
  show ?case
  proof (cases "t = 0 \<or> cancelled k")
    case True
    then show ?thesis by (subst blocking_sleep_or_cancel.simps) auto
  next
    case False
    then have "k < m" using less.prems by (metis le_neq_implies_less)
    then have IH: "blocking_sleep_or_cancel cancelled (Suc k) (t - min t 100000000) \<le> (m - Suc k) * 100000000"
      using False less.prems by (intro less.IH) auto
    have "blocking_sleep_or_cancel cancelled k t =
        min t 100000000 + blocking_sleep_or_cancel cancelled (Suc k) (t - min t 100000000)"
      using False by (subst blocking_sleep_or_cancel.simps) (simp add: Let_def)
    also have "\<dots> \<le> 100000000 + (m - Suc k) * 100000000" using IH by simp
    also have "\<dots> = (m - k) * 100000000" using \<open>k < m\<close> by (simp add: Suc_diff_Suc flip: mult_Suc)
    finally show ?thesis .
  qed
qed

end
