(* ===== verification/Accounting.thy ===== *)
theory Accounting
  imports Ingress Lifecycle
begin

text \<open>
  Every reference to a payload is counted: the count the store keeps for an identifier is the
  number of references queued for it plus the number lost with dropped receivers. Each operation on
  the shared state is shown to keep this balance, possibly up to the references it holds itself;
  runs of a whole workflow follow by induction.
\<close>

section \<open>Counting\<close>

definition refcount :: "engine \<Rightarrow> uuid \<Rightarrow> nat" where
  "refcount eg i = (case arena_refs (eg_store eg) i of None \<Rightarrow> 0 | Some (_, k) \<Rightarrow> k)"

definition chan_count :: "uuid \<Rightarrow> context_ref chan \<Rightarrow> nat" where
  "chan_count i c = count_list (map cr_data_id (queue c)) i"

definition outstanding :: "engine \<Rightarrow> uuid \<Rightarrow> nat" where
  "outstanding eg i =
     sum_list (map (\<lambda>(n, c). chan_count i c) (eg_inputs eg)) + chan_count i (eg_results eg) +
     count_list (eg_lost eg) i"

text \<open>The balance of a state in which the current operation holds \<open>x i\<close> references to \<open>i\<close>.\<close>

definition accounted :: "engine \<Rightarrow> (uuid \<Rightarrow> nat) \<Rightarrow> bool" where
  "accounted eg x \<longleftrightarrow>
     arena_inv (eg_store eg) \<and> hm_wf (eg_inputs eg) \<and>
     (\<forall>i. refcount eg i = outstanding eg i + x i)"

abbreviation balanced :: "engine \<Rightarrow> bool" where
  "balanced eg \<equiv> accounted eg (\<lambda>_. 0)"

lemma sum_hm_insert_by:
  "map_of m k = Some v \<Longrightarrow>
    sum_list (map (\<lambda>(n, c). g c) (hm_insert k v' m)) + g v = sum_list (map (\<lambda>(n, c). g c) m) + (g v' :: nat)"
  unfolding hm_insert_def by (induction m) (auto split: if_splits)

lemma input_chan_known: "\<not> closed (input_chan eg n) \<or> queue (input_chan eg n) \<noteq> [] \<Longrightarrow>
    map_of (eg_inputs eg) n = Some (input_chan eg n)"
  by (auto simp: input_chan_def split: option.splits)

lemma outstanding_set_input:
  "map_of (eg_inputs eg) n = Some (input_chan eg n) \<Longrightarrow>
    outstanding (set_input eg n c) i + chan_count i (input_chan eg n) = outstanding eg i + chan_count i c"
  using sum_hm_insert_by [of "eg_inputs eg" n "input_chan eg n" "chan_count i" c]
  by (simp add: outstanding_def set_input_def)

lemma engine_fields [simp]:
  "eg_store (set_input eg n c) = eg_store eg"
  "eg_results (set_input eg n c) = eg_results eg"
  "eg_lost (set_input eg n c) = eg_lost eg"
  "eg_inputs (set_input eg n c) = hm_insert n c (eg_inputs eg)"
  "eg_store (eg_emit eg es) = eg_store eg"
  "eg_inputs (eg_emit eg es) = eg_inputs eg"
  "eg_results (eg_emit eg es) = eg_results eg"
  "eg_lost (eg_emit eg es) = eg_lost eg"
  "eg_store (eg_release eg i) = store_release (eg_store eg) i"
  "eg_inputs (eg_release eg i) = eg_inputs eg"
  "eg_results (eg_release eg i) = eg_results eg"
  "eg_lost (eg_release eg i) = eg_lost eg"
  by (simp_all add: set_input_def eg_emit_def eg_release_def)

lemma input_chan_set [simp]:
  "input_chan (set_input eg n c) m = (if m = n then c else input_chan eg m)"
  "input_chan (eg_emit eg es) m = input_chan eg m"
  "input_chan (eg_release eg i) m = input_chan eg m"
  by (auto simp: input_chan_def)

lemma refcount_fields [simp]:
  "refcount (set_input eg n c) i = refcount eg i"
  "refcount (eg_emit eg es) i = refcount eg i"
  by (simp_all add: refcount_def)

lemma outstanding_fields [simp]:
  "outstanding (eg_emit eg es) i = outstanding eg i"
  "outstanding (eg_release eg j) i = outstanding eg i"
  by (simp_all add: outstanding_def)

lemma accounted_emit [simp]: "accounted (eg_emit eg es) x = accounted eg x"
  by (simp add: accounted_def)

lemma refcount_release:
  "arena_inv (eg_store eg) \<Longrightarrow> refcount (eg_release eg i) j = refcount eg j - (if j = i then 1 else 0)"
  by (auto simp: refcount_def eg_release_def arena_refs_release split: option.splits)

text \<open>One reference moves from the operation into a queue, or is released.\<close>

lemma accounted_release:
  "accounted eg x \<Longrightarrow> x i = Suc k \<Longrightarrow> accounted (eg_release eg i) (x(i := k))"
  by (auto simp: accounted_def refcount_release arena_inv_release)

lemma accounted_release_many:
  "accounted eg x \<Longrightarrow> x i = m + k \<Longrightarrow> accounted (((\<lambda>e. eg_release e i) ^^ m) eg) (x(i := k))"
proof (induction m arbitrary: k)
  case 0
  then show ?case by (simp add: fun_upd_idem)
next
  case (Suc m)
  have "accounted (((\<lambda>e. eg_release e i) ^^ m) eg) (x(i := Suc k))"
    using Suc.prems by (intro Suc.IH) simp_all
  then have "accounted (eg_release (((\<lambda>e. eg_release e i) ^^ m) eg) i) ((x(i := Suc k))(i := k))"
    by (rule accounted_release) simp
  then show ?case by (simp only: fun_upd_upd funpow.simps comp_apply)
qed

lemma accounted_push:
  assumes "accounted eg x" "x (cr_data_id ref) = Suc k" "\<not> closed (input_chan eg n)"
    and "c' = (input_chan eg n)\<lparr>queue := queue (input_chan eg n) @ [ref]\<rparr>"
  shows "accounted (set_input eg n c') (x(cr_data_id ref := k))"
proof -
  have known: "map_of (eg_inputs eg) n = Some (input_chan eg n)"
    using assms(3) by (intro input_chan_known) simp
  have "outstanding (set_input eg n c') i = outstanding eg i + (if i = cr_data_id ref then 1 else 0)" for i
    using outstanding_set_input [OF known, of c' i] assms(4) by (simp add: chan_count_def)
  then show ?thesis using assms(1,2) by (auto simp: accounted_def)
qed

lemma accounted_pop:
  assumes "accounted eg x" "recv (input_chan eg n) = Some (ref, c')"
  shows "accounted (set_input eg n c') (x(cr_data_id ref := Suc (x (cr_data_id ref))))"
proof -
  obtain q where q: "queue (input_chan eg n) = ref # q" "c' = (input_chan eg n)\<lparr>queue := q\<rparr>"
    using assms(2) by (auto simp: recv_def split: list.splits)
  then have known: "map_of (eg_inputs eg) n = Some (input_chan eg n)" by (intro input_chan_known) simp
  have "outstanding (set_input eg n c') i + (if i = cr_data_id ref then 1 else 0) = outstanding eg i" for i
    using outstanding_set_input [OF known, of c' i] q
    by (cases "i = cr_data_id ref") (auto simp: chan_count_def)
  note o = this
  have "refcount eg i = outstanding (set_input eg n c') i + (x(cr_data_id ref := Suc (x (cr_data_id ref)))) i" for i
    using o [of i] assms(1) by (auto simp: accounted_def)
  then show ?thesis using assms(1) by (simp add: accounted_def)
qed

lemma accounted_push_result:
  assumes "accounted eg x" "x (cr_data_id ref) = Suc k"
  shows "accounted (eg\<lparr>eg_results := (eg_results eg)\<lparr>queue := queue (eg_results eg) @ [ref]\<rparr>\<rparr>)
    (x(cr_data_id ref := k))"
  using assms by (auto simp: accounted_def outstanding_def refcount_def chan_count_def)

lemma accounted_pop_result:
  assumes "accounted eg x" "recv (eg_results eg) = Some (ref, c')"
  shows "accounted (eg\<lparr>eg_results := c'\<rparr>) (x(cr_data_id ref := Suc (x (cr_data_id ref))))"
proof -
  obtain q where q: "queue (eg_results eg) = ref # q" "c' = (eg_results eg)\<lparr>queue := q\<rparr>"
    using assms(2) by (auto simp: recv_def split: list.splits)
  then show ?thesis using assms(1)
    by (auto simp: accounted_def outstanding_def refcount_def chan_count_def)
qed

lemma accounted_close_input:
  assumes "accounted eg x" shows "accounted (close_input eg n) x"
proof (cases "map_of (eg_inputs eg) n")
  case None
  then show ?thesis using assms by (simp add: close_input_def)
next
  case (Some c)
  then have c: "c = input_chan eg n" by (simp add: input_chan_def)
  let ?c = "c\<lparr>queue := [], closed := True\<rparr>"
  have "outstanding (set_input eg n ?c) i + chan_count i c = outstanding eg i" for i
    using outstanding_set_input [of eg n ?c i] Some c by (simp add: chan_count_def)
  then have "outstanding (close_input eg n) i = outstanding eg i" for i
    using Some by (simp add: close_input_def outstanding_def chan_count_def)
  then show ?thesis using assms Some by (simp add: accounted_def close_input_def refcount_def)
qed

lemma accounted_close_results: "accounted eg x \<Longrightarrow> accounted (close_results eg) x"
  by (simp add: accounted_def close_results_def refcount_def outstanding_def chan_count_def)

text \<open>A write for \<open>n\<close> consumers gives the operation \<open>n\<close> references to a fresh identifier.\<close>

lemma accounted_write:
  assumes "accounted eg x" "store_write (eg_store eg) i p (of_nat n) = Inr (j, store')"
    and "refcount eg i = 0" "0 < n" "n < 2 ^ 64"
  shows "j = i \<and> accounted (eg\<lparr>eg_store := store'\<rparr>) (x(i := n))"
proof -
  have inv: "arena_inv (eg_store eg)" using assms(1) by (simp add: accounted_def)
  have j: "j = i" and refs: "arena_refs store' = (arena_refs (eg_store eg))(i \<mapsto> (p, max 1 (unat (of_nat n :: usize))))"
    and inv': "arena_inv store'"
    using arena.write_refs [OF inv assms(2)] arena.write_inv [OF inv assms(2)] by blast+
  have n: "unat (of_nat n :: usize) = n" using assms(5) by (simp add: unsigned_of_nat take_bit_nat_eq_self)
  have "refcount (eg\<lparr>eg_store := store'\<rparr>) k = (if k = i then n else refcount eg k)" for k
    using refs n assms(4) by (simp add: refcount_def)
  moreover have "outstanding eg i + x i = 0" using assms(1,3) by (simp add: accounted_def)
  ultimately show ?thesis using assms(1) j inv' by (auto simp: accounted_def outstanding_def)
qed

lemma refcount_write_other:
  assumes "arena_inv (eg_store eg)" "store_write (eg_store eg) i p n = Inr (j, store')" "k \<noteq> i"
  shows "refcount (eg\<lparr>eg_store := store'\<rparr>) k = refcount eg k"
  using arena.write_refs [OF assms(1,2)] assms(3) by (simp add: refcount_def)

end
