(* ===== verification/Engine_Run.thy ===== *)
theory Engine_Run
  imports Accounting
begin

text \<open>
  Runs of a deployed workflow. The first part shows for each operation on the shared state that it
  gives back every reference it takes; the second defines the steps of a running workflow (a turn
  of a node's loop, a submission, an emission of a trigger, a read of the result stream, a dropped
  receiver) and derives the safety of payloads along every run.
\<close>

section \<open>Sending\<close>

lemma with_window_engine:
  obtains es where "rs_engine (with_window key f st) = eg_emit (rs_engine st) es"
proof (cases "map_of (rs_windows st) key")
  case None
  then have "rs_engine (with_window key f st) = eg_emit (rs_engine st) []"
    by (simp add: with_window_def eg_emit_def emit_all_def)
  then show ?thesis using that by blast
next
  case (Some w)
  then have "rs_engine (with_window key f st) = eg_emit (rs_engine st) (snd (f w))"
    by (simp add: with_window_def split_beta)
  then show ?thesis using that by blast
qed

lemma with_window_simps [simp]:
  "accounted (rs_engine (with_window key f st)) x = accounted (rs_engine st) x"
  "refcount (rs_engine (with_window key f st)) i = refcount (rs_engine st) i"
  "input_chan (rs_engine (with_window key f st)) n = input_chan (rs_engine st) n"
  "eg_store (rs_engine (with_window key f st)) = eg_store (rs_engine st)"
  by (rule with_window_engine [of key f st], simp)+

lemma flush_windows_simps [simp]:
  "accounted (rs_engine (flush_windows node f st)) x = accounted (rs_engine st) x"
proof -
  have "accounted (rs_engine (foldl (\<lambda>s key. with_window key f s) st keys)) x = accounted (rs_engine st) x"
    for keys by (induction keys arbitrary: st) simp_all
  then show ?thesis by (simp add: flush_windows_def)
qed

definition others_kept :: "uuid \<Rightarrow> engine \<Rightarrow> engine \<Rightarrow> bool" where
  "others_kept i eg eg' \<longleftrightarrow> (\<forall>j. j \<noteq> i \<longrightarrow> refcount eg' j = refcount eg j)"

lemma others_kept_refl [simp]: "others_kept i eg eg"
  by (simp add: others_kept_def)

lemma others_kept_trans: "others_kept i a b \<Longrightarrow> others_kept i b c \<Longrightarrow> others_kept i a c"
  by (simp add: others_kept_def)

lemma others_kept_release_many:
  "arena_inv (eg_store eg) \<Longrightarrow> others_kept i eg (((\<lambda>e. eg_release e i) ^^ m) eg)"
proof (induction m)
  case 0
  then show ?case by simp
next
  case (Suc m)
  have "arena_inv (eg_store (((\<lambda>e. eg_release e i) ^^ m) eg))"
    using Suc.prems by (induction m) (simp_all add: arena_inv_release)
  then have "others_kept i (((\<lambda>e. eg_release e i) ^^ m) eg) (((\<lambda>e. eg_release e i) ^^ Suc m) eg)"
    by (simp add: others_kept_def refcount_release)
  then show ?case using Suc others_kept_trans by blast
qed

lemma release_st_engine: "rs_engine (release_st st i) = eg_release (rs_engine st) i"
  by (simp add: release_st_def)

lemma release_st_engine_many:
  "rs_engine (((\<lambda>s. release_st s i) ^^ m) st) = ((\<lambda>e. eg_release e i) ^^ m) (rs_engine st)"
  by (induction m) (simp_all add: release_st_engine)

lemma accounted_inv: "accounted eg x \<Longrightarrow> arena_inv (eg_store eg)"
  by (simp add: accounted_def)

lemma send_one_accounted:
  assumes "send_one ref bytes t st = (ok, st')" and "accounted (rs_engine st) x"
    and "x (cr_data_id ref) = Suc k"
  shows "others_kept (cr_data_id ref) (rs_engine st) (rs_engine st')" (is ?others)
    and "closed (input_chan (rs_engine st') m) = closed (input_chan (rs_engine st) m)" (is ?closed)
    and "if closed (input_chan (rs_engine st) (dt_target_node_id t))
      then \<not> ok \<and> rs_engine st' = rs_engine st
      else accounted (rs_engine st') (x(cr_data_id ref := k))" (is ?acc)
proof -
  let ?n = "dt_target_node_id t" and ?eg = "rs_engine st"
  let ?c = "input_chan ?eg ?n"
  let ?push = "set_input ?eg ?n (?c\<lparr>queue := queue ?c @ [ref]\<rparr>)"
  have push: "accounted ?push (x(cr_data_id ref := k))" if "\<not> closed ?c"
    using accounted_push [OF assms(2,3) that] by simp
  have "?others \<and> ?closed \<and> ?acc"
  proof (cases "closed ?c")
    case True
    then show ?thesis using assms(1)
      by (auto simp: send_one_def Let_def send_def try_send_def split: backpressure_policy.splits)
  next
    case open_c: False
    show ?thesis
    proof (cases "dt_backpressure_policy t = DropNewest \<and> length (queue ?c) \<ge> max_capacity ?c")
      case True
      then have st': "ok = False"
        "st' = release_st (with_window (edge_key_of t) (\<lambda>w. (record_drop w bytes, [])) st) (cr_data_id ref)"
        using assms(1) open_c by (auto simp: send_one_def Let_def try_send_def)
      have "accounted (rs_engine st') (x(cr_data_id ref := k))"
        unfolding st'(2) release_st_engine using assms(2,3) by (intro accounted_release) simp_all
      moreover have ?others
        unfolding st'(2) release_st_engine
        using accounted_inv [OF assms(2)] by (simp add: others_kept_def refcount_release)
      moreover have ?closed unfolding st'(2) release_st_engine by simp
      ultimately show ?thesis using open_c by simp
    next
      case False
      then have "rs_engine st' = ?push"
        using assms(1) open_c
        by (auto simp: send_one_def Let_def send_def try_send_def split: backpressure_policy.splits)
      then show ?thesis using push [OF open_c] open_c by (auto simp: others_kept_def)
    qed
  qed
  then show ?others and ?closed and ?acc by blast+
qed

lemma send_targets_accounted:
  assumes "\<forall>i. \<not> race i" and "accounted (rs_engine st) x" and "x (cr_data_id ref) = length ts"
    and "send_targets env node race ref bytes i ts st = (r, st')"
  shows "accounted (rs_engine st') (x(cr_data_id ref := 0)) \<and>
    others_kept (cr_data_id ref) (rs_engine st) (rs_engine st')"
  using assms(2-)
proof (induction ts arbitrary: st x i)
  case Nil
  then show ?case by (simp add: fun_upd_idem)
next
  case (Cons t ts)
  let ?i = "cr_data_id ref" and ?n = "dt_target_node_id t"
  obtain ok st1 where one: "send_one ref bytes t st = (ok, st1)" by (cases "send_one ref bytes t st")
  have len: "x ?i = Suc (length ts)" using Cons.prems(2) by simp
  note S = send_one_accounted [OF one Cons.prems(1) len]
  have same: "closed (input_chan (rs_engine st1) ?n) = closed (input_chan (rs_engine st) ?n)" by (rule S(2))
  show ?case
  proof (cases "closed (input_chan (rs_engine st) ?n)")
    case True
    then have st1: "\<not> ok" "rs_engine st1 = rs_engine st" using S(3) by simp_all
    then have st': "st' = ((\<lambda>s. release_st s ?i) ^^ length (t # ts)) st1"
      using Cons.prems(3) one True assms(1) by (simp add: Let_def del: funpow.simps)
    have "accounted (((\<lambda>e. eg_release e ?i) ^^ length (t # ts)) (rs_engine st)) (x(?i := 0))"
      using Cons.prems(2) by (intro accounted_release_many Cons.prems(1)) simp
    moreover have "others_kept ?i (rs_engine st) (((\<lambda>e. eg_release e ?i) ^^ length (t # ts)) (rs_engine st))"
      by (rule others_kept_release_many [OF accounted_inv [OF Cons.prems(1)]])
    ultimately show ?thesis unfolding st' release_st_engine_many st1(2) by (rule conjI)
  next
    case False
    then have acc: "accounted (rs_engine st1) (x(?i := length ts))" using S(3) by simp
    obtain st2 where st2: "send_targets env node race ref bytes (Suc i) ts st2 = (r, st')"
      "accounted (rs_engine st2) (x(?i := length ts))"
      "\<And>j. refcount (rs_engine st2) j = refcount (rs_engine st1) j"
    proof (rule that)
      let ?st2 = "if ok then with_window (edge_key_of t)
          (\<lambda>w. record_transmit w (queue_depth (input_chan (rs_engine st1) ?n)) bytes (re_now env)) st1
        else st1"
      have "\<not> race i" using assms(1) by simp
      then show "send_targets env node race ref bytes (Suc i) ts ?st2 = (r, st')"
        using Cons.prems(3) one False same by (cases ok) (simp_all add: Let_def)
      show "accounted (rs_engine ?st2) (x(?i := length ts))" using acc by (cases ok) simp_all
      show "refcount (rs_engine ?st2) j = refcount (rs_engine st1) j" for j by (cases ok) simp_all
    qed
    have "accounted (rs_engine st') ((x(?i := length ts))(?i := 0)) \<and>
        others_kept ?i (rs_engine st2) (rs_engine st')"
      by (rule Cons.IH [OF st2(2) _ st2(1)]) simp
    then show ?thesis using S(1) st2(3) by (simp add: others_kept_def del: fun_upd_apply)
  qed
qed

section \<open>One message\<close>

text \<open>
  What the model assumes of the outside during one message: fresh identifiers, and, unless \<open>racing\<close>, no
  receiver that disappears between a refused \<open>try_send\<close> and the test \<open>is_closed\<close>. Then the code releases a
  reference twice (\<open>racing_run_releases_too_much\<close> below).
\<close>

definition fresh_from :: "run_env \<Rightarrow> nat \<Rightarrow> engine \<Rightarrow> bool" where
  "fresh_from env k eg \<longleftrightarrow> (\<forall>j\<in>{k..<re_draws env}. refcount eg (re_ids env j) = 0)"

definition env_ok ::
    "bool \<Rightarrow> run_env \<Rightarrow> runtime_node \<Rightarrow> (json \<Rightarrow> node_execution outcome) \<Rightarrow> engine \<Rightarrow> bool" where
  "env_ok racing env rn exec eg \<longleftrightarrow>
     inj_on (re_ids env) {..<re_draws env} \<and> fresh_from env 0 eg \<and>
     (\<forall>x outs. exec x = Finishes (Inr outs) \<longrightarrow> length outs \<le> re_draws env) \<and>
     (\<not> racing \<longrightarrow> (\<forall>k i. \<not> re_race env k i)) \<and> length (rn_targets rn) < 2 ^ 64"

lemma matching_targets_length: "length (matching_targets rn d) \<le> length (rn_targets rn)"
  by (cases d) (simp_all add: matching_targets_def)

lemma deliver_output_accounted:
  assumes "balanced (rs_engine st)" and "refcount (rs_engine st) (re_ids env k) = 0"
    and "\<forall>i. \<not> re_race env k i" and "length tgts < 2 ^ 64"
    and "deliver_output env rn trace k payload tgts st = (r, st')"
  shows "balanced (rs_engine st') \<and> others_kept (re_ids env k) (rs_engine st) (rs_engine st')"
proof (cases "store_write (eg_store (rs_engine st)) (re_ids env k) payload
    (of_nat (if tgts = [] then 1 else length tgts))")
  case (Inl err)
  then show ?thesis using assms by (simp add: deliver_output_def Let_def)
next
  case (Inr w)
  obtain j store' where w: "w = (j, store')" by (cases w)
  let ?i = "re_ids env k" and ?n = "if tgts = [] then 1 else length tgts"
  let ?eg = "rs_engine st\<lparr>eg_store := store'\<rparr>"
  have sw: "store_write (eg_store (rs_engine st)) ?i payload (of_nat ?n) = Inr (j, store')"
    using Inr w by simp
  have n: "0 < ?n" "?n < 2 ^ 64" using assms(4) by auto
  have j: "j = ?i" and acc: "accounted ?eg ((\<lambda>_. 0)(?i := ?n))"
    using accounted_write [OF assms(1) sw assms(2) n] by blast+
  have kept: "others_kept ?i (rs_engine st) ?eg"
    using refcount_write_other [OF accounted_inv [OF assms(1)] sw] by (simp add: others_kept_def)
  let ?ref = "context_ref_new (re_now env) trace ?i (Some (rn_id rn))"
  have rid: "cr_data_id ?ref = ?i" by (simp add: context_ref_new_def)
  show ?thesis
  proof (cases "tgts = []")
    case True
    have acc1: "accounted ?eg ((\<lambda>_. 0)(?i := Suc 0))" using acc True by simp
    show ?thesis
    proof (cases "closed (eg_results ?eg)")
      case closed: True
      then have "rs_engine st' = eg_release ?eg ?i"
        using assms(5) sw True j by (auto simp: deliver_output_def Let_def send_def release_st_def)
      moreover have "accounted (eg_release ?eg ?i) (((\<lambda>_. 0)(?i := Suc 0))(?i := 0))"
        by (rule accounted_release [OF acc1]) simp
      moreover have "others_kept ?i ?eg (eg_release ?eg ?i)"
        using accounted_inv [OF acc1] by (simp add: others_kept_def refcount_release)
      ultimately show ?thesis using kept others_kept_trans by (simp add: fun_upd_idem)
    next
      case open_r: False
      let ?eg2 = "?eg\<lparr>eg_results := (eg_results ?eg)\<lparr>queue := queue (eg_results ?eg) @ [?ref]\<rparr>\<rparr>"
      have st': "rs_engine st' = eg_emit ?eg2 [Output (rn_id rn) trace]"
        using assms(5) sw True j open_r by (auto simp: deliver_output_def Let_def send_def)
      have "accounted ?eg2 (((\<lambda>_. 0)(?i := Suc 0))(?i := 0))"
        using accounted_push_result [OF acc1, of ?ref 0] rid by simp
      moreover have "others_kept ?i ?eg ?eg2" by (simp add: others_kept_def refcount_def)
      ultimately show ?thesis using kept st' others_kept_trans [of ?i]
        by (auto simp: fun_upd_idem others_kept_def)
    qed
  next
    case False
    let ?st1 = "st\<lparr>rs_engine := ?eg\<rparr>"
    have run: "send_targets env (rn_id rn) (re_race env k) ?ref (re_size env payload) 0 tgts ?st1 = (r, st')"
      using assms(5) sw False j by (simp add: deliver_output_def Let_def)
    have "accounted (rs_engine st') (((\<lambda>_. 0)(?i := ?n))(?i := 0)) \<and>
        others_kept ?i (rs_engine ?st1) (rs_engine st')"
      using send_targets_accounted [OF assms(3) _ _ run, of "(\<lambda>_. 0)(?i := ?n)"] acc rid False by simp
    then show ?thesis using kept others_kept_trans by (simp add: fun_upd_idem)
  qed
qed

lemma process_outputs_accounted:
  assumes "inj_on (re_ids env) {..<re_draws env}" and "\<forall>k i. \<not> re_race env k i"
    and "length (rn_targets rn) < 2 ^ 64"
    and "balanced (rs_engine st)" and "fresh_from env k (rs_engine st)"
    and "k + length outs \<le> re_draws env"
    and "process_outputs env rn trace outs k merged st = (r, md, st')"
  shows "balanced (rs_engine st')"
  using assms(4-)
proof (induction outs arbitrary: k merged st)
  case Nil
  then show ?case by simp
next
  case (Cons out outs)
  let ?st1 = "st\<lparr>rs_cache := write_caches (re_now env) trace (no_payload out)
      (cache_pins_to_write rn (no_dispatch out)) (rs_cache st)\<rparr>"
  let ?tgts = "matching_targets rn (no_dispatch out)"
  have next_fresh: "fresh_from env (Suc k) eg'" if kept: "others_kept (re_ids env k) (rs_engine st) eg'" for eg'
  proof -
    have "re_ids env j \<noteq> re_ids env k" if "Suc k \<le> j" "j < re_draws env" for j
      using that inj_onD [OF assms(1), of j k] by auto
    then show ?thesis using kept Cons.prems(2) by (auto simp: fresh_from_def others_kept_def)
  qed
  show ?case
  proof (cases "output_is_data_only rn (no_dispatch out) ?tgts")
    case True
    show ?thesis
      by (rule Cons.IH [of ?st1 "Suc k"]) (use True Cons.prems next_fresh in \<open>simp_all add: Let_def\<close>)
  next
    case False
    obtain e st2 where d: "deliver_output env rn trace k (no_payload out) ?tgts ?st1 = (e, st2)"
      by (cases "deliver_output env rn trace k (no_payload out) ?tgts ?st1")
    have "length ?tgts < 2 ^ 64"
      using assms(3) matching_targets_length by (rule order_le_less_trans [rotated])
    moreover have "refcount (rs_engine ?st1) (re_ids env k) = 0"
      using Cons.prems(2,3) by (simp add: fresh_from_def)
    ultimately have st2: "balanced (rs_engine st2)"
      "others_kept (re_ids env k) (rs_engine st) (rs_engine st2)"
      using deliver_output_accounted [OF _ _ _ _ d] Cons.prems(1) assms(2) by simp_all
    show ?thesis
    proof (cases e)
      case None
      then show ?thesis using Cons.IH [OF st2(1) next_fresh [OF st2(2)]] Cons.prems(3,4) False d
        by (simp add: Let_def)
    next
      case (Some err)
      then show ?thesis using Cons.prems(4) False d st2(1) by (simp add: Let_def)
    qed
  qed
qed

text \<open>Reading and releasing the payload of a message that has just left its queue.\<close>

lemma emit_st_engine [simp]:
  "accounted (rs_engine (emit_st st e)) x = accounted (rs_engine st) x"
  "refcount (rs_engine (emit_st st e)) i = refcount (rs_engine st) i"
  "eg_store (rs_engine (emit_st st e)) = eg_store (rs_engine st)"
  by (simp_all add: emit_st_def)

lemma tick_windows_balanced [simp]:
  "accounted (rs_engine (tick_windows env rn st)) x = accounted (rs_engine st) x"
  by (simp add: tick_windows_def)

lemma process_message_accounted:
  assumes "accounted (rs_engine st) ((\<lambda>_. 0)(cr_data_id ref := Suc 0))" and "env_ok False env rn exec (rs_engine st)"
    and "process_message env rn pulled exec ref st = Some (next, st')"
  shows "balanced (rs_engine st')"
proof -
  let ?i = "cr_data_id ref" and ?trace = "cr_trace_id ref"
  define st2 where "st2 = release_st (emit_st st (Started (rn_id rn) ?trace)) ?i"
  have "accounted (eg_release (rs_engine (emit_st st (Started (rn_id rn) ?trace))) ?i)
      (((\<lambda>_. 0)(?i := Suc 0))(?i := 0))"
    using assms(1) by (intro accounted_release) simp_all
  then have b2: "balanced (rs_engine st2)" by (simp add: st2_def release_st_engine fun_upd_idem)
  have f2: "fresh_from env 0 (rs_engine st2)"
    using assms(1,2) accounted_inv [OF assms(1)]
    by (simp add: env_ok_def fresh_from_def st2_def release_st_engine refcount_release)
  have P: "balanced (rs_engine s)" if "process_outputs env rn ?trace outs 0 None st3 = (e, md, s)"
    "rs_engine st3 = rs_engine st2" "length outs \<le> re_draws env" for outs e md s st3
    using process_outputs_accounted [OF _ _ _ _ _ _ that(1)] that(2,3) b2 f2 assms(2)
    by (simp add: env_ok_def)
  show ?thesis
  proof (cases "store_read_mut (eg_store (rs_engine st)) ?i")
    case (Inl err)
    then show ?thesis using assms(3) b2 by (auto simp: process_message_def Let_def st2_def)
  next
    case (Inr payload)
    obtain p ps where pulled: "pulled payload (rs_pull st2) = Some (p, ps)"
      using assms(3) Inr by (auto simp: process_message_def Let_def st2_def split: option.splits)
    show ?thesis
    proof (cases p)
      case (Inl err)
      then show ?thesis using assms(3) Inr pulled b2
        by (auto simp: process_message_def Let_def simp flip: st2_def)
    next
      case p: (Inr merged)
      obtain r where r: "guarded_execute (rn_id rn) ?trace (rn_timeout rn) (exec merged) = Some r"
        using assms(3) Inr pulled p
        by (auto simp: process_message_def Let_def simp flip: st2_def split: option.splits)
      show ?thesis
      proof (cases r)
        case (Inl err)
        then show ?thesis using assms(3) \<open>store_read_mut _ _ = Inr payload\<close> pulled p r b2
          by (auto simp: process_message_def Let_def simp flip: st2_def)
      next
        case outs: (Inr outs)
        obtain e md s where po: "process_outputs env rn ?trace outs 0 None (st2\<lparr>rs_pull := ps\<rparr>) = (e, md, s)"
          by (cases "process_outputs env rn ?trace outs 0 None (st2\<lparr>rs_pull := ps\<rparr>)") auto
        have "length outs \<le> re_draws env"
          using assms(2) r outs by (auto simp: env_ok_def guarded_Inr)
        then have bs: "balanced (rs_engine s)" by (intro P [OF po]) simp
        show ?thesis using assms(3) Inr pulled p r outs po bs
          by (cases e) (auto simp: process_message_def Let_def simp flip: st2_def)
      qed
    qed
  qed
qed

lemma run_node_turn_balanced:
  assumes "balanced (rs_engine st)" and "env_ok False env rn exec (rs_engine st)"
    and "run_node_turn env rn pulled exec st = Some st'"
  shows "balanced (rs_engine st')"
proof (cases "recv (input_chan (rs_engine st) (rn_id rn))")
  case None
  then show ?thesis using assms by (simp add: run_node_turn_def)
next
  case (Some q)
  obtain ref c' where q: "q = (ref, c')" by (cases q)
  let ?st1 = "st\<lparr>rs_engine := set_input (rs_engine st) (rn_id rn) c'\<rparr>"
  obtain nxt st2 where m: "process_message env rn pulled exec ref ?st1 = Some (nxt, st2)"
    using assms(3) Some q by (auto simp: run_node_turn_def split: option.splits)
  have "accounted (rs_engine ?st1) ((\<lambda>_. 0)(cr_data_id ref := Suc 0))"
    using accounted_pop [OF assms(1)] Some q by simp
  moreover have "env_ok False env rn exec (rs_engine ?st1)" using assms(2) by (simp add: env_ok_def fresh_from_def)
  ultimately have b: "balanced (rs_engine st2)" by (rule process_message_accounted [OF _ _ m])
  show ?thesis
  proof (cases nxt)
    case Continue
    then show ?thesis using assms(3) Some q m b by (simp add: run_node_turn_def)
  next
    case Break
    then show ?thesis using assms(3) Some q m b
      by (auto simp: run_node_turn_def leave_loop_def Let_def intro!: accounted_close_input)
  qed
qed

section \<open>The other operations on the shared state\<close>

lemma submit_all_accounted:
  assumes "accounted eg x" and "x (cr_data_id ref) = length ns" and "submit_all ref ns eg = (r, eg')"
  shows "accounted eg' (x(cr_data_id ref := 0))"
  using assms
proof (induction ns arbitrary: eg x)
  case Nil
  then show ?case by (simp add: fun_upd_idem)
next
  case (Cons n ns)
  let ?i = "cr_data_id ref"
  show ?case
  proof (cases "closed (input_chan eg n)")
    case True
    then have "eg' = ((\<lambda>e. eg_release e ?i) ^^ length (n # ns)) eg"
      using Cons.prems(3) by (simp add: send_def Let_def del: funpow.simps)
    moreover have "accounted (((\<lambda>e. eg_release e ?i) ^^ length (n # ns)) eg) (x(?i := 0))"
      using Cons.prems(1,2) by (intro accounted_release_many) simp_all
    ultimately show ?thesis by (simp only:)
  next
    case False
    let ?c = "(input_chan eg n)\<lparr>queue := queue (input_chan eg n) @ [ref]\<rparr>"
    have len: "x ?i = Suc (length ns)" using Cons.prems(2) by simp
    have acc: "accounted (set_input eg n ?c) (x(?i := length ns))"
      by (rule accounted_push [OF Cons.prems(1) len False]) simp
    have run: "submit_all ref ns (set_input eg n ?c) = (r, eg')"
      using Cons.prems(3) False by (simp add: send_def Let_def)
    have "accounted eg' ((x(?i := length ns))(?i := 0))" by (rule Cons.IH [OF acc _ run]) simp
    then show ?thesis by (simp only: fun_upd_upd)
  qed
qed

lemma submit_balanced:
  assumes "balanced eg" and "refcount eg i = 0" and "length (in_root_senders ingress) < 2 ^ 64"
    and "submit ingress i ctx eg = (r, eg')"
  shows "balanced eg'"
proof (cases "in_root_senders ingress = []")
  case True
  then show ?thesis using assms by (simp add: submit_def)
next
  case False
  let ?ns = "in_root_senders ingress"
  show ?thesis
  proof (cases "store_write (eg_store eg) i (wc_payload ctx) (of_nat (length ?ns))")
    case (Inl err)
    then show ?thesis using assms False by (simp add: submit_def Let_def)
  next
    case (Inr w)
    obtain j store' where w: "w = (j, store')" by (cases w)
    have sw: "store_write (eg_store eg) i (wc_payload ctx) (of_nat (length ?ns)) = Inr (j, store')"
      using Inr w by simp
    have j: "j = i" and acc: "accounted (eg\<lparr>eg_store := store'\<rparr>) ((\<lambda>_. 0)(i := length ?ns))"
      using accounted_write [OF assms(1) sw assms(2)] False assms(3) by blast+
    have run: "submit_all (ingress_ref ctx i) ?ns (eg\<lparr>eg_store := store'\<rparr>) = (r, eg')"
      using assms(4) False sw j by (simp add: submit_def Let_def)
    have "accounted eg' (((\<lambda>_. 0)(i := length ?ns))(cr_data_id (ingress_ref ctx i) := 0))"
      by (rule submit_all_accounted [OF acc _ run]) (simp add: ingress_ref_def)
    then show ?thesis by (simp add: ingress_ref_def fun_upd_idem)
  qed
qed

lemma submit_to_balanced:
  assumes "balanced eg" and "refcount eg i = 0" and "submit_to ingress i n ctx eg = (r, eg')"
  shows "balanced eg'"
proof (cases "n \<in> set (in_root_senders ingress)")
  case False
  then show ?thesis using assms by (simp add: submit_to_def)
next
  case True
  show ?thesis
  proof (cases "store_write (eg_store eg) i (wc_payload ctx) 1")
    case (Inl err)
    then show ?thesis using assms True by (simp add: submit_to_def)
  next
    case (Inr w)
    obtain j store' where w: "w = (j, store')" by (cases w)
    have sw: "store_write (eg_store eg) i (wc_payload ctx) (of_nat (length [n])) = Inr (j, store')"
      using Inr w by simp
    have j: "j = i" and acc: "accounted (eg\<lparr>eg_store := store'\<rparr>) ((\<lambda>_. 0)(i := length [n]))"
      using accounted_write [OF assms(1) sw assms(2)] by simp_all
    have run: "submit_all (ingress_ref ctx i) [n] (eg\<lparr>eg_store := store'\<rparr>) = (r, eg')"
      using assms(3) True sw j by (auto simp: submit_to_def Let_def ingress_ref_def split: prod.splits)
    have "accounted eg' (((\<lambda>_. 0)(i := length [n]))(cr_data_id (ingress_ref ctx i) := 0))"
      by (rule submit_all_accounted [OF acc _ run]) (simp add: ingress_ref_def)
    then show ?thesis by (simp add: ingress_ref_def fun_upd_idem)
  qed
qed

lemma emit_targets_accounted:
  assumes "accounted eg x" and "x (cr_data_id ref) = length ts"
  shows "accounted (emit_targets h now bytes ref ts eg) (x(cr_data_id ref := 0))"
  using assms
proof (induction ts arbitrary: eg x)
  case Nil
  then show ?case by (simp add: fun_upd_idem)
next
  case (Cons t ts)
  let ?i = "cr_data_id ref" and ?n = "et_to_node t"
  have len: "x ?i = Suc (length ts)" using Cons.prems(2) by simp
  obtain eg1 where eg1: "emit_targets h now bytes ref (t # ts) eg = emit_targets h now bytes ref ts eg1"
    "accounted eg1 (x(?i := length ts))"
  proof (cases "closed (input_chan eg ?n)")
    case True
    then show ?thesis using that [of "eg_release eg ?i"] accounted_release [OF Cons.prems(1) len]
      by (simp add: send_def Let_def)
  next
    case False
    let ?c = "(input_chan eg ?n)\<lparr>queue := queue (input_chan eg ?n) @ [ref]\<rparr>"
    have "accounted (set_input eg ?n ?c) (x(?i := length ts))"
      by (rule accounted_push [OF Cons.prems(1) len False]) simp
    then show ?thesis
      using that [of "eg_emit (set_input eg ?n ?c) [emit_summary h t now (queue_depth ?c) bytes]"] False
      by (simp add: send_def Let_def)
  qed
  have "accounted (emit_targets h now bytes ref ts eg1) ((x(?i := length ts))(?i := 0))"
    by (rule Cons.IH [OF eg1(2)]) simp
  then show ?case using eg1(1) by (simp only: fun_upd_upd)
qed

lemma handle_emit_balanced:
  assumes "balanced eg" and "refcount eg i = 0" and "length (nh_downstream h) < 2 ^ 64"
    and "handle_emit h now trace i sz payload md eg = (r, eg')"
  shows "balanced eg'"
proof (cases "store_write (eg_store eg) i payload (of_nat (max (length (nh_downstream h)) 1))")
  case (Inl err)
  then show ?thesis using assms by (simp add: handle_emit_def Let_def)
next
  case (Inr w)
  obtain j store' where w: "w = (j, store')" by (cases w)
  let ?n = "max (length (nh_downstream h)) 1"
  have sw: "store_write (eg_store eg) i payload (of_nat ?n) = Inr (j, store')" using Inr w by simp
  have n: "0 < ?n" "?n < 2 ^ 64" using assms(3) by auto
  have j: "j = i" and acc: "accounted (eg\<lparr>eg_store := store'\<rparr>) ((\<lambda>_. 0)(i := ?n))"
    using accounted_write [OF assms(1) sw assms(2) n] by blast+
  let ?eg1 = "eg_emit (eg\<lparr>eg_store := store'\<rparr>) [Started (nh_node_id h) trace]"
  let ?eg2 = "if nh_downstream h = [] then eg_release ?eg1 i else ?eg1"
  let ?ref = "context_ref_new now trace i (Some (nh_node_id h))"
  have acc2: "accounted ?eg2 ((\<lambda>_. 0)(i := length (nh_downstream h)))"
  proof (cases "nh_downstream h = []")
    case True
    have "accounted (eg_release ?eg1 i) (((\<lambda>_. 0)(i := Suc 0))(i := 0))"
      using acc True by (intro accounted_release) simp_all
    then show ?thesis using True by simp
  next
    case False
    then have "?n = length (nh_downstream h)" by (cases "nh_downstream h") simp_all
    then show ?thesis using acc False by simp
  qed
  have rid: "cr_data_id ?ref = i" by (simp add: context_ref_new_def)
  have "accounted (emit_targets h now (sz payload) ?ref (nh_downstream h) ?eg2)
      (((\<lambda>_. 0)(i := length (nh_downstream h)))(cr_data_id ?ref := 0))"
    by (rule emit_targets_accounted [OF acc2]) (simp add: rid)
  moreover have "eg' = eg_emit (emit_targets h now (sz payload) ?ref (nh_downstream h) ?eg2)
      [Completed \<lparr>cp_stage = nh_node_id h, cp_trace_id = trace, cp_metadata = (if md = [] then None else Some md)\<rparr>]"
    using assms(4) sw j by (simp add: handle_emit_def Let_def)
  ultimately show ?thesis by (simp add: rid fun_upd_idem)
qed

lemma refcount_readable:
  "arena_inv (eg_store eg) \<Longrightarrow> 0 < refcount eg i \<Longrightarrow> \<exists>p. store_read (eg_store eg) i = Inr p"
  by (auto simp: refcount_def arena.read_refs split: option.splits)

lemma next_result_balanced:
  assumes "balanced eg" shows "balanced (snd (next_result eg))"
proof (cases "recv (eg_results eg)")
  case None
  then show ?thesis using assms by (simp add: next_result_def)
next
  case (Some q)
  obtain ref c' where q: "q = (ref, c')" by (cases q)
  let ?eg1 = "eg\<lparr>eg_results := c'\<rparr>" and ?i = "cr_data_id ref"
  have acc: "accounted ?eg1 ((\<lambda>_. 0)(?i := Suc 0))"
    using accounted_pop_result [OF assms] Some q by simp
  then have "0 < refcount ?eg1 ?i" by (simp add: accounted_def)
  then obtain p where p: "store_read (eg_store ?eg1) ?i = Inr p"
    using refcount_readable accounted_inv [OF acc] by blast
  have "accounted (eg_release ?eg1 ?i) (((\<lambda>_. 0)(?i := Suc 0))(?i := 0))"
    by (rule accounted_release [OF acc]) simp
  then show ?thesis using Some q p by (simp add: next_result_def Let_def fun_upd_idem)
qed

section \<open>Runs of a workflow\<close>

text \<open>The shared state at the end of a deployment, from the node ids and their buffer sizes.\<close>

definition engine_new :: "(string \<times> usize) list \<Rightarrow> engine" where
  "engine_new buffers =
     (let event_capacity = max (length buffers) 1 * 16
      in \<lparr>eg_store = arena_new,
          eg_inputs = map (\<lambda>(n, b). (n, chan_new (unat (max b 1)))) buffers,
          eg_results = chan_new event_capacity, eg_events = chan_new event_capacity, eg_lost = []\<rparr>)"

text \<open>
  The steps of a running workflow. In a \<open>racing\<close> run a receiver may disappear at any point of a send; in
  the other runs it may disappear at any time but between the two tests of a refused send.
\<close>

inductive engine_step :: "bool \<Rightarrow> engine \<Rightarrow> engine \<Rightarrow> bool" for racing where
  turn: "env_ok racing env rn exec (rs_engine st) \<Longrightarrow> run_node_turn env rn pulled exec st = Some st' \<Longrightarrow>
    engine_step racing (rs_engine st) (rs_engine st')"
| tick: "engine_step racing (rs_engine st) (rs_engine (tick_windows env rn st))"
| submit: "refcount eg i = 0 \<Longrightarrow> length (in_root_senders ingress) < 2 ^ 64 \<Longrightarrow>
    engine_step racing eg (snd (submit ingress i ctx eg))"
| submit_to: "refcount eg i = 0 \<Longrightarrow> engine_step racing eg (snd (submit_to ingress i n ctx eg))"
| emit: "refcount eg i = 0 \<Longrightarrow> length (nh_downstream h) < 2 ^ 64 \<Longrightarrow>
    engine_step racing eg (snd (handle_emit h now trace i sz payload md eg))"
| take_result: "engine_step racing eg (snd (next_result eg))"
| drop_input: "engine_step racing eg (close_input eg n)"
| drop_results: "engine_step racing eg (close_results eg)"

lemma engine_step_balanced: "engine_step False eg eg' \<Longrightarrow> balanced eg \<Longrightarrow> balanced eg'"
proof (induction rule: engine_step.induct)
  case (turn env rn exec st pulled st')
  then show ?case by (blast intro: run_node_turn_balanced)
next
  case (submit eg i ingress ctx)
  then show ?case by (metis prod.collapse submit_balanced)
next
  case (submit_to eg i ingress n ctx)
  then show ?case by (metis prod.collapse submit_to_balanced)
next
  case (emit eg i h now trace sz payload md)
  then show ?case by (metis prod.collapse handle_emit_balanced)
qed (auto intro: next_result_balanced accounted_close_input accounted_close_results)

lemma engine_new_balanced: "distinct (map fst buffers) \<Longrightarrow> balanced (engine_new buffers)"
proof -
  assume "distinct (map fst buffers)"
  then have "hm_wf (map (\<lambda>(n, b). (n, chan_new (unat (max b 1)))) buffers)"
    by (simp add: hm_wf_def comp_def case_prod_unfold)
  moreover have "sum_list (map (\<lambda>(n, c). chan_count i c) (map (\<lambda>(n, b). (n, chan_new (unat (max b 1)))) buffers)) = 0" for i
    by (induction buffers) (auto simp: chan_count_def chan_new_def)
  ultimately show ?thesis
    by (simp add: accounted_def engine_new_def Let_def refcount_def arena_refs_def arena_new_def
        outstanding_def chan_count_def chan_new_def arena_inv_def del: map_map)
qed

lemma engine_steps_balanced:
  assumes "(engine_step False)\<^sup>*\<^sup>* (engine_new buffers) eg" and "distinct (map fst buffers)"
  shows "balanced eg"
  using assms(1) by (induction rule: rtranclp_induct)
    (auto intro: engine_step_balanced engine_new_balanced assms(2))

text \<open>
  C1: along every run of a workflow in which no receiver disappears between the two tests of a refused send,
  the count the store keeps for a payload is the number of references to it that are queued, or were
  dropped with a receiver: nothing is released twice, and nothing that can still be read is forgotten.
\<close>

theorem references_conserved:
  assumes "(engine_step False)\<^sup>*\<^sup>* (engine_new buffers) eg" and "distinct (map fst buffers)"
  shows "refcount eg i = outstanding eg i"
  using engine_steps_balanced [OF assms] by (simp add: accounted_def)

definition demo_buffers :: "(string \<times> usize) list" where
  "demo_buffers = [(''a'', 32), (''b'', 0)]"

definition demo_ingress :: workflow_ingress where
  "demo_ingress = \<lparr>in_root_nodes = [''a'', ''b''], in_root_senders = [''a'', ''b'']\<rparr>"

definition demo_context :: workflow_context where
  "demo_context = \<lparr>wc_trace_id = 1, wc_timestamp = 0, wc_payload = JBool True\<rparr>"

definition demo_submitted :: engine where
  "demo_submitted = snd (submit demo_ingress 9 demo_context (engine_new demo_buffers))"

lemma demo_submitted_step: "engine_step racing (engine_new demo_buffers) demo_submitted"
  unfolding demo_submitted_def
  by (rule engine_step.submit) (simp_all add: refcount_def engine_new_def Let_def arena_new_def
      arena_refs_def demo_ingress_def)

lemma demo_submitted_steps: "(engine_step False)\<^sup>*\<^sup>* (engine_new demo_buffers) demo_submitted"
  by (rule r_into_rtranclp) (rule demo_submitted_step)

lemma demo_buffers_distinct: "distinct (map fst demo_buffers)"
  by (simp add: demo_buffers_def)

theorem references_conserved_witness:
  "refcount demo_submitted 9 = 2 \<and> outstanding demo_submitted 9 = 2"
proof -
  have "refcount demo_submitted 9 = 2" by code_simp
  then show ?thesis
    using references_conserved [OF demo_submitted_steps demo_buffers_distinct, of 9]
    by simp
qed

text \<open>
  C2: a reference waiting in the input queue of a node or in the result queue can always be
  resolved: no run, in which no receiver disappears between the two tests of a refused send, reaches a
  state where reading its payload is the error \<open>DataNotFound\<close>.
\<close>

theorem queued_payload_readable:
  assumes "(engine_step False)\<^sup>*\<^sup>* (engine_new buffers) eg" and "distinct (map fst buffers)"
    and "ref \<in> set (queue (input_chan eg n)) \<or> ref \<in> set (queue (eg_results eg))"
  shows "\<exists>p. store_read (eg_store eg) (cr_data_id ref) = Inr p"
proof -
  have b: "balanced eg" by (rule engine_steps_balanced [OF assms(1,2)])
  have pos: "0 < chan_count (cr_data_id ref) c" if "ref \<in> set (queue c)" for c :: "context_ref chan"
    using that by (auto simp: chan_count_def simp flip: count_list_0_iff intro!: Nat.gr0I)
      (metis count_list_0_iff image_eqI list.set_map)
  have "0 < outstanding eg (cr_data_id ref)"
    using assms(3)
  proof
    assume r: "ref \<in> set (queue (input_chan eg n))"
    then have "queue (input_chan eg n) \<noteq> []" by auto
    then have "(n, input_chan eg n) \<in> set (eg_inputs eg)"
      using input_chan_known [of eg n] by (simp add: map_of_SomeD)
    then have "chan_count (cr_data_id ref) (input_chan eg n)
        \<in> set (map (\<lambda>(n, c). chan_count (cr_data_id ref) c) (eg_inputs eg))" by force
    then have "chan_count (cr_data_id ref) (input_chan eg n)
        \<le> sum_list (map (\<lambda>(n, c). chan_count (cr_data_id ref) c) (eg_inputs eg))"
      by (rule member_le_sum_list) simp
    then show ?thesis using pos [OF r] by (simp add: outstanding_def)
  next
    assume "ref \<in> set (queue (eg_results eg))"
    then show ?thesis using pos by (simp add: outstanding_def)
  qed
  then show ?thesis using b refcount_readable [of eg] by (simp add: accounted_def)
qed

theorem queued_payload_readable_witness:
  "\<exists>p. store_read (eg_store demo_submitted) 9 = Inr p"
proof -
  have "map cr_data_id (queue (input_chan demo_submitted ''b'')) = [9]" by code_simp
  then obtain ref where "ref \<in> set (queue (input_chan demo_submitted ''b''))" "cr_data_id ref = 9"
    by (cases "queue (input_chan demo_submitted ''b'')") auto
  then show ?thesis
    using queued_payload_readable [OF demo_submitted_steps demo_buffers_distinct]
    by metis
qed

text \<open>
  C3: payloads do not leak: in a run in which no receiver disappears between the two tests of a refused send,
  once every queue has been drained and no receiver was dropped with messages in it, the store is empty.
\<close>

theorem drained_store_is_empty:
  assumes "(engine_step False)\<^sup>*\<^sup>* (engine_new buffers) eg" and "distinct (map fst buffers)"
    and "eg_lost eg = []" and "queue (eg_results eg) = []"
    and "\<forall>(n, c)\<in>set (eg_inputs eg). queue c = []"
  shows "entries (eg_store eg) = []"
proof (rule ccontr)
  assume "entries (eg_store eg) \<noteq> []"
  then obtain i e es where e: "entries (eg_store eg) = (i, e) # es" by (metis list.exhaust prod.exhaust)
  have b: "balanced eg" by (rule engine_steps_balanced [OF assms(1,2)])
  have "map_of (entries (eg_store eg)) i = Some e" using e by simp
  then have "entry_remaining e \<noteq> 0" using b unfolding accounted_def arena_inv_def by blast
  then have "0 < refcount eg i" using e by (simp add: refcount_def arena_refs_def unat_gt_0)
  moreover have "sum_list (map (\<lambda>(n, c). chan_count i c) (eg_inputs eg)) = 0"
    using assms(5) by (auto simp: chan_count_def sum_list_eq_0_iff)
  ultimately show False using b assms(3,4)
    by (simp only: accounted_def outstanding_def chan_count_def) simp
qed

text \<open>The example: both consumers of the submitted payload fail to read anything of interest and end.\<close>

definition demo_runtime :: "string \<Rightarrow> runtime_node" where
  "demo_runtime n = \<lparr>rn_id = n, rn_timeout = None, rn_targets = [], rn_data_pins = [],
     rn_reactive_pins = [], rn_has_non_data_output = False\<rparr>"

definition demo_env :: run_env where
  "demo_env = \<lparr>re_now = 0, re_ids = (\<lambda>_. 0), re_draws = 0, re_race = (\<lambda>_ _. False), re_size = (\<lambda>_. 0)\<rparr>"

definition demo_exec :: "json \<Rightarrow> node_execution outcome" where
  "demo_exec x = Finishes (Inr [])"

definition demo_pulled :: "json \<Rightarrow> (json, pull_state) pull" where
  "demo_pulled x ps = Some (Inr x, ps)"

definition demo_run_state :: "engine \<Rightarrow> run_state" where
  "demo_run_state eg = \<lparr>rs_engine = eg, rs_windows = [], rs_cache = [], rs_pull = demo_start\<rparr>"

definition demo_turn :: "string \<Rightarrow> engine \<Rightarrow> engine" where
  "demo_turn n eg =
     (case run_node_turn demo_env (demo_runtime n) demo_pulled demo_exec (demo_run_state eg) of
        Some st \<Rightarrow> rs_engine st | None \<Rightarrow> eg)"

lemma demo_turn_total:
  "run_node_turn demo_env (demo_runtime n) demo_pulled demo_exec (demo_run_state eg) \<noteq> None"
proof -
  have "process_message demo_env (demo_runtime n) demo_pulled demo_exec ref st \<noteq> None" for ref st
    by (cases "store_read_mut (eg_store (rs_engine (emit_st st (Started n (cr_trace_id ref))))) (cr_data_id ref)")
      (simp_all add: process_message_def demo_pulled_def demo_exec_def guarded_execute_def
        demo_runtime_def Let_def)
  note total = this
  show ?thesis
  proof (cases "recv (input_chan (rs_engine (demo_run_state eg)) (rn_id (demo_runtime n)))")
    case None
    then show ?thesis by (simp add: run_node_turn_def)
  next
    case (Some q)
    obtain ref c' where q: "q = (ref, c')" by (cases q)
    let ?st = "demo_run_state eg\<lparr>rs_engine := set_input (rs_engine (demo_run_state eg)) (rn_id (demo_runtime n)) c'\<rparr>"
    obtain nxt st' where "process_message demo_env (demo_runtime n) demo_pulled demo_exec ref ?st = Some (nxt, st')"
      using total [of ref ?st] by auto
    then show ?thesis using Some q by (cases nxt) (simp_all add: run_node_turn_def)
  qed
qed

lemma demo_turn_step: "engine_step racing eg (demo_turn n eg)"
proof -
  obtain st where st: "run_node_turn demo_env (demo_runtime n) demo_pulled demo_exec (demo_run_state eg) = Some st"
    using demo_turn_total by blast
  have "env_ok racing demo_env (demo_runtime n) demo_exec (rs_engine (demo_run_state eg))"
    by (simp add: env_ok_def fresh_from_def demo_env_def demo_exec_def demo_runtime_def)
  then have "engine_step racing (rs_engine (demo_run_state eg)) (rs_engine st)" using st by (rule engine_step.turn)
  then show ?thesis using st by (simp add: demo_turn_def demo_run_state_def)
qed

definition demo_drained :: engine where
  "demo_drained = demo_turn ''b'' (demo_turn ''a'' demo_submitted)"

lemma demo_drained_steps: "(engine_step False)\<^sup>*\<^sup>* (engine_new demo_buffers) demo_drained"
  unfolding demo_drained_def
  by (rule rtranclp.rtrancl_into_rtrancl [OF rtranclp.rtrancl_into_rtrancl [OF demo_submitted_steps]])
    (rule demo_turn_step)+

theorem drained_store_is_empty_witness: "entries (eg_store demo_drained) = []"
proof (rule drained_store_is_empty [OF demo_drained_steps demo_buffers_distinct])
  show "eg_lost demo_drained = []" by code_simp
  show "queue (eg_results demo_drained) = []" by code_simp
  show "\<forall>(n, c)\<in>set (eg_inputs demo_drained). queue c = []" by code_simp
qed

section \<open>The race of the drop policy\<close>

text \<open>
  An output goes to an open queue \<open>a\<close> and, by the drop policy, to a full queue \<open>b\<close> whose receiver
  goes away right after the refusal. The reference of \<open>b\<close> is released twice, so the payload is gone
  while \<open>a\<close> still has a reference to it.
\<close>

definition race_engine :: engine where
  "race_engine =
     \<lparr>eg_store = arena_new, eg_inputs = [(''a'', chan_new 4),
        (''b'', \<lparr>queue = [\<lparr>cr_trace_id = 1, cr_timestamp = 0, cr_data_id = 5, cr_source_node = None\<rparr>],
                 max_capacity = 1, closed = False\<rparr>)],
      eg_results = chan_new 4, eg_events = chan_new 4, eg_lost = []\<rparr>"

definition race_target :: "string \<Rightarrow> backpressure_policy \<Rightarrow> downstream_target" where
  "race_target n policy = \<lparr>dt_source_port_id = None, dt_target_node_id = n, dt_target_port_id = None,
     dt_edge_kind = Exec, dt_backpressure_policy = policy\<rparr>"

lemma race_releases_too_much:
  "let st = snd (deliver_output (demo_env\<lparr>re_ids := \<lambda>_. 9, re_race := \<lambda>_ i. i = 1\<rparr>) (demo_runtime ''n'') 1 0
         JNull [race_target ''a'' Block, race_target ''b'' DropNewest] (demo_run_state race_engine))
   in map cr_data_id (queue (input_chan (rs_engine st) ''a'')) = [9] \<and>
      store_read (eg_store (rs_engine st)) 9 = Inl (DataNotFound 9)"
  by code_simp

text \<open>The same along a run from a fresh deployment, so the side condition on the runs above is needed.\<close>

definition race_buffers :: "(string \<times> usize) list" where
  "race_buffers = [(''a'', 4), (''b'', 1), (''n'', 4)]"

definition race_ingress :: workflow_ingress where
  "race_ingress = \<lparr>in_root_nodes = [''b'', ''n''], in_root_senders = [''b'', ''n'']\<rparr>"

definition race_ready :: engine where
  "race_ready = snd (submit_to race_ingress 6 ''n'' demo_context
     (snd (submit_to race_ingress 5 ''b'' demo_context (engine_new race_buffers))))"

definition race_env :: run_env where
  "race_env = demo_env\<lparr>re_ids := \<lambda>_. 9, re_draws := 1, re_race := \<lambda>_ i. i = 1\<rparr>"

definition race_node :: runtime_node where
  "race_node = demo_runtime ''n''\<lparr>rn_targets := [race_target ''a'' Block, race_target ''b'' DropNewest]\<rparr>"

definition race_exec :: "json \<Rightarrow> node_execution outcome" where
  "race_exec x = Finishes (Inr (broadcast JNull))"

lemma race_turn:
  "case run_node_turn race_env race_node demo_pulled race_exec (demo_run_state race_ready) of
     None \<Rightarrow> False
   | Some st \<Rightarrow>
       map cr_data_id (queue (input_chan (rs_engine st) ''a'')) = [9] \<and>
       store_read (eg_store (rs_engine st)) 9 = Inl (DataNotFound 9)"
  by code_simp

lemma racing_run_releases_too_much:
  "\<exists>eg. (engine_step True)\<^sup>*\<^sup>* (engine_new race_buffers) eg \<and>
    map cr_data_id (queue (input_chan eg ''a'')) = [9] \<and> store_read (eg_store eg) 9 = Inl (DataNotFound 9)"
proof -
  obtain st where st: "run_node_turn race_env race_node demo_pulled race_exec (demo_run_state race_ready) = Some st"
    and bad: "map cr_data_id (queue (input_chan (rs_engine st) ''a'')) = [9]"
      "store_read (eg_store (rs_engine st)) 9 = Inl (DataNotFound 9)"
    using race_turn by (auto split: option.splits)
  let ?first = "snd (submit_to race_ingress 5 ''b'' demo_context (engine_new race_buffers))"
  have "refcount (engine_new race_buffers) 5 = 0" "refcount ?first 6 = 0" "refcount race_ready 9 = 0"
    by (code_simp+)
  then have s1: "engine_step True (engine_new race_buffers) ?first" and s2: "engine_step True ?first race_ready"
    and ok: "env_ok True race_env race_node race_exec (rs_engine (demo_run_state race_ready))"
    by (simp_all add: race_ready_def engine_step.submit_to env_ok_def fresh_from_def race_env_def demo_env_def
        race_exec_def broadcast_def race_node_def demo_runtime_def demo_run_state_def inj_on_def)
  have s3: "engine_step True race_ready (rs_engine st)"
    using engine_step.turn [OF ok st] by (simp add: demo_run_state_def)
  have "(engine_step True)\<^sup>*\<^sup>* (engine_new race_buffers) (rs_engine st)"
    by (rule converse_rtranclp_into_rtranclp, rule s1, rule converse_rtranclp_into_rtranclp, rule s2)
      (rule r_into_rtranclp, rule s3)
  then show ?thesis using bad by (intro exI [of _ "rs_engine st"] conjI)
qed

end
