(* ===== verification/Topology.thy ===== *)
theory Topology
  imports Graph_Types "HOL-Library.Multiset"
begin

text \<open>
  \<open>crates/graph/src/topology/mod.rs\<close> and \<open>crates/graph/src/topology/classify.rs\<close>: validation and
  topological order of a workflow graph, classification of its edges by the kind of their source
  port, and the separate cycle check on data and reactive edges. The loops are those of \<open>Kahn\<close>.
\<close>

section \<open>Topology of a set of edges\<close>

record topo_state =
  ts_incoming :: "(string, nat) hash_map"
  ts_downstream :: "(string, workflow_edge list) hash_map"

definition topo_init :: "workflow_graph \<Rightarrow> topo_state" where
  "topo_init g =
     \<lparr>ts_incoming = map (\<lambda>(n, _). (n, 0)) (g_nodes g),
      ts_downstream = map (\<lambda>(n, _). (n, [])) (g_nodes g)\<rparr>"

definition topo_add_edge ::
    "workflow_graph \<Rightarrow> topo_state \<Rightarrow> workflow_edge \<Rightarrow> topo_state result" where
  "topo_add_edge g st e =
     (if \<not> hm_contains (g_nodes g) (e_from e)
      then Inl (InvalidGraph (Msg ''edge-source-missing'' [e_from e]))
      else if \<not> hm_contains (g_nodes g) (e_to e)
      then Inl (InvalidGraph (Msg ''edge-target-missing'' [e_to e]))
      else
        (let es = (case map_of (ts_downstream st) (e_from e) of Some l \<Rightarrow> l | None \<Rightarrow> []);
             down = hm_insert (e_from e) (es @ [e]) (ts_downstream st);
             inc = (case map_of (ts_incoming st) (e_to e) of
                      Some c \<Rightarrow> hm_insert (e_to e) (c + 1) (ts_incoming st)
                    | None \<Rightarrow> ts_incoming st)
         in Inr \<lparr>ts_incoming = inc, ts_downstream = down\<rparr>))"

definition neighbours :: "(string, workflow_edge list) hash_map \<Rightarrow> string \<Rightarrow> string list" where
  "neighbours down n = (case map_of down n of Some es \<Rightarrow> map e_to es | None \<Rightarrow> [])"

text \<open>
  The outer option is the panic of the subtraction on an in-degree (\<open>topology_never_panics\<close>
  excludes it); the queue starts with the sorted roots.
\<close>

definition topology_for_edges ::
    "workflow_graph \<Rightarrow> workflow_edge list \<Rightarrow> workflow_topology result option" where
  "topology_for_edges g edges =
     (case try_fold (topo_add_edge g) (topo_init g) edges of
        Inl err \<Rightarrow> Some (Inl err)
      | Inr st \<Rightarrow>
          (let roots = sort (map fst (filter (\<lambda>(_, c). c = 0) (ts_incoming st)))
           in case kahn_loop (neighbours (ts_downstream st)) (ts_incoming st) roots [] of
                None \<Rightarrow> None
              | Some order \<Rightarrow>
                  Some (if length order \<noteq> length (g_nodes g)
                        then Inl (InvalidGraph (Msg ''not-a-dag'' []))
                        else Inr \<lparr>root_nodes = roots, downstream = ts_downstream st,
                                  deployment_order = order\<rparr>)))"

definition topology :: "workflow_graph \<Rightarrow> workflow_topology result option" where
  "topology g = topology_for_edges g (g_edges g)"

definition validate :: "workflow_graph \<Rightarrow> unit result option" where
  "validate g =
     (case topology g of
        None \<Rightarrow> None
      | Some (Inl err) \<Rightarrow> Some (Inl err)
      | Some (Inr t) \<Rightarrow>
          Some (if root_nodes t = [] then Inl (InvalidGraph (Msg ''no-root-node'' [])) else Inr ()))"

text \<open>\<open>from_json\<close> after the file has been parsed: normalisation of the nodes, then validation.\<close>

definition fallback_connection_id :: "workflow_node_definition \<Rightarrow> string option" where
  "fallback_connection_id d =
     (case wd_connection_id d of
        None \<Rightarrow> Option.bind (json_get (wd_config d) ''connection_id'') as_str
      | Some _ \<Rightarrow> None)"

definition normalize_nodes :: "workflow_graph \<Rightarrow> workflow_graph" where
  "normalize_nodes g =
     g\<lparr>g_nodes := map (\<lambda>(n, d). (n, normalize n (fallback_connection_id d) d)) (g_nodes g)\<rparr>"

definition from_parsed :: "workflow_graph \<Rightarrow> workflow_graph result option" where
  "from_parsed g0 =
     (let g = normalize_nodes g0
      in map_option (\<lambda>r. and_then r (\<lambda>_. Inr g)) (validate g))"

section \<open>Classification of edges\<close>

record classified_edges =
  ce_exec :: "workflow_edge list"
  ce_data :: "workflow_edge list"
  ce_reactive :: "workflow_edge list"

definition edge_kind ::
    "(string, node_trait) hash_map \<Rightarrow> workflow_edge \<Rightarrow> pin_kind result" where
  "edge_kind nodes e =
     and_then (ok_or (InvalidGraph (Msg ''classify-source-missing'' [e_from e]))
                (map_of nodes (e_from e)))
       (\<lambda>from_node.
          and_then (ok_or (UnknownPin (e_from e) (source_pin_id e) Output)
                     (find (\<lambda>p. pin_id p = source_pin_id e) (nt_output_pins from_node)))
            (\<lambda>p. Inr (pin_kind_of p)))"

definition classify_step ::
    "(string, node_trait) hash_map \<Rightarrow> classified_edges \<Rightarrow> workflow_edge \<Rightarrow> classified_edges result"
  where
  "classify_step nodes c e =
     and_then (edge_kind nodes e)
       (\<lambda>k. Inr (case k of
          Exec \<Rightarrow> c\<lparr>ce_exec := ce_exec c @ [e]\<rparr>
        | Data \<Rightarrow> c\<lparr>ce_data := ce_data c @ [e]\<rparr>
        | Reactive \<Rightarrow> c\<lparr>ce_reactive := ce_reactive c @ [e]\<rparr>))"

definition classify_edges ::
    "workflow_edge list \<Rightarrow> (string, node_trait) hash_map \<Rightarrow> classified_edges result" where
  "classify_edges edges nodes =
     try_fold (classify_step nodes) \<lparr>ce_exec = [], ce_data = [], ce_reactive = []\<rparr> edges"

section \<open>Cycles of data and reactive edges\<close>

definition cyc_add ::
    "(string, nat) hash_map \<times> (string, string list) hash_map \<Rightarrow> workflow_edge \<Rightarrow>
     (string, nat) hash_map \<times> (string, string list) hash_map" where
  "cyc_add st e =
     (let (inc, down) = st;
          inc1 = (case map_of inc (e_from e) of Some _ \<Rightarrow> inc | None \<Rightarrow> hm_insert (e_from e) 0 inc);
          c = (case map_of inc1 (e_to e) of Some c \<Rightarrow> c | None \<Rightarrow> 0);
          inc2 = hm_insert (e_to e) (c + 1) inc1;
          ts = (case map_of down (e_from e) of Some l \<Rightarrow> l | None \<Rightarrow> [])
      in (inc2, hm_insert (e_from e) (ts @ [e_to e]) down))"

text \<open>
  The initial queue is read from a hash map in its iteration order: \<open>iter\<close> stands for that order
  and may be any rearrangement.
\<close>

definition detect_non_exec_edge_cycle ::
    "(string list \<Rightarrow> string list) \<Rightarrow> classified_edges \<Rightarrow> unit result option" where
  "detect_non_exec_edge_cycle iter c =
     (let combined = ce_data c @ ce_reactive c
      in if combined = [] then Some (Inr ())
         else
           (let (inc, down) = fold (\<lambda>e st. cyc_add st e) combined ([], []);
                q = iter (map fst (filter (\<lambda>(_, k). k = 0) inc))
            in case kahn_loop (\<lambda>n. case map_of down n of Some ts \<Rightarrow> ts | None \<Rightarrow> []) inc q [] of
                 None \<Rightarrow> None
               | Some consumed \<Rightarrow>
                   Some (if length consumed \<noteq> length inc
                         then Inl (InvalidGraph (Msg ''non-exec-cycle'' []))
                         else Inr ())))"

section \<open>Correctness of the topology\<close>

definition edges_closed :: "workflow_graph \<Rightarrow> workflow_edge list \<Rightarrow> bool" where
  "edges_closed g es \<longleftrightarrow>
     list_all (\<lambda>e. hm_contains (g_nodes g) (e_from e) \<and> hm_contains (g_nodes g) (e_to e)) es"

definition topo_inv :: "workflow_graph \<Rightarrow> workflow_edge list \<Rightarrow> topo_state \<Rightarrow> bool" where
  "topo_inv g es st \<longleftrightarrow>
     hm_wf (ts_incoming st) \<and> fst ` set (ts_incoming st) = fst ` set (g_nodes g) \<and>
     (\<forall>v\<in>fst ` set (g_nodes g). map_of (ts_incoming st) v = Some (open_degree (edge_pairs es) {} v)) \<and>
     (\<forall>n. neighbours (ts_downstream st) n = targets (edge_pairs es) n)"

lemma open_degree_snoc:
  "open_degree (es @ [(u, w)]) D v = open_degree es D v + (if w = v \<and> u \<notin> D then 1 else 0)"
  by (simp add: open_degree_def)

lemma targets_snoc:
  "targets (es @ [(u, w)]) n = targets es n @ (if u = n then [w] else [])"
  by (simp add: targets_def)

lemma map_of_const: "map_of (map (\<lambda>(n, _). (n, c)) m) k = (if k \<in> fst ` set m then Some c else None)"
  by (induction m) auto

lemma keys_const: "map fst (map (\<lambda>(n, _). (n, c)) m) = map fst m"
  by auto

lemma topo_inv_init: "hm_wf (g_nodes g) \<Longrightarrow> topo_inv g [] (topo_init g)"
proof -
  assume wf: "hm_wf (g_nodes g)"
  have "fst ` set (map (\<lambda>(n, _). (n, c)) (g_nodes g)) = fst ` set (g_nodes g)" for c :: nat
    by (metis keys_const list.set_map)
  then show ?thesis using wf
    by (simp add: topo_inv_def topo_init_def hm_wf_def map_of_const open_degree_def targets_def
        neighbours_def keys_const del: map_map)
qed

lemma topo_inv_add:
  assumes "topo_inv g es st"
  shows "case topo_add_edge g st e of
      Inl _ \<Rightarrow> \<not> edges_closed g [e]
    | Inr st' \<Rightarrow> edges_closed g [e] \<and> topo_inv g (es @ [e]) st'"
proof (cases "edges_closed g [e]")
  case False
  then show ?thesis by (auto simp: topo_add_edge_def edges_closed_def)
next
  case True
  let ?V = "fst ` set (g_nodes g)"
  have V: "e_from e \<in> ?V" "e_to e \<in> ?V" using True by (simp_all add: edges_closed_def hm_contains_iff)
  let ?es = "(case map_of (ts_downstream st) (e_from e) of Some l \<Rightarrow> l | None \<Rightarrow> [])"
  let ?down = "hm_insert (e_from e) (?es @ [e]) (ts_downstream st)"
  let ?c = "open_degree (edge_pairs es) {} (e_to e)"
  let ?inc = "hm_insert (e_to e) (?c + 1) (ts_incoming st)"
  have inc: "map_of (ts_incoming st) (e_to e) = Some ?c"
    using assms V by (auto simp: topo_inv_def)
  have step: "topo_add_edge g st e = Inr \<lparr>ts_incoming = ?inc, ts_downstream = ?down\<rparr>"
    using True inc by (simp add: topo_add_edge_def edges_closed_def Let_def)
  have down: "neighbours ?down n = targets (edge_pairs (es @ [e])) n" for n
  proof -
    have old: "neighbours (ts_downstream st) n = targets (edge_pairs es) n" for n
      using assms by (simp add: topo_inv_def)
    show ?thesis using old [of n] old [of "e_from e"]
      by (auto simp: neighbours_def targets_snoc split: option.splits)
  qed
  have "topo_inv g (es @ [e]) \<lparr>ts_incoming = ?inc, ts_downstream = ?down\<rparr>"
    using assms V down by (auto simp: topo_inv_def keys_hm_insert open_degree_snoc)
  with step True show ?thesis by simp
qed

lemma topo_fold:
  assumes "hm_wf (g_nodes g)"
  shows "case try_fold (topo_add_edge g) (topo_init g) es of
      Inl _ \<Rightarrow> \<not> edges_closed g es
    | Inr st \<Rightarrow> edges_closed g es \<and> topo_inv g es st"
proof (induction es rule: rev_induct)
  case Nil
  then show ?case using topo_inv_init [OF assms] by (simp add: edges_closed_def)
next
  case (snoc e es)
  show ?case
  proof (cases "try_fold (topo_add_edge g) (topo_init g) es")
    case (Inl err)
    with snoc show ?thesis by (simp add: try_fold_append edges_closed_def)
  next
    case (Inr st)
    with snoc topo_inv_add [of g es st e] show ?thesis
      by (auto simp: try_fold_append edges_closed_def split: sum.splits)
  qed
qed

lemma edges_closed_set: "edges_closed g es \<Longrightarrow>
    set (edge_pairs es) \<subseteq> fst ` set (g_nodes g) \<times> fst ` set (g_nodes g)"
  by (force simp: edges_closed_def list_all_iff set_edge_pairs hm_contains_iff)

lemma length_eq_keys:
  assumes "hm_wf m" and "distinct r" and "set r \<subseteq> fst ` set m"
  shows "length r = length m \<longleftrightarrow> set r = fst ` set m"
proof -
  have "length m = card (fst ` set m)"
    using assms(1) by (metis distinct_card hm_wf_def length_map set_map)
  moreover have "length r = card (set r)" using assms(2) by (simp add: distinct_card)
  ultimately show ?thesis using assms(3) by (metis card_subset_eq finite_imageI List.finite_set)
qed

lemma topology_run:
  assumes wf: "hm_wf (g_nodes g)" and closed: "edges_closed g es"
  obtains st order where
    "try_fold (topo_add_edge g) (topo_init g) es = Inr st" "topo_inv g es st"
    "kahn_loop (neighbours (ts_downstream st)) (ts_incoming st)
       (sort (map fst (filter (\<lambda>(_, c). c = 0) (ts_incoming st)))) [] = Some order"
    "distinct order" "set order \<subseteq> fst ` set (g_nodes g)"
    "\<forall>(u, v)\<in>set (edge_pairs es). v \<in> set order \<longrightarrow> before order u v"
    "set order = fst ` set (g_nodes g) \<longleftrightarrow> acyclic (set (edge_pairs es))"
    "set (map fst (filter (\<lambda>(_, c). c = 0) (ts_incoming st))) =
       {v \<in> fst ` set (g_nodes g). open_degree (edge_pairs es) {} v = 0}"
    "distinct (map fst (filter (\<lambda>(_, c). c = 0) (ts_incoming st)))"
proof -
  obtain st where st: "try_fold (topo_add_edge g) (topo_init g) es = Inr st" and inv: "topo_inv g es st"
    using topo_fold [OF wf, of es] closed by (auto split: sum.splits)
  let ?roots = "map fst (filter (\<lambda>(_, c). c = 0) (ts_incoming st))"
  let ?V = "fst ` set (g_nodes g)"
  have wfi: "hm_wf (ts_incoming st)" using inv by (simp add: topo_inv_def)
  have d: "distinct ?roots" using wfi by (simp add: hm_wf_def distinct_map_filter)
  have nb: "neighbours (ts_downstream st) = targets (edge_pairs es)"
    using inv by (auto simp: topo_inv_def)
  have r: "set ?roots = {v \<in> ?V. open_degree (edge_pairs es) {} v = 0}"
  proof -
    have "v \<in> set ?roots \<longleftrightarrow> map_of (ts_incoming st) v = Some 0" for v
      using wfi by (force simp: hm_wf_def)
    moreover have "map_of (ts_incoming st) v = None" if "v \<notin> ?V" for v
      using inv that by (simp add: topo_inv_def map_of_eq_None_iff)
    moreover have "map_of (ts_incoming st) v = Some (open_degree (edge_pairs es) {} v)" if "v \<in> ?V" for v
      using inv that by (auto simp: topo_inv_def)
    ultimately show ?thesis by (intro set_eqI) (metis (mono_tags, lifting) mem_Collect_eq option.distinct(1) option.inject)
  qed
  have "\<exists>order. kahn_loop (targets (edge_pairs es)) (ts_incoming st) (sort ?roots) [] = Some order \<and>
      distinct order \<and> set order \<subseteq> ?V \<and>
      (\<forall>(u, v)\<in>set (edge_pairs es). v \<in> set order \<longrightarrow> before order u v) \<and>
      (set order = ?V \<longleftrightarrow> acyclic (set (edge_pairs es)))"
    by (rule kahn_loop_correct) (use inv d r edges_closed_set [OF closed] in
        \<open>auto simp: topo_inv_def simp del: set_map\<close>)
  with that [OF st inv] nb d r show ?thesis by auto
qed

lemma open_degree_edges:
  "open_degree (edge_pairs es) {} v = 0 \<longleftrightarrow> (\<forall>e\<in>set es. e_to e \<noteq> v)"
  by (auto simp: open_degree_0 set_edge_pairs)

text \<open>A finite graph without cycles has a node without incoming edges.\<close>

lemma acyclic_has_root:
  assumes "finite V" "V \<noteq> {}" "acyclic (set (edge_pairs es))" "\<forall>e\<in>set es. e_from e \<in> V"
  shows "\<exists>v\<in>V. \<forall>e\<in>set es. e_to e \<noteq> v"
proof (rule ccontr)
  assume "\<not> ?thesis"
  then have pred: "\<exists>u\<in>V. (u, v) \<in> set (edge_pairs es)" if "v \<in> V" for v
    using that assms(4) by (fastforce simp: set_edge_pairs)
  show False using predecessors_cycle [OF assms(1,2) pred] assms(3) by blast
qed

definition topology_ok :: "workflow_graph \<Rightarrow> workflow_edge list \<Rightarrow> workflow_topology \<Rightarrow> bool" where
  "topology_ok g es t \<longleftrightarrow>
     distinct (deployment_order t) \<and> set (deployment_order t) = fst ` set (g_nodes g) \<and>
     (\<forall>e\<in>set es. before (deployment_order t) (e_from e) (e_to e)) \<and>
     sorted (root_nodes t) \<and> distinct (root_nodes t) \<and>
     set (root_nodes t) = {v \<in> fst ` set (g_nodes g). \<forall>e\<in>set es. e_to e \<noteq> v} \<and>
     (\<forall>n. neighbours (downstream t) n = targets (edge_pairs es) n)"

lemma topology_for_edges_spec:
  assumes wf: "hm_wf (g_nodes g)"
  shows "\<exists>r. topology_for_edges g es = Some r \<and>
    (is_ok r \<longleftrightarrow> edges_closed g es \<and> acyclic (set (edge_pairs es))) \<and>
    (\<forall>t. r = Inr t \<longrightarrow> topology_ok g es t)"
proof (cases "edges_closed g es")
  case False
  then show ?thesis using topo_fold [OF wf, of es]
    by (auto simp: topology_for_edges_def split: sum.splits)
next
  case True
  obtain st order where run:
    "try_fold (topo_add_edge g) (topo_init g) es = Inr st" "topo_inv g es st"
    "kahn_loop (neighbours (ts_downstream st)) (ts_incoming st)
       (sort (map fst (filter (\<lambda>(_, c). c = 0) (ts_incoming st)))) [] = Some order"
    and order: "distinct order" "set order \<subseteq> fst ` set (g_nodes g)"
    "\<forall>(u, v)\<in>set (edge_pairs es). v \<in> set order \<longrightarrow> before order u v"
    "set order = fst ` set (g_nodes g) \<longleftrightarrow> acyclic (set (edge_pairs es))"
    and roots: "set (map fst (filter (\<lambda>(_, c). c = 0) (ts_incoming st))) =
       {v \<in> fst ` set (g_nodes g). open_degree (edge_pairs es) {} v = 0}"
    "distinct (map fst (filter (\<lambda>(_, c). c = 0) (ts_incoming st)))"
    by (rule topology_run [OF wf True])
  have len: "length order = length (g_nodes g) \<longleftrightarrow> acyclic (set (edge_pairs es))"
    using length_eq_keys [OF wf order(1,2)] order(4) by simp
  show ?thesis
  proof (cases "acyclic (set (edge_pairs es))")
    case False
    then show ?thesis using run len by (simp add: topology_for_edges_def Let_def)
  next
    case acyc: True
    let ?t = "\<lparr>root_nodes = sort (map fst (filter (\<lambda>(_, c). c = 0) (ts_incoming st))),
                 downstream = ts_downstream st, deployment_order = order\<rparr>"
    have res: "topology_for_edges g es = Some (Inr ?t)"
      using run len acyc by (simp add: topology_for_edges_def Let_def)
    have all: "set order = fst ` set (g_nodes g)" using order(4) acyc by simp
    have "before order (e_from e) (e_to e)" if "e \<in> set es" for e
    proof -
      have "(e_from e, e_to e) \<in> set (edge_pairs es)" using that by (auto simp: set_edge_pairs)
      then show ?thesis using order(3) all edges_closed_set [OF True] by blast
    qed
    then have "topology_ok g es ?t"
      using order(1) all roots run(2)
      by (simp add: topology_ok_def open_degree_edges topo_inv_def del: set_map)
    with res True acyc show ?thesis by simp
  qed
qed

text \<open>
  C4: the topology of a set of edges is computed without a panic; it is an error exactly when an
  edge refers to a missing node or the edges have a cycle, and otherwise lists every node once,
  every edge pointing forward, with the nodes without incoming edges as sorted roots.
\<close>

theorem topology_correct:
  assumes "hm_wf (g_nodes g)"
  shows "\<exists>r. topology_for_edges g es = Some r \<and>
    (is_ok r \<longleftrightarrow> edges_closed g es \<and> acyclic (set (edge_pairs es))) \<and>
    (\<forall>t. r = Inr t \<longrightarrow> topology_ok g es t)"
  using assms by (rule topology_for_edges_spec)

definition demo_edge :: "string \<Rightarrow> string \<Rightarrow> workflow_edge" where
  "demo_edge u v = \<lparr>e_from = u, e_to = v, e_source_port_id = None, e_target_port_id = None,
     e_backpressure_policy = None\<rparr>"

definition demo_graph :: workflow_graph where
  "demo_graph = \<lparr>g_name = None,
     g_nodes = [(''c'', probe ''sink'' JNull), (''a'', probe ''timer'' JNull), (''b'', probe ''code'' JNull)],
     g_edges = [demo_edge ''a'' ''b'', demo_edge ''b'' ''c'']\<rparr>"

lemma demo_graph_wf: "hm_wf (g_nodes demo_graph)"
  by (simp add: demo_graph_def hm_wf_def)

lemma demo_graph_topology:
  "topology_for_edges demo_graph (g_edges demo_graph) =
    Some (Inr \<lparr>root_nodes = [''a''],
      downstream = [(''c'', []), (''a'', [demo_edge ''a'' ''b'']), (''b'', [demo_edge ''b'' ''c''])],
      deployment_order = [''a'', ''b'', ''c'']\<rparr>)"
  by code_simp

theorem topology_correct_witness:
  "\<exists>t. topology_for_edges demo_graph (g_edges demo_graph) = Some (Inr t) \<and>
    topology_ok demo_graph (g_edges demo_graph) t \<and> deployment_order t = [''a'', ''b'', ''c'']"
  using topology_correct [OF demo_graph_wf, of "g_edges demo_graph"] demo_graph_topology by auto

lemma validate_accepts_spec:
  assumes "hm_wf (g_nodes g)"
  shows "\<exists>r. validate g = Some r \<and>
    (is_ok r \<longleftrightarrow> g_nodes g \<noteq> [] \<and> edges_closed g (g_edges g) \<and> acyclic (set (edge_pairs (g_edges g))))"
proof -
  obtain r where r: "topology_for_edges g (g_edges g) = Some r"
    and ok: "is_ok r \<longleftrightarrow> edges_closed g (g_edges g) \<and> acyclic (set (edge_pairs (g_edges g)))"
    and t: "\<And>t. r = Inr t \<Longrightarrow> topology_ok g (g_edges g) t"
    using topology_for_edges_spec [OF assms, of "g_edges g"] by blast
  show ?thesis
  proof (cases r)
    case (Inl err)
    then show ?thesis using r ok by (simp add: validate_def topology_def)
  next
    case (Inr t')
    have ac: "edges_closed g (g_edges g)" "acyclic (set (edge_pairs (g_edges g)))" using ok Inr by simp_all
    have srcs: "\<forall>e\<in>set (g_edges g). e_from e \<in> fst ` set (g_nodes g)"
      using edges_closed_set [OF ac(1)] by (auto simp: set_edge_pairs)
    have "root_nodes t' = [] \<longleftrightarrow> g_nodes g = []"
    proof
      assume "root_nodes t' = []"
      then have "\<not> (\<exists>v\<in>fst ` set (g_nodes g). \<forall>e\<in>set (g_edges g). e_to e \<noteq> v)"
        using t [OF Inr] by (auto simp: topology_ok_def)
      then show "g_nodes g = []"
        using acyclic_has_root [OF _ _ ac(2) srcs] by fastforce
    next
      assume "g_nodes g = []"
      then show "root_nodes t' = []" using t [OF Inr] by (simp add: topology_ok_def)
    qed
    then show ?thesis using r Inr ac by (simp add: validate_def topology_def)
  qed
qed

text \<open>
  A workflow graph is accepted exactly when it has a node, its edges join existing nodes and
  they have no cycle; the check for a root node refuses nothing but the empty graph.
\<close>

theorem validate_accepts_iff:
  assumes "hm_wf (g_nodes g)"
  shows "\<exists>r. validate g = Some r \<and>
    (is_ok r \<longleftrightarrow> g_nodes g \<noteq> [] \<and> edges_closed g (g_edges g) \<and> acyclic (set (edge_pairs (g_edges g))))"
  using assms by (rule validate_accepts_spec)

theorem validate_accepts_iff_witness:
  "\<exists>r. validate demo_graph = Some r \<and> (is_ok r \<longleftrightarrow> acyclic {(''a'', ''b''), (''b'', ''c'')})"
proof -
  have "edges_closed demo_graph (g_edges demo_graph)" by code_simp
  moreover have "set (edge_pairs (g_edges demo_graph)) = {(''a'', ''b''), (''b'', ''c'')}"
    by (simp add: demo_graph_def demo_edge_def edge_pairs_def)
  moreover have "g_nodes demo_graph \<noteq> []" by (simp add: demo_graph_def)
  ultimately show ?thesis using validate_accepts_iff [OF demo_graph_wf] by simp
qed

section \<open>Independence of the hash map order\<close>

lemma relax_cong:
  "map_of inc = map_of inc2 \<Longrightarrow>
    rel_option (\<lambda>(i, q) (i2, q2). map_of i = map_of i2 \<and> q = q2) (relax inc q ts) (relax inc2 q ts)"
proof (induction inc q ts arbitrary: inc2 rule: relax.induct)
  case (1 inc q)
  then show ?case by simp
next
  case (2 inc q t ts)
  show ?case
  proof (cases "map_of inc t")
    case None
    then show ?thesis using 2 by simp
  next
    case (Some c)
    show ?thesis
    proof (cases c)
      case 0
      then show ?thesis using Some 2 by simp
    next
      case (Suc k)
      then show ?thesis using Some 2 by simp
    qed
  qed
qed

lemma kahn_loop_cong:
  "map_of inc = map_of inc2 \<Longrightarrow> kahn_loop f inc q d = kahn_loop f inc2 q d"
proof (induction f inc q d arbitrary: inc2 rule: kahn_loop.induct)
  case (1 f inc d)
  then show ?case by simp
next
  case (2 f inc n q d)
  have r: "rel_option (\<lambda>(i, q) (i2, q2). map_of i = map_of i2 \<and> q = q2)
      (relax inc q (f n)) (relax inc2 q (f n))" by (rule relax_cong [OF 2(2)])
  show ?case
  proof (cases "relax inc q (f n)")
    case None
    then show ?thesis using r by simp
  next
    case (Some p)
    obtain i q' where p: "p = (i, q')" by (cases p)
    then obtain i2 where "relax inc2 q (f n) = Some (i2, q')" "map_of i = map_of i2"
      using r Some by (cases "relax inc2 q (f n)") auto
    then show ?thesis using 2(1) [OF Some [unfolded p] refl] Some p by simp
  qed
qed

lemma sort_keys_cong:
  assumes "hm_wf a" "hm_wf b" "map_of a = map_of b"
  shows "sort (map fst (filter (\<lambda>(_, c). P c) a)) = sort (map fst (filter (\<lambda>(_, c). P c) b))"
proof -
  have "set a = set b" using assms by (simp add: hm_wf_def map_of_inject_set)
  then have "set (map fst (filter (\<lambda>(_, c). P c) a)) = set (map fst (filter (\<lambda>(_, c). P c) b))" by simp
  moreover have "distinct (map fst (filter (\<lambda>(_, c). P c) a))" "distinct (map fst (filter (\<lambda>(_, c). P c) b))"
    using assms by (simp_all add: hm_wf_def distinct_map_filter)
  ultimately show ?thesis
    by (metis distinct_sort set_sort sorted_distinct_set_unique sorted_sort)
qed

text \<open>
  The roots and the deployment order do not depend on the iteration order of the hash map
  that holds the nodes.
\<close>

theorem topology_deterministic:
  assumes "hm_wf (g_nodes g)" and "mset (g_nodes g) = mset (g_nodes g')"
    and "topology_for_edges g es = Some (Inr t)"
  shows "\<exists>t'. topology_for_edges g' es = Some (Inr t') \<and>
    root_nodes t' = root_nodes t \<and> deployment_order t' = deployment_order t"
proof -
  have keys: "fst ` set (g_nodes g') = fst ` set (g_nodes g)"
    by (metis assms(2) set_mset_mset)
  have wf': "hm_wf (g_nodes g')"
    using assms(1,2) by (metis hm_wf_def mset_eq_imp_distinct_iff mset_map)
  have same: "hm_contains (g_nodes g') k = hm_contains (g_nodes g) k" for k
    by (simp add: hm_contains_iff keys)
  have len: "length (g_nodes g') = length (g_nodes g)" using assms(2) by (metis size_mset)
  obtain r where r: "topology_for_edges g es = Some r" "is_ok r \<longleftrightarrow> edges_closed g es \<and> acyclic (set (edge_pairs es))"
    using topology_for_edges_spec [OF assms(1), of es] by blast
  then have closed: "edges_closed g es" using assms(3) by auto
  then have closed': "edges_closed g' es" by (simp add: edges_closed_def same)
  obtain st where st: "try_fold (topo_add_edge g) (topo_init g) es = Inr st" "topo_inv g es st"
    using topo_fold [OF assms(1), of es] closed by (auto split: sum.splits)
  obtain st' where st': "try_fold (topo_add_edge g') (topo_init g') es = Inr st'" "topo_inv g' es st'"
    using topo_fold [OF wf', of es] closed' by (auto split: sum.splits)
  have inc: "map_of (ts_incoming st') v = map_of (ts_incoming st) v" for v
  proof (cases "v \<in> fst ` set (g_nodes g)")
    case True
    then show ?thesis using st(2) st'(2) keys unfolding topo_inv_def by metis
  next
    case False
    then have "map_of (ts_incoming st') v = None" "map_of (ts_incoming st) v = None"
      using st(2) st'(2) keys by (simp_all add: topo_inv_def map_of_eq_None_iff)
    then show ?thesis by simp
  qed
  then have inc: "map_of (ts_incoming st') = map_of (ts_incoming st)" by (rule ext)
  have nb: "neighbours (ts_downstream st') = neighbours (ts_downstream st)"
    using st(2) st'(2) by (simp add: topo_inv_def fun_eq_iff)
  have roots: "sort (map fst (filter (\<lambda>(_, c). c = 0) (ts_incoming st'))) =
      sort (map fst (filter (\<lambda>(_, c). c = 0) (ts_incoming st)))"
    using st(2) st'(2) by (intro sort_keys_cong inc) (simp_all add: topo_inv_def)
  show ?thesis using assms(3) st(1) st'(1) kahn_loop_cong [OF inc] nb roots len
    by (auto simp: topology_for_edges_def Let_def split: option.splits if_splits)
qed

definition demo_graph_permuted :: workflow_graph where
  "demo_graph_permuted = demo_graph\<lparr>g_nodes := rev (g_nodes demo_graph)\<rparr>"

theorem topology_deterministic_witness:
  "\<exists>t'. topology_for_edges demo_graph_permuted (g_edges demo_graph) = Some (Inr t') \<and>
    deployment_order t' = [''a'', ''b'', ''c'']"
  using topology_deterministic [OF demo_graph_wf _ demo_graph_topology, of demo_graph_permuted]
  by (auto simp: demo_graph_permuted_def)

section \<open>Correctness of the classification\<close>

definition edge_kind_is ::
    "(string, node_trait) hash_map \<Rightarrow> pin_kind \<Rightarrow> workflow_edge \<Rightarrow> bool" where
  "edge_kind_is nodes k e \<longleftrightarrow> edge_kind nodes e = Inr k"

lemma classify_fold:
  "try_fold (classify_step nodes) c es =
    (case try_all (\<lambda>e. case edge_kind nodes e of Inl err \<Rightarrow> Some err | Inr _ \<Rightarrow> None) es of
       Inl err \<Rightarrow> Inl err
     | Inr _ \<Rightarrow> Inr \<lparr>ce_exec = ce_exec c @ filter (edge_kind_is nodes Exec) es,
                    ce_data = ce_data c @ filter (edge_kind_is nodes Data) es,
                    ce_reactive = ce_reactive c @ filter (edge_kind_is nodes Reactive) es\<rparr>)"
proof (induction es arbitrary: c)
  case Nil
  then show ?case by simp
next
  case (Cons e es)
  show ?case
  proof (cases "edge_kind nodes e")
    case (Inl err)
    then show ?thesis by (simp add: classify_step_def)
  next
    case (Inr k)
    then have kind: "edge_kind_is nodes j e \<longleftrightarrow> j = k" for j by (auto simp: edge_kind_is_def)
    show ?thesis using Cons.IH Inr
      by (cases k) (simp_all add: classify_step_def kind split: sum.splits)
  qed
qed

lemma classify_edges_spec:
  "(is_ok (classify_edges es nodes) \<longleftrightarrow> (\<forall>e\<in>set es. is_ok (edge_kind nodes e))) \<and>
   (\<forall>c. classify_edges es nodes = Inr c \<longrightarrow>
      ce_exec c = filter (edge_kind_is nodes Exec) es \<and>
      ce_data c = filter (edge_kind_is nodes Data) es \<and>
      ce_reactive c = filter (edge_kind_is nodes Reactive) es \<and>
      mset (ce_exec c) + mset (ce_data c) + mset (ce_reactive c) = mset es)"
proof -
  have part: "mset (filter (edge_kind_is nodes Exec) es) + mset (filter (edge_kind_is nodes Data) es) +
      mset (filter (edge_kind_is nodes Reactive) es) = mset es"
    if "\<forall>e\<in>set es. is_ok (edge_kind nodes e)"
    using that
  proof (induction es)
    case Nil
    then show ?case by simp
  next
    case (Cons e es)
    then obtain k where "edge_kind nodes e = Inr k" by (auto simp: is_ok_iff)
    then show ?case using Cons by (cases k) (auto simp: edge_kind_is_def)
  qed
  show ?thesis
  proof (cases "try_all (\<lambda>e. case edge_kind nodes e of Inl err \<Rightarrow> Some err | Inr _ \<Rightarrow> None) es")
    case (Inl err)
    then obtain e where "e \<in> set es" "\<not> is_ok (edge_kind nodes e)"
      by (auto dest!: try_all_Inl split: sum.splits)
    then show ?thesis using Inl by (auto simp: classify_edges_def classify_fold)
  next
    case (Inr u)
    then have ok: "\<forall>e\<in>set es. is_ok (edge_kind nodes e)"
      by (auto simp: try_all_Inr is_ok_def split: sum.splits)
    show ?thesis using Inr ok part [OF ok] by (simp add: classify_edges_def classify_fold)
  qed
qed

text \<open>
  Classification fails exactly when the kind of some edge cannot be determined (unknown source
  node or port); otherwise the three lists are the edges of the three kinds, in their order, so
  that together they hold every edge exactly once.
\<close>

theorem classify_edges_partition:
  "(is_ok (classify_edges es nodes) \<longleftrightarrow> (\<forall>e\<in>set es. is_ok (edge_kind nodes e))) \<and>
   (\<forall>c. classify_edges es nodes = Inr c \<longrightarrow>
      ce_exec c = filter (edge_kind_is nodes Exec) es \<and>
      ce_data c = filter (edge_kind_is nodes Data) es \<and>
      ce_reactive c = filter (edge_kind_is nodes Reactive) es \<and>
      mset (ce_exec c) + mset (ce_data c) + mset (ce_reactive c) = mset es)"
  by (rule classify_edges_spec)

definition demo_nodes :: "(string, node_trait) hash_map" where
  "demo_nodes =
     [(''a'', \<lparr>nt_id = ''a'', nt_kind = ''timer'', nt_input_pins = [default_input],
               nt_output_pins = [default_output]\<rparr>),
      (''b'', \<lparr>nt_id = ''b'', nt_kind = ''code'', nt_input_pins = [default_input],
               nt_output_pins = [output_named_data ''latest'' ''latest'' TAny ''d'']\<rparr>)]"

theorem classify_edges_partition_witness:
  "is_ok (classify_edges [demo_edge ''a'' ''b''] demo_nodes)"
proof -
  have "edge_kind demo_nodes (demo_edge ''a'' ''b'') = Inr Exec" by code_simp
  then show ?thesis
    using classify_edges_partition [of "[demo_edge ''a'' ''b'']" demo_nodes] by simp
qed

section \<open>Correctness of the cycle check on data and reactive edges\<close>

definition endpoints :: "workflow_edge list \<Rightarrow> string set" where
  "endpoints es = e_from ` set es \<union> e_to ` set es"

definition cyc_inv ::
    "workflow_edge list \<Rightarrow> (string, nat) hash_map \<times> (string, string list) hash_map \<Rightarrow> bool" where
  "cyc_inv es st \<longleftrightarrow>
     hm_wf (fst st) \<and> fst ` set (fst st) = endpoints es \<and>
     (\<forall>v\<in>endpoints es. map_of (fst st) v = Some (open_degree (edge_pairs es) {} v)) \<and>
     (\<forall>n. (case map_of (snd st) n of Some ts \<Rightarrow> ts | None \<Rightarrow> []) = targets (edge_pairs es) n)"

lemma cyc_inv_add:
  assumes "cyc_inv es st"
  shows "cyc_inv (es @ [e]) (cyc_add st e)"
proof -
  obtain inc down where st: "st = (inc, down)" by (cases st)
  let ?inc1 = "case map_of inc (e_from e) of Some _ \<Rightarrow> inc | None \<Rightarrow> hm_insert (e_from e) 0 inc"
  let ?deg = "open_degree (edge_pairs es) {}"
  have zero: "?deg v = 0" if "v \<notin> endpoints es" for v
    using that by (auto simp: open_degree_edges endpoints_def)
  have none: "map_of inc v = None" if "v \<notin> endpoints es" for v
    using assms st that by (auto simp: cyc_inv_def map_of_eq_None_iff)
  have old: "map_of inc v = Some (?deg v)" if "v \<in> endpoints es" for v
    using assms st that by (simp add: cyc_inv_def)
  have wf1: "hm_wf ?inc1" using assms st by (auto simp: cyc_inv_def split: option.splits)
  have keys1: "fst ` set ?inc1 = insert (e_from e) (endpoints es)"
  proof (cases "e_from e \<in> endpoints es")
    case True
    then show ?thesis using assms st old [OF True] by (auto simp: cyc_inv_def)
  next
    case False
    then show ?thesis using assms st none [OF False] by (auto simp: cyc_inv_def keys_hm_insert)
  qed
  have inc1: "map_of ?inc1 v = (if v = e_from e \<or> v \<in> endpoints es then Some (?deg v) else None)" for v
    using old [of v] none [of v] old [of "e_from e"] none [of "e_from e"] zero [of "e_from e"]
    by (cases "e_from e \<in> endpoints es") auto
  let ?c = "case map_of ?inc1 (e_to e) of Some c \<Rightarrow> c | None \<Rightarrow> 0"
  have c: "?c = ?deg (e_to e)" using inc1 [of "e_to e"] zero [of "e_to e"] by auto
  let ?inc2 = "hm_insert (e_to e) (?deg (e_to e) + 1) ?inc1"
  have ends: "endpoints (es @ [e]) = insert (e_to e) (insert (e_from e) (endpoints es))"
    by (auto simp: endpoints_def)
  have counts: "map_of ?inc2 v = Some (open_degree (edge_pairs (es @ [e])) {} v)"
    if "v \<in> endpoints (es @ [e])" for v
    using that inc1 [of v] unfolding ends by (auto simp: open_degree_snoc)
  let ?ts = "case map_of down (e_from e) of Some l \<Rightarrow> l | None \<Rightarrow> []"
  let ?down = "hm_insert (e_from e) (?ts @ [e_to e]) down"
  have dn: "(case map_of down n of Some ts \<Rightarrow> ts | None \<Rightarrow> []) = targets (edge_pairs es) n" for n
    using assms st by (simp add: cyc_inv_def)
  have down: "(case map_of ?down n of Some ts \<Rightarrow> ts | None \<Rightarrow> []) =
      targets (edge_pairs (es @ [e])) n" for n
    using dn [of n] dn [of "e_from e"] by (auto simp: targets_snoc)
  have add: "cyc_add st e = (?inc2, ?down)"
    unfolding cyc_add_def st Let_def prod.case c by simp
  show ?thesis
    unfolding cyc_inv_def add fst_conv snd_conv
    using wf1 keys1 counts down ends by (simp add: keys_hm_insert)
qed

lemma cyc_fold: "cyc_inv es (fold (\<lambda>e st. cyc_add st e) es ([], []))"
proof (induction es rule: rev_induct)
  case Nil
  show ?case by (simp add: cyc_inv_def endpoints_def targets_def)
next
  case (snoc e es)
  then show ?case using cyc_inv_add [of es] by simp
qed

lemma non_exec_cycle_spec:
  assumes "\<And>xs. mset (iter xs) = mset xs"
  shows "\<exists>r. detect_non_exec_edge_cycle iter c = Some r \<and>
    (is_ok r \<longleftrightarrow> acyclic (set (edge_pairs (ce_data c @ ce_reactive c))))"
proof (cases "ce_data c @ ce_reactive c = []")
  case True
  then show ?thesis by (auto simp: detect_non_exec_edge_cycle_def Let_def acyclic_def)
next
  case False
  define es where "es = ce_data c @ ce_reactive c"
  obtain inc down where st: "fold (\<lambda>e st. cyc_add st e) es ([], []) = (inc, down)"
    by (cases "fold (\<lambda>e st. cyc_add st e) es ([], [])")
  have inv: "cyc_inv es (inc, down)" using cyc_fold [of es] st by simp
  let ?q = "iter (map fst (filter (\<lambda>(_, k). k = 0) inc))"
  let ?nb = "\<lambda>n. case map_of down n of Some ts \<Rightarrow> ts | None \<Rightarrow> []"
  have nb: "?nb = targets (edge_pairs es)" using inv by (auto simp: cyc_inv_def)
  have wf: "hm_wf inc" using inv by (simp add: cyc_inv_def)
  have q: "distinct ?q" "set ?q = set (map fst (filter (\<lambda>(_, k). k = 0) inc))"
    using assms wf by (metis distinct_map_filter hm_wf_def mset_eq_imp_distinct_iff, metis assms mset_eq_setD)
  have zero: "v \<in> set ?q \<longleftrightarrow> map_of inc v = Some 0" for v
    unfolding q(2) using wf by (force simp: hm_wf_def)
  have deg: "map_of inc v = Some (open_degree (edge_pairs es) {} v)" if "v \<in> endpoints es" for v
    using inv that by (simp add: cyc_inv_def)
  have none: "map_of inc v = None" if "v \<notin> endpoints es" for v
    using inv that by (simp add: cyc_inv_def map_of_eq_None_iff)
  have setq: "set ?q = {v \<in> endpoints es. open_degree (edge_pairs es) {} v = 0}"
    using zero deg none by (intro set_eqI) (metis (mono_tags, lifting) mem_Collect_eq option.distinct(1) option.inject)
  have sub: "set (edge_pairs es) \<subseteq> endpoints es \<times> endpoints es"
    by (auto simp: set_edge_pairs endpoints_def)
  have "\<exists>order. kahn_loop (targets (edge_pairs es)) inc ?q [] = Some order \<and>
      distinct order \<and> set order \<subseteq> endpoints es \<and>
      (\<forall>(u, v)\<in>set (edge_pairs es). v \<in> set order \<longrightarrow> before order u v) \<and>
      (set order = endpoints es \<longleftrightarrow> acyclic (set (edge_pairs es)))"
    by (rule kahn_loop_correct [OF sub _ _ q(1) setq]) (use deg in \<open>auto simp: endpoints_def\<close>)
  then obtain order where order: "kahn_loop ?nb inc ?q [] = Some order" "distinct order"
    "set order \<subseteq> endpoints es" "set order = endpoints es \<longleftrightarrow> acyclic (set (edge_pairs es))"
    unfolding nb by blast
  have "length order = length inc \<longleftrightarrow> acyclic (set (edge_pairs es))"
    using length_eq_keys [OF wf order(2)] order(3,4) inv by (simp add: cyc_inv_def)
  moreover have "detect_non_exec_edge_cycle iter c =
      Some (if length order \<noteq> length inc then Inl (InvalidGraph (Msg ''non-exec-cycle'' [])) else Inr ())"
    unfolding detect_non_exec_edge_cycle_def Let_def es_def [symmetric]
    using False st order(1) by (simp add: es_def [symmetric])
  ultimately show ?thesis by (simp add: es_def [symmetric] del: edge_pairs_simps(3))
qed

text \<open>
  For every iteration order of the hash map, the check on the data and reactive edges does not
  panic and rejects exactly the edge sets with a cycle.
\<close>

theorem non_exec_cycle_check_correct:
  assumes "\<And>xs. mset (iter xs) = mset xs"
  shows "\<exists>r. detect_non_exec_edge_cycle iter c = Some r \<and>
    (is_ok r \<longleftrightarrow> acyclic (set (edge_pairs (ce_data c @ ce_reactive c))))"
  using assms by (rule non_exec_cycle_spec)

definition demo_cycle :: classified_edges where
  "demo_cycle = \<lparr>ce_exec = [], ce_data = [demo_edge ''a'' ''b''],
     ce_reactive = [demo_edge ''b'' ''a'']\<rparr>"

theorem non_exec_cycle_check_correct_witness:
  "\<exists>r. detect_non_exec_edge_cycle rev demo_cycle = Some r \<and> \<not> is_ok r"
proof -
  have "(''a'', ''a'') \<in> {(''a'', ''b''), (''b'', ''a'')}\<^sup>+"
    by (rule trancl_trans [of _ "''b''"]) auto
  then have "\<not> acyclic {(''a'', ''b''), (''b'', ''a'')}" unfolding acyclic_def by blast
  moreover have "set (edge_pairs (ce_data demo_cycle @ ce_reactive demo_cycle)) =
      {(''a'', ''b''), (''b'', ''a'')}"
    by (simp add: demo_cycle_def demo_edge_def)
  ultimately show ?thesis
    using non_exec_cycle_check_correct [of rev demo_cycle]
    by (simp del: edge_pairs_simps(3) acyclic_insert)
qed

end
