(* ===== verification/Pin_Validator.thy ===== *)
theory Pin_Validator
  imports Graph_Types
begin

text \<open>
  \<open>crates/graph/src/pin_validator.rs\<close>: the checks on ports made when a workflow is deployed,
  before any node has side effects. The hash maps over nodes and ports are walked in the order of
  their lists; which error comes first may depend on it, acceptance does not.
\<close>

section \<open>The index of the ports of a node\<close>

record node_pin_index =
  ix_inputs :: "(string, pin_definition) hash_map"
  ix_outputs :: "(string, pin_definition) hash_map"

definition index_pin ::
    "string \<Rightarrow> pin_direction \<Rightarrow> (string, pin_definition) hash_map \<Rightarrow> pin_definition \<Rightarrow>
     (string, pin_definition) hash_map result" where
  "index_pin node_id dir m p =
     (if hm_contains m (pin_id p) then Inl (DuplicatePinId node_id (pin_id p) dir)
      else Inr (hm_insert (pin_id p) p m))"

definition build_pin_index :: "string \<Rightarrow> node_trait \<Rightarrow> node_pin_index result" where
  "build_pin_index node_id node =
     and_then (try_fold (index_pin node_id Input) [] (nt_input_pins node))
       (\<lambda>ins. and_then (try_fold (index_pin node_id Output) [] (nt_output_pins node))
          (\<lambda>outs. Inr \<lparr>ix_inputs = ins, ix_outputs = outs\<rparr>))"

definition build_indexes ::
    "(string, node_trait) hash_map \<Rightarrow> (string, node_pin_index) hash_map result" where
  "build_indexes nodes =
     try_fold (\<lambda>m (i, node). and_then (build_pin_index i node) (\<lambda>ix. Inr (hm_insert i ix m))) [] nodes"

section \<open>The three checks\<close>

definition check_edge ::
    "(string, node_pin_index) hash_map \<Rightarrow> workflow_edge \<Rightarrow> unit result" where
  "check_edge indexes e =
     and_then (ok_or (InvalidGraph (Msg ''pin-edge-source-missing'' [e_from e])) (map_of indexes (e_from e)))
       (\<lambda>from_index.
     and_then (ok_or (InvalidGraph (Msg ''pin-edge-target-missing'' [e_to e])) (map_of indexes (e_to e)))
       (\<lambda>to_index.
     and_then (ok_or (UnknownPin (e_from e) (source_pin_id e) Output)
                (map_of (ix_outputs from_index) (source_pin_id e)))
       (\<lambda>from_pin.
     and_then (ok_or (UnknownPin (e_to e) (target_pin_id e) Input)
                (map_of (ix_inputs to_index) (target_pin_id e)))
       (\<lambda>to_pin.
          if \<not> type_compatible (pin_ty from_pin) (pin_ty to_pin)
          then Inl (IncompatiblePinTypes (e_from e @ ''.'' @ pin_id from_pin) (e_to e @ ''.'' @ pin_id to_pin)
                 (Msg ''pin-type'' [type_label (pin_ty from_pin)]) (Msg ''pin-type'' [type_label (pin_ty to_pin)]))
          else if \<not> kind_compatible (pin_kind_of from_pin) (pin_kind_of to_pin)
          then Inl (IncompatiblePinKinds (e_from e @ ''.'' @ pin_id from_pin) (e_to e @ ''.'' @ pin_id to_pin)
                 (pin_kind_of from_pin) (pin_kind_of to_pin))
          else Inr ()))))"

definition covered_inputs :: "workflow_edge list \<Rightarrow> (string \<times> string) set" where
  "covered_inputs edges = set (map (\<lambda>e. (e_to e, target_pin_id e)) edges)"

definition check_required ::
    "(string \<times> string) set \<Rightarrow> string \<Rightarrow> string \<times> pin_definition \<Rightarrow> engine_error option" where
  "check_required covered node_id kp =
     (let (k, p) = kp
      in if \<not> pin_required p then None
         else if k = DEFAULT_INPUT_PIN_ID then None
         else if (node_id, k) \<in> covered then None
         else Some (InvalidGraph (Msg ''required-input-unconnected'' [node_id, k])))"

definition check_reserved :: "string \<Rightarrow> string \<times> pin_definition \<Rightarrow> engine_error option" where
  "check_reserved node_id kp =
     (let (k, p) = kp
      in if (pin_kind_of p = Data \<or> pin_kind_of p = Reactive) \<and> k = DEFAULT_INPUT_PIN_ID
         then Some (ReservedPinId node_id k (Msg ''reserved-pin-id'' []))
         else None)"

definition all_inputs ::
    "(string, node_pin_index) hash_map \<Rightarrow> (string \<times> string \<times> pin_definition) list" where
  "all_inputs indexes =
     concat (map (\<lambda>(n, ix). map (\<lambda>kp. (n, kp)) (ix_inputs ix)) indexes)"

definition validate_pin_compatibility ::
    "(string, node_trait) hash_map \<Rightarrow> workflow_edge list \<Rightarrow> unit result" where
  "validate_pin_compatibility nodes edges =
     and_then (build_indexes nodes) (\<lambda>indexes.
     and_then (try_fold (\<lambda>_ e. check_edge indexes e) () edges) (\<lambda>_.
     (let covered = covered_inputs edges
      in and_then (try_all (\<lambda>(n, kp). check_required covered n kp) (all_inputs indexes)) (\<lambda>_.
         try_all (\<lambda>(n, kp). check_reserved n kp) (all_inputs indexes)))))"

section \<open>What acceptance means\<close>

text \<open>The contract, on the declared ports of the nodes instead of their index.\<close>

definition ports_unique :: "pin_definition list \<Rightarrow> bool" where
  "ports_unique ps \<longleftrightarrow> distinct (map pin_id ps)"

definition edge_well_typed :: "(string, node_trait) hash_map \<Rightarrow> workflow_edge \<Rightarrow> bool" where
  "edge_well_typed nodes e \<longleftrightarrow>
     (\<exists>a b p q. map_of nodes (e_from e) = Some a \<and> map_of nodes (e_to e) = Some b \<and>
        p \<in> set (nt_output_pins a) \<and> pin_id p = source_pin_id e \<and>
        q \<in> set (nt_input_pins b) \<and> pin_id q = target_pin_id e \<and>
        type_compatible (pin_ty p) (pin_ty q) \<and> kind_compatible (pin_kind_of p) (pin_kind_of q))"

definition input_fed :: "workflow_edge list \<Rightarrow> string \<Rightarrow> pin_definition \<Rightarrow> bool" where
  "input_fed edges n p \<longleftrightarrow>
     pin_required p \<longrightarrow> pin_id p = DEFAULT_INPUT_PIN_ID \<or>
       (\<exists>e\<in>set edges. e_to e = n \<and> target_pin_id e = pin_id p)"

definition input_id_free :: "pin_definition \<Rightarrow> bool" where
  "input_id_free p \<longleftrightarrow> (pin_id p = DEFAULT_INPUT_PIN_ID \<longrightarrow> pin_kind_of p = Exec)"

definition ports_contract :: "(string, node_trait) hash_map \<Rightarrow> workflow_edge list \<Rightarrow> bool" where
  "ports_contract nodes edges \<longleftrightarrow>
     (\<forall>(n, node)\<in>set nodes.
        ports_unique (nt_input_pins node) \<and> ports_unique (nt_output_pins node) \<and>
        (\<forall>p\<in>set (nt_input_pins node). input_fed edges n p \<and> input_id_free p)) \<and>
     (\<forall>e\<in>set edges. edge_well_typed nodes e)"

text \<open>A successful index of a list of ports is the list itself, keyed by id.\<close>

lemma hm_insert_fresh: "map_of m k = None \<Longrightarrow> hm_insert k v m = m @ [(k, v)]"
  unfolding hm_insert_def by (induction m) (auto split: if_splits)

lemma index_fold:
  "try_fold (index_pin n d) m ps = Inr r \<longleftrightarrow>
    distinct (map pin_id ps) \<and> (\<forall>p\<in>set ps. map_of m (pin_id p) = None) \<and>
    r = m @ map (\<lambda>p. (pin_id p, p)) ps"
proof (induction ps arbitrary: m)
  case Nil
  then show ?case by auto
next
  case (Cons p ps)
  show ?case
  proof (cases "map_of m (pin_id p)")
    case (Some x)
    then show ?thesis by (simp add: index_pin_def hm_contains_def)
  next
    case None
    have step: "index_pin n d m p = Inr (m @ [(pin_id p, p)])"
      using None by (simp add: index_pin_def hm_contains_def hm_insert_fresh)
    have fresh: "map_of (m @ [(pin_id p, p)]) k = None \<longleftrightarrow> k \<noteq> pin_id p \<and> map_of m k = None" for k
      by (simp add: map_of_eq_None_iff)
    have "(\<forall>q\<in>set ps. map_of (m @ [(pin_id p, p)]) (pin_id q) = None) \<longleftrightarrow>
        pin_id p \<notin> set (map pin_id ps) \<and> (\<forall>q\<in>set ps. map_of m (pin_id q) = None)"
      unfolding fresh by (auto simp: image_iff)
    then show ?thesis using None step by (auto simp: Cons.IH simp del: map_of_append)
  qed
qed

lemma index_fold_Inr:
  "try_fold (index_pin n d) [] ps = Inr m \<longleftrightarrow> ports_unique ps \<and> m = map (\<lambda>p. (pin_id p, p)) ps"
  by (simp add: index_fold ports_unique_def)

lemma build_pin_index_Inr:
  "build_pin_index n node = Inr ix \<longleftrightarrow>
    ports_unique (nt_input_pins node) \<and> ports_unique (nt_output_pins node) \<and>
    ix = \<lparr>ix_inputs = map (\<lambda>p. (pin_id p, p)) (nt_input_pins node),
          ix_outputs = map (\<lambda>p. (pin_id p, p)) (nt_output_pins node)\<rparr>"
  by (auto simp: build_pin_index_def and_then_Inr index_fold_Inr)

lemma map_of_ids:
  "ports_unique ps \<Longrightarrow> map_of (map (\<lambda>p. (pin_id p, p)) ps) k = Some p \<longleftrightarrow> p \<in> set ps \<and> pin_id p = k"
  by (subst map_of_eq_Some_iff) (auto simp: ports_unique_def comp_def)

text \<open>The index of all nodes.\<close>

definition node_index :: "node_trait \<Rightarrow> node_pin_index" where
  "node_index node = \<lparr>ix_inputs = map (\<lambda>p. (pin_id p, p)) (nt_input_pins node),
     ix_outputs = map (\<lambda>p. (pin_id p, p)) (nt_output_pins node)\<rparr>"

lemma build_indexes_fold:
  "try_fold (\<lambda>m (i, node). and_then (build_pin_index i node) (\<lambda>ix. Inr (hm_insert i ix m))) m nodes = Inr r
    \<Longrightarrow> hm_wf (m @ map (\<lambda>(i, node). (i, node_index node)) nodes)
    \<Longrightarrow> r = m @ map (\<lambda>(i, node). (i, node_index node)) nodes \<and>
      (\<forall>(i, node)\<in>set nodes. ports_unique (nt_input_pins node) \<and> ports_unique (nt_output_pins node))"
proof (induction nodes arbitrary: m)
  case Nil
  then show ?case by simp
next
  case (Cons x nodes)
  obtain i node where x: "x = (i, node)" by (cases x)
  from Cons.prems(1) x obtain ix where ix: "build_pin_index i node = Inr ix"
    and rest: "try_fold (\<lambda>m (i, node). and_then (build_pin_index i node) (\<lambda>ix. Inr (hm_insert i ix m)))
      (hm_insert i ix m) nodes = Inr r"
    by (cases "build_pin_index i node") simp_all
  have idx: "ix = node_index node" "ports_unique (nt_input_pins node)" "ports_unique (nt_output_pins node)"
    using ix by (simp_all add: build_pin_index_Inr node_index_def)
  have "map_of m i = None" using Cons.prems(2) x by (auto simp: hm_wf_def map_of_eq_None_iff)
  then have ins: "hm_insert i ix m = m @ [(i, node_index node)]" using idx by (simp add: hm_insert_fresh)
  show ?case using Cons.IH [OF rest [unfolded ins]] Cons.prems(2) x idx by simp
qed

lemma build_indexes_complete:
  "\<forall>(i, node)\<in>set nodes. ports_unique (nt_input_pins node) \<and> ports_unique (nt_output_pins node) \<Longrightarrow>
    is_ok (try_fold (\<lambda>m (i, node). and_then (build_pin_index i node) (\<lambda>ix. Inr (hm_insert i ix m))) m nodes)"
proof (induction nodes arbitrary: m)
  case Nil
  then show ?case by simp
next
  case (Cons x nodes)
  obtain i node where x: "x = (i, node)" by (cases x)
  have "build_pin_index i node = Inr (node_index node)"
    using Cons.prems x by (simp add: build_pin_index_Inr node_index_def)
  then show ?case using Cons x by simp
qed

lemma build_indexes_Inr:
  assumes "hm_wf nodes"
  shows "build_indexes nodes = Inr ixs \<longleftrightarrow>
    ixs = map (\<lambda>(i, node). (i, node_index node)) nodes \<and>
    (\<forall>(i, node)\<in>set nodes. ports_unique (nt_input_pins node) \<and> ports_unique (nt_output_pins node))"
    (is "_ \<longleftrightarrow> ?r \<and> ?u")
proof -
  have wf: "hm_wf (map (\<lambda>(i, node). (i, node_index node)) nodes)"
    using assms by (simp add: hm_wf_def comp_def case_prod_unfold)
  show ?thesis
  proof
    assume "build_indexes nodes = Inr ixs"
    then show "?r \<and> ?u" using build_indexes_fold [of "[]" nodes ixs] wf by (simp add: build_indexes_def)
  next
    assume u: "?r \<and> ?u"
    obtain r where r: "build_indexes nodes = Inr r"
      using build_indexes_complete [of nodes "[]"] u by (auto simp: build_indexes_def is_ok_iff)
    then show "build_indexes nodes = Inr ixs"
      using build_indexes_fold [of "[]" nodes r] wf u by (simp add: build_indexes_def)
  qed
qed

lemma map_of_node_index:
  "map_of (map (\<lambda>(i, node). (i, node_index node)) nodes) n = map_option node_index (map_of nodes n)"
  by (induction nodes) auto

section \<open>Soundness and completeness\<close>

lemma ok_or_cases: "is_ok (and_then (ok_or e x) f) \<longleftrightarrow> (\<exists>a. x = Some a \<and> is_ok (f a))"
  by (cases x) simp_all

lemma check_edge_ok:
  assumes "\<forall>(i, node)\<in>set nodes. ports_unique (nt_input_pins node) \<and> ports_unique (nt_output_pins node)"
  shows "is_ok (check_edge (map (\<lambda>(i, node). (i, node_index node)) nodes) e) \<longleftrightarrow> edge_well_typed nodes e"
proof -
  have out: "map_of (ix_outputs (node_index a)) k = Some p \<longleftrightarrow> p \<in> set (nt_output_pins a) \<and> pin_id p = k"
    and inp: "map_of (ix_inputs (node_index a)) k = Some p \<longleftrightarrow> p \<in> set (nt_input_pins a) \<and> pin_id p = k"
    if "map_of nodes n = Some a" for n a k p
    using assms map_of_SomeD [OF that] by (auto simp: node_index_def map_of_ids)
  show ?thesis
    unfolding check_edge_def edge_well_typed_def ok_or_cases map_of_node_index
    by (auto simp: out inp split: if_splits) (metis out inp)+
qed

lemma try_fold_unit_ok:
  "is_ok (try_fold (\<lambda>_ e. f e) () es) \<longleftrightarrow> (\<forall>e\<in>set es. is_ok (f e :: engine_error + unit))"
  by (induction es) (auto split: sum.splits simp: is_ok_iff)

lemma try_all_ok: "is_ok (try_all f xs) \<longleftrightarrow> (\<forall>x\<in>set xs. f x = None)"
  by (simp add: is_ok_iff try_all_Inr)

lemma set_all_inputs:
  "set (all_inputs (map (\<lambda>(i, node). (i, node_index node)) nodes)) =
    {(n, pin_id p, p) | n node p. (n, node) \<in> set nodes \<and> p \<in> set (nt_input_pins node)}"
  by (force simp: all_inputs_def node_index_def)

lemma check_required_None:
  "check_required (covered_inputs edges) n (pin_id p, p) = None \<longleftrightarrow> input_fed edges n p"
  by (auto simp: check_required_def covered_inputs_def input_fed_def Let_def)

lemma check_reserved_None: "check_reserved n (pin_id p, p) = None \<longleftrightarrow> input_id_free p"
  by (cases "pin_kind_of p") (auto simp: check_reserved_def input_id_free_def)

lemma and_then_ok: "is_ok (and_then x f) \<longleftrightarrow> (\<exists>a. x = Inr a \<and> is_ok (f a))"
  by (cases x) simp_all

lemma and_then_unit_ok: "is_ok (and_then (x :: engine_error + unit) f) \<longleftrightarrow> is_ok x \<and> is_ok (f ())"
  by (cases x) simp_all

lemma try_all_inputs_ok:
  "is_ok (try_all (\<lambda>(n, kp). f n kp) (all_inputs (map (\<lambda>(i, node). (i, node_index node)) nodes))) \<longleftrightarrow>
    (\<forall>(n, node)\<in>set nodes. \<forall>p\<in>set (nt_input_pins node). f n (pin_id p, p) = None)"
  unfolding try_all_ok set_all_inputs by fastforce

lemma pin_validation_spec:
  assumes "hm_wf nodes"
  shows "validate_pin_compatibility nodes edges = Inr () \<longleftrightarrow> ports_contract nodes edges"
proof -
  let ?ixs = "map (\<lambda>(i, node). (i, node_index node)) nodes"
  let ?u = "\<forall>(i, node)\<in>set nodes. ports_unique (nt_input_pins node) \<and> ports_unique (nt_output_pins node)"
  have built: "is_ok (and_then (build_indexes nodes) f) \<longleftrightarrow> ?u \<and> is_ok (f ?ixs)"
    for f :: "(string, node_pin_index) hash_map \<Rightarrow> unit result"
    by (auto simp: and_then_ok build_indexes_Inr [OF assms])
  have "validate_pin_compatibility nodes edges = Inr () \<longleftrightarrow> is_ok (validate_pin_compatibility nodes edges)"
    by (simp add: is_ok_iff)
  also have "\<dots> \<longleftrightarrow> ?u \<and> (\<forall>e\<in>set edges. is_ok (check_edge ?ixs e)) \<and>
      (\<forall>(n, node)\<in>set nodes. \<forall>p\<in>set (nt_input_pins node). input_fed edges n p) \<and>
      (\<forall>(n, node)\<in>set nodes. \<forall>p\<in>set (nt_input_pins node). input_id_free p)"
    unfolding validate_pin_compatibility_def Let_def built and_then_unit_ok try_fold_unit_ok
      try_all_inputs_ok check_required_None check_reserved_None ..
  also have "\<dots> \<longleftrightarrow> ports_contract nodes edges"
    using check_edge_ok [of nodes] unfolding ports_contract_def by blast
  finally show ?thesis .
qed

text \<open>
  C6: a workflow passes the port checks exactly when no node repeats a port id, every edge joins an
  existing output port to an existing input port of a compatible type and kind, every required
  input other than \<open>in\<close> is the target of an edge, and no data or reactive input is called \<open>in\<close>.
\<close>

theorem pin_validation_iff_contract:
  assumes "hm_wf nodes"
  shows "validate_pin_compatibility nodes edges = Inr () \<longleftrightarrow> ports_contract nodes edges"
  using assms by (rule pin_validation_spec)

definition demo_ports :: "(string, node_trait) hash_map" where
  "demo_ports =
     [(''sensor'', \<lparr>nt_id = ''sensor'', nt_kind = ''modbusRead'', nt_input_pins = [default_input],
        nt_output_pins = [default_output, output_named_data ''latest'' ''latest'' TFloat ''d'']\<rparr>),
      (''view'', \<lparr>nt_id = ''view'', nt_kind = ''c2f'',
        nt_input_pins = [(output_named_data ''value'' ''value'' TFloat ''d'')\<lparr>pin_dir := Input, pin_required := True\<rparr>],
        nt_output_pins = []\<rparr>)]"

definition demo_port_edges :: "workflow_edge list" where
  "demo_port_edges = [\<lparr>e_from = ''sensor'', e_to = ''view'', e_source_port_id = Some ''latest'',
     e_target_port_id = Some ''value'', e_backpressure_policy = None\<rparr>]"

theorem pin_validation_iff_contract_witness:
  "hm_wf demo_ports \<and> ports_contract demo_ports demo_port_edges"
proof -
  have wf: "hm_wf demo_ports" by (simp add: demo_ports_def hm_wf_def)
  have "validate_pin_compatibility demo_ports demo_port_edges = Inr ()" by code_simp
  then show ?thesis using pin_validation_iff_contract [OF wf] wf by blast
qed

end
