(* ===== verification/Variables.thy ===== *)
theory Variables
  imports Output_Cache
begin

text \<open>
  \<open>crates/core/src/variables/\<close> and \<open>crates/graph/src/variables_init.rs\<close>: the typed variables
  shared by the nodes of a workflow, with their change events. A write holds the map entry
  (\<open>set_locked\<close>, \<open>cas_locked\<close>) and sends its event after letting it go; the sequential
  operations \<open>set_var\<close> and \<open>compare_and_swap\<close> compose the two, and the last section lets
  other writers come in between.
\<close>

section \<open>State\<close>

record variable_declaration =
  decl_type :: pin_type
  decl_initial :: json

record typed_variable =
  tv_value :: json
  tv_type :: pin_type
  tv_initial :: json
  tv_updated_at :: time
  tv_updated_by :: "string option"
  tv_watch :: "(time \<times> json) option watch"

text \<open>\<open>TypedVariable::new\<close> drops the first receiver of the cell.\<close>

definition typed_variable_new ::
    "json \<Rightarrow> pin_type \<Rightarrow> json \<Rightarrow> time \<Rightarrow> string option \<Rightarrow> typed_variable" where
  "typed_variable_new v t i ts who =
     \<lparr>tv_value = v, tv_type = t, tv_initial = i, tv_updated_at = ts, tv_updated_by = who,
      tv_watch = \<lparr>wval = None, wversion = 0, wreceivers = 0\<rparr>\<rparr>"

datatype variable_event =
    Changed string string json time "string option"
  | Deleted string string

record event_sink =
  sink_workflow_id :: string
  sink_sender :: "variable_event chan"
  sink_dropped :: u64

record workflow_variables =
  vars :: "(string, typed_variable) hash_map"
  event_sink :: "event_sink option"

definition vars_empty :: workflow_variables where
  "vars_empty = \<lparr>vars = [], event_sink = None\<rparr>"

section \<open>Construction and reading\<close>

definition declare_variable ::
    "time \<Rightarrow> (string, typed_variable) hash_map \<Rightarrow> string \<times> variable_declaration \<Rightarrow>
     (string, typed_variable) hash_map result" where
  "declare_variable now m nd =
     (let (name, d) = nd in
      if \<not> pin_type_matches_value (decl_type d) (decl_initial d)
      then Inl (VariableInitialMismatch name (type_label (decl_type d)) (json_value_label (decl_initial d)))
      else Inr (hm_insert name
        (typed_variable_new (decl_initial d) (decl_type d) (decl_initial d) now None) m))"

definition from_declarations ::
    "time \<Rightarrow> (string, variable_declaration) hash_map \<Rightarrow> workflow_variables result" where
  "from_declarations now decls =
     and_then (try_fold (declare_variable now) [] decls)
       (\<lambda>inner. Inr \<lparr>vars = inner, event_sink = None\<rparr>)"

definition build_workflow_variables ::
    "time \<Rightarrow> (string, variable_declaration) hash_map option \<Rightarrow> workflow_variables result" where
  "build_workflow_variables now decls =
     (case decls of None \<Rightarrow> Inr vars_empty | Some m \<Rightarrow> from_declarations now m)"

definition get_var :: "workflow_variables \<Rightarrow> string \<Rightarrow> typed_variable option" where
  "get_var w name = map_of (vars w) name"

definition get_value :: "workflow_variables \<Rightarrow> string \<Rightarrow> json option" where
  "get_value w name = map_option tv_value (map_of (vars w) name)"

definition subscribe_var :: "workflow_variables \<Rightarrow> string \<Rightarrow> (nat \<times> workflow_variables) option" where
  "subscribe_var w name =
     (case map_of (vars w) name of
        None \<Rightarrow> None
      | Some v \<Rightarrow>
          (let (seen, cell) = watch_subscribe (tv_watch v) in
           Some (seen, w\<lparr>vars := hm_insert name (v\<lparr>tv_watch := cell\<rparr>) (vars w)\<rparr>)))"

text \<open>The sink is set once; a second call is ignored.\<close>

definition set_event_sender ::
    "workflow_variables \<Rightarrow> string \<Rightarrow> variable_event chan \<Rightarrow> workflow_variables" where
  "set_event_sender w wid tx =
     (case event_sink w of
        None \<Rightarrow> w\<lparr>event_sink := Some \<lparr>sink_workflow_id = wid, sink_sender = tx, sink_dropped = 0\<rparr>\<rparr>
      | Some _ \<Rightarrow> w)"

section \<open>Events\<close>

text \<open>\<open>fetch_add\<close> on the counter of dropped events wraps.\<close>

definition sink_emit :: "event_sink \<Rightarrow> variable_event \<Rightarrow> event_sink" where
  "sink_emit s e =
     (case try_send (sink_sender s) e of
        (None, c) \<Rightarrow> s\<lparr>sink_sender := c\<rparr>
      | (Some _, c) \<Rightarrow> s\<lparr>sink_sender := c, sink_dropped := sink_dropped s + 1\<rparr>)"

type_synonym event_payload = "(json \<times> time \<times> string option) option"

definition try_emit_changed ::
    "workflow_variables \<Rightarrow> string \<Rightarrow> event_payload \<Rightarrow> workflow_variables" where
  "try_emit_changed w name ep =
     (case ep of
        None \<Rightarrow> w
      | Some (v, ts, who) \<Rightarrow>
          (case event_sink w of
             None \<Rightarrow> w
           | Some s \<Rightarrow>
               w\<lparr>event_sink := Some (sink_emit s (Changed (sink_workflow_id s) name v ts who))\<rparr>))"

section \<open>Writing\<close>

text \<open>What both writes do to an entry whose checks have passed.\<close>

definition store_value ::
    "time \<Rightarrow> typed_variable \<Rightarrow> json \<Rightarrow> string option \<Rightarrow> typed_variable \<times> event_payload" where
  "store_value now e v who =
     (let value_changed = (tv_value e \<noteq> v);
          e1 = e\<lparr>tv_value := v, tv_updated_at := now, tv_updated_by := who\<rparr>;
          ep = (if value_changed then Some (tv_value e1, tv_updated_at e1, tv_updated_by e1) else None);
          e2 = (if value_changed
                then e1\<lparr>tv_watch := watch_send (tv_watch e1) (Some (tv_updated_at e1, tv_value e1))\<rparr>
                else e1)
      in (e2, ep))"

definition set_locked ::
    "time \<Rightarrow> workflow_variables \<Rightarrow> string \<Rightarrow> json \<Rightarrow> string option \<Rightarrow>
     (workflow_variables \<times> event_payload) result" where
  "set_locked now w name v who =
     (case map_of (vars w) name of
        None \<Rightarrow> Inl (UnknownVariable name)
      | Some e \<Rightarrow>
          if \<not> pin_type_matches_value (tv_type e) v
          then Inl (VariableTypeMismatch name (type_label (tv_type e)) (json_value_label v))
          else (let (e', ep) = store_value now e v who
                in Inr (w\<lparr>vars := hm_insert name e' (vars w)\<rparr>, ep)))"

definition set_var ::
    "time \<Rightarrow> workflow_variables \<Rightarrow> string \<Rightarrow> json \<Rightarrow> string option \<Rightarrow> workflow_variables result" where
  "set_var now w name v who =
     and_then (set_locked now w name v who) (\<lambda>(w', ep). Inr (try_emit_changed w' name ep))"

definition reset_var ::
    "time \<Rightarrow> workflow_variables \<Rightarrow> string \<Rightarrow> string option \<Rightarrow> workflow_variables result" where
  "reset_var now w name who =
     and_then (ok_or (UnknownVariable name) (map_option tv_initial (map_of (vars w) name)))
       (\<lambda>initial. set_var now w name initial who)"

definition cas_locked ::
    "time \<Rightarrow> workflow_variables \<Rightarrow> string \<Rightarrow> json \<Rightarrow> json \<Rightarrow> string option \<Rightarrow>
     (bool \<times> workflow_variables \<times> event_payload) result" where
  "cas_locked now w name expected v who =
     (case map_of (vars w) name of
        None \<Rightarrow> Inl (UnknownVariable name)
      | Some e \<Rightarrow>
          if \<not> pin_type_matches_value (tv_type e) v
          then Inl (VariableTypeMismatch name (type_label (tv_type e)) (json_value_label v))
          else if tv_value e \<noteq> expected then Inr (False, w, None)
          else (let (e', ep) = store_value now e v who
                in Inr (True, w\<lparr>vars := hm_insert name e' (vars w)\<rparr>, ep)))"

definition compare_and_swap ::
    "time \<Rightarrow> workflow_variables \<Rightarrow> string \<Rightarrow> json \<Rightarrow> json \<Rightarrow> string option \<Rightarrow>
     (bool \<times> workflow_variables) result" where
  "compare_and_swap now w name expected v who =
     and_then (cas_locked now w name expected v who)
       (\<lambda>(b, w', ep). Inr (b, try_emit_changed w' name ep))"

definition remove_var ::
    "workflow_variables \<Rightarrow> string \<Rightarrow> (typed_variable \<times> workflow_variables) option" where
  "remove_var w name =
     (case map_of (vars w) name of
        None \<Rightarrow> None
      | Some removed \<Rightarrow>
          (let removed' = removed\<lparr>tv_watch := watch_send (tv_watch removed) None\<rparr>;
               w1 = w\<lparr>vars := hm_remove name (vars w)\<rparr>;
               w2 = (case event_sink w1 of
                       None \<Rightarrow> w1
                     | Some s \<Rightarrow> w1\<lparr>event_sink := Some (sink_emit s (Deleted (sink_workflow_id s) name))\<rparr>)
           in Some (removed', w2)))"

definition snapshot :: "workflow_variables \<Rightarrow> (string, typed_variable) hash_map" where
  "snapshot w = vars w"

section \<open>Runs\<close>

datatype var_op =
    OpSet time string json "string option"
  | OpReset time string "string option"
  | OpCas time string json json "string option"
  | OpRemove string
  | OpSubscribe string

text \<open>A failed operation leaves the variables as they were.\<close>

fun var_step :: "workflow_variables \<Rightarrow> var_op \<Rightarrow> workflow_variables" where
  "var_step w (OpSet now n v who) = (case set_var now w n v who of Inl _ \<Rightarrow> w | Inr w' \<Rightarrow> w')"
| "var_step w (OpReset now n who) = (case reset_var now w n who of Inl _ \<Rightarrow> w | Inr w' \<Rightarrow> w')"
| "var_step w (OpCas now n e v who) =
     (case compare_and_swap now w n e v who of Inl _ \<Rightarrow> w | Inr (_, w') \<Rightarrow> w')"
| "var_step w (OpRemove n) = (case remove_var w n of None \<Rightarrow> w | Some (_, w') \<Rightarrow> w')"
| "var_step w (OpSubscribe n) = (case subscribe_var w n of None \<Rightarrow> w | Some (_, w') \<Rightarrow> w')"

definition var_run :: "workflow_variables \<Rightarrow> var_op list \<Rightarrow> workflow_variables" where
  "var_run w ops = foldl var_step w ops"

section \<open>Lemmas\<close>

lemma vars_try_emit [simp]: "vars (try_emit_changed w n ep) = vars w"
  by (auto simp: try_emit_changed_def split: option.splits)

lemma store_value_fields:
  "store_value now e v who = (e', ep) \<Longrightarrow>
    tv_value e' = v \<and> tv_type e' = tv_type e \<and> tv_initial e' = tv_initial e \<and>
    tv_updated_at e' = now \<and> tv_updated_by e' = who \<and>
    ep = (if tv_value e = v then None else Some (v, now, who))"
  by (auto simp: store_value_def Let_def split: if_splits)

lemma set_locked_Inr:
  "set_locked now w n v who = Inr (w', ep) \<longleftrightarrow>
    (\<exists>e e'. map_of (vars w) n = Some e \<and> pin_type_matches_value (tv_type e) v \<and>
      store_value now e v who = (e', ep) \<and> w' = w\<lparr>vars := hm_insert n e' (vars w)\<rparr>)"
  by (auto simp: set_locked_def split: option.splits prod.splits)

lemma set_var_Inr:
  "set_var now w n v who = Inr w'' \<longleftrightarrow>
    (\<exists>w' ep. set_locked now w n v who = Inr (w', ep) \<and> w'' = try_emit_changed w' n ep)"
  by (auto simp: set_var_def and_then_Inr)

lemma reset_var_Inr:
  "reset_var now w n who = Inr w' \<longleftrightarrow>
    (\<exists>e. map_of (vars w) n = Some e \<and> set_var now w n (tv_initial e) who = Inr w')"
  by (auto simp: reset_var_def and_then_Inr)

lemma try_emit_None [simp]: "try_emit_changed w n None = w"
  by (simp add: try_emit_changed_def)

lemma compare_and_swap_eq:
  "compare_and_swap now w n x v who =
    (case map_of (vars w) n of
       None \<Rightarrow> Inl (UnknownVariable n)
     | Some e \<Rightarrow>
         if pin_type_matches_value (tv_type e) v \<and> tv_value e \<noteq> x then Inr (False, w)
         else and_then (set_var now w n v who) (\<lambda>w'. Inr (True, w')))"
  by (cases "map_of (vars w) n")
    (simp_all add: compare_and_swap_def cas_locked_def set_var_def set_locked_def case_prod_beta)

lemma cas_Inr:
  "compare_and_swap now w n x v who = Inr (b, w') \<longleftrightarrow>
    (\<exists>e. map_of (vars w) n = Some e \<and> pin_type_matches_value (tv_type e) v \<and>
      (if tv_value e = x then b \<and> set_var now w n v who = Inr w' else \<not> b \<and> w' = w))"
proof (cases "map_of (vars w) n")
  case (Some e)
  then have "set_var now w n v who = Inr w'' \<Longrightarrow> pin_type_matches_value (tv_type e) v" for w''
    by (auto simp: set_var_Inr set_locked_Inr)
  with Some show ?thesis by (auto simp: compare_and_swap_eq and_then_Inr)
qed (simp add: compare_and_swap_eq)

lemma remove_var_Some:
  "remove_var w n = Some (v, w') \<Longrightarrow>
    vars w' = hm_remove n (vars w) \<and> (\<exists>e. map_of (vars w) n = Some e)"
  by (auto simp: remove_var_def Let_def split: option.splits)

lemma subscribe_var_Some:
  "subscribe_var w n = Some (k, w') \<Longrightarrow>
    \<exists>e c. map_of (vars w) n = Some e \<and> w' = w\<lparr>vars := hm_insert n (e\<lparr>tv_watch := c\<rparr>) (vars w)\<rparr>"
  by (auto simp: subscribe_var_def watch_subscribe_def split: option.splits)

text \<open>A step is a successful write of one entry, a removal, a subscription, or nothing.\<close>

lemma var_step_cases:
  obtains (same) "var_step w x = w"
  | (set) now n v who where "set_var now w n v who = Inr (var_step w x)"
  | (remove) n v where "remove_var w n = Some (v, var_step w x)"
  | (subscribe) n k where "subscribe_var w n = Some (k, var_step w x)"
proof (cases x)
  case (OpSet now n v who)
  then show ?thesis using same set by (cases "set_var now w n v who") auto
next
  case (OpReset now n who)
  then show ?thesis using same set by (cases "reset_var now w n who") (auto simp: reset_var_Inr)
next
  case (OpCas now n e v who)
  show ?thesis
  proof (cases "compare_and_swap now w n e v who")
    case (Inl err)
    then show ?thesis using OpCas same by simp
  next
    case (Inr r)
    obtain b w1 where r: "r = (b, w1)" by (cases r)
    have step: "var_step w x = w1" using OpCas Inr r by simp
    from Inr r have "(b \<and> set_var now w n v who = Inr w1) \<or> w1 = w"
      by (auto simp: cas_Inr split: if_splits)
    then show ?thesis using same set step by auto
  qed
next
  case (OpRemove n)
  then show ?thesis using same remove by (cases "remove_var w n") auto
next
  case (OpSubscribe n)
  then show ?thesis using same subscribe by (cases "subscribe_var w n") auto
qed

text \<open>The declared contract of a variable, kept by every step.\<close>

definition conforms :: "(string \<rightharpoonup> variable_declaration) \<Rightarrow> workflow_variables \<Rightarrow> bool" where
  "conforms ds w \<longleftrightarrow> (\<forall>n e. map_of (vars w) n = Some e \<longrightarrow>
     (\<exists>d. ds n = Some d \<and> tv_type e = decl_type d \<and> tv_initial e = decl_initial d \<and>
        pin_type_matches_value (decl_type d) (tv_value e)))"

lemma conforms_step: "conforms ds w \<Longrightarrow> conforms ds (var_step w x)"
proof (cases rule: var_step_cases [of w x])
  case (set now n v who)
  then obtain e e' ep where e: "map_of (vars w) n = Some e" "pin_type_matches_value (tv_type e) v"
      "tv_type e' = tv_type e" "tv_initial e' = tv_initial e" "tv_value e' = v"
    and step: "vars (var_step w x) = hm_insert n e' (vars w)"
    by (auto simp: set_var_Inr set_locked_Inr dest: store_value_fields)
  moreover assume "conforms ds w"
  ultimately show ?thesis by (fastforce simp: conforms_def)
next
  case (remove n v)
  moreover assume "conforms ds w"
  ultimately show ?thesis by (auto simp: conforms_def dest!: remove_var_Some split: if_splits)
next
  case (subscribe n k)
  moreover assume "conforms ds w"
  ultimately show ?thesis by (fastforce simp: conforms_def dest!: subscribe_var_Some split: if_splits)
qed simp

lemma conforms_run: "conforms ds w \<Longrightarrow> conforms ds (var_run w ops)"
  unfolding var_run_def by (induction ops arbitrary: w) (auto intro: conforms_step)

lemma declare_variable_Inr:
  "declare_variable now m (n, d) = Inr m' \<longleftrightarrow>
    pin_type_matches_value (decl_type d) (decl_initial d) \<and>
    m' = hm_insert n (typed_variable_new (decl_initial d) (decl_type d) (decl_initial d) now None) m"
  by (auto simp: declare_variable_def)

lemma declare_fold_conforms:
  "try_fold (declare_variable now) m decls = Inr m' \<Longrightarrow> distinct (map fst decls) \<Longrightarrow>
    conforms ds \<lparr>vars = m, event_sink = s\<rparr> \<Longrightarrow> \<forall>(n, d)\<in>set decls. ds n = Some d \<Longrightarrow>
    conforms ds \<lparr>vars = m', event_sink = s\<rparr>"
proof (induction decls arbitrary: m)
  case Nil
  then show ?case by simp
next
  case (Cons nd decls)
  obtain n d where nd: "nd = (n, d)" by (cases nd)
  from Cons.prems(1) obtain m1 where m1: "declare_variable now m (n, d) = Inr m1"
    and rest: "try_fold (declare_variable now) m1 decls = Inr m'"
    by (auto simp: nd split: sum.splits)
  have "conforms ds \<lparr>vars = m1, event_sink = s\<rparr>" using m1 Cons.prems(3,4) nd
    by (auto simp: declare_variable_Inr conforms_def typed_variable_new_def)
  then show ?case using Cons.IH [OF rest] Cons.prems by simp
qed

lemma from_declarations_conforms:
  assumes "from_declarations now decls = Inr w" and "hm_wf decls"
  shows "conforms (map_of decls) w"
proof -
  from assms(1) obtain m where m: "try_fold (declare_variable now) [] decls = Inr m"
    and w: "w = \<lparr>vars = m, event_sink = None\<rparr>"
    by (auto simp: from_declarations_def and_then_Inr)
  show ?thesis unfolding w using m assms(2)
    by (intro declare_fold_conforms [OF m]) (auto simp: hm_wf_def conforms_def)
qed

section \<open>The event stream mirrors the state\<close>

definition var_values :: "workflow_variables \<Rightarrow> string \<rightharpoonup> json" where
  "var_values w n = map_option tv_value (map_of (vars w) n)"

text \<open>What a consumer of the events, starting from a snapshot, believes the variables to be.\<close>

fun replay :: "(string \<rightharpoonup> json) \<Rightarrow> variable_event list \<Rightarrow> (string \<rightharpoonup> json)" where
  "replay m [] = m"
| "replay m (Changed _ n v _ _ # es) = replay (m(n \<mapsto> v)) es"
| "replay m (Deleted _ n # es) = replay (m(n := None)) es"

lemma replay_append: "replay m (es @ fs) = replay (replay m es) fs"
proof (induction es arbitrary: m)
  case Nil
  then show ?case by simp
next
  case (Cons e es)
  show ?case by (cases e) (simp_all only: append_Cons replay.simps Cons.IH)
qed

definition events_of :: "workflow_variables \<Rightarrow> variable_event list" where
  "events_of w = (case event_sink w of None \<Rightarrow> [] | Some s \<Rightarrow> queue (sink_sender s))"

definition room :: "nat \<Rightarrow> workflow_variables \<Rightarrow> bool" where
  "room k w \<longleftrightarrow> (\<exists>s. event_sink w = Some s \<and> \<not> closed (sink_sender s) \<and>
     length (queue (sink_sender s)) + k \<le> max_capacity (sink_sender s))"

lemma room_mono: "room (Suc k) w \<Longrightarrow> room k w"
  by (auto simp: room_def)

lemma sink_emit_room:
  "\<not> closed (sink_sender s) \<Longrightarrow> length (queue (sink_sender s)) < max_capacity (sink_sender s) \<Longrightarrow>
    sink_emit s e = s\<lparr>sink_sender := (sink_sender s)\<lparr>queue := queue (sink_sender s) @ [e]\<rparr>\<rparr>"
  by (simp add: sink_emit_def try_send_def)

lemma subscribe_var_events:
  assumes "subscribe_var w n = Some (k', w')"
  shows "event_sink w' = event_sink w \<and> var_values w' = var_values w"
  using assms by (auto simp: var_values_def fun_eq_iff dest!: subscribe_var_Some)

section \<open>Concurrent operations\<close>

text \<open>
  An operation changes the map under its lock and publishes its event after the lock is released, so
  the operations of several threads interleave between the two. \<open>var_locked\<close> is the part under the lock
  with the event it leaves to publish, a change or (\<open>None\<close>) a deletion. A reset reads the initial value
  first; that never changes, and a variable removed in between fails the write as it fails the reset.
\<close>

type_synonym pending_event = "string \<times> event_payload"

fun event_of :: "string \<Rightarrow> pending_event \<Rightarrow> variable_event" where
  "event_of wid (n, Some (v, ts, who)) = Changed wid n v ts who"
| "event_of wid (n, None) = Deleted wid n"

definition publish :: "workflow_variables \<Rightarrow> pending_event \<Rightarrow> workflow_variables" where
  "publish w p = (case event_sink w of None \<Rightarrow> w
     | Some s \<Rightarrow> w\<lparr>event_sink := Some (sink_emit s (event_of (sink_workflow_id s) p))\<rparr>)"

definition changed_events :: "string \<Rightarrow> event_payload \<Rightarrow> pending_event list" where
  "changed_events n ep = (case ep of None \<Rightarrow> [] | Some p \<Rightarrow> [(n, Some p)])"

definition locked_set ::
    "time \<Rightarrow> workflow_variables \<Rightarrow> string \<Rightarrow> json \<Rightarrow> string option \<Rightarrow> workflow_variables \<times> pending_event list" where
  "locked_set now w n v who =
     (case set_locked now w n v who of Inl _ \<Rightarrow> (w, []) | Inr (w', ep) \<Rightarrow> (w', changed_events n ep))"

fun var_locked :: "workflow_variables \<Rightarrow> var_op \<Rightarrow> workflow_variables \<times> pending_event list" where
  "var_locked w (OpSet now n v who) = locked_set now w n v who"
| "var_locked w (OpReset now n who) =
     (case map_of (vars w) n of None \<Rightarrow> (w, []) | Some e \<Rightarrow> locked_set now w n (tv_initial e) who)"
| "var_locked w (OpCas now n x v who) =
     (case cas_locked now w n x v who of Inl _ \<Rightarrow> (w, []) | Inr (_, w', ep) \<Rightarrow> (w', changed_events n ep))"
| "var_locked w (OpRemove n) =
     (case map_of (vars w) n of None \<Rightarrow> (w, []) | Some _ \<Rightarrow> (w\<lparr>vars := hm_remove n (vars w)\<rparr>, [(n, None)]))"
| "var_locked w (OpSubscribe n) = (case subscribe_var w n of None \<Rightarrow> (w, []) | Some (_, w') \<Rightarrow> (w', []))"

text \<open>The two parts one after the other are the operation.\<close>

lemma publish_changed: "foldl publish w (changed_events n ep) = try_emit_changed w n ep"
  by (auto simp: changed_events_def publish_def try_emit_changed_def split: option.split)

lemma locked_set_step:
  "foldl publish (fst (locked_set now w n v who)) (snd (locked_set now w n v who)) =
    (case set_var now w n v who of Inl _ \<Rightarrow> w | Inr w' \<Rightarrow> w')"
  by (cases "set_locked now w n v who")
    (auto simp: locked_set_def set_var_def and_then_def publish_changed split: prod.split)

lemma var_step_parts: "var_step w x = foldl publish (fst (var_locked w x)) (snd (var_locked w x))"
proof (cases x)
  case (OpReset now n who)
  then show ?thesis by (auto simp: locked_set_step reset_var_def and_then_def split: option.split)
next
  case (OpCas now n e v who)
  then show ?thesis
    by (cases "cas_locked now w n e v who")
      (auto simp: compare_and_swap_def and_then_def publish_changed split: prod.split)
next
  case (OpRemove n)
  then show ?thesis by (auto simp: remove_var_def publish_def Let_def split: option.split)
qed (auto simp: locked_set_step split: option.split)

text \<open>The actions of all threads, in the order they happen: an operation under its lock, or the
  publication of one of the events still pending.\<close>

datatype var_action = Locked var_op | Publish nat

fun var_act :: "workflow_variables \<times> pending_event list \<Rightarrow> var_action \<Rightarrow> workflow_variables \<times> pending_event list" where
  "var_act (w, ps) (Locked x) = (fst (var_locked w x), ps @ snd (var_locked w x))"
| "var_act (w, ps) (Publish i) =
     (if i < length ps then (publish w (ps ! i), take i ps @ drop (Suc i) ps) else (w, ps))"

text \<open>The events of one variable are published in the order of its writes.\<close>

fun in_order :: "workflow_variables \<times> pending_event list \<Rightarrow> var_action list \<Rightarrow> bool" where
  "in_order st [] \<longleftrightarrow> True"
| "in_order st (a # acts) \<longleftrightarrow>
     (case a of Locked _ \<Rightarrow> True | Publish i \<Rightarrow> list_all (\<lambda>p. fst p \<noteq> fst (snd st ! i)) (take i (snd st))) \<and>
     in_order (var_act st a) acts"

lemma replay_early:
  assumes "\<forall>p\<in>set ps. fst p \<noteq> fst q"
  shows "replay m (map (event_of wid) (ps @ q # qs)) = replay m (map (event_of wid) (q # ps @ qs))"
  using assms
proof (induction ps arbitrary: m)
  case (Cons p ps)
  have one: "replay m' (event_of wid (n, ep) # es) = replay (m'(n := map_option fst ep)) es" for m' n ep es
    by (cases ep) auto
  obtain n ep k eq where [simp]: "p = (n, ep)" "q = (k, eq)" by (cases p; cases q) auto
  have "n \<noteq> k" using Cons.prems by simp
  then show ?case using Cons by (simp add: one fun_upd_twist)
qed simp

lemma set_locked_values:
  assumes "set_locked now w n v who = Inr (w', ep)"
  shows "event_sink w' = event_sink w \<and>
    replay (var_values w) (map (event_of wid) (changed_events n ep)) = var_values w'"
proof -
  obtain e e' where e: "map_of (vars w) n = Some e" "tv_value e' = v" "w' = w\<lparr>vars := hm_insert n e' (vars w)\<rparr>"
    and ep: "ep = (if tv_value e = v then None else Some (v, now, who))"
    using assms by (auto simp: set_locked_Inr dest!: store_value_fields)
  then show ?thesis
    by (auto simp: changed_events_def var_values_def fun_eq_iff)
qed

lemma changed_events_length [simp]: "length (changed_events n ep) \<le> Suc 0"
  by (simp add: changed_events_def split: option.split)

lemma locked_set_values:
  assumes "locked_set now w n v who = (w', ps)"
  shows "event_sink w' = event_sink w \<and> length ps \<le> 1 \<and>
    replay (var_values w) (map (event_of wid) ps) = var_values w'"
  using assms set_locked_values [of now w n v who]
  by (auto simp: locked_set_def split: sum.splits)

lemma var_locked_values:
  assumes "var_locked w x = (w', ps)"
  shows "event_sink w' = event_sink w \<and> length ps \<le> 1 \<and>
    replay (var_values w) (map (event_of wid) ps) = var_values w'"
proof (cases x)
  case (OpCas now n e v who)
  show ?thesis
  proof (cases "cas_locked now w n e v who")
    case (Inl err)
    then show ?thesis using assms OpCas by simp
  next
    case (Inr r)
    obtain b w2 ep where r: "r = (b, w2, ep)" by (cases r) auto
    then have w2: "w2 = w'" "ps = changed_events n ep" using assms OpCas Inr by simp_all
    have cas: "cas_locked now w n e v who = Inr (b, w2, ep)" using Inr r by simp
    show ?thesis
    proof (cases b)
      case True
      then have "set_locked now w n v who = Inr (w2, ep)"
        using cas by (auto simp: cas_locked_def set_locked_def split: option.splits if_splits prod.splits)
      from set_locked_values [OF this, of wid] show ?thesis by (simp add: w2)
    next
      case False
      then have "w2 = w \<and> ep = None"
        using cas by (auto simp: cas_locked_def split: option.splits if_splits prod.splits)
      then show ?thesis by (simp add: w2 changed_events_def flip: w2(1))
    qed
  qed
next
  case (OpRemove n)
  then show ?thesis
    using assms by (auto simp: var_values_def fun_eq_iff split: option.splits)
next
  case (OpSubscribe n)
  then show ?thesis
    using assms by (auto dest!: subscribe_var_events split: option.splits)
qed (use assms locked_set_values in \<open>auto split: option.splits\<close>)

lemma publish_room:
  assumes "room (Suc k) w"
  obtains s where "event_sink w = Some s" and "room k (publish w p)" and "var_values (publish w p) = var_values w"
    and "events_of (publish w p) = events_of w @ [event_of (sink_workflow_id s) p]"
    and "map_option sink_workflow_id (event_sink (publish w p)) = Some (sink_workflow_id s)"
proof -
  obtain s where s: "event_sink w = Some s" "\<not> closed (sink_sender s)"
      "length (queue (sink_sender s)) + Suc k \<le> max_capacity (sink_sender s)"
    using assms by (auto simp: room_def)
  then show thesis
    by (intro that [of s]) (auto simp: publish_def room_def sink_emit_room events_of_def var_values_def fun_eq_iff)
qed

definition locked_count :: "var_action list \<Rightarrow> nat" where
  "locked_count acts = length (filter (\<lambda>a. case a of Locked _ \<Rightarrow> True | Publish _ \<Rightarrow> False) acts)"

lemma locked_count_simps [simp]:
  "locked_count [] = 0" "locked_count (Locked x # acts) = Suc (locked_count acts)"
  "locked_count (Publish i # acts) = locked_count acts"
  by (simp_all add: locked_count_def)

lemma mirror_act:
  assumes "map_option sink_workflow_id (event_sink w) = Some wid" and "room (k + length ps) w"
    and "replay m (events_of w @ map (event_of wid) ps) = var_values w"
    and "in_order (w, ps) [a]" and "locked_count [a] \<le> k" and "var_act (w, ps) a = (w', ps')"
  shows "map_option sink_workflow_id (event_sink w') = Some wid \<and> room (k - locked_count [a] + length ps') w' \<and>
    replay m (events_of w' @ map (event_of wid) ps') = var_values w'"
proof (cases a)
  case (Locked x)
  obtain w1 es where w1: "var_locked w x = (w1, es)" by fastforce
  note v = var_locked_values [OF w1, of wid]
  have "w' = w1" "ps' = ps @ es" using assms(6) w1 Locked by simp_all
  moreover have "events_of w1 = events_of w" using v by (simp add: events_of_def)
  ultimately show ?thesis
    using v assms(1-3,5) Locked by (auto simp: room_def replay_append)
next
  case (Publish i)
  show ?thesis
  proof (cases "i < length ps")
    case True
    then have w': "w' = publish w (ps ! i)" and ps': "ps' = take i ps @ drop (Suc i) ps"
      using assms(6) Publish by simp_all
    have len: "length ps = Suc (length ps')" using True by (simp add: ps')
    have ps: "ps = take i ps @ ps ! i # drop (Suc i) ps" using True by (rule id_take_nth_drop)
    have "room (Suc (k + length ps')) w" using assms(2) len by simp
    then obtain s where s: "event_sink w = Some s" "room (k + length ps') w'" "var_values w' = var_values w"
      "events_of w' = events_of w @ [event_of (sink_workflow_id s) (ps ! i)]"
      "map_option sink_workflow_id (event_sink w') = Some (sink_workflow_id s)"
      unfolding w' by (rule publish_room)
    have wid: "sink_workflow_id s = wid" using assms(1) s(1) by simp
    have "\<forall>p\<in>set (take i ps). fst p \<noteq> fst (ps ! i)" using assms(4) Publish by (simp add: list_all_iff)
    from replay_early [OF this]
    have "replay (replay m (events_of w)) (map (event_of wid) ps) =
        replay (replay m (events_of w)) (map (event_of wid) (ps ! i # ps'))"
      by (subst ps) (simp only: ps')
    then show ?thesis
      using assms(3) s(2-5) wid Publish by (simp add: replay_append)
  next
    case False
    then show ?thesis using assms Publish by simp
  qed
qed

lemma mirror_acts:
  assumes "map_option sink_workflow_id (event_sink w) = Some wid" and "room (locked_count acts + length ps) w"
    and "replay m (events_of w @ map (event_of wid) ps) = var_values w" and "in_order (w, ps) acts"
    and "foldl var_act (w, ps) acts = (w', ps')"
  shows "replay m (events_of w' @ map (event_of wid) ps') = var_values w'"
  using assms
proof (induction acts arbitrary: w ps)
  case (Cons a acts)
  obtain w1 ps1 where a: "var_act (w, ps) a = (w1, ps1)" by fastforce
  have count: "locked_count (a # acts) - locked_count [a] = locked_count acts" "locked_count [a] \<le> locked_count (a # acts)"
    by (cases a; simp)+
  have first: "in_order (w, ps) [a]" "in_order (w1, ps1) acts" using Cons.prems(4) a by simp_all
  from mirror_act [OF Cons.prems(1-3) first(1) count(2) a]
  have "map_option sink_workflow_id (event_sink w1) = Some wid" "room (locked_count acts + length ps1) w1"
    "replay m (events_of w1 @ map (event_of wid) ps1) = var_values w1"
    unfolding count by blast+
  from Cons.IH [OF this first(2)] show ?case using Cons.prems(5) a by simp
qed simp

section \<open>Properties\<close>

text \<open>C10: whatever sequence of writes, swaps, resets, removals and subscriptions runs on the
  variables of a workflow, every variable left was declared, keeps its declared type and initial
  value, and holds a value of that type.\<close>

theorem variables_type_safe:
  assumes "from_declarations now decls = Inr w" and "hm_wf decls"
    and "map_of (vars (var_run w ops)) n = Some e"
  shows "\<exists>d. map_of decls n = Some d \<and> tv_type e = decl_type d \<and> tv_initial e = decl_initial d \<and>
    pin_type_matches_value (decl_type d) (tv_value e)"
  using conforms_run [OF from_declarations_conforms [OF assms(1,2)], of ops] assms(3)
  by (simp add: conforms_def)

definition demo_decls :: "(string, variable_declaration) hash_map" where
  "demo_decls = [(''n'', \<lparr>decl_type = TInteger, decl_initial = JNumber (PosInt 0)\<rparr>)]"

definition demo_vars :: workflow_variables where
  "demo_vars = \<lparr>vars = [(''n'', typed_variable_new (JNumber (PosInt 0)) TInteger (JNumber (PosInt 0)) 5 None)],
     event_sink = None\<rparr>"

lemma demo_vars_declared: "from_declarations 5 demo_decls = Inr demo_vars"
  by (simp add: from_declarations_def demo_decls_def demo_vars_def declare_variable_def hm_insert_def)

theorem variables_type_safe_witness:
  "\<exists>e. map_of (vars (var_run demo_vars [OpSet 6 ''n'' (JNumber (PosInt 3)) None, OpSet 7 ''n'' (JBool True) None])) ''n'' = Some e \<and>
     tv_value e = JNumber (PosInt 3) \<and>
     (\<exists>d. map_of demo_decls ''n'' = Some d \<and> tv_type e = decl_type d \<and> tv_initial e = decl_initial d \<and>
        pin_type_matches_value (decl_type d) (tv_value e))"
proof -
  let ?ops = "[OpSet 6 ''n'' (JNumber (PosInt 3)) None, OpSet 7 ''n'' (JBool True) None]"
  have "\<exists>e. map_of (vars (var_run demo_vars ?ops)) ''n'' = Some e \<and> tv_value e = JNumber (PosInt 3)"
    by (simp add: var_run_def demo_vars_def set_var_def set_locked_def store_value_def
        typed_variable_new_def try_emit_changed_def hm_insert_def)
  then obtain e where e: "map_of (vars (var_run demo_vars ?ops)) ''n'' = Some e"
      "tv_value e = JNumber (PosInt 3)" by blast
  have "hm_wf demo_decls" by (simp add: demo_decls_def hm_wf_def)
  from variables_type_safe [OF demo_vars_declared this e(1)] e show ?thesis by blast
qed

text \<open>C11: writes, swaps, resets, removals and subscriptions of several threads on the variables of a
  workflow interleave, each publishing its event some time after it changed the map. As long as the
  channel has room for the events and the events of each variable are published in the order of its
  writes (two overlapping writers of one variable may publish in the other order), the events published
  so far followed by those still pending, replayed on the values before the run, always give exactly the
  values the engine holds; so do the published events alone when nothing is pending.\<close>

theorem events_mirror_values:
  assumes "event_sink w = None" and "locked_count acts \<le> c"
    and "in_order (set_event_sender w wid (chan_new c), []) acts"
    and "foldl var_act (set_event_sender w wid (chan_new c), []) acts = (w', pending)"
  shows "replay (var_values w) (events_of w' @ map (event_of wid) pending) = var_values w'"
  using assms
  by (intro mirror_acts [OF _ _ _ assms(3,4)]) (auto simp: set_event_sender_def events_of_def room_def chan_new_def
      var_values_def fun_eq_iff)

definition demo_acts :: "var_action list" where
  "demo_acts = [Locked (OpSet 6 ''n'' (JNumber (PosInt 3)) None), Locked (OpRemove ''m''), Publish 1, Publish 0,
     Locked (OpSet 7 ''n'' (JNumber (PosInt 4)) None)]"

definition demo_pair :: workflow_variables where
  "demo_pair = demo_vars\<lparr>vars := (''m'', typed_variable_new JNull TAny JNull 5 None) # vars demo_vars\<rparr>"

theorem events_mirror_values_witness:
  "\<exists>w' pending. foldl var_act (set_event_sender demo_pair ''wf'' (chan_new 3), []) demo_acts = (w', pending) \<and>
     length (events_of w') = 2 \<and> length pending = 1 \<and>
     replay (var_values demo_pair) (events_of w' @ map (event_of ''wf'') pending) = var_values w'"
proof -
  let ?w = "set_event_sender demo_pair ''wf'' (chan_new 3)"
  note run_simps = demo_acts_def demo_pair_def demo_vars_def locked_set_def set_locked_def store_value_def
    typed_variable_new_def publish_def changed_events_def hm_insert_def hm_remove_def set_event_sender_def chan_new_def
    events_of_def sink_emit_def try_send_def watch_send_def
  have order: "in_order (?w, []) demo_acts" by (simp add: run_simps)
  have count: "locked_count demo_acts \<le> 3" by (simp add: demo_acts_def)
  have none: "event_sink demo_pair = None" by (simp add: demo_pair_def demo_vars_def)
  obtain w' pending where run: "foldl var_act (?w, []) demo_acts = (w', pending)" by fastforce
  moreover have "(case foldl var_act (?w, []) demo_acts of (w', ps) \<Rightarrow> length (events_of w') = 2 \<and> length ps = 1)"
    by (simp add: run_simps)
  ultimately show ?thesis using events_mirror_values [OF none count order run] by auto
qed

text \<open>The write and its event are two actions. When a second writer comes in between, the events
  can arrive in the opposite order and the consumer ends with a value the engine no longer holds.\<close>

lemma interleaved_writers_stale:
  "\<exists>w1 ep1 w2 ep2. let w = set_event_sender demo_vars ''wf'' (chan_new 2) in
     set_locked 6 w ''n'' (JNumber (PosInt 1)) None = Inr (w1, ep1) \<and>
     set_locked 7 w1 ''n'' (JNumber (PosInt 2)) None = Inr (w2, ep2) \<and>
     (let w3 = try_emit_changed (try_emit_changed w2 ''n'' ep2) ''n'' ep1 in
      var_values w3 ''n'' = Some (JNumber (PosInt 2)) \<and>
      replay (var_values w) (events_of w3) ''n'' = Some (JNumber (PosInt 1)))"
  by (simp add: demo_vars_def set_locked_def store_value_def
        typed_variable_new_def try_emit_changed_def hm_insert_def set_event_sender_def chan_new_def
        events_of_def sink_emit_def try_send_def watch_send_def var_values_def)

section \<open>Atomic counting\<close>

text \<open>Nodes count with \<open>compare_and_swap\<close>: read \<open>k\<close>, then swap \<open>k\<close> for \<open>k + 1\<close>. A run of such
  attempts, each with whatever \<open>k\<close> its node read, returns how many succeeded.\<close>

fun count_attempts :: "workflow_variables \<Rightarrow> string \<Rightarrow> (time \<times> u64) list \<Rightarrow> nat \<times> workflow_variables" where
  "count_attempts w n [] = (0, w)"
| "count_attempts w n ((now, k) # ks) =
     (case compare_and_swap now w n (JNumber (PosInt k)) (JNumber (PosInt (k + 1))) None of
        Inl _ \<Rightarrow> count_attempts w n ks
      | Inr (b, w') \<Rightarrow>
          (let (succ, w'') = count_attempts w' n ks in (if b then Suc succ else succ, w'')))"

text \<open>No successful increment is lost: the counter ends at its start plus the number of
  attempts that reported success, in 64-bit arithmetic.\<close>

theorem cas_counts_successes:
  assumes "map_of (vars w) n = Some e" and "tv_type e = TInteger" and "tv_value e = JNumber (PosInt v)"
    and "count_attempts w n ks = (succ, w')"
  shows "get_value w' n = Some (JNumber (PosInt (v + of_nat succ)))"
  using assms
proof (induction ks arbitrary: w e v succ)
  case Nil
  then show ?case by (simp add: get_value_def)
next
  case (Cons nk ks)
  obtain now k where nk: "nk = (now, k)" by (cases nk)
  let ?cas = "compare_and_swap now w n (JNumber (PosInt k)) (JNumber (PosInt (k + 1))) None"
  show ?case
  proof (cases "k = v")
    case False
    then have "?cas = Inr (False, w)" using Cons.prems by (simp add: compare_and_swap_eq)
    then show ?thesis using Cons.prems nk Cons.IH [OF Cons.prems(1-3)]
      by (auto split: prod.splits)
  next
    case True
    obtain e' ep where sv: "store_value now e (JNumber (PosInt (v + 1))) None = (e', ep)"
      by (cases "store_value now e (JNumber (PosInt (v + 1))) None")
    let ?w1 = "try_emit_changed (w\<lparr>vars := hm_insert n e' (vars w)\<rparr>) n ep"
    have cas: "?cas = Inr (True, ?w1)" using True Cons.prems sv
      by (simp add: compare_and_swap_eq set_var_def set_locked_def)
    obtain m where m: "count_attempts ?w1 n ks = (m, w')" and succ: "succ = Suc m"
      using Cons.prems(4) nk cas by (auto split: prod.splits)
    have "get_value w' n = Some (JNumber (PosInt (v + 1 + of_nat m)))"
      by (rule Cons.IH [OF _ _ _ m, of e']) (use store_value_fields [OF sv] Cons.prems in simp_all)
    then show ?thesis by (simp add: succ ac_simps)
  qed
qed

theorem cas_counts_successes_witness:
  "\<exists>w'. count_attempts demo_vars ''n'' [(6, 0), (7, 0), (8, 1)] = (2, w') \<and>
     get_value w' ''n'' = Some (JNumber (PosInt 2))"
proof -
  obtain w' where w': "count_attempts demo_vars ''n'' [(6, 0), (7, 0), (8, 1)] = (2, w')"
    by (simp add: demo_vars_def compare_and_swap_eq set_var_def set_locked_def store_value_def
        typed_variable_new_def try_emit_changed_def hm_insert_def)
  let ?e = "typed_variable_new (JNumber (PosInt 0)) TInteger (JNumber (PosInt 0)) 5 None"
  have "map_of (vars demo_vars) ''n'' = Some ?e" "tv_type ?e = TInteger"
      "tv_value ?e = JNumber (PosInt 0)"
    by (simp_all add: demo_vars_def typed_variable_new_def)
  from cas_counts_successes [OF this w']
  have "get_value w' ''n'' = Some (JNumber (PosInt (0 + of_nat 2)))" .
  then show ?thesis using w' by simp
qed

end
