(* ===== verification/Conn_Policy.thy ===== *)
theory Conn_Policy
  imports Json
begin

text \<open>
  \<open>crates/connections/src/policy.rs\<close>: the governance parameters of a connection, read from the
  \<open>governance\<close> object of its metadata with defaults and lower limits, and the exponential backoff.
\<close>

record governance_policy =
  connect_timeout_ms :: u64
  operation_timeout_ms :: u64
  heartbeat_interval_ms :: u64
  heartbeat_timeout_ms :: u64
  rate_limit_max_attempts :: u32
  rate_limit_window_ms :: u64
  rate_limit_cooldown_ms :: u64
  circuit_failure_threshold :: u32
  circuit_open_ms :: u64
  reconnect_base_ms :: u64
  reconnect_max_ms :: u64

definition default_policy :: governance_policy where
  "default_policy =
     \<lparr>connect_timeout_ms = 3000, operation_timeout_ms = 5000, heartbeat_interval_ms = 3000,
      heartbeat_timeout_ms = 12000, rate_limit_max_attempts = 8, rate_limit_window_ms = 10000,
      rate_limit_cooldown_ms = 4000, circuit_failure_threshold = 3, circuit_open_ms = 15000,
      reconnect_base_ms = 800, reconnect_max_ms = 8000\<rparr>"

definition metadata_object :: "json \<Rightarrow> json_map option" where
  "metadata_object v = as_object v"

definition governance_value :: "json \<Rightarrow> string \<Rightarrow> json option" where
  "governance_value metadata key =
     Option.bind (Option.bind (Option.bind (metadata_object metadata)
       (\<lambda>m. map_of m ''governance'')) metadata_object) (\<lambda>g. map_of g key)"

definition governance_u64 :: "json \<Rightarrow> string \<Rightarrow> u64 \<Rightarrow> u64" where
  "governance_u64 metadata key fallback =
     (case Option.bind (governance_value metadata key) as_u64 of Some v \<Rightarrow> v | None \<Rightarrow> fallback)"

definition u32_try_from :: "u64 \<Rightarrow> u32 option" where
  "u32_try_from v = (if unat v < 2 ^ 32 then Some (ucast v) else None)"

definition governance_u32 :: "json \<Rightarrow> string \<Rightarrow> u32 \<Rightarrow> u32" where
  "governance_u32 metadata key fallback =
     (case Option.bind (Option.bind (governance_value metadata key) as_u64) u32_try_from of
        Some v \<Rightarrow> v | None \<Rightarrow> fallback)"

definition policy_from_metadata :: "json \<Rightarrow> governance_policy" where
  "policy_from_metadata metadata =
     (let d = default_policy in
      \<lparr>connect_timeout_ms =
         max (governance_u64 metadata ''connect_timeout_ms'' (connect_timeout_ms d)) 200,
       operation_timeout_ms =
         max (governance_u64 metadata ''operation_timeout_ms'' (operation_timeout_ms d)) 200,
       heartbeat_interval_ms =
         max (governance_u64 metadata ''heartbeat_interval_ms'' (heartbeat_interval_ms d)) 250,
       heartbeat_timeout_ms =
         max (governance_u64 metadata ''heartbeat_timeout_ms'' (heartbeat_timeout_ms d)) 500,
       rate_limit_max_attempts =
         max (governance_u32 metadata ''rate_limit_max_attempts'' (rate_limit_max_attempts d)) 1,
       rate_limit_window_ms =
         max (governance_u64 metadata ''rate_limit_window_ms'' (rate_limit_window_ms d)) 500,
       rate_limit_cooldown_ms =
         max (governance_u64 metadata ''rate_limit_cooldown_ms'' (rate_limit_cooldown_ms d)) 500,
       circuit_failure_threshold =
         max (governance_u32 metadata ''circuit_failure_threshold'' (circuit_failure_threshold d)) 1,
       circuit_open_ms = max (governance_u64 metadata ''circuit_open_ms'' (circuit_open_ms d)) 1000,
       reconnect_base_ms =
         max (governance_u64 metadata ''reconnect_base_ms'' (reconnect_base_ms d)) 200,
       reconnect_max_ms =
         max (governance_u64 metadata ''reconnect_max_ms'' (reconnect_max_ms d)) 500\<rparr>)"

definition reconnect_delay_ms :: "governance_policy \<Rightarrow> u32 \<Rightarrow> u64" where
  "reconnect_delay_ms p attempt =
     (let exponent = min (sat_sub attempt 1) 6;
          multiplier = push_bit (unat exponent) (1 :: u64)
      in min (sat_mul (reconnect_base_ms p) multiplier) (reconnect_max_ms p))"

section \<open>Properties\<close>

lemma unat_max: "unat (max a b) = max (unat a) (unat b)" for a b :: "'a::len word"
  by (simp add: max_def word_le_nat_alt)

lemma unat_min: "unat (min a b) = min (unat a) (unat b)" for a b :: "'a::len word"
  by (simp add: min_def word_le_nat_alt)

text \<open>The lower limits of a policy read from metadata.\<close>

lemma policy_floors:
  fixes metadata :: json
  defines "p \<equiv> policy_from_metadata metadata"
  shows "200 \<le> unat (operation_timeout_ms p)" and "1 \<le> unat (rate_limit_max_attempts p)"
    and "500 \<le> unat (rate_limit_window_ms p)" and "500 \<le> unat (rate_limit_cooldown_ms p)"
    and "1 \<le> unat (circuit_failure_threshold p)" and "1000 \<le> unat (circuit_open_ms p)"
    and "200 \<le> unat (reconnect_base_ms p)" and "500 \<le> unat (reconnect_max_ms p)"
  unfolding p_def policy_from_metadata_def by (simp_all add: unat_max Let_def)

lemma multiplier_nat:
  fixes a :: u32
  shows "unat (push_bit (unat (min (sat_sub a 1) 6)) (1 :: u64)) = 2 ^ min (unat a - 1) 6"
proof -
  have "unat (min (sat_sub a 1) 6) = min (unat a - 1) 6"
    by (simp add: unat_min unat_sat_sub)
  moreover have "unat (push_bit k (1 :: u64)) = 2 ^ k" if "k \<le> 6" for k
  proof -
    from that have "k \<in> {0, 1, 2, 3, 4, 5, 6}" by auto
    then show ?thesis by auto
  qed
  ultimately show ?thesis by simp
qed

lemma reconnect_delay_nat:
  "unat (reconnect_delay_ms p a) =
    min (unat (reconnect_base_ms p) * 2 ^ min (unat a - 1) 6) (unat (reconnect_max_ms p))"
proof -
  have "unat (reconnect_max_ms p) < 2 ^ 64" using unsigned_less [of "reconnect_max_ms p"] by simp
  then show ?thesis
    unfolding reconnect_delay_ms_def Let_def unat_min [of "sat_mul _ _"] unat_sat_mul
    by (subst multiplier_nat) (simp add: min_def)
qed

text \<open>
  C15: the wait before the n-th attempt to reconnect is exactly the base doubled for each earlier
  attempt, six times at most, cut off at the maximum, with no effect of the 64-bit width; it
  never shrinks from one attempt to the next, and is never shorter than 200 ms.
\<close>

theorem backoff_exact:
  fixes metadata :: json and a b :: u32
  defines "p \<equiv> policy_from_metadata metadata"
  assumes "unat a \<le> unat b"
  shows "unat (reconnect_delay_ms p a) =
      min (unat (reconnect_base_ms p) * 2 ^ min (unat a - 1) 6) (unat (reconnect_max_ms p)) \<and>
    reconnect_delay_ms p a \<le> reconnect_delay_ms p b \<and> 200 \<le> unat (reconnect_delay_ms p a)"
proof (intro conjI)
  show "unat (reconnect_delay_ms p a) =
      min (unat (reconnect_base_ms p) * 2 ^ min (unat a - 1) 6) (unat (reconnect_max_ms p))"
    by (rule reconnect_delay_nat)
  have "(2::nat) ^ min (unat a - 1) 6 \<le> 2 ^ min (unat b - 1) 6"
    using assms(2) by (intro power_increasing) auto
  then have "unat (reconnect_base_ms p) * 2 ^ min (unat a - 1) 6
      \<le> unat (reconnect_base_ms p) * 2 ^ min (unat b - 1) 6"
    by (rule mult_le_mono2)
  then show "reconnect_delay_ms p a \<le> reconnect_delay_ms p b"
    unfolding word_le_nat_alt reconnect_delay_nat by (simp add: min.coboundedI1 min.mono)
  have "200 * 1 \<le> unat (reconnect_base_ms p) * 2 ^ min (unat a - 1) 6"
    using policy_floors(7) [of metadata] by (intro mult_le_mono) (simp_all add: p_def)
  then show "200 \<le> unat (reconnect_delay_ms p a)"
    using policy_floors(8) [of metadata] by (simp add: reconnect_delay_nat p_def)
qed

theorem backoff_exact_witness:
  "reconnect_delay_ms (policy_from_metadata JNull) 3
    \<le> reconnect_delay_ms (policy_from_metadata JNull) 9"
  using backoff_exact [of 3 9 JNull] by simp

end
