(* ===== verification/Texts.thy ===== *)
theory Texts
  imports Prelude
begin

text \<open>
  The methods of \<open>str\<close> the program uses, by their documented meaning. The white space of \<open>trim\<close> is the
  ASCII part of Unicode white space, that of \<open>trim_utf8\<close> all of it; on ASCII text they agree.
\<close>

definition is_space :: "char \<Rightarrow> bool" where
  "is_space c \<longleftrightarrow> (let n = of_char c :: nat in 9 \<le> n \<and> n \<le> 13 \<or> n = 32)"

definition trim_start :: "string \<Rightarrow> string" where
  "trim_start s = dropWhile is_space s"

definition trim :: "string \<Rightarrow> string" where
  "trim s = rev (trim_start (rev (trim_start s)))"

definition ascii_lower :: "char \<Rightarrow> char" where
  "ascii_lower c = (let n = of_char c :: nat in if 65 \<le> n \<and> n \<le> 90 then char_of (n + 32) else c)"

definition to_ascii_lowercase :: "string \<Rightarrow> string" where
  "to_ascii_lowercase s = map ascii_lower s"

text \<open>Decimal printing of a natural number.\<close>

fun dec_digits :: "nat \<Rightarrow> string" where
  "dec_digits n = (if n < 10 then [char_of (48 + n)] else dec_digits (n div 10) @ [char_of (48 + n mod 10)])"

declare dec_digits.simps [simp del]

lemma dec_digits_not_Nil [simp]: "dec_digits n \<noteq> []"
  by (simp add: dec_digits.simps [of n])

lemma dropWhile_idem: "dropWhile P (dropWhile P xs) = dropWhile P xs"
  by (induction xs) auto

lemma trim_start_trimmed: "trim_start s = s \<longleftrightarrow> s = [] \<or> \<not> is_space (hd s)"
proof
  assume "trim_start s = s"
  then show "s = [] \<or> \<not> is_space (hd s)"
    unfolding trim_start_def by (metis hd_dropWhile)
qed (cases s; auto simp: trim_start_def)

lemma is_space_lower: "is_space (ascii_lower c) = is_space c"
  by (auto simp: is_space_def ascii_lower_def Let_def of_char_of)

lemma trim_start_lower: "trim_start (to_ascii_lowercase s) = to_ascii_lowercase (trim_start s)"
  by (simp add: trim_start_def to_ascii_lowercase_def dropWhile_map comp_def is_space_lower)

lemma rev_lower: "rev (to_ascii_lowercase s) = to_ascii_lowercase (rev s)"
  by (simp add: to_ascii_lowercase_def rev_map)

lemma trim_lower: "trim (to_ascii_lowercase s) = to_ascii_lowercase (trim s)"
  by (simp add: trim_def trim_start_lower rev_lower)

lemma trim_Nil [simp]: "trim [] = []"
  by (simp add: trim_def trim_start_def)

section \<open>UTF-8\<close>

text \<open>
  Text that comes from outside is a list of bytes that form valid UTF-8. White space that is not
  ASCII is recognised by its bytes, at the start and (reversed) at the end of a text.
\<close>

definition cont :: "nat \<Rightarrow> bool" where
  "cont b \<longleftrightarrow> 0x80 \<le> b \<and> b < 0xC0"

fun utf8_bytes :: "nat list \<Rightarrow> bool" where
  "utf8_bytes [] = True"
| "utf8_bytes (a # bs) =
     (if a < 0x80 then utf8_bytes bs
      else if 0xC2 \<le> a \<and> a < 0xE0 then
        (case bs of b # bs' \<Rightarrow> cont b \<and> utf8_bytes bs' | _ \<Rightarrow> False)
      else if 0xE0 \<le> a \<and> a < 0xF0 then
        (case bs of b # c # bs' \<Rightarrow>
           cont b \<and> (a = 0xE0 \<longrightarrow> 0xA0 \<le> b) \<and> (a = 0xED \<longrightarrow> b < 0xA0) \<and> cont c \<and> utf8_bytes bs' | _ \<Rightarrow> False)
      else if 0xF0 \<le> a \<and> a < 0xF5 then
        (case bs of b # c # d # bs' \<Rightarrow>
           cont b \<and> (a = 0xF0 \<longrightarrow> 0x90 \<le> b) \<and> (a = 0xF4 \<longrightarrow> b < 0x90) \<and> cont c \<and> cont d \<and> utf8_bytes bs'
         | _ \<Rightarrow> False)
      else False)"

definition utf8_valid :: "string \<Rightarrow> bool" where
  "utf8_valid s = utf8_bytes (map of_char s)"

text \<open>A slice \<open>&s[a..b]\<close>: \<open>None\<close> is the panic on an end out of range or inside a character.\<close>

definition char_boundary :: "string \<Rightarrow> nat \<Rightarrow> bool" where
  "char_boundary s k \<longleftrightarrow> k = length s \<or> k < length s \<and> \<not> cont (of_char (s ! k))"

definition str_slice :: "string \<Rightarrow> nat \<Rightarrow> nat \<Rightarrow> string option" where
  "str_slice s a b =
     (if a \<le> b \<and> char_boundary s a \<and> char_boundary s b then Some (take (b - a) (drop a s)) else None)"

definition wide_space :: "nat list \<Rightarrow> bool" where
  "wide_space bs \<longleftrightarrow>
     bs \<in> set ([[0xC2, 0x85], [0xC2, 0xA0], [0xE1, 0x9A, 0x80], [0xE2, 0x80, 0xA8], [0xE2, 0x80, 0xA9],
       [0xE2, 0x80, 0xAF], [0xE2, 0x81, 0x9F], [0xE3, 0x80, 0x80]] @ map (\<lambda>k. [0xE2, 0x80, 0x80 + k]) [0..<11])"

definition space_width :: "(nat list \<Rightarrow> bool) \<Rightarrow> string \<Rightarrow> nat" where
  "space_width wide s =
     (case s of [] \<Rightarrow> 0
      | c # _ \<Rightarrow>
          if is_space c then 1
          else if wide (map of_char (take 2 s)) then 2
          else if wide (map of_char (take 3 s)) then 3 else 0)"

function drop_spaces :: "(nat list \<Rightarrow> bool) \<Rightarrow> string \<Rightarrow> string" where
  "drop_spaces wide s =
     (if s = [] \<or> space_width wide s = 0 then s else drop_spaces wide (drop (space_width wide s) s))"
  by pat_completeness auto
termination by (relation "measure (\<lambda>(_, s). length s)") auto

declare drop_spaces.simps [simp del]

definition trim_utf8 :: "string \<Rightarrow> string" where
  "trim_utf8 s = rev (drop_spaces (\<lambda>bs. wide_space (rev bs)) (rev (drop_spaces wide_space s)))"

definition ascii_upper :: "char \<Rightarrow> char" where
  "ascii_upper c = (let n = of_char c :: nat in if 97 \<le> n \<and> n \<le> 122 then char_of (n - 32) else c)"

definition to_ascii_uppercase :: "string \<Rightarrow> string" where
  "to_ascii_uppercase s = map ascii_upper s"

text \<open>On ASCII text nothing of this is visible.\<close>

definition ascii :: "string \<Rightarrow> bool" where
  "ascii s \<longleftrightarrow> (\<forall>c\<in>set s. of_char c < (128 :: nat))"

lemma ascii_slice:
  "ascii s \<Longrightarrow> a \<le> b \<Longrightarrow> b \<le> length s \<Longrightarrow> str_slice s a b = Some (take (b - a) (drop a s))"
proof -
  assume s: "ascii s" and ab: "a \<le> b" "b \<le> length s"
  have "char_boundary s k" if "k \<le> length s" for k
    using that s nth_mem [of k s] by (fastforce simp: char_boundary_def cont_def ascii_def)
  then show ?thesis using ab by (simp add: str_slice_def)
qed

lemma wide_space_ascii: "wide_space bs \<or> wide_space (rev bs) \<Longrightarrow> \<exists>b\<in>set bs. 128 \<le> b"
proof -
  have big: "wide_space bs \<Longrightarrow> 128 \<le> hd bs \<and> bs \<noteq> []" for bs
    by (auto simp: wide_space_def)
  assume "wide_space bs \<or> wide_space (rev bs)"
  then show ?thesis using big [of bs] big [of "rev bs"] by (metis hd_in_set set_rev)
qed

lemma drop_spaces_ascii:
  assumes "ascii s" and "\<And>bs. wide bs \<Longrightarrow> \<exists>b\<in>set bs. 128 \<le> b"
  shows "drop_spaces wide s = trim_start s"
  using assms(1)
proof (induction s)
  case (Cons c s)
  have no: "\<not> wide (map of_char (take k (c # s)))" for k
    using assms(2) [of "map of_char (take k (c # s))"] Cons.prems
    by (force simp: ascii_def dest: in_set_takeD)
  show ?case
    using Cons no [of 2] no [of 3]
    by (simp add: drop_spaces.simps [of wide "c # s"] space_width_def trim_start_def ascii_def)
qed (simp add: drop_spaces.simps trim_start_def)

lemma trim_utf8_ascii: "ascii s \<Longrightarrow> trim_utf8 s = trim s"
proof -
  assume s: "ascii s"
  then have "ascii (rev (trim_start s))"
    unfolding ascii_def trim_start_def by (auto dest: set_dropWhileD)
  then show ?thesis
    using s by (simp add: trim_utf8_def trim_def drop_spaces_ascii wide_space_ascii)
qed

lemma trim_unchanged: "s \<noteq> [] \<Longrightarrow> \<not> is_space (hd s) \<Longrightarrow> \<not> is_space (last s) \<Longrightarrow> trim (s @ [CHR 0x0D]) = s"
proof -
  assume a: "s \<noteq> []" "\<not> is_space (hd s)" "\<not> is_space (last s)"
  have "is_space CHR 0x0D" by code_simp
  then have "trim_start (CHR 0x0D # rev s) = trim_start (rev s)" by (simp add: trim_start_def)
  also have "\<dots> = rev s" using a by (simp add: trim_start_trimmed hd_rev)
  finally show ?thesis
    using a by (cases s) (simp_all add: trim_def trim_start_def)
qed

end
