(* ===== verification/Conn_Validation.thy ===== *)
theory Conn_Validation
  imports Conn_Policy Texts
begin

text \<open>
  \<open>crates/connections/src/validation.rs\<close>: which connection definitions are usable. \<open>Url::parse\<close> of
  the \<open>url\<close> package is the argument \<open>url_error\<close>: the text of its error, \<open>None\<close> when it parses.
  \<open>text_field\<close> and \<open>u64_field\<close> are the two chains of calls that read a metadata field.
\<close>

definition normalize_connection_kind :: "string \<Rightarrow> string" where
  "normalize_connection_kind k = to_ascii_lowercase (trim_utf8 k)"

definition field :: "json_map option \<Rightarrow> string \<Rightarrow> json option" where
  "field md key = Option.bind md (\<lambda>m. map_of m key)"

definition text_field :: "json_map option \<Rightarrow> string \<Rightarrow> string" where
  "text_field md key =
     (case map_option trim_utf8 (Option.bind (field md key) as_str) of Some s \<Rightarrow> s | None \<Rightarrow> [])"

definition u64_field :: "json_map option \<Rightarrow> string \<Rightarrow> u64" where
  "u64_field md key = (case Option.bind (field md key) as_u64 of Some n \<Rightarrow> n | None \<Rightarrow> 0)"

definition zero_field :: "json_map option \<Rightarrow> string \<Rightarrow> bool" where
  "zero_field md key = (case field md key of Some v \<Rightarrow> as_u64 v = Some 0 | None \<Rightarrow> False)"

definition validate_serial :: "json_map option \<Rightarrow> msg option" where
  "validate_serial md =
     (if text_field md ''port_path'' = [] then Some (Msg ''serial-port-path'' [])
      else if u64_field md ''baud_rate'' = 0 then Some (Msg ''serial-baud-rate'' [])
      else None)"

definition validate_modbus :: "json_map option \<Rightarrow> msg option" where
  "validate_modbus md =
     (if text_field md ''host'' = [] then Some (Msg ''modbus-host'' [])
      else (let port = u64_field md ''port''
            in if port = 0 \<or> port > 65535 then Some (Msg ''modbus-port'' []) else None))"

definition validate_mqtt :: "json_map option \<Rightarrow> msg option" where
  "validate_mqtt md =
     (if text_field md ''host'' = [] then Some (Msg ''mqtt-host'' [])
      else if text_field md ''topic'' = [] then Some (Msg ''mqtt-topic'' [])
      else None)"

definition validate_http :: "(string \<Rightarrow> string option) \<Rightarrow> json_map option \<Rightarrow> msg option" where
  "validate_http url_error md =
     (let url = text_field md ''url''
      in if url = [] then Some (Msg ''http-url-missing'' [])
         else map_option (\<lambda>e. Msg ''http-url-invalid'' [e]) (url_error url))"

definition validate_bark :: "(string \<Rightarrow> string option) \<Rightarrow> json_map option \<Rightarrow> msg option" where
  "validate_bark url_error md =
     (if text_field md ''device_key'' = [] then Some (Msg ''bark-device-key'' [])
      else (let server_url = text_field md ''server_url''
            in if server_url \<noteq> []
               then map_option (\<lambda>e. Msg ''bark-server-url'' [e]) (url_error server_url)
               else None))"

definition can_bitrates :: "u64 list" where
  "can_bitrates = [10000, 20000, 50000, 100000, 125000, 250000, 500000, 800000, 1000000]"

definition validate_can :: "json_map option \<Rightarrow> msg option" where
  "validate_can md =
     (let interface = text_field md ''interface''; bitrate = u64_field md ''bitrate''
      in if interface = [] then Some (Msg ''can-interface'' [])
         else if interface \<notin> {''slcan'', ''mock'', ''virtual''}
         then Some (Msg ''can-interface-unsupported'' [interface])
         else if text_field md ''channel'' = [] then Some (Msg ''can-channel'' [])
         else if u64_field md ''baud_rate'' = 0 then Some (Msg ''can-baud-rate'' [])
         else if bitrate = 0 then Some (Msg ''can-bitrate'' [])
         else if bitrate \<notin> set can_bitrates
         then Some (Msg ''can-bitrate-unsupported'' [dec_digits (unat bitrate)])
         else None)"

definition validate_ethercat :: "json_map option \<Rightarrow> msg option" where
  "validate_ethercat md =
     (let backend = to_ascii_lowercase (text_field md ''backend'')
      in if backend = [] then Some (Msg ''ethercat-backend'' [])
         else if backend \<notin> {''ethercrab'', ''mock''}
         then Some (Msg ''ethercat-backend-unsupported'' [backend])
         else if text_field md ''interface'' = [] then Some (Msg ''ethercat-interface'' [])
         else if u64_field md ''cycle_time_ms'' = 0 then Some (Msg ''ethercat-cycle-time-ms'' [])
         else if zero_field md ''cycle_time_us'' then Some (Msg ''ethercat-cycle-time-us'' [])
         else if zero_field md ''dc_sync0_period_us'' then Some (Msg ''ethercat-dc-sync0'' [])
         else if zero_field md ''dc_start_delay_us'' then Some (Msg ''ethercat-dc-start-delay'' [])
         else if u64_field md ''op_timeout_ms'' = 0 then Some (Msg ''ethercat-op-timeout'' [])
         else None)"

definition validate_connection_definition ::
    "(string \<Rightarrow> string option) \<Rightarrow> string \<Rightarrow> json \<Rightarrow> msg + unit" where
  "validate_connection_definition url_error kind metadata =
     (let k = normalize_connection_kind kind; md = metadata_object metadata;
          found = (if k \<in> {''serial'', ''serialport'', ''serial_port'', ''uart'', ''rs232'', ''rs485''}
                   then validate_serial md
                   else if k \<in> {''modbus'', ''modbus_tcp''} then validate_modbus md
                   else if k = ''mqtt'' then validate_mqtt md
                   else if k \<in> {''http'', ''http_sink''} then validate_http url_error md
                   else if k \<in> {''bark'', ''bark_push''} then validate_bark url_error md
                   else if k \<in> {''can'', ''can-slcan'', ''slcan''} then validate_can md
                   else if k \<in> {''ethercat'', ''ethercat-ethercrab'', ''ecat''}
                   then validate_ethercat md
                   else Some (Msg ''unsupported-connection-type'' [kind]))
      in case found of Some reason \<Rightarrow> Inl reason | None \<Rightarrow> Inr ())"

section \<open>The contract of a definition\<close>

text \<open>
  What each protocol demands, as a table of field rules. A text rule speaks of the trimmed text.
\<close>

datatype field_rule =
    NonEmpty string
  | OneOf string "string list"
  | OneOfNoCase string "string list"
  | Number string "nat \<Rightarrow> bool"
  | NotZero string
  | Url string
  | UrlOrEmpty string

fun rule_holds :: "(string \<Rightarrow> string option) \<Rightarrow> json_map option \<Rightarrow> field_rule \<Rightarrow> bool" where
  "rule_holds u md (NonEmpty f) = (text_field md f \<noteq> [])"
| "rule_holds u md (OneOf f vs) = (text_field md f \<in> set vs)"
| "rule_holds u md (OneOfNoCase f vs) = (to_ascii_lowercase (text_field md f) \<in> set vs)"
| "rule_holds u md (Number f P) = P (unat (u64_field md f))"
| "rule_holds u md (NotZero f) = (field md f \<noteq> Some (JNumber (PosInt 0)))"
| "rule_holds u md (Url f) = (text_field md f \<noteq> [] \<and> u (text_field md f) = None)"
| "rule_holds u md (UrlOrEmpty f) = (text_field md f \<noteq> [] \<longrightarrow> u (text_field md f) = None)"

definition positive :: "nat \<Rightarrow> bool" where "positive n \<longleftrightarrow> 0 < n"

definition protocols :: "(string list \<times> field_rule list) list" where
  "protocols =
    [([''serial'', ''serialport'', ''serial_port'', ''uart'', ''rs232'', ''rs485''],
      [NonEmpty ''port_path'', Number ''baud_rate'' positive]),
     ([''modbus'', ''modbus_tcp''],
      [NonEmpty ''host'', Number ''port'' (\<lambda>n. 1 \<le> n \<and> n \<le> 65535)]),
     ([''mqtt''], [NonEmpty ''host'', NonEmpty ''topic'']),
     ([''http'', ''http_sink''], [Url ''url'']),
     ([''bark'', ''bark_push''], [NonEmpty ''device_key'', UrlOrEmpty ''server_url'']),
     ([''can'', ''can-slcan'', ''slcan''],
      [OneOf ''interface'' [''slcan'', ''mock'', ''virtual''], NonEmpty ''channel'',
       Number ''baud_rate'' positive, Number ''bitrate'' (\<lambda>n. n \<in> unat ` set can_bitrates)]),
     ([''ethercat'', ''ethercat-ethercrab'', ''ecat''],
      [OneOfNoCase ''backend'' [''ethercrab'', ''mock''], NonEmpty ''interface'',
       Number ''cycle_time_ms'' positive, NotZero ''cycle_time_us'', NotZero ''dc_sync0_period_us'',
       NotZero ''dc_start_delay_us'', Number ''op_timeout_ms'' positive])]"

definition usable :: "(string \<Rightarrow> string option) \<Rightarrow> string \<Rightarrow> json \<Rightarrow> bool" where
  "usable u kind metadata \<longleftrightarrow>
     (\<exists>(names, rules)\<in>set protocols. normalize_connection_kind kind \<in> set names \<and>
        (\<forall>r\<in>set rules. rule_holds u (metadata_object metadata) r))"

lemma zero_field_iff: "zero_field md f \<longleftrightarrow> field md f = Some (JNumber (PosInt 0))"
  by (auto simp: zero_field_def as_u64_Some split: option.splits)

lemma unat_pos_iff: "0 < unat w \<longleftrightarrow> w \<noteq> 0" for w :: "'a::len word"
  by (simp add: unat_gt_0)

lemma port_range: "1 \<le> unat w \<and> unat w \<le> 65535 \<longleftrightarrow> w \<noteq> 0 \<and> \<not> w > (65535 :: u64)"
  by (auto simp: word_less_nat_alt Suc_le_eq unat_pos_iff)

lemma validate_none_iff:
  "validate_serial md = None \<longleftrightarrow> (\<forall>r\<in>set (snd (protocols ! 0)). rule_holds u md r)"
  "validate_modbus md = None \<longleftrightarrow> (\<forall>r\<in>set (snd (protocols ! 1)). rule_holds u md r)"
  "validate_mqtt md = None \<longleftrightarrow> (\<forall>r\<in>set (snd (protocols ! 2)). rule_holds u md r)"
  "validate_http u md = None \<longleftrightarrow> (\<forall>r\<in>set (snd (protocols ! 3)). rule_holds u md r)"
  "validate_bark u md = None \<longleftrightarrow> (\<forall>r\<in>set (snd (protocols ! 4)). rule_holds u md r)"
  by (auto simp: protocols_def validate_serial_def validate_modbus_def validate_mqtt_def
      validate_http_def validate_bark_def Let_def positive_def unat_pos_iff port_range
      simp del: One_nat_def)

lemma validate_can_none_iff:
  "validate_can md = None \<longleftrightarrow> (\<forall>r\<in>set (snd (protocols ! 5)). rule_holds u md r)"
proof -
  have "unat b \<in> unat ` set can_bitrates \<longleftrightarrow> b \<in> set can_bitrates" for b
    by (auto simp: word_eq_iff_unsigned [symmetric])
  moreover have "0 \<notin> set can_bitrates" by (simp add: can_bitrates_def)
  ultimately show ?thesis
    by (auto simp: protocols_def validate_can_def Let_def positive_def unat_pos_iff)
qed

lemma validate_ethercat_none_iff:
  "validate_ethercat md = None \<longleftrightarrow> (\<forall>r\<in>set (snd (protocols ! 6)). rule_holds u md r)"
  by (auto simp: protocols_def validate_ethercat_def Let_def positive_def unat_pos_iff zero_field_iff)

lemma no_reason: "(case x of Some reason \<Rightarrow> Inl reason | None \<Rightarrow> Inr ()) = Inr () \<longleftrightarrow> x = None"
  by (cases x) auto

lemma protocol_names:
  "set (fst (protocols ! 0)) = {''serial'', ''serialport'', ''serial_port'', ''uart'', ''rs232'', ''rs485''}"
  "set (fst (protocols ! 1)) = {''modbus'', ''modbus_tcp''}"
  "set (fst (protocols ! 2)) = {''mqtt''}"
  "set (fst (protocols ! 3)) = {''http'', ''http_sink''}"
  "set (fst (protocols ! 4)) = {''bark'', ''bark_push''}"
  "set (fst (protocols ! 5)) = {''can'', ''can-slcan'', ''slcan''}"
  "set (fst (protocols ! 6)) = {''ethercat'', ''ethercat-ethercrab'', ''ecat''}"
  by (simp_all add: protocols_def)

text \<open>
  A connection definition is accepted exactly when its type, trimmed and in lower case, names a
  supported protocol and its metadata meets every rule that protocol's table lists.
\<close>

theorem definition_accepted_iff_usable:
  "validate_connection_definition u kind metadata = Inr () \<longleftrightarrow> usable u kind metadata"
proof -
  define k where "k = normalize_connection_kind kind"
  define md where "md = metadata_object metadata"
  have "usable u kind metadata \<longleftrightarrow> (\<exists>p\<in>set (map ((!) protocols) [0, 1, 2, 3, 4, 5, 6]).
      k \<in> set (fst p) \<and> (\<forall>r\<in>set (snd p). rule_holds u md r))"
    unfolding usable_def k_def md_def by (rule bex_cong) (simp_all add: protocols_def split_def)
  also have "\<dots> \<longleftrightarrow>
    k \<in> set (fst (protocols ! 0)) \<and> validate_serial md = None \<or>
    k \<in> set (fst (protocols ! 1)) \<and> validate_modbus md = None \<or>
    k \<in> set (fst (protocols ! 2)) \<and> validate_mqtt md = None \<or>
    k \<in> set (fst (protocols ! 3)) \<and> validate_http u md = None \<or>
    k \<in> set (fst (protocols ! 4)) \<and> validate_bark u md = None \<or>
    k \<in> set (fst (protocols ! 5)) \<and> validate_can md = None \<or>
    k \<in> set (fst (protocols ! 6)) \<and> validate_ethercat md = None"
    unfolding validate_none_iff [where u = u] validate_can_none_iff [where u = u]
      validate_ethercat_none_iff [where u = u]
    by (simp del: One_nat_def)
  also have "\<dots> \<longleftrightarrow> validate_connection_definition u kind metadata = Inr ()"
    unfolding validate_connection_definition_def k_def [symmetric] md_def [symmetric] Let_def
    by (simp add: no_reason protocol_names disj_ac del: One_nat_def)
  finally show ?thesis by simp
qed

end
