(* ===== verification/Conn_Health.thy ===== *)
theory Conn_Health
  imports Conn_Validation Output_Cache
begin

text \<open>
  \<open>crates/connections/src/types.rs\<close> and \<open>crates/connections/src/health.rs\<close>: the record of a
  connection and the transitions of its health state. Instants are nanoseconds without limits: the
  panic of \<open>chrono\<close> on an instant after the year 262000 (a governance value of more than two
  hundred thousand years) is not modelled. The reading of the clock is the argument \<open>now\<close>; the
  argument \<open>u\<close> is the URL parser of \<open>Conn_Validation\<close>.
\<close>

record connection_definition =
  cd_id :: string
  cd_kind :: string
  cd_metadata :: json

record connection_lease =
  cl_id :: string
  cl_kind :: string
  cl_metadata :: json
  borrowed_at :: time

datatype connection_health_state =
    Idle | Connecting | Healthy | Degraded | Invalid | Reconnecting | RateLimited | CircuitOpen
  | Timeout | Disconnected

record connection_health_snapshot =
  phase :: connection_health_state
  diagnosis :: "msg option"
  recommended_action :: "msg option"
  last_state_changed_at :: "time option"
  last_connected_at :: "time option"
  last_heartbeat_at :: "time option"
  last_checked_at :: "time option"
  last_released_at :: "time option"
  last_failure_at :: "time option"
  last_failure_reason :: "msg option"
  next_retry_at :: "time option"
  circuit_open_until :: "time option"
  rate_limited_until :: "time option"
  consecutive_failures :: u32
  total_failures :: u32
  timeout_count :: u32
  rate_limit_hits :: u32
  reconnect_attempts :: u32
  last_latency_ms :: "u64 option"

definition default_health :: connection_health_snapshot where
  "default_health =
     \<lparr>phase = Idle, diagnosis = Some (Msg ''definition-loaded'' []),
      recommended_action = Some (Msg ''deploy-or-test'' []),
      last_state_changed_at = None, last_connected_at = None, last_heartbeat_at = None,
      last_checked_at = None, last_released_at = None, last_failure_at = None,
      last_failure_reason = None, next_retry_at = None, circuit_open_until = None,
      rate_limited_until = None, consecutive_failures = 0, total_failures = 0, timeout_count = 0,
      rate_limit_hits = 0, reconnect_attempts = 0, last_latency_ms = None\<rparr>"

record connection_record =
  cn_id :: string
  cn_kind :: string
  cn_metadata :: json
  in_use :: bool
  last_borrowed_at :: "time option"
  health :: connection_health_snapshot

datatype connection_outcome = Pending | Success | Failure string

section \<open>Clock arithmetic\<close>

definition duration_ms :: "u64 \<Rightarrow> int" where
  "duration_ms v = int (min (unat v) (2 ^ 63 - 1)) * 1000000"

definition elapsed_ms :: "time \<Rightarrow> time \<Rightarrow> u64" where
  "elapsed_ms now t = of_int (max (num_milliseconds (now - t)) 0)"

definition remaining_ms :: "time \<Rightarrow> time \<Rightarrow> u64" where
  "remaining_ms target now = of_int (max (num_milliseconds (target - now)) 0)"

section \<open>Transitions\<close>

definition apply_runtime_failure ::
    "connection_record \<Rightarrow> governance_policy \<Rightarrow> time \<Rightarrow> msg \<Rightarrow> bool \<Rightarrow> u64 \<times> connection_record" where
  "apply_runtime_failure r p now reason is_timeout =
     (let h = health r;
          h1 = h\<lparr>total_failures := sat_add (total_failures h) 1,
                 consecutive_failures := sat_add (consecutive_failures h) 1,
                 reconnect_attempts := sat_add (reconnect_attempts h) 1,
                 timeout_count := (if is_timeout then sat_add (timeout_count h) 1 else timeout_count h),
                 last_failure_at := Some now, last_checked_at := Some now,
                 last_state_changed_at := Some now, last_failure_reason := Some reason\<rparr>
      in if consecutive_failures h1 \<ge> circuit_failure_threshold p then
           (let open_until = now + duration_ms (circuit_open_ms p)
            in (circuit_open_ms p,
                r\<lparr>health := h1\<lparr>phase := CircuitOpen, circuit_open_until := Some open_until,
                    next_retry_at := Some open_until, diagnosis := Some (Msg ''circuit-opened'' []),
                    recommended_action := Some (Msg ''check-target'' [])\<rparr>\<rparr>))
         else
           (let retry_after = reconnect_delay_ms p (reconnect_attempts h1)
            in (retry_after,
                r\<lparr>health := h1\<lparr>phase := (if is_timeout then Timeout else Reconnecting),
                    next_retry_at := Some (now + duration_ms retry_after), circuit_open_until := None,
                    diagnosis := Some (if is_timeout then Msg ''timed-out'' [] else Msg ''failed'' []),
                    recommended_action := Some (Msg ''check-device'' [])\<rparr>\<rparr>)))"

definition failure_recorded_during_lease :: "connection_record \<Rightarrow> time \<Rightarrow> bool" where
  "failure_recorded_during_lease r borrowed \<longleftrightarrow>
     phase (health r) \<in> {Reconnecting, CircuitOpen, Timeout} \<and>
     (case last_failure_at (health r) of Some t \<Rightarrow> t \<ge> borrowed | None \<Rightarrow> False)"

definition finalize_release ::
    "connection_record \<Rightarrow> time \<Rightarrow> time \<Rightarrow> connection_outcome \<Rightarrow> connection_record" where
  "finalize_release r now borrowed outcome =
     (let p = policy_from_metadata (cn_metadata r); elapsed = elapsed_ms now borrowed;
          r1 = r\<lparr>in_use := False,
                 health := (health r)\<lparr>last_released_at := Some now, last_checked_at := Some now,
                   last_latency_ms := Some elapsed\<rparr>\<rparr>
      in if elapsed > operation_timeout_ms p then
           snd (apply_runtime_failure r1 p now
             (Msg ''lease-overrun'' [dec_digits (unat elapsed), dec_digits (unat (operation_timeout_ms p))])
             True)
         else
           (case outcome of
              Success \<Rightarrow>
                r1\<lparr>health := (health r1)\<lparr>phase := Healthy, last_state_changed_at := Some now,
                    last_connected_at := Some now, last_heartbeat_at := Some now,
                    diagnosis := Some (Msg ''operation-done'' [dec_digits (unat elapsed)]),
                    recommended_action := Some (Msg ''reusable'' []),
                    consecutive_failures := 0, reconnect_attempts := 0, next_retry_at := None,
                    rate_limited_until := None, circuit_open_until := None\<rparr>\<rparr>
            | Failure reason \<Rightarrow>
                (let failure_reason = (if reason = [] then Msg ''no-reason'' [] else Msg ''reason'' [reason])
                 in if \<not> failure_recorded_during_lease r1 borrowed
                    then snd (apply_runtime_failure r1 p now failure_reason False) else r1)
            | Pending \<Rightarrow>
                r1\<lparr>health := (health r1)\<lparr>phase := Degraded, last_state_changed_at := Some now,
                    diagnosis := Some (Msg ''guard-unmarked'' []),
                    recommended_action := Some (Msg ''check-branches'' [])\<rparr>\<rparr>))"

definition refresh_definition_diagnosis ::
    "(string \<Rightarrow> string option) \<Rightarrow> connection_record \<Rightarrow> connection_record" where
  "refresh_definition_diagnosis u r =
     (case validate_connection_definition u (cn_kind r) (cn_metadata r) of
        Inr _ \<Rightarrow>
          r\<lparr>health := (health r)\<lparr>phase := Idle, diagnosis := Some (Msg ''definition-ready'' []),
              recommended_action := Some (Msg ''deploy-trigger-or-test'' [])\<rparr>\<rparr>
      | Inl reason \<Rightarrow>
          r\<lparr>health := (health r)\<lparr>phase := Invalid, diagnosis := Some (Msg ''definition-invalid'' []),
              recommended_action := Some (Msg ''complete-settings'' []),
              last_failure_reason := Some reason\<rparr>\<rparr>)"

definition until_passed :: "time option \<Rightarrow> time \<Rightarrow> bool" where
  "until_passed t now = (case t of Some x \<Rightarrow> x \<le> now | None \<Rightarrow> False)"

text \<open>The four blocks of \<open>reconcile_timed_state\<close>, in their order.\<close>

definition reconcile_rate_limit :: "time \<Rightarrow> connection_health_snapshot \<Rightarrow> connection_health_snapshot" where
  "reconcile_rate_limit now h =
     (if until_passed (rate_limited_until h) now then
        (let h1 = h\<lparr>rate_limited_until := None\<rparr>
         in if phase h1 = RateLimited then
              h1\<lparr>phase := Idle, last_state_changed_at := Some now,
                 diagnosis := Some (Msg ''rate-limit-over'' []),
                 recommended_action := Some (Msg ''adjust-throttle'' [])\<rparr>
            else h1)
      else h)"

definition reconcile_circuit :: "time \<Rightarrow> connection_health_snapshot \<Rightarrow> connection_health_snapshot" where
  "reconcile_circuit now h =
     (if until_passed (circuit_open_until h) now then
        (let h1 = h\<lparr>circuit_open_until := None\<rparr>
         in if phase h1 = CircuitOpen then
              h1\<lparr>phase := Idle, last_state_changed_at := Some now,
                 diagnosis := Some (Msg ''circuit-cooled'' []),
                 recommended_action := Some (Msg ''check-last-failure'' [])\<rparr>
            else h1)
      else h)"

definition reconcile_retry :: "time \<Rightarrow> bool \<Rightarrow> connection_health_snapshot \<Rightarrow> connection_health_snapshot" where
  "reconcile_retry now used h =
     (if until_passed (next_retry_at h) now \<and> phase h \<in> {Reconnecting, Timeout} \<and> \<not> used then
        h\<lparr>next_retry_at := None, phase := Idle, last_state_changed_at := Some now,
          diagnosis := Some (Msg ''backoff-over'' []),
          recommended_action := Some (Msg ''check-reachable'' [])\<rparr>
      else h)"

definition reconcile_unused ::
    "governance_policy \<Rightarrow> time \<Rightarrow> bool \<Rightarrow> connection_health_snapshot \<Rightarrow> connection_health_snapshot" where
  "reconcile_unused p now used h =
     (if \<not> used then
        (let h1 = (if phase h = Connecting
                   then h\<lparr>phase := Idle, last_state_changed_at := Some now\<rparr> else h)
         in case last_heartbeat_at h1 of
              None \<Rightarrow> h1
            | Some beat \<Rightarrow>
                (let age = elapsed_ms now beat
                 in if age > heartbeat_timeout_ms p \<and> phase h1 = Healthy then
                      h1\<lparr>phase := Degraded, last_state_changed_at := Some now,
                         diagnosis := Some (Msg ''heartbeat-silent''
                           [dec_digits (unat age), dec_digits (unat (heartbeat_timeout_ms p))]),
                         recommended_action := Some (Msg ''reconnect-or-check'' [])\<rparr>
                    else h1))
      else h)"

definition reconcile_timed_state ::
    "connection_record \<Rightarrow> governance_policy \<Rightarrow> time \<Rightarrow> connection_record" where
  "reconcile_timed_state r p now =
     r\<lparr>health := reconcile_unused p now (in_use r)
        (reconcile_retry now (in_use r) (reconcile_circuit now (reconcile_rate_limit now (health r))))\<rparr>"

definition mark_invalid :: "connection_record \<Rightarrow> msg \<Rightarrow> time \<Rightarrow> connection_record" where
  "mark_invalid r reason now =
     r\<lparr>in_use := False,
       health := (health r)\<lparr>phase := Invalid, last_state_changed_at := Some now,
         last_checked_at := Some now, last_failure_at := Some now, last_failure_reason := Some reason,
         diagnosis := Some (Msg ''invalid-rejected'' []),
         recommended_action := Some (Msg ''fix-definition'' [])\<rparr>\<rparr>"

definition build_record ::
    "(string \<Rightarrow> string option) \<Rightarrow> connection_definition \<Rightarrow> connection_record" where
  "build_record u d =
     refresh_definition_diagnosis u
       \<lparr>cn_id = cd_id d, cn_kind = cd_kind d, cn_metadata = cd_metadata d, in_use = False,
        last_borrowed_at = None, health = default_health\<rparr>"

end
