(* ===== verification/Conn_Manager.thy ===== *)
theory Conn_Manager
  imports Conn_Health
begin

text \<open>
  \<open>crates/connections/src/manager/\<close> and \<open>crates/connections/src/guard.rs\<close>: the pool of named
  connections. The record of a connection lives behind an \<open>Arc\<close> that the pool and the guards share,
  and replacing a definition allocates a new record, so records are kept in a store and referred to
  by their position. A guard holds the position of the record it was borrowed from. Each operation
  runs under the locks the code takes; \<open>acquire_at\<close> is the part of \<open>acquire\<close> that runs with the
  record locked, after the pool's lock was released.
\<close>

section \<open>State\<close>

type_synonym session = "string \<times> nat"

record conn_manager =
  connections :: "(string, nat) hash_map"
  records :: "connection_record list"
  attempt_windows :: "(string, time list) hash_map"
  shared_sessions :: "(string, session) hash_map"
  initializers :: "(string, nat) hash_map"

definition shared_connection_manager :: conn_manager where
  "shared_connection_manager =
     \<lparr>connections = [], records = [], attempt_windows = [], shared_sessions = [], initializers = []\<rparr>"

definition set_record :: "nat \<Rightarrow> connection_record \<Rightarrow> conn_manager \<Rightarrow> conn_manager" where
  "set_record r x m = m\<lparr>records := (records m)[r := x]\<rparr>"

text \<open>\<open>Arc::new(Mutex::new(build_record(definition)))\<close> bound to the definition's id.\<close>

definition insert_definition ::
    "(string \<Rightarrow> string option) \<Rightarrow> connection_definition \<Rightarrow> conn_manager \<Rightarrow> conn_manager" where
  "insert_definition u d m =
     m\<lparr>connections := hm_insert (cd_id d) (length (records m)) (connections m),
       records := records m @ [build_record u d]\<rparr>"

definition entry :: "conn_manager \<Rightarrow> string \<Rightarrow> nat result" where
  "entry m cid = ok_or (ConnectionNotFound cid) (map_of (connections m) cid)"

definition used_at :: "conn_manager \<Rightarrow> string \<Rightarrow> bool" where
  "used_at m cid = (case map_of (connections m) cid of Some r \<Rightarrow> in_use (records m ! r) | None \<Rightarrow> False)"

section \<open>Attempt windows\<close>

definition reset_attempt_window :: "string \<Rightarrow> conn_manager \<Rightarrow> conn_manager" where
  "reset_attempt_window cid m = m\<lparr>attempt_windows := hm_insert cid [] (attempt_windows m)\<rparr>"

definition reset_attempt_windows :: "string list \<Rightarrow> conn_manager \<Rightarrow> conn_manager" where
  "reset_attempt_windows ids m =
     m\<lparr>attempt_windows := fold (\<lambda>cid w. hm_insert cid [] w) ids []\<rparr>"

definition window_attempt ::
    "governance_policy \<Rightarrow> time \<Rightarrow> time list \<Rightarrow> (u64 + unit) \<times> time list" where
  "window_attempt p now attempts =
     (let cutoff = now - duration_ms (rate_limit_window_ms p);
          kept = dropWhile (\<lambda>t. t < cutoff) attempts
      in if length kept \<ge> unat (rate_limit_max_attempts p)
         then (Inl (rate_limit_cooldown_ms p), kept) else (Inr (), kept @ [now]))"

definition register_attempt ::
    "string \<Rightarrow> governance_policy \<Rightarrow> time \<Rightarrow> conn_manager \<Rightarrow> (u64 + unit) \<times> conn_manager" where
  "register_attempt cid p now m =
     (let w = (case map_of (attempt_windows m) cid of Some w \<Rightarrow> w | None \<Rightarrow> []);
          (res, w') = window_attempt p now w
      in (res, m\<lparr>attempt_windows := hm_insert cid w' (attempt_windows m)\<rparr>))"

section \<open>Definitions\<close>

definition first_invalid ::
    "(string \<Rightarrow> string option) \<Rightarrow> connection_definition list \<Rightarrow> unit result" where
  "first_invalid u ds =
     try_all (\<lambda>d. case validate_connection_definition u (cd_kind d) (cd_metadata d) of
                    Inl reason \<Rightarrow> Some (ConnectionInvalidConfiguration (cd_id d) reason)
                  | Inr _ \<Rightarrow> None) ds"

definition register_connection ::
    "(string \<Rightarrow> string option) \<Rightarrow> connection_definition \<Rightarrow> conn_manager \<Rightarrow> unit result \<times> conn_manager" where
  "register_connection u d m =
     (if hm_contains (connections m) (cd_id d) then (Inl (ConnectionAlreadyExists (cd_id d)), m)
      else
        (case validate_connection_definition u (cd_kind d) (cd_metadata d) of
           Inl reason \<Rightarrow> (Inl (ConnectionInvalidConfiguration (cd_id d) reason), m)
         | Inr _ \<Rightarrow> (Inr (), reset_attempt_window (cd_id d) (insert_definition u d m))))"

definition upsert_connection ::
    "(string \<Rightarrow> string option) \<Rightarrow> connection_definition \<Rightarrow> conn_manager \<Rightarrow> unit result \<times> conn_manager" where
  "upsert_connection u d m =
     (case validate_connection_definition u (cd_kind d) (cd_metadata d) of
        Inl reason \<Rightarrow> (Inl (ConnectionInvalidConfiguration (cd_id d) reason), m)
      | Inr _ \<Rightarrow>
          if hm_contains (shared_sessions m) (cd_id d) then (Inr (), m)
          else if used_at m (cd_id d) then (Inr (), m)
          else (Inr (), reset_attempt_window (cd_id d) (insert_definition u d m)))"

fun upsert_each ::
    "(string \<Rightarrow> string option) \<Rightarrow> string set \<Rightarrow> connection_definition list \<Rightarrow> conn_manager \<Rightarrow>
     string list \<times> conn_manager" where
  "upsert_each u active [] m = ([], m)"
| "upsert_each u active (d # ds) m =
     (if used_at m (cd_id d) \<or> cd_id d \<in> active then upsert_each u active ds m
      else
        (let (inserted, m') = upsert_each u active ds (insert_definition u d m)
         in (cd_id d # inserted, m')))"

definition upsert_connections ::
    "(string \<Rightarrow> string option) \<Rightarrow> connection_definition list \<Rightarrow> conn_manager \<Rightarrow>
     string list result \<times> conn_manager" where
  "upsert_connections u ds m =
     (case first_invalid u ds of
        Inl e \<Rightarrow> (Inl e, m)
      | Inr _ \<Rightarrow>
          (let active = fst ` set (shared_sessions m); (inserted, m') = upsert_each u active ds m
           in (Inr inserted, reset_attempt_windows (map cd_id ds) m')))"

definition replace_connections ::
    "(string \<Rightarrow> string option) \<Rightarrow> connection_definition list \<Rightarrow> conn_manager \<Rightarrow>
     string list result \<times> conn_manager" where
  "replace_connections u ds m =
     (if shared_sessions m \<noteq> [] then (Inr [], m)
      else
        (case first_invalid u ds of
           Inl e \<Rightarrow> (Inl e, m)
         | Inr _ \<Rightarrow>
             if \<exists>kr\<in>set (connections m). in_use (records m ! snd kr) then (Inr [], m)
             else (Inr (map cd_id ds),
                   reset_attempt_windows (map cd_id ds)
                     (fold (insert_definition u) ds (m\<lparr>connections := []\<rparr>)))))"

section \<open>Borrowing\<close>

definition opened_phase :: "connection_record \<Rightarrow> connection_health_state" where
  "opened_phase r = (if consecutive_failures (health r) > 0 then Reconnecting else Connecting)"

definition borrow_record :: "connection_record \<Rightarrow> time \<Rightarrow> connection_record" where
  "borrow_record r now =
     r\<lparr>in_use := True, last_borrowed_at := Some now,
       health := (health r)\<lparr>phase := opened_phase r, last_state_changed_at := Some now,
         last_checked_at := Some now,
         diagnosis := Some (if opened_phase r = Reconnecting then Msg ''reopening'' [] else Msg ''opening'' []),
         recommended_action := Some (Msg ''borrowed'' [])\<rparr>\<rparr>"

definition rate_limit_record :: "connection_record \<Rightarrow> time \<Rightarrow> u64 \<Rightarrow> connection_record" where
  "rate_limit_record r now retry_after =
     r\<lparr>health := (health r)\<lparr>rate_limit_hits := sat_add (rate_limit_hits (health r)) 1,
         rate_limited_until := Some (now + duration_ms retry_after), phase := RateLimited,
         last_state_changed_at := Some now, last_checked_at := Some now,
         diagnosis := Some (Msg ''rate-limited'' []),
         recommended_action := Some (Msg ''wait-or-throttle'' [])\<rparr>\<rparr>"

text \<open>\<open>if let Some(t) = until && t > now\<close>.\<close>

definition until_pending :: "time option \<Rightarrow> time \<Rightarrow> time option" where
  "until_pending t now = (case t of Some x \<Rightarrow> if x > now then Some x else None | None \<Rightarrow> None)"

definition acquire_at ::
    "(string \<Rightarrow> string option) \<Rightarrow> time \<Rightarrow> string \<Rightarrow> nat \<Rightarrow> conn_manager \<Rightarrow>
     connection_lease result \<times> conn_manager" where
  "acquire_at u now cid r m =
     (let x0 = records m ! r; p = policy_from_metadata (cn_metadata x0);
          x = reconcile_timed_state x0 p now; m1 = set_record r x m
      in if in_use x then (Inl (ConnectionBusy cid), m1)
         else
           (case validate_connection_definition u (cn_kind x) (cn_metadata x) of
              Inl reason \<Rightarrow>
                (Inl (ConnectionInvalidConfiguration cid reason), set_record r (mark_invalid x reason now) m)
            | Inr _ \<Rightarrow>
           (case until_pending (circuit_open_until (health x)) now of
              Some t \<Rightarrow>
                (Inl (ConnectionCircuitOpen cid (remaining_ms t now)
                   (case last_failure_reason (health x) of
                      Some reason \<Rightarrow> reason | None \<Rightarrow> Msg ''still-cooling'' [])), m1)
            | None \<Rightarrow>
           (case until_pending (rate_limited_until (health x)) now of
              Some t \<Rightarrow> (Inl (ConnectionRateLimited cid (remaining_ms t now)), m1)
            | None \<Rightarrow>
           (case register_attempt cid p now m1 of
              (Inl retry_after, m2) \<Rightarrow>
                (Inl (ConnectionRateLimited cid retry_after),
                 set_record r (rate_limit_record x now retry_after) m2)
            | (Inr _, m2) \<Rightarrow>
                (Inr \<lparr>cl_id = cn_id x, cl_kind = cn_kind x, cl_metadata = cn_metadata x, borrowed_at = now\<rparr>,
                 set_record r (borrow_record x now) m2))))))"

text \<open>The result of \<open>acquire\<close> is a guard: the lease with the record it was borrowed from.\<close>

definition acquire ::
    "(string \<Rightarrow> string option) \<Rightarrow> time \<Rightarrow> string \<Rightarrow> conn_manager \<Rightarrow>
     (nat \<times> connection_lease) result \<times> conn_manager" where
  "acquire u now cid m =
     (case entry m cid of
        Inl e \<Rightarrow> (Inl e, m)
      | Inr r \<Rightarrow>
          (case acquire_at u now cid r m of
             (Inl e, m') \<Rightarrow> (Inl e, m')
           | (Inr lease, m') \<Rightarrow> (Inr (r, lease), m')))"

definition drop_guard ::
    "time \<Rightarrow> nat \<Rightarrow> connection_lease \<Rightarrow> connection_outcome \<Rightarrow> conn_manager \<Rightarrow> conn_manager" where
  "drop_guard now r lease outcome m =
     set_record r (finalize_release (records m ! r) now (borrowed_at lease) outcome) m"

section \<open>Health operations\<close>

text \<open>What each operation of \<open>health_ops.rs\<close> does to the locked record.\<close>

definition connect_success :: "msg \<Rightarrow> u64 option \<Rightarrow> time \<Rightarrow> connection_record \<Rightarrow> connection_record" where
  "connect_success diag latency now r =
     r\<lparr>health := (health r)\<lparr>phase := Healthy, last_state_changed_at := Some now,
         last_connected_at := Some now, last_heartbeat_at := Some now, last_checked_at := Some now,
         diagnosis := Some diag, recommended_action := Some (Msg ''running'' []),
         consecutive_failures := 0, reconnect_attempts := 0, next_retry_at := None,
         circuit_open_until := None, rate_limited_until := None,
         last_latency_ms := (case latency of Some l \<Rightarrow> Some l | None \<Rightarrow> last_latency_ms (health r))\<rparr>\<rparr>"

definition heartbeat :: "msg \<Rightarrow> time \<Rightarrow> connection_record \<Rightarrow> connection_record" where
  "heartbeat diag now r =
     (let h = (health r)\<lparr>last_heartbeat_at := Some now, last_checked_at := Some now, diagnosis := Some diag\<rparr>
      in r\<lparr>health :=
           (if phase h \<notin> {Invalid, CircuitOpen, RateLimited}
            then h\<lparr>phase := (if in_use r then Healthy else Degraded), last_state_changed_at := Some now\<rparr>
            else h)\<rparr>)"

definition disconnected :: "msg \<Rightarrow> time \<Rightarrow> connection_record \<Rightarrow> connection_record" where
  "disconnected diag now r =
     r\<lparr>in_use := False,
       health := (health r)\<lparr>phase := Disconnected, last_state_changed_at := Some now,
         last_checked_at := Some now, last_released_at := Some now, diagnosis := Some diag,
         recommended_action := Some (Msg ''check-and-wait'' [])\<rparr>\<rparr>"

definition circuit_reset :: "time \<Rightarrow> connection_record \<Rightarrow> connection_record" where
  "circuit_reset now r =
     r\<lparr>health := (health r)\<lparr>circuit_open_until := None, rate_limited_until := None,
         next_retry_at := None, consecutive_failures := 0, reconnect_attempts := 0, phase := Idle,
         last_state_changed_at := Some now, last_checked_at := Some now,
         diagnosis := Some (Msg ''circuit-reset'' []),
         recommended_action := Some (Msg ''redeploy-or-test'' [])\<rparr>\<rparr>"

definition idle_record :: "msg \<Rightarrow> time \<Rightarrow> connection_record \<Rightarrow> connection_record" where
  "idle_record diag now r =
     (let h = (health r)\<lparr>last_checked_at := Some now, last_released_at := Some now, next_retry_at := None\<rparr>
      in r\<lparr>in_use := False,
           health :=
             (if phase h = Invalid then
                h\<lparr>last_state_changed_at := Some now, diagnosis := Some (Msg ''still-invalid'' []),
                  recommended_action := Some (Msg ''fix-then-redeploy'' [])\<rparr>
              else if last_failure_reason h \<noteq> None \<and>
                 phase h \<in> {CircuitOpen, Disconnected, RateLimited, Reconnecting, Timeout} then
                h\<lparr>phase := Degraded, last_state_changed_at := Some now,
                  diagnosis := Some (Msg ''stopped-after-failure'' []),
                  recommended_action := Some (Msg ''inspect-then-redeploy'' [])\<rparr>
              else
                h\<lparr>phase := Idle, last_state_changed_at := Some now, diagnosis := Some diag,
                  recommended_action := Some (Msg ''await-deploy'' [])\<rparr>)\<rparr>)"

definition with_entry ::
    "string \<Rightarrow> (connection_record \<Rightarrow> 'a \<times> connection_record) \<Rightarrow> conn_manager \<Rightarrow> 'a result \<times> conn_manager" where
  "with_entry cid f m =
     (case entry m cid of
        Inl e \<Rightarrow> (Inl e, m)
      | Inr r \<Rightarrow> (let (a, x) = f (records m ! r) in (Inr a, set_record r x m)))"

definition record_connect_success ::
    "string \<Rightarrow> msg \<Rightarrow> u64 option \<Rightarrow> time \<Rightarrow> conn_manager \<Rightarrow> unit result \<times> conn_manager" where
  "record_connect_success cid diag latency now = with_entry cid (\<lambda>x. ((), connect_success diag latency now x))"

definition record_heartbeat :: "string \<Rightarrow> msg \<Rightarrow> time \<Rightarrow> conn_manager \<Rightarrow> unit result \<times> conn_manager" where
  "record_heartbeat cid diag now = with_entry cid (\<lambda>x. ((), heartbeat diag now x))"

definition record_connect_failure :: "string \<Rightarrow> msg \<Rightarrow> time \<Rightarrow> conn_manager \<Rightarrow> u64 result \<times> conn_manager" where
  "record_connect_failure cid reason now =
     with_entry cid (\<lambda>x. apply_runtime_failure x (policy_from_metadata (cn_metadata x)) now reason False)"

definition record_timeout :: "string \<Rightarrow> msg \<Rightarrow> time \<Rightarrow> conn_manager \<Rightarrow> u64 result \<times> conn_manager" where
  "record_timeout cid reason now =
     with_entry cid (\<lambda>x. apply_runtime_failure x (policy_from_metadata (cn_metadata x)) now reason True)"

definition mark_invalid_configuration ::
    "string \<Rightarrow> msg \<Rightarrow> time \<Rightarrow> conn_manager \<Rightarrow> unit result \<times> conn_manager" where
  "mark_invalid_configuration cid reason now = with_entry cid (\<lambda>x. ((), mark_invalid x reason now))"

definition mark_disconnected :: "string \<Rightarrow> msg \<Rightarrow> time \<Rightarrow> conn_manager \<Rightarrow> unit result \<times> conn_manager" where
  "mark_disconnected cid diag now = with_entry cid (\<lambda>x. ((), disconnected diag now x))"

definition reset_circuit_breaker :: "string \<Rightarrow> time \<Rightarrow> conn_manager \<Rightarrow> unit result \<times> conn_manager" where
  "reset_circuit_breaker cid now = with_entry cid (\<lambda>x. ((), circuit_reset now x))"

definition mark_all_idle :: "msg \<Rightarrow> time \<Rightarrow> conn_manager \<Rightarrow> conn_manager" where
  "mark_all_idle diag now m =
     fold (\<lambda>(cid, r) m. set_record r (idle_record diag now (records m ! r)) m) (connections m) m"

definition reconciled :: "time \<Rightarrow> connection_record \<Rightarrow> connection_record" where
  "reconciled now x = reconcile_timed_state x (policy_from_metadata (cn_metadata x)) now"

text \<open>\<open>get\<close> turns the error of a missing id into \<open>None\<close>.\<close>

definition get_connection :: "string \<Rightarrow> time \<Rightarrow> conn_manager \<Rightarrow> connection_record option \<times> conn_manager" where
  "get_connection cid now m =
     (case with_entry cid (\<lambda>x. (reconciled now x, reconciled now x)) m of
        (Inl _, m') \<Rightarrow> (None, m')
      | (Inr x, m') \<Rightarrow> (Some x, m'))"

text \<open>\<open>list\<close> reads the clock for each record: \<open>clock k\<close> is the \<open>k\<close>-th reading.\<close>

fun list_from ::
    "(nat \<Rightarrow> time) \<Rightarrow> nat \<Rightarrow> nat list \<Rightarrow> conn_manager \<Rightarrow> connection_record list \<times> conn_manager" where
  "list_from clock k [] m = ([], m)"
| "list_from clock k (r # rs) m =
     (let x = reconciled (clock k) (records m ! r);
          (xs, m') = list_from clock (Suc k) rs (set_record r x m)
      in (x # xs, m'))"

definition list_connections :: "(nat \<Rightarrow> time) \<Rightarrow> conn_manager \<Rightarrow> connection_record list \<times> conn_manager" where
  "list_connections clock m = list_from clock 0 (map snd (connections m)) m"

section \<open>Shared sessions\<close>

text \<open>
  A session is an object of some Rust type, of which \<open>downcast\<close> sees the type's name. \<open>wait\<close> is what
  other tasks do while this one waits for the initialiser lock, \<open>factory\<close> what happens until the
  factory returns (its own effects and those of other tasks).
\<close>

definition session_lookup :: "string \<Rightarrow> string \<Rightarrow> conn_manager \<Rightarrow> nat result option" where
  "session_lookup cid ty m =
     map_option (\<lambda>(ty', obj). if ty' = ty then Inr obj
                              else Inl (NodeConfig cid (Msg ''session-type-mismatch'' [])))
       (map_of (shared_sessions m) cid)"

definition initializer_lock :: "string \<Rightarrow> nat \<Rightarrow> conn_manager \<Rightarrow> nat \<times> conn_manager" where
  "initializer_lock cid fresh m =
     (case map_of (initializers m) cid of
        Some l \<Rightarrow> (l, m)
      | None \<Rightarrow> (fresh, m\<lparr>initializers := hm_insert cid fresh (initializers m)\<rparr>))"

definition remove_initializer_lock :: "string \<Rightarrow> conn_manager \<Rightarrow> conn_manager" where
  "remove_initializer_lock cid m = m\<lparr>initializers := hm_remove cid (initializers m)\<rparr>"

definition publish_session :: "string \<Rightarrow> string \<Rightarrow> nat \<Rightarrow> conn_manager \<Rightarrow> nat result \<times> conn_manager" where
  "publish_session cid ty obj m =
     (case session_lookup cid ty m of
        Some res \<Rightarrow> (res, m)
      | None \<Rightarrow>
          (Inr obj,
           remove_initializer_lock cid
             (m\<lparr>shared_sessions := hm_insert cid (ty, obj) (shared_sessions m)\<rparr>)))"

definition ensure_shared_session ::
    "string \<Rightarrow> string \<Rightarrow> nat \<Rightarrow> (nat \<Rightarrow> conn_manager \<Rightarrow> conn_manager) \<Rightarrow>
     (conn_manager \<Rightarrow> nat result \<times> conn_manager) \<Rightarrow> conn_manager \<Rightarrow> nat result \<times> conn_manager" where
  "ensure_shared_session cid ty fresh wait factory m =
     (case session_lookup cid ty m of
        Some res \<Rightarrow> (res, m)
      | None \<Rightarrow>
          (let (lock, m1) = initializer_lock cid fresh m; m2 = wait lock m1
           in case session_lookup cid ty m2 of
                Some res \<Rightarrow> (res, m2)
              | None \<Rightarrow>
                  (case factory m2 of
                     (Inl e, m3) \<Rightarrow> (Inl e, m3)
                   | (Inr obj, m3) \<Rightarrow> publish_session cid ty obj m3)))"

definition remove_shared_session :: "string \<Rightarrow> conn_manager \<Rightarrow> conn_manager" where
  "remove_shared_session cid m = m\<lparr>shared_sessions := hm_remove cid (shared_sessions m)\<rparr>"

definition take_shared_session :: "string \<Rightarrow> string \<Rightarrow> conn_manager \<Rightarrow> nat option \<times> conn_manager" where
  "take_shared_session cid ty m =
     ((case session_lookup cid ty m of Some (Inr obj) \<Rightarrow> Some obj | _ \<Rightarrow> None), remove_shared_session cid m)"

text \<open>The object the cleanup closure is called on, if it is called.\<close>

definition cleanup_and_remove_shared_session ::
    "string \<Rightarrow> string \<Rightarrow> conn_manager \<Rightarrow> nat option \<times> conn_manager" where
  "cleanup_and_remove_shared_session cid ty m = take_shared_session cid ty m"

end
