(* ===== verification/Deploy.thy ===== *)
theory Deploy
  imports Engine_Run Topology Pin_Validator Variables Conn_Manager
begin

text \<open>
  \<open>crates/graph/src/deploy.rs\<close>: from a workflow file to running node loops. A deployment validates
  the graph, builds the variables, creates the nodes, checks their ports, loads the connections,
  runs \<open>on_deploy\<close> of every node and spawns the loops.

  Arguments stand for what the deployment is given: the registry with its factories and resources,
  \<open>on_deploy\<close> of the nodes (the guard it returns or its error), and \<open>background\<close>, what the tasks of
  the nodes deployed so far do to the shared state before the next node is deployed. The proxy that
  forwards events while \<open>on_deploy\<close> runs only adds room to the event queues; one queue stands for
  both.
\<close>

record 'r deploy_env =
  de_url :: "string \<Rightarrow> string option"
  de_registry :: "'r node_registry"
  de_resources :: 'r
  de_on_deploy :: "node_trait \<Rightarrow> node_handle \<Rightarrow> lifecycle_guard result"
  de_background :: "string \<Rightarrow> engine \<Rightarrow> engine"
  de_in_runtime :: bool
  de_now :: time
  de_iter :: "string list \<Rightarrow> string list"

record workflow_file =
  wf_graph :: workflow_graph
  wf_variables :: "(string, variable_declaration) hash_map option"
  wf_connections :: "connection_definition list"

section \<open>Variables and nodes\<close>

definition restore_variable ::
    "time \<Rightarrow> string \<times> json \<Rightarrow> workflow_variables \<Rightarrow> workflow_variables" where
  "restore_variable now kv w =
     (let (key, v) = kv
      in if get_var w key \<noteq> None
         then (case set_var now w key v (Some ''restore'') of Inr w' \<Rightarrow> w' | Inl _ \<Rightarrow> w)
         else w)"

definition restore_variables ::
    "time \<Rightarrow> (string, json) hash_map \<Rightarrow> workflow_variables \<Rightarrow> workflow_variables" where
  "restore_variables now overrides w = fold (restore_variable now) overrides w"

definition events_workflow_id :: "string option \<Rightarrow> workflow_graph \<Rightarrow> string" where
  "events_workflow_id workflow_id g =
     (case workflow_id of Some i \<Rightarrow> i
      | None \<Rightarrow> (case g_name g of Some n \<Rightarrow> n | None \<Rightarrow> ''anonymous''))"

definition event_capacity :: "workflow_graph \<Rightarrow> nat" where
  "event_capacity g = max (length (g_nodes g)) 1 * 16"

definition node_buffers :: "workflow_graph \<Rightarrow> (string \<times> usize) list" where
  "node_buffers g = map (\<lambda>(n, d). (n, wd_buffer d)) (g_nodes g)"

definition instantiate_node ::
    "'r deploy_env \<Rightarrow> workflow_graph \<Rightarrow> (string, node_trait) hash_map \<Rightarrow> string \<Rightarrow>
     (string, node_trait) hash_map result" where
  "instantiate_node env g nodes n =
     and_then (ok_or (InvalidGraph (Msg ''order-node-missing'' [n])) (map_of (g_nodes g) n))
       (\<lambda>d. and_then (create (de_registry env) d (de_resources env))
         (\<lambda>node. Inr (hm_insert n node nodes)))"

definition node_cache :: "node_trait \<Rightarrow> output_cache" where
  "node_cache node =
     fold (\<lambda>p c. if pin_kind_of p = Data \<or> pin_kind_of p = Reactive then prepare_slot c (pin_id p) else c)
       (nt_output_pins node) []"

definition pin_ids_of_kind :: "pin_kind \<Rightarrow> node_trait \<Rightarrow> string list" where
  "pin_ids_of_kind k node = remdups (map pin_id (filter (\<lambda>p. pin_kind_of p = k) (nt_output_pins node)))"

section \<open>Edges and targets\<close>

type_synonym edge_kind_table = "(string \<times> string option, pin_kind) hash_map"

definition edge_kind_entry ::
    "(string, node_trait) hash_map \<Rightarrow> edge_kind_table \<Rightarrow> workflow_edge \<Rightarrow> edge_kind_table result" where
  "edge_kind_entry nodes table e =
     and_then (ok_or (InvalidGraph (Msg ''edge-kind-source-missing'' [e_from e])) (map_of nodes (e_from e)))
       (\<lambda>from_node.
          Inr (hm_insert (e_from e, e_source_port_id e)
            (case find (\<lambda>p. pin_id p = source_pin_id e) (nt_output_pins from_node) of
               Some p \<Rightarrow> pin_kind_of p | None \<Rightarrow> Exec) table))"

definition edge_kind_lookup ::
    "(string, node_trait) hash_map \<Rightarrow> workflow_edge list \<Rightarrow> edge_kind_table result" where
  "edge_kind_lookup nodes edges = try_fold (edge_kind_entry nodes) [] edges"

definition table_kind :: "edge_kind_table \<Rightarrow> workflow_edge \<Rightarrow> pin_kind" where
  "table_kind table e =
     (case map_of table (e_from e, e_source_port_id e) of Some k \<Rightarrow> k | None \<Rightarrow> Exec)"

definition outgoing :: "workflow_topology \<Rightarrow> string \<Rightarrow> workflow_edge list" where
  "outgoing t n = (case map_of (downstream t) n of Some es \<Rightarrow> es | None \<Rightarrow> [])"

definition emit_target_of :: "edge_kind_table \<Rightarrow> workflow_edge \<Rightarrow> emit_target" where
  "emit_target_of table e =
     \<lparr>et_from_pin = source_pin_id e, et_to_node = e_to e, et_to_pin = target_pin_id e,
      et_edge_kind = table_kind table e\<rparr>"

definition downstream_target_of :: "edge_kind_table \<Rightarrow> workflow_edge \<Rightarrow> downstream_target" where
  "downstream_target_of table e =
     \<lparr>dt_source_port_id = e_source_port_id e, dt_target_node_id = e_to e,
      dt_target_port_id = e_target_port_id e, dt_edge_kind = table_kind table e,
      dt_backpressure_policy = (case e_backpressure_policy e of Some p \<Rightarrow> p | None \<Rightarrow> Block)\<rparr>"

definition node_handle_of ::
    "edge_kind_table \<Rightarrow> string list \<Rightarrow> workflow_topology \<Rightarrow> string \<Rightarrow> node_handle" where
  "node_handle_of table senders t n =
     \<lparr>nh_node_id = n,
      nh_downstream = map (emit_target_of table) (filter (\<lambda>e. e_to e \<in> set senders) (outgoing t n))\<rparr>"

section \<open>Phase 1: \<open>on_deploy\<close>\<close>

text \<open>An error comes with the guards collected before it.\<close>

fun deploy_nodes ::
    "'r deploy_env \<Rightarrow> (string, node_trait) hash_map \<Rightarrow> (string \<Rightarrow> node_handle) \<Rightarrow> string list \<Rightarrow>
     (string \<times> lifecycle_guard) list \<Rightarrow> engine \<Rightarrow>
     ((engine_error \<times> (string \<times> lifecycle_guard) list) + (string \<times> lifecycle_guard) list) \<times> engine" where
  "deploy_nodes env nodes handle [] guards eg = (Inr guards, eg)"
| "deploy_nodes env nodes handle (n # ns) guards eg =
     (case map_of nodes n of
        None \<Rightarrow> (Inl (InvalidGraph (Msg ''phase-1-node-missing'' [n]), guards), eg)
      | Some node \<Rightarrow>
          (case de_on_deploy env node (handle n) of
             Inl err \<Rightarrow> (Inl (err, guards), eg)
           | Inr guard \<Rightarrow>
               deploy_nodes env nodes handle ns (guards @ [(n, guard)]) (de_background env n eg)))"

text \<open>Dropping a vector drops its elements from the first to the last.\<close>

definition drop_guards :: "(string \<times> lifecycle_guard) list \<Rightarrow> guard_action list" where
  "drop_guards guards = concat (map (\<lambda>(_, g). guard_drop g) guards)"

section \<open>Phase 2: spawning the loops\<close>

record spawn_state =
  sp_senders :: "string list"
  sp_receivers :: "string list"
  sp_tasks :: "runtime_node list"
  sp_engine :: engine

definition spawn_node ::
    "workflow_graph \<Rightarrow> (string, node_trait) hash_map \<Rightarrow> (string, output_cache) hash_map \<Rightarrow>
     edge_kind_table \<Rightarrow> workflow_topology \<Rightarrow> spawn_state \<Rightarrow> string \<Rightarrow> spawn_state result" where
  "spawn_node g nodes caches table t st n =
     and_then (ok_or (InvalidGraph (Msg ''phase-2-node-missing'' [n])) (map_of nodes n)) (\<lambda>node.
       if node_is_pure_form node then
         Inr (st\<lparr>sp_senders := removeAll n (sp_senders st), sp_receivers := removeAll n (sp_receivers st),
                 sp_engine := close_input (sp_engine st) n\<rparr>)
       else
         and_then (ok_or (InvalidGraph (Msg ''phase-2-definition-missing'' [])) (map_of (g_nodes g) n)) (\<lambda>d.
           if n \<notin> set (sp_receivers st) then Inl (InvalidGraph (Msg ''receiver-missing'' []))
           else if map_of caches n = None then Inl (InvalidGraph (Msg ''output-cache-missing'' []))
           else
             Inr (st\<lparr>sp_receivers := removeAll n (sp_receivers st),
                sp_tasks := sp_tasks st @
                  [\<lparr>rn_id = n, rn_timeout = map_option unat (wd_timeout_ms d),
                    rn_targets = map (downstream_target_of table)
                      (filter (\<lambda>e. e_to e \<in> set (sp_senders st)) (outgoing t n)),
                    rn_data_pins = pin_ids_of_kind Data node,
                    rn_reactive_pins = pin_ids_of_kind Reactive node,
                    rn_has_non_data_output =
                      list_ex (\<lambda>p. pin_kind_of p \<noteq> Data) (nt_output_pins node)\<rparr>]\<rparr>)))"

section \<open>The deployment\<close>

record prepared =
  pr_variables :: workflow_variables
  pr_nodes :: "(string, node_trait) hash_map"
  pr_classified :: classified_edges
  pr_topology :: workflow_topology

text \<open>
  Everything before the connections are loaded; nothing outside the deployment has changed when it
  fails. \<open>None\<close> is a panic of the topology analysis.
\<close>

definition prepare ::
    "'r deploy_env \<Rightarrow> string option \<Rightarrow> (string, json) hash_map \<Rightarrow> workflow_file \<Rightarrow> prepared result option"
where
  "prepare env workflow_id overrides file =
     (let g = wf_graph file in
      case topology g of
        None \<Rightarrow> None
      | Some (Inl err) \<Rightarrow> Some (Inl err)
      | Some (Inr structural) \<Rightarrow>
     (case build_workflow_variables (de_now env) (wf_variables file) of
        Inl err \<Rightarrow> Some (Inl err)
      | Inr declared \<Rightarrow>
     (let restored = restore_variables (de_now env) overrides declared in
      if \<not> de_in_runtime env then Some (Inl (InvalidGraph (Msg ''not-in-runtime'' [])))
      else
        (let variables = set_event_sender restored (events_workflow_id workflow_id g)
               (chan_new (event_capacity g))
         in case try_fold (instantiate_node env g) [] (deployment_order structural) of
              Inl err \<Rightarrow> Some (Inl err)
            | Inr nodes \<Rightarrow>
     (case validate_pin_compatibility nodes (g_edges g) of
        Inl err \<Rightarrow> Some (Inl err)
      | Inr _ \<Rightarrow>
     (case classify_edges (g_edges g) nodes of
        Inl err \<Rightarrow> Some (Inl err)
      | Inr classified \<Rightarrow>
     (case detect_non_exec_edge_cycle (de_iter env) classified of
        None \<Rightarrow> None
      | Some (Inl err) \<Rightarrow> Some (Inl err)
      | Some (Inr _) \<Rightarrow>
          map_option (map_sum id (\<lambda>t. \<lparr>pr_variables = variables, pr_nodes = nodes,
                                       pr_classified = classified, pr_topology = t\<rparr>))
            (topology_for_edges g (ce_exec classified @ ce_reactive classified)))))))))"

record deployment =
  dp_ingress :: workflow_ingress
  dp_engine :: engine
  dp_guards :: "(string \<times> lifecycle_guard) list"
  dp_tasks :: "runtime_node list"
  dp_caches :: "(string, output_cache) hash_map"
  dp_nodes :: "(string, node_trait) hash_map"
  dp_edges_by_consumer :: edges_by_consumer
  dp_timeouts :: "(string, nat option) hash_map"
  dp_variables :: workflow_variables

text \<open>A failed deployment reports its error and what the guards collected so far do when dropped.\<close>

type_synonym deploy_result = "(engine_error \<times> guard_action list) + deployment"

definition launch ::
    "'r deploy_env \<Rightarrow> workflow_graph \<Rightarrow> prepared \<Rightarrow> deploy_result" where
  "launch env g pr =
     (let nodes = pr_nodes pr; t = pr_topology pr; node_ids = map fst (g_nodes g);
          caches = map (\<lambda>(n, node). (n, node_cache node)) nodes
      in case edge_kind_lookup nodes (g_edges g) of
           Inl err \<Rightarrow> Inl (err, [])
         | Inr table \<Rightarrow>
        (case deploy_nodes env nodes (node_handle_of table node_ids t) (deployment_order t) []
                (engine_new (node_buffers g)) of
           (Inl (err, guards), _) \<Rightarrow> Inl (err, drop_guards guards)
         | (Inr guards, eg) \<Rightarrow>
        (case try_fold (spawn_node g nodes caches table t)
                \<lparr>sp_senders = node_ids, sp_receivers = node_ids, sp_tasks = [], sp_engine = eg\<rparr>
                (deployment_order t) of
           Inl err \<Rightarrow> Inl (err, drop_guards guards)
         | Inr st \<Rightarrow>
             Inr \<lparr>dp_ingress = \<lparr>in_root_nodes = root_nodes t,
                               in_root_senders = filter (\<lambda>n. n \<in> set (sp_senders st)) (root_nodes t)\<rparr>,
                  dp_engine = sp_engine st, dp_guards = guards, dp_tasks = sp_tasks st,
                  dp_caches = caches, dp_nodes = nodes,
                  dp_edges_by_consumer = build_edges_by_consumer (ce_data (pr_classified pr)),
                  dp_timeouts = map (\<lambda>(n, d). (n, map_option unat (wd_timeout_ms d)))
                    (g_nodes g),
                  dp_variables = pr_variables pr\<rparr>)))"

definition deploy_workflow_and_restore_variables ::
    "'r deploy_env \<Rightarrow> string option \<Rightarrow> (string, json) hash_map \<Rightarrow> workflow_file \<Rightarrow> conn_manager \<Rightarrow>
     (deploy_result \<times> conn_manager) option" where
  "deploy_workflow_and_restore_variables env workflow_id overrides file m =
     (case prepare env workflow_id overrides file of
        None \<Rightarrow> None
      | Some (Inl err) \<Rightarrow> Some (Inl (err, []), m)
      | Some (Inr pr) \<Rightarrow>
          (case upsert_connections (de_url env) (wf_connections file) m of
             (Inl err, m') \<Rightarrow> Some (Inl (err, []), m')
           | (Inr _, m') \<Rightarrow> Some (launch env (wf_graph file) pr, m')))"

definition deploy_workflow ::
    "'r deploy_env \<Rightarrow> workflow_file \<Rightarrow> conn_manager \<Rightarrow> (deploy_result \<times> conn_manager) option" where
  "deploy_workflow env file m = deploy_workflow_and_restore_variables env None [] file m"

end
