(* ===== verification/Deploy_Safety.thy ===== *)
theory Deploy_Safety
  imports Deploy
begin

text \<open>
  What a deployment guarantees: it never panics, a workflow that is deployed meets the conditions
  its run relies on, and a failed deployment leaves nothing running.
\<close>

section \<open>Restored variables\<close>

definition restored_value :: "(string, json) hash_map \<Rightarrow> string \<Rightarrow> typed_variable \<Rightarrow> json" where
  "restored_value overrides n e =
     (case map_of overrides n of
        Some v \<Rightarrow> if pin_type_matches_value (tv_type e) v then v else tv_value e
      | None \<Rightarrow> tv_value e)"

lemma restore_variable_effect:
  "event_sink w = None \<Longrightarrow> event_sink (restore_variable now (k, v) w) = None"
  "map_option (\<lambda>e. (tv_type e, tv_initial e, tv_value e)) (map_of (vars (restore_variable now (k, v) w)) n) =
    map_option (\<lambda>e. (tv_type e, tv_initial e,
        if n = k \<and> pin_type_matches_value (tv_type e) v then v else tv_value e)) (map_of (vars w) n)"
  by (cases "n = k"; auto simp: restore_variable_def get_var_def set_var_def set_locked_def
      store_value_def try_emit_changed_def Let_def split: option.splits)+

lemma restore_fold:
  assumes "event_sink w = None" and "hm_wf overrides"
  shows "event_sink (restore_variables now overrides w) = None \<and>
    map_option (\<lambda>e. (tv_type e, tv_initial e, tv_value e)) (map_of (vars (restore_variables now overrides w)) n) =
    map_option (\<lambda>e. (tv_type e, tv_initial e, restored_value overrides n e)) (map_of (vars w) n)"
  using assms
proof (induction overrides arbitrary: w)
  case Nil
  then show ?case by (simp add: restore_variables_def restored_value_def)
next
  case (Cons kv overrides)
  obtain k v where kv: "kv = (k, v)" by (cases kv)
  let ?w = "restore_variable now (k, v) w"
  have "hm_wf overrides" and fresh: "map_of overrides k = None"
    using Cons.prems(2) by (auto simp: kv hm_wf_def map_of_eq_None_iff)
  then have IH: "event_sink (restore_variables now overrides ?w) = None"
    "map_option (\<lambda>e. (tv_type e, tv_initial e, tv_value e)) (map_of (vars (restore_variables now overrides ?w)) n) =
      map_option (\<lambda>e. (tv_type e, tv_initial e, restored_value overrides n e)) (map_of (vars ?w) n)"
    using Cons.IH [of ?w] restore_variable_effect(1) [OF Cons.prems(1), of now k v] by simp_all
  have "map_option (\<lambda>e. (tv_type e, tv_initial e, restored_value overrides n e)) (map_of (vars ?w) n) =
      map_option (\<lambda>e. (tv_type e, tv_initial e, restored_value (kv # overrides) n e)) (map_of (vars w) n)"
    using restore_variable_effect(2) [of now k v w n] fresh
    by (cases "map_of (vars w) n"; cases "map_of (vars ?w) n")
      (auto simp: kv restored_value_def split: option.splits)
  with IH show ?case by (simp add: restore_variables_def kv)
qed

text \<open>
  Restoring persisted values before a deployment gives a variable the persisted value exactly
  when it is declared and the value has its declared type; every other variable keeps the declared
  value, no variable is added or removed, initial values stay, and no event is sent.
\<close>

theorem restore_respects_declarations:
  assumes "event_sink w = None" and "hm_wf overrides"
  shows "event_sink (restore_variables now overrides w) = None \<and>
    map_option (\<lambda>e. (tv_type e, tv_initial e, tv_value e)) (map_of (vars (restore_variables now overrides w)) n) =
    map_option (\<lambda>e. (tv_type e, tv_initial e, restored_value overrides n e)) (map_of (vars w) n)"
  using assms by (rule restore_fold)

theorem restore_respects_declarations_witness:
  "get_value (restore_variables 9
      [(''n'', JString ''stale''), (''on'', JBool True), (''gone'', JNull)]
      \<lparr>vars = [(''n'', typed_variable_new (JNumber (PosInt 4)) TInteger (JNumber (PosInt 4)) 0 None),
              (''on'', typed_variable_new (JBool False) TBool (JBool False) 0 None)], event_sink = None\<rparr>)
    ''on'' = Some (JBool True)"
proof -
  let ?o = "[(''n'', JString ''stale''), (''on'', JBool True), (''gone'', JNull)]"
  let ?w = "\<lparr>vars = [(''n'', typed_variable_new (JNumber (PosInt 4)) TInteger (JNumber (PosInt 4)) 0 None),
              (''on'', typed_variable_new (JBool False) TBool (JBool False) 0 None)], event_sink = None\<rparr>"
  have "map_option (\<lambda>e. (tv_type e, tv_initial e, tv_value e)) (map_of (vars (restore_variables 9 ?o ?w)) ''on'') =
    map_option (\<lambda>e. (tv_type e, tv_initial e, restored_value ?o ''on'' e)) (map_of (vars ?w) ''on'')"
    using restore_respects_declarations [of ?w ?o 9 "''on''"] by (simp add: hm_wf_def)
  then show ?thesis
    by (auto simp: get_value_def restored_value_def typed_variable_new_def)
qed

section \<open>Preparing\<close>

lemma instantiate_fold:
  assumes "try_fold (instantiate_node env g) nodes0 order = Inr nodes" and "hm_wf nodes0"
  shows "hm_wf nodes \<and> fst ` set nodes = fst ` set nodes0 \<union> set order"
  using assms
proof (induction order arbitrary: nodes0)
  case (Cons n order)
  from Cons.prems(1) obtain nodes1 where step: "instantiate_node env g nodes0 n = Inr nodes1"
    and rest: "try_fold (instantiate_node env g) nodes1 order = Inr nodes"
    by (auto split: sum.splits)
  then obtain node where "nodes1 = hm_insert n node nodes0"
    by (auto simp: instantiate_node_def and_then_Inr)
  then have "hm_wf nodes1" "fst ` set nodes1 = insert n (fst ` set nodes0)"
    using Cons.prems(2) by (simp_all add: keys_hm_insert)
  then show ?case using Cons.IH [OF rest] by auto
qed simp

definition main_edges :: "prepared \<Rightarrow> workflow_edge list" where
  "main_edges pr = ce_exec (pr_classified pr) @ ce_reactive (pr_classified pr)"

lemma prepare_Inr:
  assumes "prepare env wid overrides file = Some (Inr pr)" and "hm_wf (g_nodes (wf_graph file))"
  shows "acyclic (set (edge_pairs (g_edges (wf_graph file))))"
    and "edges_closed (wf_graph file) (g_edges (wf_graph file))"
    and "hm_wf (pr_nodes pr)" and "fst ` set (pr_nodes pr) = fst ` set (g_nodes (wf_graph file))"
    and "ports_contract (pr_nodes pr) (g_edges (wf_graph file))"
    and "classify_edges (g_edges (wf_graph file)) (pr_nodes pr) = Inr (pr_classified pr)"
    and "topology_ok (wf_graph file) (main_edges pr) (pr_topology pr)"
    and "topology_for_edges (wf_graph file) (main_edges pr) = Some (Inr (pr_topology pr))"
proof -
  define g where "g = wf_graph file"
  from assms(1) obtain structural nodes classified t where
    top: "topology g = Some (Inr structural)" and
    nodes: "try_fold (instantiate_node env g) [] (deployment_order structural) = Inr nodes" and
    pins: "validate_pin_compatibility nodes (g_edges g) = Inr ()" and
    cls: "classify_edges (g_edges g) nodes = Inr classified" and
    main: "topology_for_edges g (ce_exec classified @ ce_reactive classified) = Some (Inr t)" and
    pr: "pr_nodes pr = nodes" "pr_classified pr = classified" "pr_topology pr = t"
    by (auto simp: prepare_def Let_def g_def [symmetric] split: option.splits sum.splits if_splits)
      (auto simp: map_sum_def split: sum.splits)
  have wf: "hm_wf (g_nodes g)" using assms(2) by (simp add: g_def)
  have "is_ok (Inr structural :: workflow_topology result)" by simp
  then show "acyclic (set (edge_pairs (g_edges (wf_graph file))))"
    and "edges_closed (wf_graph file) (g_edges (wf_graph file))"
    using topology_for_edges_spec [OF wf, of "g_edges g"] top
    by (simp_all add: topology_def g_def [symmetric])
  have order: "set (deployment_order structural) = fst ` set (g_nodes g)"
    using topology_for_edges_spec [OF wf, of "g_edges g"] top
    by (simp add: topology_def topology_ok_def)
  show "hm_wf (pr_nodes pr)" and "fst ` set (pr_nodes pr) = fst ` set (g_nodes (wf_graph file))"
    using instantiate_fold [OF nodes] order by (simp_all add: pr g_def)
  then show "ports_contract (pr_nodes pr) (g_edges (wf_graph file))"
    using pins by (simp add: pin_validation_spec pr g_def)
  show "classify_edges (g_edges (wf_graph file)) (pr_nodes pr) = Inr (pr_classified pr)"
    using cls by (simp add: pr g_def)
  show "topology_ok (wf_graph file) (main_edges pr) (pr_topology pr)"
    using topology_for_edges_spec [OF wf, of "ce_exec classified @ ce_reactive classified"] main
    by (simp add: pr main_edges_def g_def)
  show "topology_for_edges (wf_graph file) (main_edges pr) = Some (Inr (pr_topology pr))"
    using main by (simp add: pr main_edges_def g_def)
qed

definition listed :: "(string, workflow_edge list) hash_map \<Rightarrow> string \<Rightarrow> workflow_edge list" where
  "listed down n = (case map_of down n of Some l \<Rightarrow> l | None \<Rightarrow> [])"

lemma topo_add_listed:
  "topo_add_edge g st e = Inr st' \<Longrightarrow>
    listed (ts_downstream st') n = listed (ts_downstream st) n @ filter (\<lambda>e. e_from e = n) [e]"
  by (auto simp: topo_add_edge_def Let_def listed_def split: if_splits option.splits)

lemma topo_add_downstream:
  assumes "try_fold (topo_add_edge g) st es = Inr st'"
  shows "listed (ts_downstream st') n = listed (ts_downstream st) n @ filter (\<lambda>e. e_from e = n) es"
  using assms
proof (induction es arbitrary: st)
  case (Cons e es)
  from Cons.prems obtain st1 where "topo_add_edge g st e = Inr st1" "try_fold (topo_add_edge g) st1 es = Inr st'"
    by (cases "topo_add_edge g st e") auto
  with Cons.IH [of st1] topo_add_listed [of g st e st1 n] show ?case by simp
qed simp

lemma topology_outgoing:
  assumes "topology_for_edges g es = Some (Inr t)"
  shows "outgoing t n = filter (\<lambda>e. e_from e = n) es"
proof -
  from assms obtain st where fold: "try_fold (topo_add_edge g) (topo_init g) es = Inr st"
    and "downstream t = ts_downstream st"
    by (auto simp: topology_for_edges_def Let_def split: sum.splits option.splits if_splits)
  moreover have "listed (ts_downstream (topo_init g)) n = []"
    by (simp add: topo_init_def map_of_const listed_def)
  ultimately show ?thesis
    using topo_add_downstream [OF fold, of n] by (simp add: outgoing_def listed_def [symmetric])
qed

text \<open>No stage panics, and the separate check for cycles of data and reactive edges never fails.\<close>

lemma prepare_total:
  assumes "hm_wf (g_nodes (wf_graph file))" and "\<And>xs. mset (de_iter env xs) = mset xs"
  shows "prepare env wid overrides file \<noteq> None"
proof -
  have top: "topology_for_edges (wf_graph file) es = None \<longleftrightarrow> False" for es
    using topology_for_edges_spec [OF assms(1), of es] by auto
  have some: "\<exists>z. topology_for_edges (wf_graph file) es = Some z" for es
    using topology_for_edges_spec [OF assms(1), of es] by auto
  have cyc: "detect_non_exec_edge_cycle (de_iter env) c = None \<longleftrightarrow> False" for c
    using non_exec_cycle_spec [OF assms(2), of c] by auto
  show ?thesis
    unfolding prepare_def Let_def topology_def
    by (auto simp: top cyc some split: option.split sum.split)
qed

section \<open>Launching\<close>

lemma edge_kind_entry_step:
  "map_of nodes (e_from e) = Some node \<Longrightarrow> edge_kind_entry nodes table e =
    Inr (hm_insert (e_from e, e_source_port_id e)
      (case find (\<lambda>p. pin_id p = source_pin_id e) (nt_output_pins node) of
         Some p \<Rightarrow> pin_kind_of p | None \<Rightarrow> Exec) table)"
  by (simp add: edge_kind_entry_def)

definition kind_of_source :: "(string, node_trait) hash_map \<Rightarrow> string \<times> string option \<Rightarrow> pin_kind" where
  "kind_of_source nodes k =
     (case map_of nodes (fst k) of
        None \<Rightarrow> Exec
      | Some node \<Rightarrow>
          (case find (\<lambda>p. pin_id p = (case snd k of Some p \<Rightarrow> p | None \<Rightarrow> DEFAULT_OUTPUT_PIN_ID))
                  (nt_output_pins node) of
             Some p \<Rightarrow> pin_kind_of p | None \<Rightarrow> Exec))"

lemma edge_kind_fold:
  assumes "\<forall>e\<in>set es. map_of nodes (e_from e) \<noteq> None"
  shows "\<exists>table'. try_fold (edge_kind_entry nodes) table es = Inr table' \<and>
    (\<forall>k. map_of table' k = (if k \<in> (\<lambda>e. (e_from e, e_source_port_id e)) ` set es
       then Some (kind_of_source nodes k) else map_of table k))"
  using assms
proof (induction es arbitrary: table)
  case (Cons e es)
  then obtain node where node: "map_of nodes (e_from e) = Some node" by auto
  let ?table = "hm_insert (e_from e, e_source_port_id e) (kind_of_source nodes (e_from e, e_source_port_id e)) table"
  have "edge_kind_entry nodes table e = Inr ?table"
    using node by (simp add: edge_kind_entry_step kind_of_source_def source_pin_id_def)
  then show ?case using Cons.IH [of ?table] Cons.prems by auto
qed simp

text \<open>The table gives every edge the kind it was classified by.\<close>

lemma table_kind_agrees:
  assumes "edge_kind_lookup nodes es = Inr table" and "\<forall>e\<in>set es. map_of nodes (e_from e) \<noteq> None"
    and "e \<in> set es"
  shows "table_kind table e = kind_of_source nodes (e_from e, e_source_port_id e)"
proof -
  obtain table' where "edge_kind_lookup nodes es = Inr table'"
    "\<And>k. k \<in> (\<lambda>e. (e_from e, e_source_port_id e)) ` set es \<Longrightarrow> map_of table' k = Some (kind_of_source nodes k)"
    using edge_kind_fold [OF assms(2), of "[]"] unfolding edge_kind_lookup_def by auto
  then show ?thesis using assms(1,3) by (simp add: table_kind_def)
qed

lemma deploy_nodes_Inr:
  assumes "deploy_nodes env nodes handle ns gs eg = (Inr guards, eg')"
  shows "map fst guards = map fst gs @ ns"
  using assms
  by (induction env nodes handle ns gs eg rule: deploy_nodes.induct)
    (auto split: option.splits sum.splits)


lemma deploy_nodes_engine:
  assumes "\<And>n e. (engine_step False)\<^sup>*\<^sup>* e (de_background env n e)"
  shows "(engine_step False)\<^sup>*\<^sup>* eg (snd (deploy_nodes env nodes handle ns gs eg))"
proof (induction ns arbitrary: gs eg)
  case (Cons n ns)
  have "(engine_step False)\<^sup>*\<^sup>* eg (snd (deploy_nodes env nodes handle ns gs' (de_background env n eg)))" for gs'
    using assms Cons.IH by (rule rtranclp_trans)
  then show ?case by (simp split: option.split sum.split)
qed simp

definition pure_id :: "(string, node_trait) hash_map \<Rightarrow> string \<Rightarrow> bool" where
  "pure_id nodes n = (case map_of nodes n of Some node \<Rightarrow> node_is_pure_form node | None \<Rightarrow> False)"

text \<open>A loop sends along exactly the main edges of its node, in their order.\<close>

definition wired ::
    "(string, node_trait) hash_map \<Rightarrow> edge_kind_table \<Rightarrow> workflow_topology \<Rightarrow> runtime_node \<Rightarrow> bool" where
  "wired nodes table t rn \<longleftrightarrow>
     (\<exists>node. map_of nodes (rn_id rn) = Some node \<and> \<not> node_is_pure_form node \<and>
        set (rn_data_pins rn) = {pin_id p |p. p \<in> set (nt_output_pins node) \<and> pin_kind_of p = Data} \<and>
        set (rn_reactive_pins rn) = {pin_id p |p. p \<in> set (nt_output_pins node) \<and> pin_kind_of p = Reactive}) \<and>
     rn_targets rn = map (downstream_target_of table) (outgoing t (rn_id rn))"

lemma pin_ids_of_kind_set:
  "set (pin_ids_of_kind k node) = {pin_id p |p. p \<in> set (nt_output_pins node) \<and> pin_kind_of p = k}"
  by (auto simp: pin_ids_of_kind_def)

lemma before_not_prefix:
  assumes "before (pre @ n # post) n v" and "distinct (pre @ n # post)"
  shows "v \<notin> set pre"
proof
  assume "v \<in> set pre"
  then obtain p1 p2 where pre: "pre = p1 @ v # p2" by (meson split_list)
  obtain ys zs where ys: "pre @ n # post = ys @ v # zs" "n \<in> set ys" using assms(1) by (auto simp: before_def)
  have "p1 @ v # (p2 @ n # post) = ys @ v # zs" using ys(1) pre by simp
  moreover have "v \<notin> set p1" "v \<notin> set (p2 @ n # post)" using assms(2) pre by auto
  ultimately have "p1 = ys" using append_Cons_eq_iff [of v p1 "p2 @ n # post" ys zs] by blast
  then show False using ys(2) assms(2) pre by auto
qed

definition spawnable ::
    "workflow_graph \<Rightarrow> (string, node_trait) hash_map \<Rightarrow> (string, output_cache) hash_map \<Rightarrow> spawn_state \<Rightarrow> string \<Rightarrow> bool" where
  "spawnable g nodes caches st n \<longleftrightarrow>
     map_of nodes n \<noteq> None \<and> map_of (g_nodes g) n \<noteq> None \<and> map_of caches n \<noteq> None \<and> n \<in> set (sp_receivers st)"

lemma spawn_fold:
  assumes "distinct ns" and "\<forall>n\<in>set ns. spawnable g nodes caches st n"
    and "\<And>pre n post e. ns = pre @ n # post \<Longrightarrow> e \<in> set (outgoing t n) \<Longrightarrow>
      e_to e \<in> set (sp_senders st) \<and> e_to e \<notin> set pre"
    and "\<forall>rn\<in>set (sp_tasks st). wired nodes table t rn"
  shows "\<exists>st'. try_fold (spawn_node g nodes caches table t) st ns = Inr st' \<and>
    map rn_id (sp_tasks st') = map rn_id (sp_tasks st) @ filter (\<lambda>n. \<not> pure_id nodes n) ns \<and>
    set (sp_senders st') = set (sp_senders st) - {n \<in> set ns. pure_id nodes n} \<and>
    sp_engine st' = fold (\<lambda>n e. close_input e n) (filter (pure_id nodes) ns) (sp_engine st) \<and>
    (\<forall>rn\<in>set (sp_tasks st'). wired nodes table t rn)"
  using assms
proof (induction ns arbitrary: st)
  case (Cons n ns)
  obtain node d where n: "map_of nodes n = Some node" "map_of (g_nodes g) n = Some d"
    "map_of caches n \<noteq> None" "n \<in> set (sp_receivers st)"
    using Cons.prems(2) by (auto simp: spawnable_def)
  show ?case
  proof (cases "node_is_pure_form node")
    case True
    define st1 where "st1 = st\<lparr>sp_senders := removeAll n (sp_senders st),
      sp_receivers := removeAll n (sp_receivers st), sp_engine := close_input (sp_engine st) n\<rparr>"
    have "spawn_node g nodes caches table t st n = Inr st1"
      using n True by (simp add: spawn_node_def st1_def)
    moreover have "pure_id nodes n" using n True by (simp add: pure_id_def)
    moreover have "\<exists>st'. try_fold (spawn_node g nodes caches table t) st1 ns = Inr st' \<and>
        map rn_id (sp_tasks st') = map rn_id (sp_tasks st1) @ filter (\<lambda>n. \<not> pure_id nodes n) ns \<and>
        set (sp_senders st') = set (sp_senders st1) - {n \<in> set ns. pure_id nodes n} \<and>
        sp_engine st' = fold (\<lambda>n e. close_input e n) (filter (pure_id nodes) ns) (sp_engine st1) \<and>
        (\<forall>rn\<in>set (sp_tasks st'). wired nodes table t rn)"
    proof (rule Cons.IH)
      show "e_to e \<in> set (sp_senders st1) \<and> e_to e \<notin> set pre" if "ns = pre @ m # post" "e \<in> set (outgoing t m)"
        for pre m post e using Cons.prems(3) [of "n # pre" m post e] that by (simp add: st1_def)
    qed (use Cons.prems(1,2,4) \<open>pure_id nodes n\<close> in \<open>auto simp: st1_def spawnable_def\<close>)
    ultimately show ?thesis by (auto simp: st1_def)
  next
    case False
    have all: "filter (\<lambda>e. e_to e \<in> set (sp_senders st)) (outgoing t n) = outgoing t n"
      using Cons.prems(3) [of "[]" n ns] by simp
    define rn where "rn = \<lparr>rn_id = n, rn_timeout = map_option unat (wd_timeout_ms d),
      rn_targets = map (downstream_target_of table) (outgoing t n),
      rn_data_pins = pin_ids_of_kind Data node, rn_reactive_pins = pin_ids_of_kind Reactive node,
      rn_has_non_data_output = list_ex (\<lambda>p. pin_kind_of p \<noteq> Data) (nt_output_pins node)\<rparr>"
    define st1 where "st1 = st\<lparr>sp_receivers := removeAll n (sp_receivers st), sp_tasks := sp_tasks st @ [rn]\<rparr>"
    have "spawn_node g nodes caches table t st n = Inr st1"
      using n False by (simp add: spawn_node_def st1_def rn_def all)
    moreover have impure: "\<not> pure_id nodes n" using n False by (simp add: pure_id_def)
    moreover have "wired nodes table t rn"
      using n False by (auto simp: wired_def rn_def pin_ids_of_kind_set)
    moreover have "\<exists>st'. try_fold (spawn_node g nodes caches table t) st1 ns = Inr st' \<and>
        map rn_id (sp_tasks st') = map rn_id (sp_tasks st1) @ filter (\<lambda>n. \<not> pure_id nodes n) ns \<and>
        set (sp_senders st') = set (sp_senders st1) - {n \<in> set ns. pure_id nodes n} \<and>
        sp_engine st' = fold (\<lambda>n e. close_input e n) (filter (pure_id nodes) ns) (sp_engine st1) \<and>
        (\<forall>rn\<in>set (sp_tasks st'). wired nodes table t rn)"
    proof (rule Cons.IH)
      show "e_to e \<in> set (sp_senders st1) \<and> e_to e \<notin> set pre" if "ns = pre @ m # post" "e \<in> set (outgoing t m)"
        for pre m post e using Cons.prems(3) [of "n # pre" m post e] that by (simp add: st1_def)
    qed (use Cons.prems(1,2,4) \<open>wired nodes table t rn\<close> in \<open>auto simp: st1_def spawnable_def\<close>)
    ultimately show ?thesis by (auto simp: st1_def rn_def)
  qed
qed simp

lemma close_inputs_steps: "(engine_step False)\<^sup>*\<^sup>* eg (fold (\<lambda>n e. close_input e n) ns eg)"
proof (induction ns arbitrary: eg)
  case (Cons n ns)
  have "engine_step False eg (close_input eg n)" by (rule drop_input)
  then show ?case using Cons.IH [of "close_input eg n"] by (simp add: converse_rtranclp_into_rtranclp)
qed simp

definition launched ::
    "workflow_graph \<Rightarrow> prepared \<Rightarrow> edge_kind_table \<Rightarrow> (string \<times> lifecycle_guard) list \<Rightarrow> engine \<Rightarrow> deployment \<Rightarrow> bool" where
  "launched g pr table guards eg dp \<longleftrightarrow>
     (let nodes = pr_nodes pr; t = pr_topology pr; order = deployment_order t in
      dp_guards dp = guards \<and> dp_nodes dp = nodes \<and>
      dp_edges_by_consumer dp = build_edges_by_consumer (ce_data (pr_classified pr)) \<and>
      map rn_id (dp_tasks dp) = filter (\<lambda>n. \<not> pure_id nodes n) order \<and>
      (\<forall>rn\<in>set (dp_tasks dp). wired nodes table t rn) \<and>
      dp_engine dp = fold (\<lambda>n e. close_input e n) (filter (pure_id nodes) order) eg \<and>
      dp_ingress dp = \<lparr>in_root_nodes = root_nodes t,
        in_root_senders = filter (\<lambda>n. \<not> pure_id nodes n) (root_nodes t)\<rparr>)"

lemma closed_ends:
  assumes "edges_closed g es" and "fst ` set nodes = fst ` set (g_nodes g)"
  shows "\<forall>e\<in>set es. map_of nodes (e_from e) \<noteq> None \<and> e_to e \<in> fst ` set (g_nodes g)"
  using assms by (simp add: edges_closed_def hm_contains_iff list_all_iff map_of_eq_None_iff)

lemma launch_cases:
  fixes env :: "'r deploy_env" and wfile :: workflow_file
  defines "g \<equiv> wf_graph wfile"
  assumes prep: "prepare env wid overrides wfile = Some (Inr pr)" and wf: "hm_wf (g_nodes g)"
  obtains table run eg where "edge_kind_lookup (pr_nodes pr) (g_edges g) = Inr table"
    and "deploy_nodes env (pr_nodes pr) (node_handle_of table (map fst (g_nodes g)) (pr_topology pr))
      (deployment_order (pr_topology pr)) [] (engine_new (node_buffers g)) = (run, eg)"
    and "\<And>err guards. run = Inl (err, guards) \<Longrightarrow> launch env g pr = Inl (err, drop_guards guards)"
    and "\<And>guards. run = Inr guards \<Longrightarrow> \<exists>dp. launch env g pr = Inr dp \<and> launched g pr table guards eg dp"
proof -
  note facts = prepare_Inr [OF prep wf [unfolded g_def], folded g_def]
  let ?nodes = "pr_nodes pr" and ?t = "pr_topology pr" and ?ids = "map fst (g_nodes g)"
  let ?order = "deployment_order ?t" and ?caches = "map (\<lambda>(n, node). (n, node_cache node)) (pr_nodes pr)"
  have known: "map_of ?nodes n \<noteq> None" "map_of (g_nodes g) n \<noteq> None" "map_of ?caches n \<noteq> None"
    if "n \<in> fst ` set (g_nodes g)" for n
  proof -
    have "fst ` set ?caches = fst ` set ?nodes" by (force simp: image_iff)
    then show "map_of ?nodes n \<noteq> None" "map_of (g_nodes g) n \<noteq> None" "map_of ?caches n \<noteq> None"
      using that facts(4) by (auto simp: map_of_eq_None_iff)
  qed
  have "\<forall>e\<in>set (g_edges g). map_of ?nodes (e_from e) \<noteq> None"
    using facts(2) known(1) by (fastforce simp: edges_closed_def hm_contains_iff list_all_iff)
  then obtain table where table: "edge_kind_lookup ?nodes (g_edges g) = Inr table"
    using edge_kind_fold [of "g_edges g" ?nodes "[]"] unfolding edge_kind_lookup_def by blast
  obtain run eg where run: "deploy_nodes env ?nodes (node_handle_of table ?ids ?t) ?order []
      (engine_new (node_buffers g)) = (run, eg)" by fastforce
  have order: "distinct ?order" "set ?order = fst ` set (g_nodes g)" "set (root_nodes ?t) \<subseteq> fst ` set (g_nodes g)"
    using facts(7) by (auto simp: topology_ok_def)
  define st0 where "st0 = \<lparr>sp_senders = ?ids, sp_receivers = ?ids, sp_tasks = [], sp_engine = eg\<rparr>"
  have spawnable: "\<forall>n\<in>set ?order. spawnable g ?nodes ?caches st0 n"
    using known order(2) by (auto simp: spawnable_def st0_def)
  have "\<exists>st'. try_fold (spawn_node g ?nodes ?caches table ?t) st0 ?order = Inr st' \<and>
      map rn_id (sp_tasks st') = map rn_id (sp_tasks st0) @ filter (\<lambda>n. \<not> pure_id ?nodes n) ?order \<and>
      set (sp_senders st') = set (sp_senders st0) - {n \<in> set ?order. pure_id ?nodes n} \<and>
      sp_engine st' = fold (\<lambda>n e. close_input e n) (filter (pure_id ?nodes) ?order) (sp_engine st0) \<and>
      (\<forall>rn\<in>set (sp_tasks st'). wired ?nodes table ?t rn)"
  proof (rule spawn_fold [OF order(1) spawnable])
    show "e_to e \<in> set (sp_senders st0) \<and> e_to e \<notin> set pre" if "?order = pre @ n # post" "e \<in> set (outgoing ?t n)"
      for pre n post e
    proof -
      have e: "e \<in> set (main_edges pr)" "e_from e = n"
        using that(2) topology_outgoing [OF facts(8), of n] by auto
      then have "before ?order n (e_to e)" using facts(7) by (auto simp: topology_ok_def)
      then show ?thesis
        using that(1) order(1,2) before_set [of ?order n "e_to e"] before_not_prefix [of pre n post "e_to e"]
        by (simp add: st0_def)
    qed
  qed (simp add: st0_def)
  then obtain st' where st': "try_fold (spawn_node g ?nodes ?caches table ?t) st0 ?order = Inr st'"
    "map rn_id (sp_tasks st') = filter (\<lambda>n. \<not> pure_id ?nodes n) ?order"
    "set (sp_senders st') = fst ` set (g_nodes g) - {n \<in> set ?order. pure_id ?nodes n}"
    "sp_engine st' = fold (\<lambda>n e. close_input e n) (filter (pure_id ?nodes) ?order) eg"
    "\<forall>rn\<in>set (sp_tasks st'). wired ?nodes table ?t rn"
    by (auto simp: st0_def)
  have roots: "filter (\<lambda>n. n \<in> set (sp_senders st')) (root_nodes ?t) =
      filter (\<lambda>n. \<not> pure_id ?nodes n) (root_nodes ?t)"
    using order(2,3) st'(3) by (intro filter_cong refl) auto
  show thesis
  proof (rule that [OF table run])
    fix err guards assume "run = Inl (err, guards)"
    then show "launch env g pr = Inl (err, drop_guards guards)"
      using table run by (simp add: launch_def Let_def)
  next
    fix guards assume "run = Inr guards"
    then show "\<exists>dp. launch env g pr = Inr dp \<and> launched g pr table guards eg dp"
      using table run st' roots by (simp add: launch_def Let_def launched_def st0_def)
  qed
qed

section \<open>A small deployment\<close>

text \<open>A timer triggers a node that also pulls a constant; \<open>start\<close> is what \<open>on_deploy\<close> answers.\<close>

definition demo_factory :: "pin_definition list \<Rightarrow> pin_definition list \<Rightarrow> unit node_entry" where
  "demo_factory ins outs = \<lparr>ne_factory = (\<lambda>d _. Inr \<lparr>nt_id = wd_id d, nt_kind = wd_node_type d, nt_input_pins = ins, nt_output_pins = outs\<rparr>), ne_capabilities = 0\<rparr>"

definition demo_data_input :: pin_definition where
  "demo_data_input = (output_named_data ''x'' ''x'' TAny ''d'')\<lparr>pin_dir := Input, pin_required := True\<rparr>"

definition demo_registry :: "unit node_registry" where
  "demo_registry = [(''timer'', demo_factory [] [default_output]),
     (''constant'', demo_factory [] [output_named_data ''out'' ''out'' TAny ''d'']),
     (''code'', demo_factory [default_input, demo_data_input] [default_output])]"

definition demo_file :: workflow_file where
  "demo_file = \<lparr>wf_graph = \<lparr>g_name = None,
       g_nodes = [(''c'', probe ''code'' JNull), (''k'', probe ''constant'' JNull), (''a'', probe ''timer'' JNull)],
       g_edges = [demo_edge ''a'' ''c'', \<lparr>e_from = ''k'', e_to = ''c'', e_source_port_id = Some ''out'',
         e_target_port_id = Some ''x'', e_backpressure_policy = None\<rparr>]\<rparr>,
     wf_variables = None, wf_connections = []\<rparr>"

definition demo_deploy_env :: "(string \<Rightarrow> lifecycle_guard result) \<Rightarrow> unit deploy_env" where
  "demo_deploy_env start = \<lparr>de_url = (\<lambda>_. None), de_registry = demo_registry, de_resources = (),
     de_on_deploy = (\<lambda>node _. start (nt_kind node)), de_background = (\<lambda>_ eg. eg), de_in_runtime = True,
     de_now = 0, de_iter = (\<lambda>xs. xs)\<rparr>"

definition demo_start_all :: "string \<Rightarrow> lifecycle_guard result" where
  "demo_start_all kind = Inr (if kind = ''timer'' then guard_from_task 1 else guard_noop)"


lemma demo_deploys:
  "\<exists>dp m'. deploy_workflow_and_restore_variables (demo_deploy_env demo_start_all) None [] demo_file
      shared_connection_manager = Some (Inr dp, m') \<and>
    map fst (dp_guards dp) = [''a'', ''k'', ''c''] \<and> map rn_id (dp_tasks dp) = [''a'', ''c'']"
proof -
  have "case deploy_workflow_and_restore_variables (demo_deploy_env demo_start_all) None [] demo_file
      shared_connection_manager of
      Some (Inr dp, _) \<Rightarrow> map fst (dp_guards dp) = [''a'', ''k'', ''c''] \<and> map rn_id (dp_tasks dp) = [''a'', ''c'']
    | _ \<Rightarrow> False"
    by code_simp
  then show ?thesis by (auto split: option.splits sum.splits)
qed

lemma demo_deploys_edges:
  "\<exists>dp m'. deploy_workflow_and_restore_variables (demo_deploy_env demo_start_all) None [] demo_file
      shared_connection_manager = Some (Inr dp, m') \<and> dp_edges_by_consumer dp \<noteq> []"
proof -
  have "case deploy_workflow_and_restore_variables (demo_deploy_env demo_start_all) None [] demo_file
      shared_connection_manager of
      Some (Inr dp, _) \<Rightarrow> length (dp_edges_by_consumer dp) = 1 | _ \<Rightarrow> False"
    by code_simp
  then show ?thesis by (auto split: option.splits sum.splits)
qed


lemma demo_file_wf: "hm_wf (g_nodes (wf_graph demo_file))"
  by (simp add: demo_file_def hm_wf_def)

section \<open>Guarantees\<close>

text \<open>
  Deploying never panics, whatever the workflow file, the nodes and the iteration order of the
  hash maps are: the answer is a deployment or an error.
\<close>

theorem deploy_never_panics:
  assumes "hm_wf (g_nodes (wf_graph file))" and "\<And>xs. mset (de_iter env xs) = mset xs"
  shows "deploy_workflow_and_restore_variables env wid overrides file m \<noteq> None"
  using prepare_total [OF assms]
  by (auto simp: deploy_workflow_and_restore_variables_def split: option.split sum.split prod.split)

theorem deploy_never_panics_witness:
  "deploy_workflow_and_restore_variables (demo_deploy_env demo_start_all) None [] demo_file
    shared_connection_manager \<noteq> None"
  by (rule deploy_never_panics [OF demo_file_wf]) (simp add: demo_deploy_env_def)

lemma deployed_prepared:
  assumes "deploy_workflow_and_restore_variables env wid overrides file m = Some (Inr dp, m')"
  obtains pr where "prepare env wid overrides file = Some (Inr pr)" and "launch env (wf_graph file) pr = Inr dp"
  using assms
  by (auto simp: deploy_workflow_and_restore_variables_def split: option.splits sum.splits prod.splits)

definition declared_target :: "(string, node_trait) hash_map \<Rightarrow> workflow_edge \<Rightarrow> downstream_target" where
  "declared_target nodes e =
     \<lparr>dt_source_port_id = e_source_port_id e, dt_target_node_id = e_to e,
      dt_target_port_id = e_target_port_id e,
      dt_edge_kind = kind_of_source nodes (e_from e, e_source_port_id e),
      dt_backpressure_policy = (case e_backpressure_policy e of Some p \<Rightarrow> p | None \<Rightarrow> Block)\<rparr>"

text \<open>The edges that trigger: the exec edges and the reactive ones, each in the order of the file.\<close>

definition triggering :: "(string, node_trait) hash_map \<Rightarrow> workflow_edge list \<Rightarrow> workflow_edge list" where
  "triggering nodes es = filter (edge_kind_is nodes Exec) es @ filter (edge_kind_is nodes Reactive) es"

definition trigger_edges :: "(string, node_trait) hash_map \<Rightarrow> workflow_edge list \<Rightarrow> workflow_edge set" where
  "trigger_edges nodes es = {e \<in> set es. \<not> edge_kind_is nodes Data e}"

text \<open>
  What a deployed workflow promises its run: \<open>deployed_order\<close> for the start of the nodes,
  \<open>deployed_tasks\<close> for the loops and the targets they send to, \<open>deployed_entry\<close> for submissions.
\<close>

definition deployed_order :: "workflow_graph \<Rightarrow> deployment \<Rightarrow> bool" where
  "deployed_order g dp \<longleftrightarrow>
     (let order = map fst (dp_guards dp) in
      distinct order \<and> set order = fst ` set (g_nodes g) \<and>
      (\<forall>e\<in>trigger_edges (dp_nodes dp) (g_edges g). before order (e_from e) (e_to e)))"

definition deployed_tasks :: "workflow_graph \<Rightarrow> deployment \<Rightarrow> bool" where
  "deployed_tasks g dp \<longleftrightarrow>
     map rn_id (dp_tasks dp) = filter (\<lambda>n. \<not> pure_id (dp_nodes dp) n) (map fst (dp_guards dp)) \<and>
     (\<forall>rn\<in>set (dp_tasks dp). rn_targets rn = map (declared_target (dp_nodes dp))
        (filter (\<lambda>e. e_from e = rn_id rn) (triggering (dp_nodes dp) (g_edges g))))"

definition deployed_entry :: "workflow_graph \<Rightarrow> deployment \<Rightarrow> bool" where
  "deployed_entry g dp \<longleftrightarrow>
     (let roots = {n \<in> fst ` set (g_nodes g). \<forall>e\<in>trigger_edges (dp_nodes dp) (g_edges g). e_to e \<noteq> n} in
      sorted (in_root_nodes (dp_ingress dp)) \<and> distinct (in_root_nodes (dp_ingress dp)) \<and>
      set (in_root_nodes (dp_ingress dp)) = roots \<and>
      set (in_root_senders (dp_ingress dp)) = {n \<in> roots. \<not> pure_id (dp_nodes dp) n})"

lemma main_edges_set:
  assumes "classify_edges es nodes = Inr (pr_classified pr)"
  shows "main_edges pr = triggering nodes es" and "set (main_edges pr) = trigger_edges nodes es"
proof -
  have ok: "\<forall>e\<in>set es. is_ok (edge_kind nodes e)"
    and parts: "ce_exec (pr_classified pr) = filter (edge_kind_is nodes Exec) es"
      "ce_reactive (pr_classified pr) = filter (edge_kind_is nodes Reactive) es"
    using classify_edges_spec [of es nodes] assms by simp_all
  have "edge_kind_is nodes Exec e \<or> edge_kind_is nodes Reactive e \<longleftrightarrow> \<not> edge_kind_is nodes Data e"
    if "e \<in> set es" for e
  proof -
    obtain k where "edge_kind nodes e = Inr k" using ok \<open>e \<in> set es\<close> by (auto simp: is_ok_iff)
    then show ?thesis by (cases k) (simp_all add: edge_kind_is_def)
  qed
  then show "set (main_edges pr) = trigger_edges nodes es" by (auto simp: main_edges_def trigger_edges_def parts)
  show "main_edges pr = triggering nodes es" by (simp add: main_edges_def triggering_def parts)
qed

lemma wired_targets:
  assumes "wired nodes table t rn" and "edge_kind_lookup nodes es = Inr table"
    and "\<forall>e\<in>set es. map_of nodes (e_from e) \<noteq> None"
    and "outgoing t (rn_id rn) = filter (\<lambda>e. e_from e = rn_id rn) (triggering nodes es)"
  shows "rn_targets rn = map (declared_target nodes) (filter (\<lambda>e. e_from e = rn_id rn) (triggering nodes es))"
proof -
  have "downstream_target_of table e = declared_target nodes e" if "e \<in> set (outgoing t (rn_id rn))" for e
  proof -
    have "e \<in> set es" using that assms(4) by (auto simp: triggering_def)
    then show ?thesis
      using table_kind_agrees [OF assms(2,3)] by (simp add: downstream_target_of_def declared_target_def)
  qed
  then show ?thesis using assms(1,4) by (simp add: wired_def)
qed

lemma launched_sound:
  assumes prep: "prepare env wid overrides wfile = Some (Inr pr)" and wf: "hm_wf (g_nodes (wf_graph wfile))"
    and launch: "launch env (wf_graph wfile) pr = Inr dp"
  shows "deployed_order (wf_graph wfile) dp \<and> deployed_tasks (wf_graph wfile) dp \<and> deployed_entry (wf_graph wfile) dp \<and>
    dp_nodes dp = pr_nodes pr \<and> dp_edges_by_consumer dp = build_edges_by_consumer (ce_data (pr_classified pr)) \<and>
    (\<exists>eg. dp_engine dp = fold (\<lambda>n e. close_input e n) (filter (pure_id (pr_nodes pr)) (deployment_order (pr_topology pr))) eg \<and>
      ((\<forall>n e. (engine_step False)\<^sup>*\<^sup>* e (de_background env n e)) \<longrightarrow>
         (engine_step False)\<^sup>*\<^sup>* (engine_new (node_buffers (wf_graph wfile))) eg))"
proof -
  define g where "g = wf_graph wfile"
  note facts = prepare_Inr [OF prep wf, folded g_def]
  obtain table run eg where table: "edge_kind_lookup (pr_nodes pr) (g_edges g) = Inr table"
    and run: "deploy_nodes env (pr_nodes pr) (node_handle_of table (map fst (g_nodes g)) (pr_topology pr))
      (deployment_order (pr_topology pr)) [] (engine_new (node_buffers g)) = (run, eg)"
    and bad: "\<And>err guards. run = Inl (err, guards) \<Longrightarrow> launch env g pr = Inl (err, drop_guards guards)"
    and good: "\<And>guards. run = Inr guards \<Longrightarrow> \<exists>dp. launch env g pr = Inr dp \<and> launched g pr table guards eg dp"
    by (rule launch_cases [OF prep wf, folded g_def]) blast
  obtain guards where guards: "run = Inr guards"
    using bad launch by (cases run) (auto simp: g_def)
  then have L: "launched g pr table guards eg dp" using good launch by (auto simp: g_def)
  have order: "map fst guards = deployment_order (pr_topology pr)"
    using deploy_nodes_Inr [of env "pr_nodes pr" _ _ "[]"] run guards by force
  note main = main_edges_set(2) [OF facts(6)]
  have T: "topology_ok g (main_edges pr) (pr_topology pr)" by (rule facts(7))
  have dp: "dp_guards dp = guards" "dp_nodes dp = pr_nodes pr"
    "map rn_id (dp_tasks dp) = filter (\<lambda>n. \<not> pure_id (pr_nodes pr) n) (deployment_order (pr_topology pr))"
    and wired: "\<forall>rn\<in>set (dp_tasks dp). wired (pr_nodes pr) table (pr_topology pr) rn"
    and ingress: "dp_ingress dp = \<lparr>in_root_nodes = root_nodes (pr_topology pr),
        in_root_senders = filter (\<lambda>n. \<not> pure_id (pr_nodes pr) n) (root_nodes (pr_topology pr))\<rparr>"
    and rest: "dp_edges_by_consumer dp = build_edges_by_consumer (ce_data (pr_classified pr))"
      "dp_engine dp = fold (\<lambda>n e. close_input e n) (filter (pure_id (pr_nodes pr)) (deployment_order (pr_topology pr))) eg"
    using L by (simp_all add: launched_def Let_def)
  have "deployed_order g dp"
    using T by (simp add: deployed_order_def Let_def dp order topology_ok_def main)
  moreover have "deployed_entry g dp"
    using T by (auto simp: deployed_entry_def Let_def dp ingress topology_ok_def main)
  moreover have "deployed_tasks g dp"
  proof -
    have "outgoing (pr_topology pr) n = filter (\<lambda>e. e_from e = n) (triggering (pr_nodes pr) (g_edges g))" for n
      using topology_outgoing [OF facts(8), of n] main_edges_set(1) [OF facts(6)] by simp
    moreover have "\<forall>e\<in>set (g_edges g). map_of (pr_nodes pr) (e_from e) \<noteq> None"
      using closed_ends [OF facts(2,4)] by blast
    ultimately show ?thesis
      using wired_targets [OF bspec [OF wired] table]
      by (simp add: deployed_tasks_def Let_def dp order)
  qed
  moreover have "(engine_step False)\<^sup>*\<^sup>* (engine_new (node_buffers g)) eg"
    if "\<forall>n e. (engine_step False)\<^sup>*\<^sup>* e (de_background env n e)"
    using deploy_nodes_engine [of env "engine_new (node_buffers g)"] that run by (metis snd_conv)
  ultimately show ?thesis using dp(2) rest unfolding g_def by blast
qed

lemma deployed_prepared_launch:
  assumes "deploy_workflow_and_restore_variables env wid overrides wfile m = Some (Inr dp, m')"
    and "hm_wf (g_nodes (wf_graph wfile))"
  obtains pr where "prepare env wid overrides wfile = Some (Inr pr)"
    and "deployed_order (wf_graph wfile) dp \<and> deployed_tasks (wf_graph wfile) dp \<and> deployed_entry (wf_graph wfile) dp"
    and "dp_nodes dp = pr_nodes pr" and "dp_edges_by_consumer dp = build_edges_by_consumer (ce_data (pr_classified pr))"
    and "(\<forall>n e. (engine_step False)\<^sup>*\<^sup>* e (de_background env n e)) \<Longrightarrow>
         (engine_step False)\<^sup>*\<^sup>* (engine_new (node_buffers (wf_graph wfile))) (dp_engine dp)"
proof -
  obtain pr where pr: "prepare env wid overrides wfile = Some (Inr pr)" "launch env (wf_graph wfile) pr = Inr dp"
    by (rule deployed_prepared [OF assms(1)])
  note sound = launched_sound [OF pr(1) assms(2) pr(2)]
  then obtain eg where eg: "dp_engine dp = fold (\<lambda>n e. close_input e n) (filter (pure_id (pr_nodes pr)) (deployment_order (pr_topology pr))) eg"
    "(\<forall>n e. (engine_step False)\<^sup>*\<^sup>* e (de_background env n e)) \<longrightarrow> (engine_step False)\<^sup>*\<^sup>* (engine_new (node_buffers (wf_graph wfile))) eg"
    by blast
  have "(engine_step False)\<^sup>*\<^sup>* (engine_new (node_buffers (wf_graph wfile))) (dp_engine dp)"
    if "\<forall>n e. (engine_step False)\<^sup>*\<^sup>* e (de_background env n e)"
    using eg that close_inputs_steps [of eg] by (metis rtranclp_trans)
  then show thesis using that pr(1) sound by blast
qed

text \<open>
  C16: a workflow is deployed only when all its edges together are acyclic and its ports keep their
  contract. Its nodes were then started in an order in which every edge that triggers goes forward;
  exactly the nodes that are not pure forms have a loop, which sends along each triggering edge of its
  node once, exec edges before reactive ones, with the kind and the policy declared for it, and along no
  other; and submissions enter at the nodes no edge triggers, the pure forms among them left out.
\<close>

theorem deployed_workflow_is_sound:
  assumes "deploy_workflow_and_restore_variables env wid overrides wfile m = Some (Inr dp, m')"
    and "hm_wf (g_nodes (wf_graph wfile))"
  shows "acyclic (set (edge_pairs (g_edges (wf_graph wfile)))) \<and>
    ports_contract (dp_nodes dp) (g_edges (wf_graph wfile)) \<and>
    deployed_order (wf_graph wfile) dp \<and> deployed_tasks (wf_graph wfile) dp \<and> deployed_entry (wf_graph wfile) dp"
proof -
  obtain pr where "prepare env wid overrides wfile = Some (Inr pr)" "dp_nodes dp = pr_nodes pr"
    "deployed_order (wf_graph wfile) dp \<and> deployed_tasks (wf_graph wfile) dp \<and> deployed_entry (wf_graph wfile) dp"
    by (rule deployed_prepared_launch [OF assms])
  then show ?thesis using prepare_Inr(1,5) [OF _ assms(2)] by metis
qed

theorem deployed_workflow_is_sound_witness:
  "\<exists>dp :: deployment. deployed_tasks (wf_graph demo_file) dp \<and> map rn_id (dp_tasks dp) = [''a'', ''c'']"
proof -
  obtain dp m' where dp: "deploy_workflow_and_restore_variables (demo_deploy_env demo_start_all) None [] demo_file
      shared_connection_manager = Some (Inr dp, m')" "map rn_id (dp_tasks dp) = [''a'', ''c'']"
    using demo_deploys by (elim exE conjE) (rule that)
  show ?thesis
    using deployed_workflow_is_sound [OF dp(1) demo_file_wf] dp(2) by (intro exI [of _ dp] conjI) simp_all
qed

text \<open>
  A reactive port may be wired to a data input of a pure-form node. The edge is among the targets of its
  node, but the queue behind it is closed once the workflow is deployed: the first message ends the loop.
\<close>

lemma close_input_closed:
  "closed (input_chan eg n) \<or> m = n \<Longrightarrow> closed (input_chan (close_input eg m) n)"
  by (auto simp: close_input_def input_chan_def set_input_def split: option.split)

lemma close_inputs_closed:
  "closed (input_chan eg n) \<or> n \<in> set ns \<Longrightarrow> closed (input_chan (fold (\<lambda>n e. close_input e n) ns eg) n)"
  by (induction ns arbitrary: eg) (auto simp: close_input_closed)

lemma pure_form_queue_closed:
  assumes "deploy_workflow_and_restore_variables env wid overrides wfile m = Some (Inr dp, m')"
    and "hm_wf (g_nodes (wf_graph wfile))" and "pure_id (dp_nodes dp) n"
  shows "closed (input_chan (dp_engine dp) n)"
proof -
  obtain pr where pr: "prepare env wid overrides wfile = Some (Inr pr)" "launch env (wf_graph wfile) pr = Inr dp"
    by (rule deployed_prepared [OF assms(1)])
  note sound = launched_sound [OF pr(1) assms(2) pr(2)]
  have nodes: "dp_nodes dp = pr_nodes pr" using sound by blast
  then have "n \<in> fst ` set (pr_nodes pr)"
    using assms(3) by (auto simp: pure_id_def map_of_eq_None_iff split: option.splits dest: map_of_SomeD intro: rev_image_eqI)
  then have "n \<in> set (deployment_order (pr_topology pr))"
    using prepare_Inr(4,7) [OF pr(1) assms(2)] by (simp add: topology_ok_def)
  then have "n \<in> set (filter (pure_id (pr_nodes pr)) (deployment_order (pr_topology pr)))"
    using assms(3) nodes by simp
  moreover obtain eg where "dp_engine dp = fold (\<lambda>n e. close_input e n)
      (filter (pure_id (pr_nodes pr)) (deployment_order (pr_topology pr))) eg"
    using sound by blast
  ultimately show ?thesis using close_inputs_closed by metis
qed

text \<open>
  In a deployed workflow every pull of data inputs returns, however the nodes are connected:
  as much fuel as the workflow has nodes (and one more) is enough for the recursion through pure
  nodes, provided the nodes that have no timeout return.
\<close>

theorem deployed_pulls_return:
  assumes "deploy_workflow_and_restore_variables env wid overrides wfile m = Some (Inr dp, m')"
    and "hm_wf (g_nodes (wf_graph wfile))" and "pc_edges ctx = dp_edges_by_consumer dp"
    and "runs_return ctx" and "length (g_nodes (wf_graph wfile)) < fuel"
  shows "pull_data_inputs fuel ctx n node x st \<noteq> None"
proof -
  let ?es = "g_edges (wf_graph wfile)"
  obtain pr where pr: "prepare env wid overrides wfile = Some (Inr pr)"
    "dp_edges_by_consumer dp = build_edges_by_consumer (ce_data (pr_classified pr))"
    by (rule deployed_prepared_launch [OF assms(1,2)])
  let ?data = "ce_data (pr_classified pr)"
  have sub: "set ?data \<subseteq> set ?es"
    using classify_edges_spec [of ?es "pr_nodes pr"] prepare_Inr(6) [OF pr(1) assms(2)] by auto
  then have "set (edge_pairs ?data) \<subseteq> set (edge_pairs ?es)" by (auto simp: set_edge_pairs)
  then have acyc: "acyclic (set (edge_pairs ?data))"
    using prepare_Inr(1) [OF pr(1) assms(2)] by (metis acyclic_subset)
  have "e_from ` set ?data \<union> e_to ` set ?data \<subseteq> fst ` set (g_nodes (wf_graph wfile))"
    using sub prepare_Inr(2) [OF pr(1) assms(2)] by (auto simp: edges_closed_def hm_contains_iff list_all_iff)
  then have "card (e_from ` set ?data \<union> e_to ` set ?data) \<le> card (fst ` set (g_nodes (wf_graph wfile)))"
    by (intro card_mono) simp_all
  also have "\<dots> \<le> length (g_nodes (wf_graph wfile))"
    by (metis card_length length_map set_map)
  finally show ?thesis
    using assms(3-5) pr(2) acyc by (intro pull_data_inputs_total [where es = ?data]) simp_all
qed

theorem deployed_pulls_return_witness:
  "\<exists>ctx. pc_edges ctx \<noteq> [] \<and> pull_data_inputs 4 ctx ''c'' demo_view (JObject []) demo_start \<noteq> None"
proof -
  obtain dp m' where dp: "deploy_workflow_and_restore_variables (demo_deploy_env demo_start_all) None [] demo_file
      shared_connection_manager = Some (Inr dp, m')" and edges: "dp_edges_by_consumer dp \<noteq> []"
    using demo_deploys_edges by blast
  let ?ctx = "(demo_ctx JNull)\<lparr>pc_edges := dp_edges_by_consumer dp\<rparr>"
  have "pull_data_inputs 4 ?ctx ''c'' demo_view (JObject []) demo_start \<noteq> None"
    by (rule deployed_pulls_return [OF dp demo_file_wf])
      (simp_all add: demo_file_def runs_return_def demo_ctx_def)
  then show ?thesis using edges by (intro exI [of _ ?ctx]) simp
qed

text \<open>
  C17: from the deployment of a workflow on, in every state reached by a run in which no receiver
  disappears between the two tests of a refused send, the count the store keeps for a payload is the number
  of references to it that are queued or were dropped with a receiver, provided that the tasks nodes
  start while the deployment goes on act by steps of such a run.
\<close>

theorem deployment_conserves_references:
  assumes "deploy_workflow_and_restore_variables env wid overrides wfile m = Some (Inr dp, m')"
    and "hm_wf (g_nodes (wf_graph wfile))" and "\<forall>n e. (engine_step False)\<^sup>*\<^sup>* e (de_background env n e)"
    and "(engine_step False)\<^sup>*\<^sup>* (dp_engine dp) eg"
  shows "refcount eg i = outstanding eg i"
proof -
  have "(engine_step False)\<^sup>*\<^sup>* (engine_new (node_buffers (wf_graph wfile))) (dp_engine dp)"
    by (rule deployed_prepared_launch [OF assms(1,2)]) (use assms(3) in blast)
  then have "(engine_step False)\<^sup>*\<^sup>* (engine_new (node_buffers (wf_graph wfile))) eg"
    using assms(4) by (rule rtranclp_trans)
  moreover have "distinct (map fst (node_buffers (wf_graph wfile)))"
    using assms(2) by (simp add: node_buffers_def hm_wf_def comp_def case_prod_unfold)
  ultimately show ?thesis using engine_steps_balanced by (simp add: accounted_def)
qed

theorem deployment_conserves_references_witness:
  "\<exists>dp :: deployment. map rn_id (dp_tasks dp) = [''a'', ''c''] \<and>
    (\<forall>i. refcount (close_results (dp_engine dp)) i = outstanding (close_results (dp_engine dp)) i)"
proof -
  obtain dp m' where dp: "deploy_workflow_and_restore_variables (demo_deploy_env demo_start_all) None [] demo_file
      shared_connection_manager = Some (Inr dp, m')" "map rn_id (dp_tasks dp) = [''a'', ''c'']"
    using demo_deploys by (elim exE conjE) (rule that)
  have "refcount (close_results (dp_engine dp)) i = outstanding (close_results (dp_engine dp)) i" for i
    by (rule deployment_conserves_references [OF dp(1) demo_file_wf])
      (simp_all add: demo_deploy_env_def r_into_rtranclp drop_results)
  then show ?thesis using dp(2) by (intro exI [of _ dp] conjI allI) simp_all
qed



end
