(* ===== verification/Conn_Safety.thy ===== *)
theory Conn_Safety
  imports Conn_Manager
begin

text \<open>
  Runs of the connection pool. A state is the pool with the guards that are out; a step is one
  operation, or one locked section of an operation whose sections can interleave with others: a
  caller that looked a record up may lock it after the pool has changed. The runs have two
  parameters: \<open>atomic\<close> says that the record \<open>acquire\<close> locks is still the one the pool holds, \<open>clearing\<close>
  that operations may clear \<open>in_use\<close> while a guard is out.
\<close>

section \<open>Steps\<close>

datatype record_op =
    ConnectSuccess msg "u64 option"
  | Heartbeat msg
  | ConnectFailure msg
  | RecordTimeout msg
  | CircuitReset
  | Reconcile
  | Disconnect msg
  | InvalidConfiguration msg
  | MakeIdle msg

fun apply_op :: "record_op \<Rightarrow> time \<Rightarrow> connection_record \<Rightarrow> connection_record" where
  "apply_op (ConnectSuccess diag latency) now x = connect_success diag latency now x"
| "apply_op (Heartbeat diag) now x = heartbeat diag now x"
| "apply_op (ConnectFailure reason) now x =
     snd (apply_runtime_failure x (policy_from_metadata (cn_metadata x)) now reason False)"
| "apply_op (RecordTimeout reason) now x =
     snd (apply_runtime_failure x (policy_from_metadata (cn_metadata x)) now reason True)"
| "apply_op CircuitReset now x = circuit_reset now x"
| "apply_op Reconcile now x = reconciled now x"
| "apply_op (Disconnect diag) now x = disconnected diag now x"
| "apply_op (InvalidConfiguration reason) now x = mark_invalid x reason now"
| "apply_op (MakeIdle diag) now x = idle_record diag now x"

fun clears :: "record_op \<Rightarrow> bool" where
  "clears (Disconnect _) = True"
| "clears (InvalidConfiguration _) = True"
| "clears (MakeIdle _) = True"
| "clears _ = False"

type_synonym guards = "(nat \<times> connection_lease) list"

inductive conn_step ::
    "(string \<Rightarrow> string option) \<Rightarrow> bool \<Rightarrow> bool \<Rightarrow> conn_manager \<times> guards \<Rightarrow> conn_manager \<times> guards \<Rightarrow> bool"
  for u atomic clearing where
  acquired: "acquire_at u now cid r m = (Inr lease, m') \<Longrightarrow> r < length (records m) \<Longrightarrow>
     (atomic \<longrightarrow> map_of (connections m) cid = Some r) \<Longrightarrow>
     conn_step u atomic clearing (m, gs) (m', (r, lease) # gs)"
| refused: "acquire_at u now cid r m = (Inl e, m') \<Longrightarrow> r < length (records m) \<Longrightarrow>
     conn_step u atomic clearing (m, gs) (m', gs)"
| dropped: "(r, lease) \<in> set gs \<Longrightarrow>
     conn_step u atomic clearing (m, gs) (drop_guard now r lease outcome m, remove1 (r, lease) gs)"
| registered: "conn_step u atomic clearing (m, gs) (snd (register_connection u d m), gs)"
| upserted: "conn_step u atomic clearing (m, gs) (snd (upsert_connection u d m), gs)"
| batch_upserted: "conn_step u atomic clearing (m, gs) (snd (upsert_connections u ds m), gs)"
| replaced: "conn_step u atomic clearing (m, gs) (snd (replace_connections u ds m), gs)"
| touched: "r < length (records m) \<Longrightarrow> (clears op \<longrightarrow> clearing) \<Longrightarrow>
     conn_step u atomic clearing (m, gs) (set_record r (apply_op op now (records m ! r)) m, gs)"
| session_change: "conn_step u atomic clearing (m, gs)
     (m\<lparr>shared_sessions := ss, initializers := ls\<rparr>, gs)"

inductive_cases conn_stepE: "conn_step u atomic clearing s s'"

section \<open>What the transitions keep\<close>

definition same_definition :: "connection_record \<Rightarrow> connection_record \<Rightarrow> bool" where
  "same_definition x y \<longleftrightarrow> cn_id x = cn_id y \<and> cn_kind x = cn_kind y \<and> cn_metadata x = cn_metadata y"

lemma same_definition_refl [simp]: "same_definition x x"
  by (simp add: same_definition_def)

text \<open>A timed phase has a deadline.\<close>

definition timers_ok :: "connection_health_snapshot \<Rightarrow> bool" where
  "timers_ok h \<longleftrightarrow>
     (phase h = CircuitOpen \<longrightarrow> circuit_open_until h \<noteq> None) \<and>
     (phase h = RateLimited \<longrightarrow> rate_limited_until h \<noteq> None)"

lemma failure_keeps:
  "same_definition (snd (apply_runtime_failure x p now reason t)) x"
  "in_use (snd (apply_runtime_failure x p now reason t)) = in_use x"
  "timers_ok (health (snd (apply_runtime_failure x p now reason t)))"
  by (simp_all add: apply_runtime_failure_def same_definition_def timers_ok_def Let_def)

lemma finalize_keeps:
  "same_definition (finalize_release x now b out) x"
  "\<not> in_use (finalize_release x now b out)"
  "timers_ok (health x) \<Longrightarrow> timers_ok (health (finalize_release x now b out))"
proof -
  note failure_keeps [simp]
  show "same_definition (finalize_release x now b out) x"
    using failure_keeps(1)
    by (auto simp: finalize_release_def Let_def same_definition_def split: connection_outcome.split)
  show "\<not> in_use (finalize_release x now b out)"
    by (auto simp: finalize_release_def Let_def split: connection_outcome.split)
  show "timers_ok (health (finalize_release x now b out))" if "timers_ok (health x)"
    using that
    by (auto simp: finalize_release_def Let_def split: connection_outcome.split)
      (auto simp: timers_ok_def)
qed

lemma reconcile_phases:
  "timers_ok h \<Longrightarrow> timers_ok (reconcile_rate_limit now h)"
  "timers_ok h \<Longrightarrow> timers_ok (reconcile_circuit now h)"
  "timers_ok h \<Longrightarrow> timers_ok (reconcile_retry now b h)"
  "timers_ok h \<Longrightarrow> timers_ok (reconcile_unused p now b h)"
  by (auto simp: timers_ok_def reconcile_rate_limit_def reconcile_circuit_def reconcile_retry_def
      reconcile_unused_def Let_def split: option.split)

lemma reconcile_keeps:
  "same_definition (reconcile_timed_state x p now) x"
  "in_use (reconcile_timed_state x p now) = in_use x"
  "timers_ok (health x) \<Longrightarrow> timers_ok (health (reconcile_timed_state x p now))"
  by (simp_all add: reconcile_timed_state_def same_definition_def reconcile_phases)

lemma plain_keeps_definition:
  "same_definition (connect_success diag l now x) x" "same_definition (heartbeat diag now x) x"
  "same_definition (circuit_reset now x) x" "same_definition (disconnected diag now x) x"
  "same_definition (mark_invalid x reason now) x" "same_definition (idle_record diag now x) x"
  by (simp_all add: same_definition_def connect_success_def heartbeat_def circuit_reset_def
      disconnected_def mark_invalid_def idle_record_def Let_def)

lemma plain_keeps_in_use:
  "in_use (connect_success diag l now x) = in_use x" "in_use (heartbeat diag now x) = in_use x"
  "in_use (circuit_reset now x) = in_use x"
  by (simp_all add: connect_success_def heartbeat_def circuit_reset_def Let_def)

lemma plain_keeps_timers:
  "timers_ok (health (connect_success diag l now x))"
  "timers_ok (health x) \<Longrightarrow> timers_ok (health (heartbeat diag now x))"
  "timers_ok (health (circuit_reset now x))" "timers_ok (health (disconnected diag now x))"
  "timers_ok (health (mark_invalid x reason now))"
  "timers_ok (health x) \<Longrightarrow> timers_ok (health (idle_record diag now x))"
  by (auto simp: timers_ok_def connect_success_def heartbeat_def circuit_reset_def
      disconnected_def mark_invalid_def idle_record_def Let_def)

lemmas keeps = failure_keeps reconcile_keeps plain_keeps_definition plain_keeps_in_use plain_keeps_timers

lemma op_keeps:
  "same_definition (apply_op op now x) x"
  "\<not> clears op \<Longrightarrow> in_use (apply_op op now x) = in_use x"
  "timers_ok (health x) \<Longrightarrow> timers_ok (health (apply_op op now x))"
  by (cases op; simp add: keeps reconciled_def)+

lemma build_keeps:
  "cn_id (build_record u d) = cd_id d" "cn_kind (build_record u d) = cd_kind d"
  "cn_metadata (build_record u d) = cd_metadata d"
  "\<not> in_use (build_record u d)" "timers_ok (health (build_record u d))"
  by (simp_all add: build_record_def refresh_definition_diagnosis_def timers_ok_def default_health_def
      split: sum.split)

section \<open>The record store\<close>

lemma set_record_simps [simp]:
  "connections (set_record r x m) = connections m"
  "length (records (set_record r x m)) = length (records m)"
  "attempt_windows (set_record r x m) = attempt_windows m"
  "shared_sessions (set_record r x m) = shared_sessions m"
  "set_record r x (set_record r y m) = set_record r x m"
  "set_record r x (m\<lparr>attempt_windows := w\<rparr>) = (set_record r x m)\<lparr>attempt_windows := w\<rparr>"
  "r < length (records m) \<Longrightarrow>
    records (set_record r x m) ! k = (if k = r then x else records m ! k)"
  by (simp_all add: set_record_def nth_list_update)

lemma records_set_record: "records (set_record r x m) = (records m)[r := x]"
  by (simp add: set_record_def)

lemma same_definition_trans: "same_definition x y \<Longrightarrow> same_definition y z \<Longrightarrow> same_definition x z"
  by (simp add: same_definition_def)

text \<open>The two outcomes of \<open>acquire_at\<close>, as changes of the one record it locks.\<close>

lemma register_attempt_windows:
  "register_attempt cid p now m = (res, m') \<Longrightarrow> \<exists>w. m' = m\<lparr>attempt_windows := w\<rparr>"
  by (auto simp: register_attempt_def Let_def split: prod.splits option.splits)

lemma acquire_at_cases:
  assumes "acquire_at u now cid r m = (res, m')"
  obtains x w where "m' = (set_record r x m)\<lparr>attempt_windows := w\<rparr>"
    and "same_definition x (records m ! r)"
    and "timers_ok (health (records m ! r)) \<Longrightarrow> timers_ok (health x)"
    and "\<And>e. res = Inl e \<Longrightarrow> in_use x = in_use (records m ! r)"
    and "\<And>lease. res = Inr lease \<Longrightarrow> \<not> in_use (records m ! r) \<and> in_use x \<and>
      cl_id lease = cn_id (records m ! r) \<and> borrowed_at lease = now"
proof -
  define x where "x = reconcile_timed_state (records m ! r) (policy_from_metadata (cn_metadata (records m ! r))) now"
  have x: "same_definition x (records m ! r)" "in_use x = in_use (records m ! r)"
    "timers_ok (health (records m ! r)) \<Longrightarrow> timers_ok (health x)"
    by (simp_all add: x_def keeps)
  have self: "m = m\<lparr>attempt_windows := attempt_windows m\<rparr>" by simp
  note acquire = assms [unfolded acquire_at_def Let_def, folded x_def]
  consider
      (kept) e where "res = Inl e" "m' = set_record r x m"
    | (invalid) e reason where "\<not> in_use x" "res = Inl e" "m' = set_record r (mark_invalid x reason now) m"
    | (limited) e d w where "res = Inl e" "m' = (set_record r (rate_limit_record x now d) m)\<lparr>attempt_windows := w\<rparr>"
    | (borrowed) w where "\<not> in_use x" "m' = (set_record r (borrow_record x now) m)\<lparr>attempt_windows := w\<rparr>"
        "res = Inr \<lparr>cl_id = cn_id x, cl_kind = cn_kind x, cl_metadata = cn_metadata x, borrowed_at = now\<rparr>"
    using acquire
    by (auto split: if_splits sum.splits option.splits prod.splits dest!: register_attempt_windows)
  then show thesis
  proof cases
    case kept
    show ?thesis by (rule that [of "attempt_windows m" x]) (use kept x self in auto)
  next
    case invalid
    show ?thesis
      by (rule that [of "attempt_windows m" "mark_invalid x reason now"])
        (use invalid x in \<open>auto simp: mark_invalid_def same_definition_def timers_ok_def\<close>)
  next
    case limited
    show ?thesis
      by (rule that [of w "rate_limit_record x now d"])
        (use limited x in \<open>auto simp: rate_limit_record_def same_definition_def timers_ok_def\<close>)
  next
    case borrowed
    show ?thesis
      by (rule that [of w "borrow_record x now"])
        (use borrowed x in \<open>auto simp: borrow_record_def same_definition_def timers_ok_def opened_phase_def\<close>)
  qed
qed

section \<open>The invariant of the pool\<close>

definition valid_record :: "(string \<Rightarrow> string option) \<Rightarrow> connection_record \<Rightarrow> bool" where
  "valid_record u x \<longleftrightarrow> is_ok (validate_connection_definition u (cn_kind x) (cn_metadata x))"

definition valid_definition :: "(string \<Rightarrow> string option) \<Rightarrow> connection_definition \<Rightarrow> bool" where
  "valid_definition u d \<longleftrightarrow> is_ok (validate_connection_definition u (cd_kind d) (cd_metadata d))"

definition pool_inv :: "(string \<Rightarrow> string option) \<Rightarrow> conn_manager \<Rightarrow> bool" where
  "pool_inv u m \<longleftrightarrow>
     (\<forall>cid r. map_of (connections m) cid = Some r \<longrightarrow>
        r < length (records m) \<and> cn_id (records m ! r) = cid) \<and>
     (\<forall>r<length (records m). valid_record u (records m ! r) \<and> timers_ok (health (records m ! r)))"

lemma pool_inv_frame [simp]:
  "pool_inv u (m\<lparr>attempt_windows := w\<rparr>) = pool_inv u m"
  "pool_inv u (m\<lparr>shared_sessions := s, initializers := l\<rparr>) = pool_inv u m"
  by (simp_all add: pool_inv_def)

lemma pool_inv_empty: "pool_inv u m \<Longrightarrow> pool_inv u (m\<lparr>connections := []\<rparr>)"
  by (simp add: pool_inv_def)

lemma pool_inv_set_record:
  assumes "pool_inv u m" and "r < length (records m)" and "same_definition x (records m ! r)"
    and "timers_ok (health (records m ! r)) \<Longrightarrow> timers_ok (health x)"
  shows "pool_inv u (set_record r x m)"
  using assms by (auto simp: pool_inv_def valid_record_def same_definition_def)

lemma pool_inv_insert:
  "pool_inv u m \<Longrightarrow> valid_definition u d \<Longrightarrow> pool_inv u (insert_definition u d m)"
  by (auto simp: pool_inv_def insert_definition_def nth_append build_keeps valid_record_def
      valid_definition_def less_Suc_eq split: if_splits)

lemma first_invalid_valid: "first_invalid u ds = Inr w \<longleftrightarrow> (\<forall>d\<in>set ds. valid_definition u d)"
  unfolding first_invalid_def try_all_Inr valid_definition_def is_ok_def
  by (intro ball_cong refl) (auto split: sum.splits)

lemma first_invalid_error:
  assumes "first_invalid u ds = Inl e"
  obtains d reason where "d \<in> set ds" and "e = ConnectionInvalidConfiguration (cd_id d) reason"
    and "validate_connection_definition u (cd_kind d) (cd_metadata d) = Inl reason"
proof -
  obtain d where d: "d \<in> set ds"
    "(case validate_connection_definition u (cd_kind d) (cd_metadata d) of
        Inl reason \<Rightarrow> Some (ConnectionInvalidConfiguration (cd_id d) reason) | Inr _ \<Rightarrow> None) = Some e"
    using try_all_Inl [OF assms [unfolded first_invalid_def]] by blast
  then show thesis
    by (cases "validate_connection_definition u (cd_kind d) (cd_metadata d)") (auto intro: that)
qed

text \<open>Induction over the definitions of a batch.\<close>

lemma upsert_each_induct:
  assumes "P m" and "\<forall>d\<in>set ds. valid_definition u d"
    and "\<And>m d. P m \<Longrightarrow> valid_definition u d \<Longrightarrow> \<not> used_at m (cd_id d) \<Longrightarrow> P (insert_definition u d m)"
  shows "P (snd (upsert_each u active ds m))"
  using assms(1,2)
proof (induction ds arbitrary: m)
  case Nil
  then show ?case by simp
next
  case (Cons d ds)
  then show ?case using assms(3) [of m d] by (simp add: split_def Let_def)
qed

lemma insert_all_induct:
  assumes "P m" and "\<forall>d\<in>set ds. valid_definition u d"
    and "\<And>m d. P m \<Longrightarrow> valid_definition u d \<Longrightarrow> P (insert_definition u d m)"
  shows "P (fold (insert_definition u) ds m)"
  using assms(1,2) by (induction ds arbitrary: m) (simp_all add: assms(3))

lemma pool_inv_init: "pool_inv u shared_connection_manager"
  by (simp add: pool_inv_def shared_connection_manager_def)

lemma pool_inv_register: "pool_inv u m \<Longrightarrow> pool_inv u (snd (register_connection u d m))"
  by (auto simp: register_connection_def reset_attempt_window_def valid_definition_def pool_inv_insert
      split: sum.split)

lemma pool_inv_upsert: "pool_inv u m \<Longrightarrow> pool_inv u (snd (upsert_connection u d m))"
  by (auto simp: upsert_connection_def reset_attempt_window_def valid_definition_def pool_inv_insert
      split: sum.split)

lemma pool_inv_batch: "pool_inv u m \<Longrightarrow> pool_inv u (snd (upsert_connections u ds m))"
proof (cases "first_invalid u ds")
  case (Inr w)
  assume "pool_inv u m"
  then have "pool_inv u (snd (upsert_each u active ds m))" for active
    using Inr by (intro upsert_each_induct [where P = "pool_inv u"])
      (auto simp: first_invalid_valid intro: pool_inv_insert)
  then show ?thesis
    using Inr by (simp add: upsert_connections_def reset_attempt_windows_def split_def Let_def)
qed (simp add: upsert_connections_def)

lemma pool_inv_replace: "pool_inv u m \<Longrightarrow> pool_inv u (snd (replace_connections u ds m))"
proof (cases "first_invalid u ds")
  case (Inr w)
  assume inv: "pool_inv u m"
  then have "pool_inv u (fold (insert_definition u) ds (m\<lparr>connections := []\<rparr>))"
    using Inr by (intro insert_all_induct [where P = "pool_inv u"])
      (auto simp: first_invalid_valid intro: pool_inv_insert pool_inv_empty)
  then show ?thesis
    using Inr inv by (simp add: replace_connections_def reset_attempt_windows_def)
qed (simp add: replace_connections_def)

lemma pool_inv_acquire:
  assumes "pool_inv u m" and "acquire_at v now cid r m = (res, m')" and "r < length (records m)"
  shows "pool_inv u m'"
  using assms(2) by (rule acquire_at_cases) (use assms in \<open>auto intro: pool_inv_set_record\<close>)

lemma pool_inv_step:
  assumes "conn_step u atomic clearing (m, gs) (m', gs')" and "pool_inv u m"
    and "\<forall>(r, lease)\<in>set gs. r < length (records m)"
  shows "pool_inv u m'"
  using assms(1)
proof (cases rule: conn_step.cases)
  case (dropped r lease now outcome)
  then show ?thesis using assms(2,3)
    by (auto simp: drop_guard_def intro!: pool_inv_set_record finalize_keeps)
next
  case (touched r op now)
  then show ?thesis using assms(2) by (auto intro!: pool_inv_set_record op_keeps)
qed (use assms in \<open>auto intro: pool_inv_acquire pool_inv_register pool_inv_upsert pool_inv_batch
      pool_inv_replace\<close>)

section \<open>The invariant of the leases\<close>

definition lease_inv :: "bool \<Rightarrow> conn_manager \<Rightarrow> guards \<Rightarrow> bool" where
  "lease_inv atomic m gs \<longleftrightarrow>
     distinct (map fst gs) \<and>
     (\<forall>r<length (records m). in_use (records m ! r) \<longleftrightarrow> r \<in> fst ` set gs) \<and>
     (\<forall>(r, lease)\<in>set gs. r < length (records m) \<and> cl_id lease = cn_id (records m ! r) \<and>
        (atomic \<longrightarrow> map_of (connections m) (cl_id lease) = Some r))"

lemma lease_inv_frame [simp]:
  "lease_inv atomic (m\<lparr>attempt_windows := w\<rparr>) gs = lease_inv atomic m gs"
  "lease_inv atomic (m\<lparr>shared_sessions := s, initializers := l\<rparr>) gs = lease_inv atomic m gs"
  by (simp_all add: lease_inv_def)

lemma lease_inv_set_record:
  assumes "lease_inv atomic m gs" and "r < length (records m)" and "same_definition x (records m ! r)"
    and "in_use x = in_use (records m ! r)"
  shows "lease_inv atomic (set_record r x m) gs"
  using assms by (auto simp: lease_inv_def same_definition_def)

lemma lease_inv_insert:
  assumes "lease_inv atomic m gs" and "atomic \<longrightarrow> (\<forall>(r, lease)\<in>set gs. cl_id lease \<noteq> cd_id d)"
  shows "lease_inv atomic (insert_definition u d m) gs"
proof -
  have "length (records m) \<notin> fst ` set gs" using assms(1) by (auto simp: lease_inv_def)
  then show ?thesis using assms
    by (auto simp: lease_inv_def insert_definition_def nth_append build_keeps less_Suc_eq split: if_splits)
qed

lemma unused_no_lease:
  assumes "lease_inv True m gs" and "\<not> used_at m cid" and "(r, lease) \<in> set gs"
  shows "cl_id lease \<noteq> cid"
  using assms by (force simp: lease_inv_def used_at_def split: option.splits)

lemma lease_inv_insert_unused:
  assumes "lease_inv atomic m gs" and "\<not> used_at m (cd_id d)"
  shows "lease_inv atomic (insert_definition u d m) gs"
  using assms unused_no_lease by (intro lease_inv_insert) auto

lemma lease_inv_register:
  assumes "lease_inv atomic m gs"
  shows "lease_inv atomic (snd (register_connection u d m)) gs"
proof (cases "hm_contains (connections m) (cd_id d)")
  case False
  then have "\<not> used_at m (cd_id d)" by (simp add: used_at_def hm_contains_def)
  then show ?thesis using assms
    by (auto simp: register_connection_def reset_attempt_window_def lease_inv_insert_unused split: sum.split)
qed (simp add: register_connection_def assms)

lemma lease_inv_upsert:
  "lease_inv atomic m gs \<Longrightarrow> lease_inv atomic (snd (upsert_connection u d m)) gs"
  by (auto simp: upsert_connection_def reset_attempt_window_def lease_inv_insert_unused split: sum.split)

lemma lease_inv_batch:
  assumes "lease_inv atomic m gs"
  shows "lease_inv atomic (snd (upsert_connections u ds m)) gs"
proof (cases "first_invalid u ds")
  case (Inr w)
  have "lease_inv atomic (snd (upsert_each u active ds m)) gs" for active
    using Inr assms by (intro upsert_each_induct [where P = "\<lambda>m. lease_inv atomic m gs" and u = u])
      (auto simp: first_invalid_valid intro: lease_inv_insert_unused)
  then show ?thesis
    using Inr by (simp add: upsert_connections_def reset_attempt_windows_def split_def Let_def)
qed (simp add: upsert_connections_def assms)

lemma lease_inv_replace:
  assumes "lease_inv atomic m gs"
  shows "lease_inv atomic (snd (replace_connections u ds m)) gs"
proof (cases "first_invalid u ds")
  case (Inr w)
  show ?thesis
  proof (cases "\<exists>kr\<in>set (connections m). in_use (records m ! snd kr)")
    case False
    have none: "atomic \<Longrightarrow> gs = []"
    proof (rule ccontr)
      assume "atomic" and "gs \<noteq> []"
      then obtain r lease where g: "(r, lease) \<in> set gs" by (cases gs) auto
      then have "map_of (connections m) (cl_id lease) = Some r" "in_use (records m ! r)"
        using assms \<open>atomic\<close> by (force simp: lease_inv_def)+
      then show False using False map_of_SomeD by fastforce
    qed
    then have start: "lease_inv atomic (m\<lparr>connections := []\<rparr>) gs"
      using assms by (auto simp: lease_inv_def)
    have "lease_inv atomic (fold (insert_definition u) ds (m\<lparr>connections := []\<rparr>)) gs"
      using Inr start none
      by (intro insert_all_induct [where P = "\<lambda>m. lease_inv atomic m gs" and u = u])
        (auto simp: first_invalid_valid intro!: lease_inv_insert)
    then show ?thesis
      using Inr False assms by (simp add: replace_connections_def reset_attempt_windows_def)
  qed (use Inr assms in \<open>auto simp: replace_connections_def\<close>)
qed (simp add: replace_connections_def assms)

lemma lease_inv_acquired:
  assumes "lease_inv atomic m gs" and "acquire_at u now cid r m = (Inr lease, m')"
    and "r < length (records m)" and "atomic \<longrightarrow> map_of (connections m) (cn_id (records m ! r)) = Some r"
  shows "lease_inv atomic m' ((r, lease) # gs)"
  using assms(2)
proof (rule acquire_at_cases)
  fix x w
  assume "m' = (set_record r x m)\<lparr>attempt_windows := w\<rparr>" and "same_definition x (records m ! r)"
    and "\<And>l. Inr lease = Inr l \<Longrightarrow> \<not> in_use (records m ! r) \<and> in_use x \<and>
      cl_id l = cn_id (records m ! r) \<and> borrowed_at l = now"
  then show ?thesis using assms(1,3,4)
    by (auto simp: lease_inv_def same_definition_def)
qed

lemma lease_inv_refused:
  assumes "lease_inv atomic m gs" and "acquire_at u now cid r m = (Inl e, m')" and "r < length (records m)"
  shows "lease_inv atomic m' gs"
  using assms(2) by (rule acquire_at_cases) (use assms in \<open>auto intro: lease_inv_set_record\<close>)

lemma lease_inv_drop:
  assumes "lease_inv atomic m gs" and "(r, lease) \<in> set gs"
  shows "lease_inv atomic (drop_guard now r lease outcome m) (remove1 (r, lease) gs)"
proof -
  have d: "distinct (map fst gs)" and r: "r < length (records m)"
    using assms by (auto simp: lease_inv_def)
  then have "distinct gs" by (simp add: distinct_map)
  then have set: "set (remove1 (r, lease) gs) = set gs - {(r, lease)}" by simp
  have other: "\<And>l. (r, l) \<in> set gs \<Longrightarrow> l = lease"
    using eq_key_imp_eq_value [OF d] assms(2) by blast
  have keys: "fst ` set (remove1 (r, lease) gs) = fst ` set gs - {r}"
    unfolding set using other by force
  have "distinct (map fst (remove1 (r, lease) gs))"
    using d set by (simp add: distinct_map \<open>distinct gs\<close> inj_on_diff)
  moreover have "same_definition (finalize_release (records m ! r) now (borrowed_at lease) outcome) (records m ! r)"
    "\<not> in_use (finalize_release (records m ! r) now (borrowed_at lease) outcome)"
    by (rule finalize_keeps)+
  ultimately show ?thesis
    using assms(1) r other unfolding lease_inv_def drop_guard_def keys
    by (auto simp: set same_definition_def)
qed

section \<open>Along every run\<close>

definition guards_in :: "conn_manager \<Rightarrow> guards \<Rightarrow> bool" where
  "guards_in m gs \<longleftrightarrow> (\<forall>(r, lease)\<in>set gs. r < length (records m))"

lemma length_upsert_each: "length (records m) \<le> length (records (snd (upsert_each u active ds m)))"
  by (induction u active ds m rule: upsert_each.induct)
    (auto simp: split_def Let_def insert_definition_def)

lemma length_insert_all: "length (records m) \<le> length (records (fold (insert_definition u) ds m))"
proof (induction ds arbitrary: m)
  case (Cons d ds)
  have "length (records m) \<le> length (records (insert_definition u d m))"
    by (simp add: insert_definition_def)
  also have "\<dots> \<le> length (records (fold (insert_definition u) ds (insert_definition u d m)))"
    by (rule Cons.IH)
  finally show ?case by simp
qed simp

lemma step_records:
  assumes "conn_step u atomic clearing (m, gs) (m', gs')"
  shows "length (records m) \<le> length (records m')" and "guards_in m gs \<Longrightarrow> guards_in m' gs'"
proof -
  have len: "length (records m) \<le> length (records m')" if "conn_step u atomic clearing (m, gs) (m', gs')"
    using that
  proof (cases rule: conn_step.cases)
    case (acquired now cid r lease)
    from acquired(2) show ?thesis by (rule acquire_at_cases) simp
  next
    case (refused now cid r e)
    from refused(2) show ?thesis by (rule acquire_at_cases) simp
  next
    case (batch_upserted ds)
    then show ?thesis
      by (auto simp: upsert_connections_def reset_attempt_windows_def split_def Let_def
          length_upsert_each split: sum.split)
  next
    case (replaced ds)
    have "length (records m) \<le> length (records (fold (insert_definition u) ds (m\<lparr>connections := []\<rparr>)))"
      using length_insert_all [of "m\<lparr>connections := []\<rparr>" u ds] by simp
    then show ?thesis using replaced
      by (auto simp: replace_connections_def reset_attempt_windows_def split: sum.split)
  qed (auto simp: drop_guard_def register_connection_def upsert_connection_def
      reset_attempt_window_def insert_definition_def split: sum.split)
  then show l: "length (records m) \<le> length (records m')" using assms by blast
  have sub: "set gs' \<subseteq> set gs \<union> {(r, lease) |r lease. r < length (records m)}"
    using assms by (cases rule: conn_step.cases) (auto dest: notin_set_remove1)
  show "guards_in m' gs'" if "guards_in m gs"
    using that sub l by (fastforce simp: guards_in_def)
qed

lemma conn_run_inv:
  assumes "(conn_step u atomic clearing)\<^sup>*\<^sup>* (shared_connection_manager, []) (m, gs)"
  shows "pool_inv u m \<and> guards_in m gs"
  using assms
proof (induction "(m, gs)" arbitrary: m gs rule: rtranclp_induct)
  case base
  then show ?case by (simp add: pool_inv_init guards_in_def)
next
  case (step s)
  obtain m1 gs1 where s: "s = (m1, gs1)" by (cases s)
  have "pool_inv u m1" "guards_in m1 gs1" using step(3) [OF s] by simp_all
  moreover have "conn_step u atomic clearing (m1, gs1) (m, gs)" using step(2) s by simp
  ultimately show ?case
    by (auto intro: pool_inv_step [unfolded guards_in_def [symmetric]] step_records(2))
qed

lemma lease_inv_step:
  assumes "conn_step u atomic False (m, gs) (m', gs')" and "lease_inv atomic m gs" and "pool_inv u m"
  shows "lease_inv atomic m' gs'"
  using assms(1)
proof (cases rule: conn_step.cases)
  case (acquired now cid r lease)
  have "atomic \<longrightarrow> map_of (connections m) (cn_id (records m ! r)) = Some r"
    using acquired(4) assms(3) by (auto simp: pool_inv_def)
  then show ?thesis using acquired assms(2) by (auto intro: lease_inv_acquired)
next
  case (refused now cid r e)
  then show ?thesis using assms(2) by (auto intro: lease_inv_refused)
next
  case (touched r op now)
  then show ?thesis using assms(2) by (auto intro!: lease_inv_set_record op_keeps)
qed (use assms(2) in \<open>auto intro: lease_inv_drop lease_inv_register lease_inv_upsert lease_inv_batch
      lease_inv_replace\<close>)

lemma lease_run_inv:
  assumes "(conn_step u atomic False)\<^sup>*\<^sup>* (shared_connection_manager, []) (m, gs)"
  shows "lease_inv atomic m gs"
  using assms
proof (induction "(m, gs)" arbitrary: m gs rule: rtranclp_induct)
  case base
  then show ?case by (simp add: lease_inv_def shared_connection_manager_def)
next
  case (step s)
  obtain m1 gs1 where s: "s = (m1, gs1)" by (cases s)
  show ?case
    using step(2) step(3) [OF s] conn_run_inv [OF step(1) [unfolded s]] s
    by (auto intro: lease_inv_step)
qed

text \<open>
  C12: along every run in which no operation clears the flag of a connection that is lent out, each
  record is lent at most once, and it is marked in use exactly while its guard exists. When moreover
  every borrower locks the record the pool still holds for the name, a name is lent at most once.
\<close>

theorem leases_are_exclusive:
  assumes "(conn_step u atomic False)\<^sup>*\<^sup>* (shared_connection_manager, []) (m, gs)"
  shows "distinct (map fst gs) \<and>
    (\<forall>r<length (records m). in_use (records m ! r) \<longleftrightarrow> r \<in> fst ` set gs) \<and>
    (atomic \<longrightarrow> distinct (map (cl_id \<circ> snd) gs))"
proof -
  have inv: "lease_inv atomic m gs" using assms by (rule lease_run_inv)
  have "distinct (map (cl_id \<circ> snd) gs)" if "atomic"
  proof -
    have "distinct gs" and inj: "inj_on fst (set gs)"
      using inv by (simp_all add: lease_inv_def distinct_map)
    have "inj_on (cl_id \<circ> snd) (set gs)"
    proof (rule inj_onI)
      fix x y assume x: "x \<in> set gs" and y: "y \<in> set gs" and eq: "(cl_id \<circ> snd) x = (cl_id \<circ> snd) y"
      have "map_of (connections m) ((cl_id \<circ> snd) x) = Some (fst x)"
        "map_of (connections m) ((cl_id \<circ> snd) y) = Some (fst y)"
        using inv x y that by (auto simp: lease_inv_def)
      then have "fst x = fst y" using eq by simp
      then show "x = y" using inj x y by (auto dest: inj_onD)
    qed
    then show ?thesis using \<open>distinct gs\<close> by (simp add: distinct_map)
  qed
  then show ?thesis using inv by (simp add: lease_inv_def)
qed

definition plc :: connection_definition where
  "plc = \<lparr>cd_id = ''plc'', cd_kind = '' Modbus'',
     cd_metadata = JObject [(''host'', JString ''10.0.0.2''), (''port'', JNumber (PosInt 502))]\<rparr>"

definition any_url :: "string \<Rightarrow> string option" where
  "any_url s = None"

definition plc_pool :: conn_manager where
  "plc_pool = snd (register_connection any_url plc shared_connection_manager)"

definition plc_lease :: "time \<Rightarrow> connection_lease" where
  "plc_lease t = \<lparr>cl_id = ''plc'', cl_kind = '' Modbus'', cl_metadata = cd_metadata plc, borrowed_at = t\<rparr>"

lemma plc_kind: "normalize_connection_kind '' Modbus'' = ''modbus''"
  by code_simp

lemma plc_modbus: "validate_modbus (metadata_object (cd_metadata plc)) = None"
  by code_simp

lemma plc_valid: "validate_connection_definition any_url '' Modbus'' (cd_metadata plc) = Inr ()"
  unfolding validate_connection_definition_def plc_kind plc_modbus Let_def by simp

lemma plc_policy: "policy_from_metadata (cd_metadata plc) = default_policy"
  by code_simp

lemma plc_fields: "cd_id plc = ''plc''" "cd_kind plc = '' Modbus''"
  by (simp_all add: plc_def)

definition plc_record :: connection_record where
  "plc_record =
     \<lparr>cn_id = ''plc'', cn_kind = '' Modbus'', cn_metadata = cd_metadata plc, in_use = False,
      last_borrowed_at = None,
      health = default_health\<lparr>phase := Idle, diagnosis := Some (Msg ''definition-ready'' []),
        recommended_action := Some (Msg ''deploy-trigger-or-test'' [])\<rparr>\<rparr>"

lemma plc_build: "build_record any_url plc = plc_record"
  by (simp add: build_record_def refresh_definition_diagnosis_def plc_fields plc_valid plc_record_def)

lemma plc_pool_eq:
  "plc_pool = \<lparr>connections = [(''plc'', 0)], records = [plc_record], attempt_windows = [(''plc'', [])],
     shared_sessions = [], initializers = []\<rparr>"
  by (simp add: plc_pool_def register_connection_def shared_connection_manager_def hm_contains_def
      plc_fields plc_valid reset_attempt_window_def insert_definition_def plc_build hm_insert_def)

lemma plc_reconciled: "reconcile_timed_state plc_record default_policy t = plc_record"
  by (simp add: reconcile_timed_state_def plc_record_def default_health_def reconcile_rate_limit_def
      reconcile_circuit_def reconcile_retry_def reconcile_unused_def until_passed_def)

lemma plc_record_simps:
  "cn_id plc_record = ''plc''" "cn_kind plc_record = '' Modbus''" "cn_metadata plc_record = cd_metadata plc"
  "\<not> in_use plc_record" "circuit_open_until (health plc_record) = None"
  "rate_limited_until (health plc_record) = None"
  by (simp_all add: plc_record_def default_health_def)

lemma default_limits:
  "rate_limit_max_attempts default_policy = 8" "rate_limit_window_ms default_policy = 10000"
  by (simp_all add: default_policy_def)

lemmas plc_evaluate = acquire_at_def plc_record_simps plc_policy plc_reconciled plc_valid plc_fields plc_build
  until_pending_def register_attempt_def window_attempt_def default_limits set_record_def
  hm_insert_def plc_lease_def duration_ms_def Let_def

lemma plc_acquire:
  "acquire_at any_url t ''plc'' 0 plc_pool =
    (Inr (plc_lease t),
     plc_pool\<lparr>records := [borrow_record plc_record t], attempt_windows := [(''plc'', [t])]\<rparr>)"
  by (simp add: plc_pool_eq plc_evaluate)

lemma plc_pool_run:
  "(conn_step any_url atomic clearing)\<^sup>*\<^sup>* (shared_connection_manager, []) (plc_pool, [])"
  unfolding plc_pool_def by (rule r_into_rtranclp) (rule registered)

lemma plc_held_run:
  "(conn_step any_url atomic clearing)\<^sup>*\<^sup>* (shared_connection_manager, [])
    (plc_pool\<lparr>records := [borrow_record plc_record t], attempt_windows := [(''plc'', [t])]\<rparr>,
     [(0, plc_lease t)])"
  by (rule rtranclp.rtrancl_into_rtrancl [OF plc_pool_run], rule acquired [OF plc_acquire])
    (simp_all add: plc_pool_eq)

theorem leases_are_exclusive_witness:
  "distinct (map (cl_id \<circ> snd) [(0 :: nat, plc_lease 5)]) \<and> in_use (borrow_record plc_record 5)"
  using leases_are_exclusive [OF plc_held_run [of True False 5]] by (simp add: plc_pool_eq)

text \<open>
  The two hypotheses are needed. A borrower that looked the record up before the definition was
  replaced borrows the old record, and the name can be lent a second time; and an operation that
  marks a lent connection as disconnected lets it be lent again, with two guards on one record.
\<close>

lemma stale_lookup_lends_twice:
  "\<exists>m. (conn_step any_url False False)\<^sup>*\<^sup>* (shared_connection_manager, [])
     (m, [(1, plc_lease 6), (0, plc_lease 5)])"
proof -
  define m1 where "m1 = snd (upsert_connection any_url plc plc_pool)"
  have m1: "m1 = \<lparr>connections = [(''plc'', 1)], records = [plc_record, plc_record],
      attempt_windows = [(''plc'', [])], shared_sessions = [], initializers = []\<rparr>"
    by (simp add: m1_def upsert_connection_def plc_pool_eq hm_contains_def used_at_def
        reset_attempt_window_def insert_definition_def plc_evaluate)
  define m2 where "m2 = snd (acquire_at any_url 5 ''plc'' 0 m1)"
  have acquire1: "acquire_at any_url 5 ''plc'' 0 m1 = (Inr (plc_lease 5), m2)"
    by (simp add: m2_def m1 plc_evaluate)
  have m2: "m2 = m1\<lparr>records := [borrow_record plc_record 5, plc_record], attempt_windows := [(''plc'', [5])]\<rparr>"
    by (simp add: m2_def m1 plc_evaluate)
  define m3 where "m3 = snd (acquire_at any_url 6 ''plc'' 1 m2)"
  have acquire2: "acquire_at any_url 6 ''plc'' 1 m2 = (Inr (plc_lease 6), m3)"
    by (simp add: m3_def m1 m2 plc_evaluate)
  have "conn_step any_url False False (plc_pool, []) (m1, [])"
    unfolding m1_def by (rule upserted)
  moreover have "conn_step any_url False False (m1, []) (m2, [(0, plc_lease 5)])"
    by (rule acquired [OF acquire1]) (simp_all add: m1)
  moreover have "conn_step any_url False False (m2, [(0, plc_lease 5)])
      (m3, [(1, plc_lease 6), (0, plc_lease 5)])"
    by (rule acquired [OF acquire2]) (simp_all add: m1 m2)
  ultimately show ?thesis
    by (intro exI [of _ m3]) (meson plc_pool_run rtranclp.rtrancl_into_rtrancl)
qed

lemma disconnect_lends_twice:
  "\<exists>m. (conn_step any_url True True)\<^sup>*\<^sup>* (shared_connection_manager, [])
     (m, [(0, plc_lease 7), (0, plc_lease 5)])"
proof -
  define lent where "lent = borrow_record plc_record 5"
  define m1 where "m1 = plc_pool\<lparr>records := [lent], attempt_windows := [(''plc'', [5])]\<rparr>"
  define gone where "gone = apply_op (Disconnect (Msg ''unplugged'' [])) 6 lent"
  define m2 where "m2 = set_record 0 gone m1"
  have gone: "reconcile_timed_state gone default_policy 7 = gone" "\<not> in_use gone"
    "cn_kind gone = '' Modbus''" "cn_id gone = ''plc''" "cn_metadata gone = cd_metadata plc"
    "circuit_open_until (health gone) = None" "rate_limited_until (health gone) = None"
    by (simp_all add: gone_def lent_def disconnected_def borrow_record_def plc_record_def
        default_health_def reconcile_timed_state_def reconcile_rate_limit_def reconcile_circuit_def
        reconcile_retry_def reconcile_unused_def until_passed_def)
  have m2: "m2 = plc_pool\<lparr>records := [gone], attempt_windows := [(''plc'', [5])]\<rparr>"
    by (simp add: m2_def m1_def set_record_def)
  define m3 where "m3 = snd (acquire_at any_url 7 ''plc'' 0 m2)"
  have again: "acquire_at any_url 7 ''plc'' 0 m2 = (Inr (plc_lease 7), m3)"
    by (simp add: m3_def m2 plc_pool_eq gone plc_evaluate)
  have "(conn_step any_url True True)\<^sup>*\<^sup>* (shared_connection_manager, []) (m1, [(0, plc_lease 5)])"
    unfolding m1_def lent_def by (rule plc_held_run)
  moreover have "conn_step any_url True True (m1, [(0, plc_lease 5)]) (m2, [(0, plc_lease 5)])"
    using touched [of 0 m1 "Disconnect (Msg ''unplugged'' [])" True any_url True "[(0, plc_lease 5)]" 6]
    by (simp add: m2_def gone_def m1_def)
  moreover have "conn_step any_url True True (m2, [(0, plc_lease 5)]) (m3, [(0, plc_lease 7), (0, plc_lease 5)])"
    by (rule acquired [OF again]) (simp_all add: m2 plc_pool_eq)
  ultimately show ?thesis
    by (intro exI [of _ m3]) (meson rtranclp.rtrancl_into_rtrancl)
qed

end
