(* ===== verification/Conn_Recovery.thy ===== *)
theory Conn_Recovery
  imports Conn_Safety
begin

text \<open>
  What the connection pool promises its users: the circuit breaker and the rate limit hold callers
  back, no connection stays unavailable for ever, a batch of definitions is taken whole or not at
  all, a released connection is free again, and one session object is shared by all its users.
\<close>

section \<open>The circuit breaker\<close>

definition report_failure :: "string \<Rightarrow> time \<times> msg \<times> bool \<Rightarrow> conn_manager \<Rightarrow> conn_manager" where
  "report_failure cid f m =
     (let (now, reason, is_timeout) = f
      in snd (if is_timeout then record_timeout cid reason now m else record_connect_failure cid reason now m))"

definition fail_once :: "connection_record \<Rightarrow> time \<times> msg \<times> bool \<Rightarrow> connection_record" where
  "fail_once x f =
     (let (now, reason, is_timeout) = f
      in snd (apply_runtime_failure x (policy_from_metadata (cn_metadata x)) now reason is_timeout))"

lemma report_failure_record:
  assumes "map_of (connections m) cid = Some r"
  shows "report_failure cid f m = set_record r (fail_once (records m ! r) f) m"
  using assms
  by (cases f) (auto simp: report_failure_def fail_once_def record_timeout_def
      record_connect_failure_def with_entry_def entry_def split_def Let_def)

lemma report_failures_record:
  assumes "map_of (connections m) cid = Some r" and "r < length (records m)"
  shows "fold (report_failure cid) fs m = set_record r (foldl fail_once (records m ! r) fs) m"
  using assms
  by (induction fs arbitrary: m) (simp_all add: report_failure_record set_record_def)

lemma failure_count:
  "consecutive_failures (health (snd (apply_runtime_failure x p now reason b))) =
    sat_add (consecutive_failures (health x)) 1"
  by (simp add: apply_runtime_failure_def Let_def)

lemma fail_once_keeps:
  "same_definition (fail_once x f) x" "in_use (fail_once x f) = in_use x"
  "unat (consecutive_failures (health (fail_once x f))) =
    min (unat (consecutive_failures (health x)) + 1) (2 ^ 32 - 1)"
proof -
  obtain now reason b where f: "f = (now, reason, b)" by (cases f)
  show "same_definition (fail_once x f) x" "in_use (fail_once x f) = in_use x"
    by (simp_all add: f fail_once_def keeps)
  show "unat (consecutive_failures (health (fail_once x f))) =
      min (unat (consecutive_failures (health x)) + 1) (2 ^ 32 - 1)"
    by (simp add: f fail_once_def failure_count unat_sat_add)
qed

lemma fail_all_keeps:
  "same_definition (foldl fail_once x fs) x" "in_use (foldl fail_once x fs) = in_use x"
  "unat (consecutive_failures (health (foldl fail_once x fs))) =
    min (unat (consecutive_failures (health x)) + length fs) (2 ^ 32 - 1)"
proof (induction fs rule: rev_induct)
  case Nil
  have "unat (consecutive_failures (health x)) < 2 ^ 32"
    using unsigned_less [of "consecutive_failures (health x)"] by simp
  case 1 show ?case by simp
  case 2 show ?case by simp
  case 3 show ?case using \<open>_ < 2 ^ 32\<close> by simp
next
  case (snoc f fs)
  case 1 show ?case using snoc(1) same_definition_trans [OF fail_once_keeps(1)] by simp
  case 2 show ?case using snoc(2) by (simp add: fail_once_keeps)
  case 3 show ?case using snoc(3) by (simp add: fail_once_keeps)
qed

lemma opened_circuit:
  assumes "unat (circuit_failure_threshold (policy_from_metadata (cn_metadata x)))
      \<le> unat (consecutive_failures (health x)) + 1"
  shows "phase (health (fail_once x (t, reason, b))) = CircuitOpen"
    and "circuit_open_until (health (fail_once x (t, reason, b))) =
      Some (t + duration_ms (circuit_open_ms (policy_from_metadata (cn_metadata x))))"
    and "last_failure_reason (health (fail_once x (t, reason, b))) = Some reason"
proof -
  let ?p = "policy_from_metadata (cn_metadata x)"
  have "unat (circuit_failure_threshold ?p) < 2 ^ 32"
    using unsigned_less [of "circuit_failure_threshold ?p"] by simp
  then have "circuit_failure_threshold ?p \<le> sat_add (consecutive_failures (health x)) 1"
    using assms by (simp add: word_le_nat_alt unat_sat_add)
  then show "phase (health (fail_once x (t, reason, b))) = CircuitOpen"
    and "circuit_open_until (health (fail_once x (t, reason, b))) = Some (t + duration_ms (circuit_open_ms ?p))"
    and "last_failure_reason (health (fail_once x (t, reason, b))) = Some reason"
    by (simp_all add: fail_once_def apply_runtime_failure_def Let_def)
qed

lemma reconcile_open_circuit:
  assumes "phase (health x) = CircuitOpen" and "circuit_open_until (health x) = Some t" and "now < t"
  shows "circuit_open_until (health (reconcile_timed_state x p now)) = Some t"
    and "last_failure_reason (health (reconcile_timed_state x p now)) = last_failure_reason (health x)"
  using assms
  by (auto simp: reconcile_timed_state_def reconcile_rate_limit_def reconcile_circuit_def
      reconcile_retry_def reconcile_unused_def until_passed_def Let_def split: option.split)

lemma acquire_open_circuit:
  assumes "map_of (connections m) cid = Some r" and "r < length (records m)"
    and "\<not> in_use (records m ! r)" and "valid_record u (records m ! r)"
    and "phase (health (records m ! r)) = CircuitOpen"
    and "circuit_open_until (health (records m ! r)) = Some t" and "now < t"
    and "last_failure_reason (health (records m ! r)) = Some reason"
  shows "fst (acquire u now cid m) = Inl (ConnectionCircuitOpen cid (remaining_ms t now) reason)"
proof -
  let ?x = "reconcile_timed_state (records m ! r) (policy_from_metadata (cn_metadata (records m ! r))) now"
  have "same_definition ?x (records m ! r)" "\<not> in_use ?x" using assms(3) by (simp_all add: keeps)
  then have "validate_connection_definition u (cn_kind ?x) (cn_metadata ?x) = Inr ()"
    using assms(4) by (simp add: valid_record_def same_definition_def is_ok_iff)
  then show ?thesis
    using assms \<open>\<not> in_use ?x\<close> reconcile_open_circuit [OF assms(5,6,7)]
    by (simp add: acquire_def entry_def acquire_at_def Let_def until_pending_def)
qed

text \<open>
  C14: once as many failures as the policy allows have been reported in a row on a connection with a
  valid configuration that is not lent out, whether as failed connects or as timeouts, every attempt to
  borrow it before the cool-down has passed is refused, with the time that is left and the reason of the
  last failure.
\<close>

theorem circuit_breaker_blocks:
  fixes m cid r
  defines "x \<equiv> records m ! r"
  defines "p \<equiv> policy_from_metadata (cn_metadata x)"
  assumes "map_of (connections m) cid = Some r" and "r < length (records m)"
    and "\<not> in_use x" and "valid_record u x" and "fs \<noteq> []" and "last fs = (t, reason, b)"
    and "unat (circuit_failure_threshold p) \<le> unat (consecutive_failures (health x)) + length fs"
    and "now < t + duration_ms (circuit_open_ms p)"
  shows "fst (acquire u now cid (fold (report_failure cid) fs m)) =
    Inl (ConnectionCircuitOpen cid (remaining_ms (t + duration_ms (circuit_open_ms p)) now) reason)"
proof -
  obtain fs' where fs: "fs = fs' @ [(t, reason, b)]"
    using assms(7,8) by (metis append_butlast_last_id)
  let ?y = "foldl fail_once x fs'"
  have y: "same_definition ?y x" "in_use ?y = in_use x" by (rule fail_all_keeps)+
  then have py: "policy_from_metadata (cn_metadata ?y) = p" by (simp add: p_def same_definition_def)
  have "unat (circuit_failure_threshold p) < 2 ^ 32"
    using unsigned_less [of "circuit_failure_threshold p"] by simp
  then have "unat (circuit_failure_threshold p) \<le> unat (consecutive_failures (health ?y)) + 1"
    using assms(9) fs by (simp add: fail_all_keeps min_def)
  note opened = opened_circuit [of ?y t reason b, unfolded py, OF this]
  let ?z = "fail_once ?y (t, reason, b)"
  have z: "same_definition ?z x" "in_use ?z = in_use x"
    using y fail_once_keeps same_definition_trans by blast+
  have m': "fold (report_failure cid) fs m = set_record r ?z m"
    using report_failures_record [OF assms(3,4), of fs] by (simp add: x_def fs)
  show ?thesis
    unfolding m' using assms(3-6,10) opened z
    by (intro acquire_open_circuit [where r = r])
      (simp_all add: valid_record_def same_definition_def)
qed

theorem circuit_breaker_blocks_witness:
  "fst (acquire any_url 9 ''plc''
      (fold (report_failure ''plc'')
        [(1, Msg ''refused'' [], False), (2, Msg ''silent'' [], True), (3, Msg ''refused'' [], False)] plc_pool)) =
    Inl (ConnectionCircuitOpen ''plc'' (remaining_ms (3 + duration_ms 15000) 9) (Msg ''refused'' []))"
proof -
  have "circuit_failure_threshold default_policy = 3" "circuit_open_ms default_policy = 15000"
    by (simp_all add: default_policy_def)
  moreover have "consecutive_failures (health plc_record) = 0"
    by (simp add: plc_record_def default_health_def)
  ultimately show ?thesis
    using circuit_breaker_blocks [where m = plc_pool and cid = "''plc''" and r = 0 and u = any_url
        and fs = "[(1, Msg ''refused'' [], False), (2, Msg ''silent'' [], True), (3, Msg ''refused'' [], False)]"
        and now = 9 and t = 3 and reason = "Msg ''refused'' []" and b = False]
    by (simp add: plc_pool_eq plc_record_simps plc_policy valid_record_def plc_valid duration_ms_def)
qed

section \<open>The rate limit\<close>

text \<open>The instants of the attempts that were let through.\<close>

fun attempt_all :: "string \<Rightarrow> governance_policy \<Rightarrow> time list \<Rightarrow> conn_manager \<Rightarrow> time list \<times> conn_manager" where
  "attempt_all cid p [] m = ([], m)"
| "attempt_all cid p (t # ts) m =
     (case register_attempt cid p t m of
        (Inl _, m') \<Rightarrow> attempt_all cid p ts m'
      | (Inr _, m') \<Rightarrow> (let (granted, m'') = attempt_all cid p ts m' in (t # granted, m'')))"

fun granted_from :: "governance_policy \<Rightarrow> time list \<Rightarrow> time list \<Rightarrow> time list" where
  "granted_from p [] w = []"
| "granted_from p (t # ts) w =
     (case window_attempt p t w of
        (Inl _, w') \<Rightarrow> granted_from p ts w'
      | (Inr _, w') \<Rightarrow> t # granted_from p ts w')"

definition window_of :: "conn_manager \<Rightarrow> string \<Rightarrow> time list" where
  "window_of m cid = (case map_of (attempt_windows m) cid of Some w \<Rightarrow> w | None \<Rightarrow> [])"

lemma register_attempt_window:
  assumes "window_attempt p t (window_of m cid) = (res, w')"
  shows "\<exists>m'. register_attempt cid p t m = (res, m') \<and> window_of m' cid = w'"
  using assms by (simp add: register_attempt_def window_of_def Let_def)

lemma attempt_all_granted: "fst (attempt_all cid p ts m) = granted_from p ts (window_of m cid)"
proof (induction ts arbitrary: m)
  case (Cons t ts)
  obtain res w' where w: "window_attempt p t (window_of m cid) = (res, w')" by fastforce
  with register_attempt_window obtain m' where "register_attempt cid p t m = (res, m')" "window_of m' cid = w'"
    by blast
  then show ?case using w Cons.IH [of m'] by (cases res) (auto simp: split_def Let_def)
qed simp

lemma granted_subset: "set (granted_from p ts w) \<subseteq> set ts"
proof (induction ts arbitrary: w)
  case (Cons t ts)
  obtain res w' where w: "window_attempt p t w = (res, w')" by fastforce
  then show ?case using Cons.IH [of w'] by (cases res) auto
qed simp

definition in_span :: "time \<Rightarrow> governance_policy \<Rightarrow> time \<Rightarrow> bool" where
  "in_span a p t \<longleftrightarrow> a \<le> t \<and> t \<le> a + duration_ms (rate_limit_window_ms p)"

lemma window_bound:
  assumes "sorted ts" and "length w \<le> unat (rate_limit_max_attempts p)"
  shows "length (filter (in_span a p) (w @ granted_from p ts w)) \<le> unat (rate_limit_max_attempts p)"
  using assms
proof (induction ts arbitrary: w)
  case Nil
  then show ?case by (auto intro: order_trans [OF length_filter_le])
next
  case (Cons t ts)
  define cutoff where "cutoff = t - duration_ms (rate_limit_window_ms p)"
  define kept where "kept = dropWhile (\<lambda>x. x < cutoff) w"
  define old where "old = takeWhile (\<lambda>x. x < cutoff) w"
  define rest where "rest = granted_from p (t # ts) w"
  have w: "w = old @ kept" by (simp add: old_def kept_def)
  have later: "\<forall>x\<in>set rest. t \<le> x"
    using granted_subset [of p "t # ts" w] Cons.prems(1) by (auto simp: rest_def)
  show ?case
  proof (cases "\<exists>x\<in>set old. in_span a p x")
    case True
    then have "a < cutoff" by (auto simp: old_def in_span_def dest: set_takeWhileD)
    then have none: "filter (in_span a p) rest = []"
      using later by (auto simp: filter_empty_conv in_span_def cutoff_def)
    have "length (filter (in_span a p) (w @ rest)) \<le> length w"
      using none by (simp add: length_filter_le)
    then show ?thesis using Cons.prems(2) by (simp add: rest_def)
  next
    case False
    then have drop: "filter (in_span a p) (w @ rest) = filter (in_span a p) (kept @ rest)"
      by (simp add: w filter_empty_conv)
    have kept: "length kept \<le> unat (rate_limit_max_attempts p)"
      using Cons.prems(2) w by simp
    show ?thesis
    proof (cases "length kept \<ge> unat (rate_limit_max_attempts p)")
      case True
      then have "rest = granted_from p ts kept"
        by (simp add: rest_def window_attempt_def kept_def cutoff_def)
      then show ?thesis using drop Cons.IH [of kept] Cons.prems(1) kept by (simp add: rest_def)
    next
      case False
      then have "rest = t # granted_from p ts (kept @ [t])"
        by (simp add: rest_def window_attempt_def kept_def cutoff_def)
      then show ?thesis using drop Cons.IH [of "kept @ [t]"] Cons.prems(1) False by (simp add: rest_def)
    qed
  qed
qed

text \<open>
  However often a connection is asked for, in any stretch of time as long as the rate limit
  window at most the configured number of attempts is let through, as long as the clock does not go
  back and the window is not reset.
\<close>

theorem attempts_are_limited:
  assumes "sorted ts" and "window_of m cid = []"
  shows "length (filter (in_span a p) (fst (attempt_all cid p ts m))) \<le> unat (rate_limit_max_attempts p)"
  using window_bound [OF assms(1), of "[]" p a] assms(2) by (simp add: attempt_all_granted)

theorem attempts_are_limited_witness:
  "length (filter (in_span 0 default_policy) (fst (attempt_all ''plc'' default_policy [0, 1, 2] plc_pool))) \<le> 8"
  using attempts_are_limited [of "[0, 1, 2]" plc_pool "''plc''" 0 default_policy]
  by (simp add: window_of_def plc_pool_eq default_limits)

text \<open>
  The proviso matters: taking a batch of definitions, even of other connections or an empty one,
  replaces the windows of all connections, so the attempts made so far no longer count.
\<close>

lemma empty_windows:
  "map_of (fold (\<lambda>cid. hm_insert cid []) ids ws) cid = (if cid \<in> set ids then Some [] else map_of ws cid)"
  by (induction ids arbitrary: ws) auto

lemma batch_forgets_attempts:
  assumes "fst (upsert_connections u ds m) = Inr ids"
  shows "window_of (snd (upsert_connections u ds m)) cid = []"
  using assms
  by (auto simp: upsert_connections_def reset_attempt_windows_def window_of_def split_def Let_def empty_windows
      split: sum.splits)

section \<open>Availability\<close>

lemma bounded_above: "\<exists>T. \<forall>x\<in>set xs. x < T" for xs :: "int list"
proof (induction xs)
  case (Cons x xs)
  then obtain T where "\<forall>y\<in>set xs. y < T" by blast
  then show ?case by (intro exI [of _ "max T (x + 1)"]) auto
qed simp

text \<open>Instant \<open>T\<close> is past every deadline of a record and every attempt of its window.\<close>

definition deadlines :: "connection_record \<Rightarrow> time list" where
  "deadlines x =
     (case circuit_open_until (health x) of Some t \<Rightarrow> [t] | None \<Rightarrow> []) @
     (case rate_limited_until (health x) of Some t \<Rightarrow> [t] | None \<Rightarrow> [])"

lemma reconcile_other_deadlines:
  "circuit_open_until (reconcile_rate_limit now h) = circuit_open_until h"
  "circuit_open_until (reconcile_retry now b h) = circuit_open_until h"
  "circuit_open_until (reconcile_unused p now b h) = circuit_open_until h"
  "rate_limited_until (reconcile_circuit now h) = rate_limited_until h"
  "rate_limited_until (reconcile_retry now b h) = rate_limited_until h"
  "rate_limited_until (reconcile_unused p now b h) = rate_limited_until h"
  by (auto simp: reconcile_rate_limit_def reconcile_circuit_def reconcile_retry_def reconcile_unused_def
      Let_def split: option.split)

lemma reconcile_clears_deadlines:
  assumes "\<forall>t\<in>set (deadlines x). t < now"
  shows "circuit_open_until (health (reconcile_timed_state x p now)) = None"
    and "rate_limited_until (health (reconcile_timed_state x p now)) = None"
proof -
  have circuit: "circuit_open_until (reconcile_circuit now h) = None"
    if "\<And>t. circuit_open_until h = Some t \<Longrightarrow> t \<le> now" for h
    using that by (cases "circuit_open_until h") (auto simp: reconcile_circuit_def until_passed_def Let_def)
  have limit: "rate_limited_until (reconcile_rate_limit now h) = None"
    if "\<And>t. rate_limited_until h = Some t \<Longrightarrow> t \<le> now" for h
    using that by (cases "rate_limited_until h") (auto simp: reconcile_rate_limit_def until_passed_def Let_def)
  have past: "circuit_open_until (health x) = Some t \<Longrightarrow> t \<le> now"
    "rate_limited_until (health x) = Some t \<Longrightarrow> t \<le> now" for t
    using assms by (auto simp: deadlines_def)
  show "circuit_open_until (health (reconcile_timed_state x p now)) = None"
    using circuit [of "reconcile_rate_limit now (health x)"] past(1)
    by (simp add: reconcile_timed_state_def reconcile_other_deadlines)
  show "rate_limited_until (health (reconcile_timed_state x p now)) = None"
    using limit [of "health x"] past(2)
    by (simp add: reconcile_timed_state_def reconcile_other_deadlines)
qed

lemma acquire_after_deadlines:
  fixes m r
  defines "p \<equiv> policy_from_metadata (cn_metadata (records m ! r))"
  assumes "map_of (connections m) cid = Some r" and "\<not> in_use (records m ! r)"
    and "valid_record u (records m ! r)" and "\<forall>t\<in>set (deadlines (records m ! r)). t < now"
    and "\<forall>t\<in>set (window_of m cid). t < now - duration_ms (rate_limit_window_ms p)"
  shows "\<exists>lease. fst (acquire u now cid m) = Inr (r, lease)"
proof -
  let ?x = "reconcile_timed_state (records m ! r) p now"
  have x: "same_definition ?x (records m ! r)" "\<not> in_use ?x" using assms(3) by (simp_all add: keeps)
  then have valid: "validate_connection_definition u (cn_kind ?x) (cn_metadata ?x) = Inr ()"
    using assms(4) by (simp add: valid_record_def same_definition_def is_ok_iff)
  have "0 < unat (rate_limit_max_attempts p)"
    using policy_floors(2) [of "cn_metadata (records m ! r)"] by (simp add: p_def)
  moreover have all_old: "dropWhile (\<lambda>t. t < now - duration_ms (rate_limit_window_ms p)) (window_of m cid) = []"
    using assms(6) by simp
  ultimately have "\<exists>m'. register_attempt cid p now (set_record r ?x m) = (Inr (), m')"
    by (simp add: all_old register_attempt_def window_attempt_def window_of_def [symmetric] Let_def)
  then show ?thesis
    using assms(2) x valid reconcile_clears_deadlines [OF assms(5), of p]
    by (auto simp: acquire_def entry_def acquire_at_def Let_def until_pending_def p_def [symmetric])
qed

text \<open>
  C13: no state the pool can reach keeps a connection out of service: a connection that is not lent
  out can be borrowed at every instant from some point on, whatever failures, open circuits and rate
  limits have gone before. (Instants are unbounded; the overflow of dates in the far future is left out.)
\<close>

theorem connection_becomes_available:
  assumes "(conn_step u atomic clearing)\<^sup>*\<^sup>* (shared_connection_manager, []) (m, gs)"
    and "map_of (connections m) cid = Some r" and "\<not> in_use (records m ! r)"
  shows "\<exists>T. \<forall>now\<ge>T. \<exists>lease. fst (acquire u now cid m) = Inr (r, lease)"
proof -
  let ?x = "records m ! r"
  let ?p = "policy_from_metadata (cn_metadata ?x)"
  have "valid_record u ?x"
    using conn_run_inv [OF assms(1)] assms(2) by (auto simp: pool_inv_def)
  obtain T where T: "\<forall>t\<in>set (deadlines ?x @ map (\<lambda>t. t + duration_ms (rate_limit_window_ms ?p)) (window_of m cid)). t < T"
    using bounded_above by blast
  show ?thesis
  proof (rule exI [of _ T], rule allI, rule impI)
    fix now assume "T \<le> now"
    then show "\<exists>lease. fst (acquire u now cid m) = Inr (r, lease)"
      using T assms(2,3) \<open>valid_record u ?x\<close>
      by (intro acquire_after_deadlines) (auto simp: algebra_simps intro: less_le_trans)
  qed
qed

theorem connection_becomes_available_witness:
  "\<exists>T. \<forall>now\<ge>T. \<exists>lease. fst (acquire any_url now ''plc'' plc_pool) = Inr (0, lease)"
  by (rule connection_becomes_available [OF plc_pool_run [of True True]])
    (simp_all add: plc_pool_eq plc_record_simps)

section \<open>Releasing\<close>

text \<open>
  Dropping a guard always frees the record. The connection is healthy afterwards exactly when the
  operation was marked successful and stayed within the operation timeout; and one lease adds at most
  one failure: for an overrun, or for a marked failure that was not already reported in the meantime.
\<close>

theorem release_outcome:
  fixes x now b outcome
  defines "y \<equiv> finalize_release x now b outcome"
  defines "overrun \<equiv> elapsed_ms now b > operation_timeout_ms (policy_from_metadata (cn_metadata x))"
  defines "fails \<equiv> (case outcome of Failure s \<Rightarrow> \<not> failure_recorded_during_lease x b | _ \<Rightarrow> False)"
  shows "\<not> in_use y \<and> same_definition y x \<and>
    (phase (health y) = Healthy \<longleftrightarrow> outcome = Success \<and> \<not> overrun) \<and>
    total_failures (health y) =
      (if overrun \<or> fails then sat_add (total_failures (health x)) 1 else total_failures (health x))"
proof -
  have failed: "phase (health (snd (apply_runtime_failure z p t r k))) \<noteq> Healthy"
    "total_failures (health (snd (apply_runtime_failure z p t r k))) = sat_add (total_failures (health z)) 1"
    for z p t r k
    by (simp_all add: apply_runtime_failure_def Let_def)
  have recorded: "failure_recorded_during_lease (x\<lparr>in_use := False,
      health := (health x)\<lparr>last_released_at := v1, last_checked_at := v2, last_latency_ms := v3\<rparr>\<rparr>) b
      = failure_recorded_during_lease x b" for v1 v2 v3
    by (simp add: failure_recorded_during_lease_def)
  have phase: "failure_recorded_during_lease x b \<Longrightarrow> phase (health x) \<noteq> Healthy"
    by (auto simp: failure_recorded_during_lease_def)
  have "(phase (health y) = Healthy \<longleftrightarrow> outcome = Success \<and> \<not> overrun) \<and>
    total_failures (health y) =
      (if overrun \<or> fails then sat_add (total_failures (health x)) 1 else total_failures (health x))"
  proof (cases overrun)
    case True
    then show ?thesis
      by (simp add: y_def overrun_def finalize_release_def Let_def failed)
  next
    case False
    then show ?thesis
      by (cases outcome)
        (auto simp: y_def overrun_def fails_def finalize_release_def Let_def failed recorded dest: phase)
  qed
  then show ?thesis using finalize_keeps by (simp add: y_def)
qed

section \<open>Batches of definitions\<close>

lemma insert_definition_simps:
  "shared_sessions (insert_definition u d m) = shared_sessions m"
  "map_of (connections (insert_definition u d m)) cid =
    (if cid = cd_id d then Some (length (records m)) else map_of (connections m) cid)"
  "length (records (insert_definition u d m)) = Suc (length (records m))"
  "records (insert_definition u d m) ! length (records m) = build_record u d"
  "r < length (records m) \<Longrightarrow> records (insert_definition u d m) ! r = records m ! r"
  by (simp_all add: insert_definition_def nth_append)

text \<open>What inserting some of the definitions of a batch does to the pool.\<close>

definition batch_done ::
    "(string \<Rightarrow> string option) \<Rightarrow> connection_definition list \<Rightarrow> conn_manager \<Rightarrow> string list \<Rightarrow> conn_manager \<Rightarrow> bool" where
  "batch_done u ds m ids m' \<longleftrightarrow>
     (\<forall>r<length (records m). records m' ! r = records m ! r) \<and>
     (\<forall>cid. cid \<notin> set ids \<longrightarrow> map_of (connections m') cid = map_of (connections m) cid) \<and>
     (\<forall>cid\<in>set ids. \<exists>d\<in>set ds. \<exists>r\<ge>length (records m). cd_id d = cid \<and>
        map_of (connections m') cid = Some r \<and> records m' ! r = build_record u d)"

lemma upsert_each_keeps_old:
  "r < length (records m) \<Longrightarrow> records (snd (upsert_each u active ds m)) ! r = records m ! r"
  by (induction u active ds m rule: upsert_each.induct)
    (auto simp: split_def Let_def insert_definition_simps)

lemma upsert_each_batch:
  assumes "upsert_each u active ds m = (ids, m')"
  shows "batch_done u ds m ids m'"
  using assms
proof (induction u active ds m arbitrary: ids m' rule: upsert_each.induct)
  case (1 u active m)
  then show ?case by (simp add: batch_done_def)
next
  case (2 u active d ds m)
  show ?case
  proof (cases "used_at m (cd_id d) \<or> cd_id d \<in> active")
    case True
    then have "batch_done u ds m ids m'" using "2.IH"(1) [OF True] "2.prems" by simp
    then show ?thesis by (auto simp: batch_done_def)
  next
    case False
    define m1 where "m1 = insert_definition u d m"
    obtain ids1 where each: "upsert_each u active ds m1 = (ids1, m')" and ids: "ids = cd_id d # ids1"
      using "2.prems" False
      by (cases "upsert_each u active ds (insert_definition u d m)") (auto simp: m1_def)
    have batch: "batch_done u ds m1 ids1 m'" using "2.IH"(2) [OF False] each by (simp add: m1_def)
    have len: "length (records m1) = Suc (length (records m))" by (simp add: m1_def insert_definition_simps)
    have old: "\<forall>r<length (records m). records m' ! r = records m ! r"
      using batch len by (auto simp: batch_done_def m1_def insert_definition_simps)
    have new: "records m' ! length (records m) = build_record u d"
      using batch len by (auto simp: batch_done_def m1_def insert_definition_simps)
    have other: "\<forall>cid. cid \<notin> set ids1 \<longrightarrow> map_of (connections m') cid =
        (if cid = cd_id d then Some (length (records m)) else map_of (connections m) cid)"
      using batch by (simp add: batch_done_def m1_def insert_definition_simps)
    have again: "\<forall>cid\<in>set ids1. \<exists>e\<in>set ds. \<exists>r\<ge>length (records m). cd_id e = cid \<and>
        map_of (connections m') cid = Some r \<and> records m' ! r = build_record u e"
      using batch len by (fastforce simp: batch_done_def)
    show ?thesis
      unfolding batch_done_def ids
      using old new other again by (cases "cd_id d \<in> set ids1") auto
  qed
qed

definition refs_ok :: "conn_manager \<Rightarrow> bool" where
  "refs_ok m \<longleftrightarrow> (\<forall>cid r. map_of (connections m) cid = Some r \<longrightarrow> r < length (records m))"

lemma refs_ok_insert: "refs_ok m \<Longrightarrow> refs_ok (insert_definition u d m)"
  by (auto simp: refs_ok_def insert_definition_simps less_Suc_eq)

lemma used_at_insert:
  "refs_ok m \<Longrightarrow> cid \<noteq> cd_id d \<Longrightarrow> used_at (insert_definition u d m) cid = used_at m cid"
  by (auto simp: refs_ok_def used_at_def insert_definition_simps split: option.split)

lemma upsert_each_skips:
  assumes "upsert_each u active ds m = (ids, m')" and "refs_ok m"
  shows "set ids \<inter> active = {} \<and> (\<forall>cid. used_at m cid \<longrightarrow> cid \<notin> set ids)"
  using assms
proof (induction u active ds m arbitrary: ids m' rule: upsert_each.induct)
  case (1 u active m)
  then show ?case by simp
next
  case (2 u active d ds m)
  show ?case
  proof (cases "used_at m (cd_id d) \<or> cd_id d \<in> active")
    case True
    then show ?thesis using "2.IH"(1) [OF True] "2.prems" by simp
  next
    case False
    obtain ids1 where each: "upsert_each u active ds (insert_definition u d m) = (ids1, m')"
      and ids: "ids = cd_id d # ids1"
      using "2.prems"(1) False
      by (cases "upsert_each u active ds (insert_definition u d m)") auto
    have "used_at m cid \<Longrightarrow> used_at (insert_definition u d m) cid" for cid
      using False used_at_insert [OF "2.prems"(2), of cid d u] by (cases "cid = cd_id d") auto
    then show ?thesis
      using "2.IH"(2) [OF False each refs_ok_insert [OF "2.prems"(2)]] ids False by auto
  qed
qed

text \<open>
  A batch of definitions is taken only if every one of them is usable; otherwise the first bad one
  is reported and the pool is left as it was. When it is taken, the names it reports, and no others,
  are bound to new records of their definitions; every record that was there before is untouched, and
  a name that is lent out or has a shared session keeps its record.
\<close>

theorem batch_all_or_nothing:
  assumes "refs_ok m"
  shows "(is_ok (fst (upsert_connections u ds m)) \<longleftrightarrow> (\<forall>d\<in>set ds. valid_definition u d)) \<and>
    (\<forall>e. fst (upsert_connections u ds m) = Inl e \<longrightarrow> snd (upsert_connections u ds m) = m \<and>
       (\<exists>d\<in>set ds. \<exists>reason. e = ConnectionInvalidConfiguration (cd_id d) reason)) \<and>
    (\<forall>ids. fst (upsert_connections u ds m) = Inr ids \<longrightarrow>
       batch_done u ds m ids (snd (upsert_connections u ds m)) \<and>
       (\<forall>cid\<in>set ids. \<not> used_at m cid \<and> \<not> hm_contains (shared_sessions m) cid))"
proof (cases "first_invalid u ds")
  case (Inl e)
  then have bad: "\<not> (\<forall>d\<in>set ds. valid_definition u d)" by (simp flip: first_invalid_valid [of u ds "()"])
  show ?thesis
    using Inl bad first_invalid_error [OF Inl] by (simp add: upsert_connections_def) metis
next
  case (Inr w)
  obtain ids m' where each: "upsert_each u (fst ` set (shared_sessions m)) ds m = (ids, m')" by fastforce
  have "batch_done u ds m ids (reset_attempt_windows (map cd_id ds) m')"
    using upsert_each_batch [OF each] by (simp add: batch_done_def reset_attempt_windows_def)
  moreover have "\<forall>d\<in>set ds. valid_definition u d" using Inr by (simp add: first_invalid_valid)
  ultimately show ?thesis
    using Inr each upsert_each_skips [OF each assms] upsert_each_skips [OF each assms]
    by (auto simp: upsert_connections_def Let_def hm_contains_iff simp del: disjoint_iff)
qed

theorem batch_all_or_nothing_witness:
  "fst (upsert_connections any_url [plc, plc\<lparr>cd_kind := ''abacus''\<rparr>] plc_pool) \<noteq> Inr [''plc'']"
proof -
  have "refs_ok plc_pool" by (simp add: refs_ok_def plc_pool_eq)
  moreover have "\<not> valid_definition any_url (plc\<lparr>cd_kind := ''abacus''\<rparr>)"
    unfolding valid_definition_def by code_simp
  ultimately show ?thesis
    using batch_all_or_nothing [of plc_pool any_url "[plc, plc\<lparr>cd_kind := ''abacus''\<rparr>]"] by auto
qed

section \<open>Shared sessions\<close>

text \<open>
  Whatever other tasks do while a session is being opened, the caller gets the object the pool
  holds for the connection, and every later caller that asks for the same type gets that object
  without opening another one.
\<close>

theorem session_is_shared:
  assumes "ensure_shared_session cid ty fresh wait factory m = (Inr obj, m')"
  shows "map_of (shared_sessions m') cid = Some (ty, obj) \<and>
    ensure_shared_session cid ty fresh2 wait2 factory2 m' = (Inr obj, m')"
proof -
  have found: "map_of (shared_sessions k) cid = Some (ty, obj)"
    if "session_lookup cid ty k = Some (Inr obj)" for k
    using that by (auto simp: session_lookup_def split: if_splits)
  have "map_of (shared_sessions m') cid = Some (ty, obj)"
    using assms
    by (auto simp: ensure_shared_session_def publish_session_def remove_initializer_lock_def Let_def
        split: option.splits prod.splits sum.splits dest!: found)
  then show ?thesis by (simp add: ensure_shared_session_def session_lookup_def)
qed

theorem session_is_shared_witness:
  "fst (ensure_shared_session ''bus'' ''CanSession'' 1 (\<lambda>_ m. m) (\<lambda>m. (Inr 8, m))
     (snd (ensure_shared_session ''bus'' ''CanSession'' 0 (\<lambda>_ m. m) (\<lambda>m. (Inr 7, m))
       shared_connection_manager))) = Inr 7"
proof -
  let ?m = "snd (ensure_shared_session ''bus'' ''CanSession'' 0 (\<lambda>_ m. m) (\<lambda>m. (Inr 7, m))
       shared_connection_manager)"
  have "ensure_shared_session ''bus'' ''CanSession'' 0 (\<lambda>_ m. m) (\<lambda>m. (Inr 7, m))
      shared_connection_manager = (Inr 7, ?m)"
    by (simp add: ensure_shared_session_def session_lookup_def shared_connection_manager_def
        initializer_lock_def publish_session_def)
  from session_is_shared [OF this] show ?thesis by simp
qed

section \<open>The public operations as steps\<close>

lemma entry_step:
  assumes "pool_inv u m" and "clears op \<longrightarrow> clearing" and "\<And>x. snd (f x) = apply_op op now x"
  shows "(conn_step u atomic clearing)\<^sup>*\<^sup>* (m, gs) (snd (with_entry cid f m), gs)"
proof (cases "map_of (connections m) cid")
  case None
  then show ?thesis by (simp add: with_entry_def entry_def)
next
  case (Some r)
  then have "r < length (records m)" using assms(1) by (simp add: pool_inv_def)
  then have "conn_step u atomic clearing (m, gs) (set_record r (apply_op op now (records m ! r)) m, gs)"
    using assms(2) by (rule touched)
  then show ?thesis
    using Some assms(3) by (auto simp: with_entry_def entry_def split_def Let_def)
qed

lemma list_from_steps:
  assumes "\<forall>r\<in>set rs. r < length (records m)"
  shows "(conn_step u atomic clearing)\<^sup>*\<^sup>* (m, gs) (snd (list_from clock k rs m), gs)"
  using assms
proof (induction clock k rs m rule: list_from.induct)
  case (2 clock k r rs m)
  let ?m = "set_record r (reconciled (clock k) (records m ! r)) m"
  have "conn_step u atomic clearing (m, gs) (?m, gs)"
    using touched [of r m Reconcile clearing u atomic gs "clock k"] "2.prems" by simp
  also have "(conn_step u atomic clearing)\<^sup>*\<^sup>* (?m, gs) (snd (list_from clock (Suc k) rs ?m), gs)"
    using "2.IH" "2.prems" by simp
  finally show ?case by (simp add: split_def Let_def)
qed simp

lemma idle_steps:
  assumes "\<forall>(cid, r)\<in>set cs. r < length (records m)"
  shows "(conn_step u atomic True)\<^sup>*\<^sup>* (m, gs)
    (fold (\<lambda>(cid, r) m. set_record r (idle_record diag now (records m ! r)) m) cs m, gs)"
  using assms
proof (induction cs arbitrary: m)
  case (Cons c cs)
  obtain cid r where c: "c = (cid, r)" by (cases c)
  let ?m = "set_record r (idle_record diag now (records m ! r)) m"
  have "conn_step u atomic True (m, gs) (?m, gs)"
    using touched [of r m "MakeIdle diag" True u atomic gs now] Cons.prems c by simp
  also have "(conn_step u atomic True)\<^sup>*\<^sup>* (?m, gs)
      (fold (\<lambda>(cid, r) m. set_record r (idle_record diag now (records m ! r)) m) cs ?m, gs)"
    using Cons.prems by (intro Cons.IH) auto
  finally show ?case by (simp add: c)
qed simp

lemma connection_in_store:
  "pool_inv u m \<Longrightarrow> hm_wf (connections m) \<Longrightarrow> (cid, r) \<in> set (connections m) \<Longrightarrow> r < length (records m)"
  by (simp add: pool_inv_def hm_wf_def)

text \<open>
  Every operation of the pool that a program can call is a run of the steps above, so what holds
  along every run holds for every sequence of calls.
\<close>

theorem pool_operations_are_runs:
  assumes "pool_inv u m" and "hm_wf (connections m)"
  shows "(\<forall>r lease m'. acquire u now cid m = (Inr (r, lease), m') \<longrightarrow>
       conn_step u atomic clearing (m, gs) (m', (r, lease) # gs)) \<and>
    (\<forall>e m'. acquire u now cid m = (Inl e, m') \<longrightarrow> (conn_step u atomic clearing)\<^sup>*\<^sup>* (m, gs) (m', gs)) \<and>
    (\<forall>m'\<in>{snd (record_connect_success cid diag latency now m), snd (record_heartbeat cid diag now m),
        snd (record_connect_failure cid diag now m), snd (record_timeout cid diag now m),
        snd (reset_circuit_breaker cid now m), snd (get_connection cid now m),
        snd (list_connections clock m)}.
       (conn_step u atomic clearing)\<^sup>*\<^sup>* (m, gs) (m', gs)) \<and>
    (\<forall>m'\<in>{snd (mark_disconnected cid diag now m), snd (mark_invalid_configuration cid diag now m),
        mark_all_idle diag now m}.
       (conn_step u atomic True)\<^sup>*\<^sup>* (m, gs) (m', gs))"
proof (intro conjI)
  note entry = entry_step [OF assms(1), where atomic = atomic and gs = gs and cid = cid]
  have store: "\<forall>(cid, r)\<in>set (connections m). r < length (records m)"
    using connection_in_store [OF assms] by blast
  show "\<forall>r lease m'. acquire u now cid m = (Inr (r, lease), m') \<longrightarrow>
       conn_step u atomic clearing (m, gs) (m', (r, lease) # gs)"
    using assms(1) by (auto simp: acquire_def entry_def pool_inv_def intro!: acquired
        split: sum.splits prod.splits option.splits)
  show "\<forall>e m'. acquire u now cid m = (Inl e, m') \<longrightarrow> (conn_step u atomic clearing)\<^sup>*\<^sup>* (m, gs) (m', gs)"
    using assms(1) by (auto simp: acquire_def entry_def pool_inv_def intro!: r_into_rtranclp refused
        split: sum.splits prod.splits option.splits)
  have get: "snd (get_connection cid now m) = snd (with_entry cid (\<lambda>x. (reconciled now x, reconciled now x)) m)"
    by (simp add: get_connection_def split: prod.split sum.split)
  have "(conn_step u atomic clearing)\<^sup>*\<^sup>* (m, gs) (snd (record_connect_success cid diag latency now m), gs)"
    unfolding record_connect_success_def by (rule entry [where op = "ConnectSuccess diag latency"]) simp_all
  moreover have "(conn_step u atomic clearing)\<^sup>*\<^sup>* (m, gs) (snd (record_heartbeat cid diag now m), gs)"
    unfolding record_heartbeat_def by (rule entry [where op = "Heartbeat diag"]) simp_all
  moreover have "(conn_step u atomic clearing)\<^sup>*\<^sup>* (m, gs) (snd (record_connect_failure cid diag now m), gs)"
    unfolding record_connect_failure_def by (rule entry [where op = "ConnectFailure diag"]) simp_all
  moreover have "(conn_step u atomic clearing)\<^sup>*\<^sup>* (m, gs) (snd (record_timeout cid diag now m), gs)"
    unfolding record_timeout_def by (rule entry [where op = "RecordTimeout diag"]) simp_all
  moreover have "(conn_step u atomic clearing)\<^sup>*\<^sup>* (m, gs) (snd (reset_circuit_breaker cid now m), gs)"
    unfolding reset_circuit_breaker_def by (rule entry [where op = CircuitReset]) simp_all
  moreover have "(conn_step u atomic clearing)\<^sup>*\<^sup>* (m, gs) (snd (get_connection cid now m), gs)"
    unfolding get by (rule entry [where op = Reconcile]) simp_all
  moreover have "(conn_step u atomic clearing)\<^sup>*\<^sup>* (m, gs) (snd (list_connections clock m), gs)"
    unfolding list_connections_def using store by (intro list_from_steps) auto
  ultimately show "\<forall>m'\<in>{snd (record_connect_success cid diag latency now m), snd (record_heartbeat cid diag now m),
        snd (record_connect_failure cid diag now m), snd (record_timeout cid diag now m),
        snd (reset_circuit_breaker cid now m), snd (get_connection cid now m),
        snd (list_connections clock m)}.
       (conn_step u atomic clearing)\<^sup>*\<^sup>* (m, gs) (m', gs)"
    by blast
  have "(conn_step u atomic True)\<^sup>*\<^sup>* (m, gs) (snd (mark_disconnected cid diag now m), gs)"
    unfolding mark_disconnected_def by (rule entry [where op = "Disconnect diag"]) simp_all
  moreover have "(conn_step u atomic True)\<^sup>*\<^sup>* (m, gs) (snd (mark_invalid_configuration cid diag now m), gs)"
    unfolding mark_invalid_configuration_def
    by (rule entry [where op = "InvalidConfiguration diag"]) simp_all
  moreover have "(conn_step u atomic True)\<^sup>*\<^sup>* (m, gs) (mark_all_idle diag now m, gs)"
    unfolding mark_all_idle_def using store by (rule idle_steps)
  ultimately show "\<forall>m'\<in>{snd (mark_disconnected cid diag now m), snd (mark_invalid_configuration cid diag now m),
        mark_all_idle diag now m}. (conn_step u atomic True)\<^sup>*\<^sup>* (m, gs) (m', gs)"
    by blast
qed

theorem pool_operations_are_runs_witness:
  "(conn_step any_url True False)\<^sup>*\<^sup>* (plc_pool, []) (snd (record_heartbeat ''plc'' (Msg ''alive'' []) 3 plc_pool), [])"
proof -
  have "pool_inv any_url plc_pool" using conn_run_inv [OF plc_pool_run] by blast
  moreover have "hm_wf (connections plc_pool)" by (simp add: plc_pool_eq hm_wf_def)
  ultimately show ?thesis
    using pool_operations_are_runs [of any_url plc_pool 3 "''plc''" True False "[]"] by auto
qed

end
