(* ===== verification/Conn_Refs.thy ===== *)
theory Conn_Refs
  imports Node
begin

text \<open>
  \<open>crates/graph/src/connection_collector.rs\<close>: the connections a workflow refers to, so that only
  those are loaded. Protocol nodes name a connection; device nodes name a device, whose binding
  gives the connection. A \<open>BTreeSet\<close> is a sorted list without duplicates.
\<close>

definition DEVICE_BACKED_NODE_TYPES :: "string list" where
  "DEVICE_BACKED_NODE_TYPES = [''deviceSignalRead'', ''deviceEventTrigger'', ''capabilityCall'']"

record device_binding =
  db_device_id :: string
  db_connection_id :: string

record connection_reference_report =
  referenced_ids :: "string list"
  explicit_ids :: "string list"
  inherited_ids :: "string list"

definition extract_device_id :: "json \<Rightarrow> string option" where
  "extract_device_id config = Option.bind (json_get config ''device_id'') as_str"

text \<open>One turn of the loop, on the sets of explicit and inherited names.\<close>

definition collect_node ::
    "(string, device_binding) hash_map \<Rightarrow> string list \<times> string list \<Rightarrow>
     string \<times> workflow_node_definition \<Rightarrow> (string list \<times> string list) result" where
  "collect_node device_bindings sets nd =
     (let (explicit, inherited) = sets; (node_id, d) = nd in
      if wd_node_type d \<in> set DEVICE_BACKED_NODE_TYPES then
        and_then (ok_or (NodeConfig node_id (Msg ''device-id-missing'' [wd_node_type d]))
                    (extract_device_id (wd_config d)))
          (\<lambda>device_id.
             and_then (ok_or (NodeConfig node_id (Msg ''device-unbound'' [wd_node_type d, device_id]))
                         (map_of device_bindings device_id))
               (\<lambda>binding. Inr (explicit, List.insort_insert (db_connection_id binding) inherited)))
      else
        Inr (case wd_connection_id d of
               Some c \<Rightarrow> (List.insort_insert c explicit, inherited)
             | None \<Rightarrow> (explicit, inherited)))"

definition collect_referenced_connection_ids ::
    "(string, workflow_node_definition) hash_map \<Rightarrow> (string, device_binding) hash_map \<Rightarrow>
     connection_reference_report result" where
  "collect_referenced_connection_ids nodes device_bindings =
     and_then (try_fold (collect_node device_bindings) ([], []) nodes)
       (\<lambda>(explicit, inherited).
          Inr \<lparr>referenced_ids = fold List.insort_insert inherited explicit,
               explicit_ids = explicit, inherited_ids = inherited\<rparr>)"

section \<open>What is collected\<close>

definition is_set_of :: "string set \<Rightarrow> string list \<Rightarrow> bool" where
  "is_set_of A xs \<longleftrightarrow> sorted xs \<and> distinct xs \<and> set xs = A"

lemma is_set_of_insert: "is_set_of A xs \<Longrightarrow> is_set_of (insert x A) (List.insort_insert x xs)"
  by (simp add: is_set_of_def sorted_insort_insert distinct_insort_insert set_insort_insert)

lemma is_set_of_union: "is_set_of A xs \<Longrightarrow> is_set_of (set ys \<union> A) (fold List.insort_insert ys xs)"
proof (induction ys arbitrary: A xs)
  case (Cons y ys)
  then show ?case using Cons.IH [OF is_set_of_insert [OF Cons.prems, of y]] by simp
qed simp

lemma is_set_of_unique: "is_set_of A xs \<Longrightarrow> is_set_of A ys \<Longrightarrow> xs = ys"
  by (auto simp: is_set_of_def intro: sorted_distinct_set_unique)

text \<open>What a node contributes: an explicit name, or the name its device is bound to, or an error.\<close>

definition device_backed :: "workflow_node_definition \<Rightarrow> bool" where
  "device_backed d \<longleftrightarrow> wd_node_type d \<in> set DEVICE_BACKED_NODE_TYPES"

definition bound_connection ::
    "(string, device_binding) hash_map \<Rightarrow> workflow_node_definition \<Rightarrow> string option" where
  "bound_connection bindings d =
     Option.bind (extract_device_id (wd_config d)) (\<lambda>i. map_option db_connection_id (map_of bindings i))"

definition named_by :: "workflow_node_definition set \<Rightarrow> string set" where
  "named_by ds = {c. \<exists>d\<in>ds. \<not> device_backed d \<and> wd_connection_id d = Some c}"

definition bound_by :: "(string, device_binding) hash_map \<Rightarrow> workflow_node_definition set \<Rightarrow> string set" where
  "bound_by bindings ds = {c. \<exists>d\<in>ds. device_backed d \<and> bound_connection bindings d = Some c}"

lemma collect_node_cases:
  "collect_node bindings (ex, inh) (n, d) =
     (if device_backed d then
        case bound_connection bindings d of
          Some c \<Rightarrow> Inr (ex, List.insort_insert c inh)
        | None \<Rightarrow> Inl (case extract_device_id (wd_config d) of
              None \<Rightarrow> NodeConfig n (Msg ''device-id-missing'' [wd_node_type d])
            | Some i \<Rightarrow> NodeConfig n (Msg ''device-unbound'' [wd_node_type d, i]))
      else Inr (case wd_connection_id d of
             Some c \<Rightarrow> (List.insort_insert c ex, inh) | None \<Rightarrow> (ex, inh)))"
  by (auto simp: collect_node_def device_backed_def bound_connection_def split: option.split)

lemma collect_fold:
  assumes "is_set_of A ex" and "is_set_of B inh"
  shows "(\<forall>r. try_fold (collect_node bindings) (ex, inh) nodes = Inr r \<longrightarrow>
      is_set_of (named_by (snd ` set nodes) \<union> A) (fst r) \<and>
      is_set_of (bound_by bindings (snd ` set nodes) \<union> B) (snd r)) \<and>
    (is_ok (try_fold (collect_node bindings) (ex, inh) nodes) \<longleftrightarrow>
      (\<forall>d\<in>snd ` set nodes. device_backed d \<longrightarrow> bound_connection bindings d \<noteq> None))"
  using assms
proof (induction nodes arbitrary: A B ex inh)
  case Nil
  then show ?case by (simp add: named_by_def bound_by_def)
next
  case (Cons nd nodes)
  obtain n d where nd: "nd = (n, d)" by (cases nd)
  have ins: "named_by (insert d D) = (if device_backed d then {} else set_option (wd_connection_id d)) \<union> named_by D"
    "bound_by bindings (insert d D) = (if device_backed d then set_option (bound_connection bindings d) else {}) \<union> bound_by bindings D"
    for D by (auto simp: named_by_def bound_by_def)
  show ?case
  proof (cases "device_backed d")
    case True
    then show ?thesis
      using Cons.IH [OF Cons.prems(1) is_set_of_insert [OF Cons.prems(2)]] Cons.prems
      by (cases "bound_connection bindings d") (auto simp: nd collect_node_cases ins)
  next
    case False
    then show ?thesis
      using Cons.IH [OF Cons.prems] Cons.IH [OF is_set_of_insert [OF Cons.prems(1)] Cons.prems(2)]
      by (cases "wd_connection_id d") (auto simp: nd collect_node_cases ins)
  qed
qed

lemma is_set_of_sorted_list: "is_set_of A xs \<Longrightarrow> xs = sorted_list_of_set A"
  by (auto simp: is_set_of_def sorted_list_of_set.idem_if_sorted_distinct)

text \<open>
  Collecting fails exactly when a device node has no device or its device has no connection;
  otherwise the report holds, sorted and without repetition, the names the protocol nodes give, the
  names the devices of the device nodes are bound to, and both together, and nothing else. So the
  report does not depend on the order in which the nodes are visited.
\<close>

theorem referenced_connections_exact:
  fixes nodes :: "(string, workflow_node_definition) hash_map"
  defines "ds \<equiv> snd ` set nodes"
  shows "(is_ok (collect_referenced_connection_ids nodes bindings) \<longleftrightarrow>
      (\<forall>d\<in>ds. device_backed d \<longrightarrow> bound_connection bindings d \<noteq> None)) \<and>
    (\<forall>r. collect_referenced_connection_ids nodes bindings = Inr r \<longrightarrow>
      explicit_ids r = sorted_list_of_set (named_by ds) \<and>
      inherited_ids r = sorted_list_of_set (bound_by bindings ds) \<and>
      referenced_ids r = sorted_list_of_set (named_by ds \<union> bound_by bindings ds))"
proof -
  have none: "is_set_of {} []" by (simp add: is_set_of_def)
  note sets = collect_fold [OF none none, of bindings nodes, folded ds_def]
  show ?thesis
  proof (cases "try_fold (collect_node bindings) ([], []) nodes")
    case (Inl e)
    then show ?thesis using sets by (simp add: collect_referenced_connection_ids_def)
  next
    case (Inr r)
    obtain ex inh where r: "r = (ex, inh)" by (cases r)
    have ex: "is_set_of (named_by ds) ex" and inh: "is_set_of (bound_by bindings ds) inh"
      using sets Inr r by auto
    have "is_set_of (named_by ds \<union> bound_by bindings ds) (fold List.insort_insert inh ex)"
      using is_set_of_union [OF ex, of inh] inh by (simp add: is_set_of_def Un_commute)
    then show ?thesis
      using sets Inr r ex inh
      by (simp add: collect_referenced_connection_ids_def is_set_of_sorted_list)
  qed
qed

definition demo_reference_nodes :: "(string, workflow_node_definition) hash_map" where
  "demo_reference_nodes =
     [(''w'', (probe ''modbusRead'' JNull)\<lparr>wd_connection_id := Some ''plc''\<rparr>),
      (''d'', probe ''capabilityCall'' (JObject [(''device_id'', JString ''press'')]))]"

theorem referenced_connections_exact_witness:
  "\<exists>r. collect_referenced_connection_ids demo_reference_nodes
       [(''press'', \<lparr>db_device_id = ''press'', db_connection_id = ''can0''\<rparr>)] = Inr r \<and>
     set (referenced_ids r) = {''can0'', ''plc''}"
proof -
  let ?b = "[(''press'', \<lparr>db_device_id = ''press'', db_connection_id = ''can0''\<rparr>)]"
  let ?ds = "snd ` set demo_reference_nodes"
  have bound: "bound_connection ?b (probe ''capabilityCall'' (JObject [(''device_id'', JString ''press'')])) = Some ''can0''"
    by code_simp
  have backed: "device_backed (probe ''capabilityCall'' c)" "\<not> device_backed (probe ''modbusRead'' c\<lparr>wd_connection_id := x\<rparr>)" for c x
    by (simp_all add: device_backed_def DEVICE_BACKED_NODE_TYPES_def probe_def)
  have "is_ok (collect_referenced_connection_ids demo_reference_nodes ?b)"
    using referenced_connections_exact [of demo_reference_nodes ?b] bound backed
    by (simp add: demo_reference_nodes_def)
  then obtain r where r: "collect_referenced_connection_ids demo_reference_nodes ?b = Inr r"
    by (auto simp: is_ok_iff)
  have "named_by ?ds = {''plc''}" "bound_by ?b ?ds = {''can0''}"
    using bound backed by (auto simp: named_by_def bound_by_def demo_reference_nodes_def)
  then have "referenced_ids r = sorted_list_of_set {''plc'', ''can0''}"
    using referenced_connections_exact [of demo_reference_nodes ?b] r by simp
  then show ?thesis using r by auto
qed

end
