(* ===== verification/Numbers.thy ===== *)
theory Numbers
  imports Texts
begin

text \<open>
  Numbers in texts: \<open>str::parse\<close> into integers of a given width and the grammar of \<open>f64\<close>, both as
  the standard library documents them, and the printing of integers.
\<close>

section \<open>Integers\<close>

definition is_digit :: "char \<Rightarrow> bool" where
  "is_digit c \<longleftrightarrow> (let n = of_char c :: nat in 48 \<le> n \<and> n \<le> 57)"

definition dec_digit_value :: "char \<Rightarrow> int" where
  "dec_digit_value c = of_char c - 48"

definition dec_value :: "string \<Rightarrow> int" where
  "dec_value s = foldl (\<lambda>v c. 10 * v + dec_digit_value c) 0 s"

definition all_digits :: "string \<Rightarrow> bool" where
  "all_digits s \<longleftrightarrow> s \<noteq> [] \<and> list_all is_digit s"

definition strip_plus :: "string \<Rightarrow> string" where
  "strip_plus s = (case s of [] \<Rightarrow> [] | c # cs \<Rightarrow> if c = CHR ''+'' then cs else s)"

text \<open>An unsigned integer of \<open>w\<close> bits: an optional plus sign and digits, in range.\<close>

definition parse_unsigned :: "nat \<Rightarrow> string \<Rightarrow> int option" where
  "parse_unsigned w s =
     (let ds = strip_plus s in
      if all_digits ds \<and> dec_value ds < 2 ^ w then Some (dec_value ds) else None)"

text \<open>A signed one: a sign of either kind.\<close>

definition parse_signed :: "nat \<Rightarrow> string \<Rightarrow> int option" where
  "parse_signed w s =
     (let neg = (case s of [] \<Rightarrow> False | c # _ \<Rightarrow> c = CHR ''-'');
          ds = (if neg then tl s else strip_plus s);
          v = (if neg then - dec_value ds else dec_value ds)
      in if all_digits ds \<and> - (2 ^ (w - 1)) \<le> v \<and> v < 2 ^ (w - 1) then Some v else None)"

definition print_int :: "int \<Rightarrow> string" where
  "print_int i = (if i < 0 then CHR ''-'' # dec_digits (nat (- i)) else dec_digits (nat i))"

lemma dec_value_snoc [simp]: "dec_value (s @ [c]) = 10 * dec_value s + dec_digit_value c"
  by (simp add: dec_value_def)

lemma digit_char:
  assumes "d < 10"
  shows "is_digit (char_of (48 + d :: nat))" "dec_digit_value (char_of (48 + d :: nat)) = int d"
proof -
  have "of_char (char_of (48 + d) :: char) = (48 + d :: nat)" using assms by (simp add: of_char_of)
  moreover have "(of_char c :: int) = int (of_char c)" for c :: char by (simp add: of_nat_of_char)
  ultimately show "is_digit (char_of (48 + d :: nat))" "dec_digit_value (char_of (48 + d :: nat)) = int d"
    using assms by (simp_all add: is_digit_def dec_digit_value_def)
qed

lemma dec_digits_digits: "list_all is_digit (dec_digits n)"
proof (induction n rule: dec_digits.induct)
  case (1 n)
  have "n mod 10 < 10" by simp
  then show ?case
    using 1 digit_char(1) [of n] digit_char(1) [of "n mod 10"]
    by (subst dec_digits.simps) (cases "n < 10"; simp)
qed

lemma dec_value_digits [simp]: "dec_value (dec_digits n) = int n"
proof (induction n rule: dec_digits.induct)
  case (1 n)
  show ?case
  proof (cases "n < 10")
    case True
    then show ?thesis using digit_char(2) [of n]
      by (simp add: dec_digits.simps [of n] dec_value_def)
  next
    case False
    have "n mod 10 < 10" by simp
    then show ?thesis
      using 1 False digit_char(2) [of "n mod 10"]
      by (simp add: dec_digits.simps [of n] zdiv_int zmod_int)
  qed
qed

lemma all_digits_dec [simp]: "all_digits (dec_digits n)"
  by (simp add: all_digits_def dec_digits_digits)

lemma digit_not_sign: "is_digit c \<Longrightarrow> c \<noteq> CHR ''+'' \<and> c \<noteq> CHR ''-''"
  by (auto simp: is_digit_def)

lemma strip_plus_dec [simp]: "strip_plus (dec_digits n) = dec_digits n"
  using dec_digits_digits [of n]
  by (auto simp: strip_plus_def dest: digit_not_sign split: list.split)

lemma parse_unsigned_dec: "int n < 2 ^ w \<Longrightarrow> parse_unsigned w (dec_digits n) = Some (int n)"
  by (simp add: parse_unsigned_def)

lemma parse_signed_print:
  assumes "- (2 ^ (w - 1)) \<le> i" and "i < 2 ^ (w - 1)"
  shows "parse_signed w (print_int i) = Some i"
proof (cases "i < 0")
  case True
  then show ?thesis using assms by (simp add: parse_signed_def print_int_def)
next
  case False
  obtain c cs where d: "dec_digits (nat i) = c # cs" by (cases "dec_digits (nat i)") simp_all
  then have "c \<noteq> CHR ''-''" using dec_digits_digits [of "nat i"] digit_not_sign by auto
  moreover have "strip_plus (c # cs) = c # cs" "all_digits (c # cs)" "dec_value (c # cs) = int (nat i)"
    using strip_plus_dec [of "nat i"] all_digits_dec [of "nat i"] dec_value_digits [of "nat i"] unfolding d .
  ultimately show ?thesis
    using False assms d by (simp add: parse_signed_def print_int_def)
qed

lemma dec_digit_value_bounds: "is_digit c \<Longrightarrow> 0 \<le> dec_digit_value c \<and> dec_digit_value c < 10"
proof -
  assume "is_digit c"
  moreover have "(of_char c :: int) = int (of_char c)" by (simp add: of_nat_of_char)
  ultimately show ?thesis by (simp add: is_digit_def dec_digit_value_def Let_def)
qed

lemma dec_value_nonneg: "list_all is_digit s \<Longrightarrow> 0 \<le> dec_value s"
proof (induction s rule: rev_induct)
  case (snoc c s)
  then show ?case using dec_digit_value_bounds [of c] by simp
qed (simp add: dec_value_def)

lemma parse_unsigned_range: "parse_unsigned w s = Some v \<Longrightarrow> 0 \<le> v \<and> v < 2 ^ w"
  using dec_value_nonneg by (auto simp: parse_unsigned_def Let_def all_digits_def split: if_splits)

lemma parse_signed_range:
  "parse_signed w s = Some v \<Longrightarrow> - (2 ^ (w - 1)) \<le> v \<and> v < 2 ^ (w - 1)"
  by (auto simp: parse_signed_def Let_def split: if_splits)

section \<open>The grammar of floating-point numbers\<close>

text \<open>
  \<open>Number ::= (Digit+ | Digit+ '.' Digit* | Digit* '.' Digit+) Exp?\<close>,
  \<open>Exp ::= 'e' Sign? Digit+\<close>, and \<open>inf\<close>, \<open>infinity\<close>, \<open>nan\<close>, each with an optional sign and in any case.
\<close>

definition strip_sign :: "string \<Rightarrow> string" where
  "strip_sign s = (case s of [] \<Rightarrow> [] | c # cs \<Rightarrow> if c = CHR ''+'' \<or> c = CHR ''-'' then cs else s)"

definition f64_exponent :: "string \<Rightarrow> bool" where
  "f64_exponent s \<longleftrightarrow>
     s = [] \<or> (hd s = CHR ''e'' \<or> hd s = CHR ''E'') \<and> all_digits (strip_sign (tl s))"

definition f64_number :: "string \<Rightarrow> bool" where
  "f64_number s \<longleftrightarrow>
     (let whole = takeWhile is_digit s; rest = dropWhile is_digit s in
      if rest \<noteq> [] \<and> hd rest = CHR ''.'' then
        (let frac = takeWhile is_digit (tl rest) in
         (whole \<noteq> [] \<or> frac \<noteq> []) \<and> f64_exponent (dropWhile is_digit (tl rest)))
      else whole \<noteq> [] \<and> f64_exponent rest)"

definition parses_f64 :: "string \<Rightarrow> bool" where
  "parses_f64 s \<longleftrightarrow>
     (let t = strip_sign s in
      to_ascii_lowercase t \<in> {''inf'', ''infinity'', ''nan''} \<or> f64_number t)"

section \<open>Searching in texts\<close>

definition starts_with :: "string \<Rightarrow> string \<Rightarrow> bool" where
  "starts_with s p \<longleftrightarrow> take (length p) s = p"

definition ends_with :: "string \<Rightarrow> string \<Rightarrow> bool" where
  "ends_with s p \<longleftrightarrow> length p \<le> length s \<and> drop (length s - length p) s = p"

definition strip_suffix :: "string \<Rightarrow> string \<Rightarrow> string option" where
  "strip_suffix s p = (if ends_with s p then Some (take (length s - length p) s) else None)"

fun str_contains :: "string \<Rightarrow> string \<Rightarrow> bool" where
  "str_contains [] p = (p = [])"
| "str_contains (c # s) p = (starts_with (c # s) p \<or> str_contains s p)"

lemma ends_with_append [simp]: "ends_with (s @ p) p"
  by (simp add: ends_with_def)

lemma strip_suffix_append [simp]: "strip_suffix (s @ p) p = Some s"
  by (simp add: strip_suffix_def)

lemma ends_with_last: "ends_with s p \<Longrightarrow> p \<noteq> [] \<Longrightarrow> s \<noteq> [] \<and> last s = last p"
  unfolding ends_with_def
  by (metis append_take_drop_id drop_all last_appendR le_zero_eq list.size(3) nat_le_linear take_all)

end
