(* ===== verification/Dsl_Types.thy ===== *)
theory Dsl_Types
  imports Numbers Json
begin

text \<open>
  The data of the workflow language, \<open>crates/dsl-core/src\<close>: \<open>workflow.rs\<close> (workflows, ranges,
  durations), \<open>device.rs\<close> (devices and their signals), \<open>capability.rs\<close> (capabilities) and \<open>error.rs\<close>. A
  tag of an enum in a YAML or JSON file is the name its serde attributes give it.
\<close>

datatype dsl_error = YamlParse msg | Validation msg msg | JsonSerialization msg

type_synonym 'a dsl_result = "dsl_error + 'a"

section \<open>Ranges and durations\<close>

record range =
  rg_min :: rat
  rg_max :: rat

definition range_contains :: "range \<Rightarrow> rat \<Rightarrow> bool" where
  "range_contains r v \<longleftrightarrow> rg_min r \<le> v \<and> v \<le> rg_max r"

text \<open>The pair of numbers a file holds for a range.\<close>

definition range_deserialize :: "rat \<times> rat \<Rightarrow> range dsl_result" where
  "range_deserialize a =
     (if fst a > snd a then Inl (YamlParse (Msg ''range-min-above-max'' []))
      else Inr \<lparr>rg_min = fst a, rg_max = snd a\<rparr>)"

definition range_serialize :: "range \<Rightarrow> rat \<times> rat" where
  "range_serialize r = (rg_min r, rg_max r)"

record human_duration =
  hd_millis :: u64

text \<open>
  A product of two \<open>u64\<close>: with overflow checks an overflow is a panic (\<open>None\<close>), without them the
  product wraps.
\<close>

definition mul_u64 :: "bool \<Rightarrow> u64 \<Rightarrow> u64 \<Rightarrow> u64 option" where
  "mul_u64 checks a b = (if checks \<and> \<not> uint a * uint b < 2 ^ 64 then None else Some (a * b))"

definition duration_number :: "string \<Rightarrow> string \<Rightarrow> u64 dsl_result" where
  "duration_number s num_str =
     (case parse_unsigned 64 (trim_utf8 num_str) of
        None \<Rightarrow> Inl (YamlParse (Msg ''duration-number'' [s]))
      | Some n \<Rightarrow> Inr (word_of_int n))"

definition duration_of :: "bool \<Rightarrow> string \<Rightarrow> string \<Rightarrow> u64 \<Rightarrow> human_duration dsl_result option" where
  "duration_of checks s num_str factor =
     (case duration_number s num_str of
        Inl e \<Rightarrow> Some (Inl e)
      | Inr n \<Rightarrow> map_option (\<lambda>m. Inr \<lparr>hd_millis = m\<rparr>) (mul_u64 checks n factor))"

definition duration_parse :: "bool \<Rightarrow> string \<Rightarrow> human_duration dsl_result option" where
  "duration_parse checks text =
     (let s = trim_utf8 text in
      case strip_suffix s ''ms'' of
        Some num_str \<Rightarrow> Some (map_sum id (\<lambda>n. \<lparr>hd_millis = n\<rparr>) (duration_number s num_str))
      | None \<Rightarrow>
     (case strip_suffix s ''h'' of
        Some num_str \<Rightarrow> duration_of checks s num_str 3600000
      | None \<Rightarrow>
     (case strip_suffix s ''m'' of
        Some num_str \<Rightarrow> duration_of checks s num_str 60000
      | None \<Rightarrow>
     (case strip_suffix s ''s'' of
        Some num_str \<Rightarrow> duration_of checks s num_str 1000
      | None \<Rightarrow> Some (Inl (YamlParse (Msg ''duration-suffix'' [s])))))))"

definition duration_serialize :: "human_duration \<Rightarrow> string" where
  "duration_serialize d =
     (let ms = hd_millis d in
      if ms mod 3600000 = 0 then dec_digits (unat (ms div 3600000)) @ ''h''
      else if ms mod 60000 = 0 then dec_digits (unat (ms div 60000)) @ ''m''
      else if ms mod 1000 = 0 then dec_digits (unat (ms div 1000)) @ ''s''
      else dec_digits (unat ms) @ ''ms'')"

section \<open>Devices\<close>

datatype signal_type = AnalogInput | AnalogOutput | DigitalInput | DigitalOutput

datatype access_mode = AccessRead | AccessWrite | AccessReadWrite

datatype byte_order = BigEndian | LittleEndian

datatype data_type = DtBool | DtU16 | DtI16 | DtU32 | DtI32 | DtFloat32 | DtFloat64 | DtString

datatype signal_source =
    Register u16 access_mode data_type "u8 option"
  | Topic string
  | SerialCommandSource string
  | CanFrameSource u32 bool u8 u8 data_type byte_order
  | EthercatPdo "u16 option" u16 u16 u8 u16 "u16 option" "string option" "string option" "string option"

record signal_spec =
  sg_id :: string
  sg_signal_type :: signal_type
  sg_unit :: "string option"
  sg_range :: "range option"
  sg_source :: signal_source
  sg_scale :: "string option"

datatype alarm_severity = SevInfo | SevWarning | SevCritical

record alarm_spec =
  al_id :: string
  al_condition :: string
  al_severity :: alarm_severity
  al_action :: "string option"

record connection_ref =
  cn_connection_type :: string
  cn_id :: string
  cn_unit :: "u8 option"

record ethercat_identity =
  ei_product_code :: "u32 option"
  ei_revision_no :: "u32 option"
  ei_slave_address :: "u16 option"

record device_spec =
  dv_id :: string
  dv_device_type :: string
  dv_manufacturer :: "string option"
  dv_model :: "string option"
  dv_connection :: "connection_ref option"
  dv_network_group :: "string option"
  dv_ethercat_identity :: "ethercat_identity option"
  dv_signals :: "signal_spec list"
  dv_alarms :: "alarm_spec list"

text \<open>The tags, written in lower case without separators.\<close>

fun access_mode_tag :: "access_mode \<Rightarrow> string" where
  "access_mode_tag AccessRead = ''read''"
| "access_mode_tag AccessWrite = ''write''"
| "access_mode_tag AccessReadWrite = ''readwrite''"

fun byte_order_tag :: "byte_order \<Rightarrow> string" where
  "byte_order_tag BigEndian = ''bigendian''"
| "byte_order_tag LittleEndian = ''littleendian''"

fun data_type_tag :: "data_type \<Rightarrow> string" where
  "data_type_tag DtBool = ''bool''"
| "data_type_tag DtU16 = ''u16''"
| "data_type_tag DtI16 = ''i16''"
| "data_type_tag DtU32 = ''u32''"
| "data_type_tag DtI32 = ''i32''"
| "data_type_tag DtFloat32 = ''float32''"
| "data_type_tag DtFloat64 = ''float64''"
| "data_type_tag DtString = ''string''"

definition of_tag :: "('a \<Rightarrow> string) \<Rightarrow> 'a list \<Rightarrow> string \<Rightarrow> 'a option" where
  "of_tag tag xs s = find (\<lambda>x. tag x = s) xs"

definition access_mode_of_tag :: "string \<Rightarrow> access_mode option" where
  "access_mode_of_tag = of_tag access_mode_tag [AccessRead, AccessWrite, AccessReadWrite]"

definition byte_order_of_tag :: "string \<Rightarrow> byte_order option" where
  "byte_order_of_tag = of_tag byte_order_tag [BigEndian, LittleEndian]"

section \<open>Capabilities\<close>

record capability_param =
  cp_id :: string
  cp_unit :: "string option"
  cp_range :: "range option"
  cp_required :: bool

record capability_output =
  co_id :: string
  co_output_type :: string

datatype capability_impl =
    ModbusWrite u16 data_type "u8 option" byte_order "string option" string
  | MqttPublish string string
  | SerialCommand string
  | CanWrite u32 bool u8 u8 data_type byte_order "string option" string
  | EthercatPdoWrite "u16 option" u16 u16 u8 u16 u16 "string option" byte_order "string option" string
  | Script string

datatype safety_level = SafetyHigh | SafetyMedium | SafetyLow

record safety_constraints =
  sf_level :: safety_level
  sf_requires_approval :: bool
  sf_max_execution_time :: "human_duration option"

record capability_spec =
  cb_id :: string
  cb_device_id :: string
  cb_description :: string
  cb_inputs :: "capability_param list"
  cb_outputs :: "capability_output list"
  cb_preconditions :: "string list"
  cb_effects :: "string list"
  cb_implementation :: capability_impl
  cb_fallback :: "string list"
  cb_safety :: safety_constraints

section \<open>Workflows\<close>

datatype action_target = Capability string | SystemAction string

record action_spec =
  as_target :: action_target
  as_args :: "(string, json) hash_map"

record state_spec =
  st_entry :: "action_spec list"
  st_exit :: "action_spec list"

record transition_spec =
  ts_from :: string
  ts_to :: string
  ts_when :: string
  ts_priority :: "u32 option"
  ts_action :: "action_spec option"

record workflow_spec =
  ws_id :: string
  ws_description :: string
  ws_version :: string
  ws_devices :: "string list"
  ws_variables :: "(string, json) hash_map"
  ws_states :: "(string, state_spec) hash_map"
  ws_transitions :: "transition_spec list"
  ws_timeout :: "(string, human_duration) hash_map"
  ws_on_timeout :: "string option"

text \<open>A specification read from a file: its maps have distinct keys.\<close>

definition workflow_spec_wf :: "workflow_spec \<Rightarrow> bool" where
  "workflow_spec_wf spec \<longleftrightarrow>
     hm_wf (ws_variables spec) \<and> hm_wf (ws_states spec) \<and> hm_wf (ws_timeout spec)"

section \<open>Facts\<close>

lemma range_round_trip: "rg_min r \<le> rg_max r \<Longrightarrow> range_deserialize (range_serialize r) = Inr r"
  by (simp add: range_deserialize_def range_serialize_def)

lemma trim_utf8_digits:
  assumes "ascii s" and "s \<noteq> []" and "\<not> is_space (hd s)" and "\<not> is_space (last s)"
  shows "trim_utf8 s = s"
proof -
  have "trim_start s = s" using assms(2,3) by (simp add: trim_start_trimmed)
  moreover have "trim_start (rev s) = rev s" using assms(2,4) by (simp add: trim_start_trimmed hd_rev)
  ultimately show ?thesis using trim_utf8_ascii [OF assms(1)] by (simp add: trim_def)
qed

lemma digit_ascii: "is_digit c \<Longrightarrow> of_char c < (128 :: nat) \<and> \<not> is_space c"
  by (auto simp: is_digit_def is_space_def Let_def)

lemma dec_digits_ascii: "ascii (dec_digits n)" "\<not> is_space (hd (dec_digits n))"
    "\<not> is_space (last (dec_digits n))"
  using dec_digits_digits [of n] hd_in_set [of "dec_digits n"] last_in_set [of "dec_digits n"]
  by (auto simp: ascii_def list_all_iff dest: digit_ascii)

lemma trim_printed: "trim_utf8 (dec_digits n) = dec_digits n"
  by (rule trim_utf8_digits) (simp_all add: dec_digits_ascii)

lemma trim_suffixed:
  assumes "ascii u" and "u \<noteq> []" and "\<not> is_space (last u)"
  shows "trim_utf8 (dec_digits n @ u) = dec_digits n @ u"
  by (rule trim_utf8_digits) (use assms dec_digits_ascii [of n] in \<open>auto simp: ascii_def\<close>)

lemma duration_number_printed: "duration_number s (dec_digits (unat n)) = Inr n"
proof -
  have "int (unat n) < 2 ^ 64" using unsigned_less [of n, where 'a = int] by simp
  then show ?thesis by (simp add: duration_number_def trim_printed parse_unsigned_dec)
qed

lemma duration_of_printed:
  assumes "ms mod f = 0" and "f \<noteq> 0"
  shows "duration_of checks s (dec_digits (unat (ms div f))) f = Some (Inr \<lparr>hd_millis = ms\<rparr>)"
proof -
  have "ms div f * f = ms" using assms(1) by (metis add.right_neutral div_mult_mod_eq)
  moreover have "uint (ms div f) * uint f = uint ms"
    using assms(1) by (metis add.right_neutral div_mult_mod_eq uint_div uint_mod unsigned_0)
  moreover have "uint ms < 2 ^ 64" using uint_lt2p [of ms] by simp
  ultimately show ?thesis by (simp add: duration_of_def duration_number_printed mul_u64_def)
qed

lemma strip_suffix_other: "p \<noteq> [] \<Longrightarrow> s \<noteq> [] \<Longrightarrow> last s \<noteq> last p \<Longrightarrow> strip_suffix s p = None"
  by (auto simp: strip_suffix_def dest: ends_with_last)

lemma strip_ms_digits: "strip_suffix (dec_digits n @ ''s'') ''ms'' = None"
proof -
  have "last (dec_digits n) \<noteq> CHR ''m''"
  proof
    assume "last (dec_digits n) = CHR ''m''"
    then have "is_digit CHR ''m''"
      using dec_digits_digits [of n] last_in_set [of "dec_digits n"] by (auto simp: list_all_iff)
    then show False by (simp add: is_digit_def)
  qed
  moreover have "drop (length (dec_digits n @ ''s'') - 2) (dec_digits n @ ''s'') = [last (dec_digits n), CHR ''s'']"
    by (cases "dec_digits n" rule: rev_cases) simp_all
  ultimately show ?thesis
    by (auto simp: strip_suffix_def ends_with_def numeral_2_eq_2)
qed

text \<open>
  A duration written to a file is read back as itself, whatever its length and the build
  profile: the largest unit that divides it is printed, and the product does not overflow.
\<close>

theorem duration_round_trip: "duration_parse checks (duration_serialize d) = Some (Inr d)"
proof -
  have d: "\<lparr>hd_millis = hd_millis d\<rparr> = d" by simp
  have sp: "ascii ''h''" "ascii ''m''" "ascii ''s''" "ascii ''ms''"
    "\<not> is_space CHR ''h''" "\<not> is_space CHR ''m''" "\<not> is_space CHR ''s''"
    by (simp_all add: ascii_def is_space_def)
  show ?thesis
    unfolding duration_serialize_def Let_def
    using duration_of_printed [of "hd_millis d" 3600000] duration_of_printed [of "hd_millis d" 60000]
      duration_of_printed [of "hd_millis d" 1000] duration_number_printed [of _ "hd_millis d"]
    by (auto simp: duration_parse_def Let_def trim_suffixed sp strip_suffix_other strip_ms_digits d)
qed

text \<open>Reading is partial: with overflow checks a long duration stops the program.\<close>

lemma duration_overflow:
  "duration_parse True ''9000000000000h'' = None"
  "duration_parse False ''9000000000000h'' = Some (Inr \<lparr>hd_millis = 13953255926290448384\<rparr>)"
  by code_simp+

text \<open>The tags are read back.\<close>

lemma tag_round_trip:
  "access_mode_of_tag (access_mode_tag a) = Some a"
  "byte_order_of_tag (byte_order_tag b) = Some b"
  by (cases a; simp add: access_mode_of_tag_def of_tag_def)
    (cases b; simp add: byte_order_of_tag_def of_tag_def)

lemma inj_data_type_tag: "data_type_tag a = data_type_tag b \<longleftrightarrow> a = b"
  by (cases a; cases b) simp_all

end
