(* ===== verification/Dsl_Validate.thy ===== *)
theory Dsl_Validate
  imports Dsl_Types
begin

text \<open>
  The validators of the workflow language: \<open>DeviceSpec::validate\<close> (\<open>device.rs\<close>) collects diagnostics,
  \<open>CapabilitySpec::validate\<close> (\<open>capability.rs\<close>) stops at the first error; and the capabilities that
  \<open>capability.rs\<close> generates from the signals of a device. The loops over the characters of an
  expression compare with ASCII characters only, so they run over the bytes. Their counters are
  \<open>i32\<close>, which a text below two gigabytes cannot overflow. Numbers are not printed into messages.
\<close>

section \<open>Devices\<close>

datatype validation_level = LevelError | LevelWarning

record validation_diagnostic =
  vd_level :: validation_level
  vd_path :: string
  vd_message :: msg

definition diag_error_at :: "string \<Rightarrow> msg \<Rightarrow> validation_diagnostic" where
  "diag_error_at path m = \<lparr>vd_level = LevelError, vd_path = path, vd_message = m\<rparr>"

definition diag_warning_at :: "string \<Rightarrow> msg \<Rightarrow> validation_diagnostic" where
  "diag_warning_at path m = \<lparr>vd_level = LevelWarning, vd_path = path, vd_message = m\<rparr>"

definition result_is_valid :: "validation_diagnostic list \<Rightarrow> bool" where
  "result_is_valid ds = list_all (\<lambda>d. vd_level d \<noteq> LevelError) ds"

definition ident_start :: "char \<Rightarrow> bool" where
  "ident_start c \<longleftrightarrow>
     (let n = of_char c :: nat in 65 \<le> n \<and> n \<le> 90 \<or> 97 \<le> n \<and> n \<le> 122 \<or> n = 95)"

definition ident_continue :: "char \<Rightarrow> bool" where
  "ident_continue c \<longleftrightarrow> ident_start c \<or> is_digit c"

definition valid_signal_id :: "string \<Rightarrow> bool" where
  "valid_signal_id s = (case s of [] \<Rightarrow> True | c # cs \<Rightarrow> ident_start c \<and> list_all ident_continue cs)"

text \<open>The loop over the parentheses of an expression: it breaks at the first unmatched one.\<close>

fun paren_depth :: "int \<Rightarrow> string \<Rightarrow> int" where
  "paren_depth d [] = d"
| "paren_depth d (c # cs) =
     (if c = CHR ''('' then paren_depth (d + 1) cs
      else if c = CHR '')'' then (if d - 1 < 0 then d - 1 else paren_depth (d - 1) cs)
      else paren_depth d cs)"

definition is_output_type :: "signal_type \<Rightarrow> bool" where
  "is_output_type t \<longleftrightarrow> t = AnalogOutput \<or> t = DigitalOutput"

definition is_analog_type :: "signal_type \<Rightarrow> bool" where
  "is_analog_type t \<longleftrightarrow> t = AnalogInput \<or> t = AnalogOutput"

fun expected_protocol :: "signal_source \<Rightarrow> string" where
  "expected_protocol (Register _ _ _ _) = ''modbus-tcp''"
| "expected_protocol (Topic _) = ''mqtt''"
| "expected_protocol (SerialCommandSource _) = ''serial''"
| "expected_protocol (CanFrameSource _ _ _ _ _ _) = ''can''"
| "expected_protocol (EthercatPdo _ _ _ _ _ _ _ _ _) = ''ethercat''"

definition is_register :: "signal_source \<Rightarrow> bool" where
  "is_register s = (case s of Register _ _ _ _ \<Rightarrow> True | _ \<Rightarrow> False)"

definition indexed :: "string \<Rightarrow> nat \<Rightarrow> string \<Rightarrow> string" where
  "indexed name i rest = name @ ''['' @ dec_digits i @ '']'' @ rest"

definition id_diagnostics :: "string set \<Rightarrow> nat \<Rightarrow> signal_spec \<Rightarrow> validation_diagnostic list \<times> string set" where
  "id_diagnostics seen i s =
     (if trim_utf8 (sg_id s) = [] then ([diag_error_at (indexed ''signals'' i ''.id'') (Msg ''signal-id-empty'' [])], seen)
      else
        ((if valid_signal_id (sg_id s) then []
          else [diag_error_at (indexed ''signals'' i ''.id'') (Msg ''signal-id-format'' [sg_id s])]) @
         (if sg_id s \<in> seen then [diag_error_at (indexed ''signals'' i ''.id'') (Msg ''signal-id-duplicate'' [sg_id s])]
          else []),
         insert (sg_id s) seen))"

definition range_diagnostics :: "nat \<Rightarrow> signal_spec \<Rightarrow> validation_diagnostic list" where
  "range_diagnostics i s =
     (case sg_range s of
        Some r \<Rightarrow> if rg_min r \<ge> rg_max r
                  then [diag_error_at (indexed ''signals'' i ''.range'') (Msg ''range-min-not-below-max'' [])] else []
      | None \<Rightarrow> [])"

definition analog_diagnostics :: "nat \<Rightarrow> signal_spec \<Rightarrow> validation_diagnostic list" where
  "analog_diagnostics i s =
     (if is_analog_type (sg_signal_type s) then
        (if sg_unit s = None then [diag_warning_at (indexed ''signals'' i ''.unit'') (Msg ''analog-unit'' [sg_id s])] else []) @
        (if sg_range s = None then [diag_warning_at (indexed ''signals'' i ''.range'') (Msg ''analog-range'' [sg_id s])] else [])
      else [])"

definition protocol_diagnostics :: "device_spec \<Rightarrow> nat \<Rightarrow> signal_spec \<Rightarrow> validation_diagnostic list" where
  "protocol_diagnostics dev i s =
     (case dv_connection dev of
        None \<Rightarrow> []
      | Some conn \<Rightarrow>
          if cn_connection_type conn \<noteq> expected_protocol (sg_source s) \<and>
             \<not> (cn_connection_type conn = ''modbus-rtu'' \<and> is_register (sg_source s))
          then [diag_warning_at (indexed ''signals'' i ''.source'')
                  (Msg ''source-protocol'' [expected_protocol (sg_source s), cn_connection_type conn])]
          else [])"

definition scale_diagnostics :: "nat \<Rightarrow> signal_spec \<Rightarrow> validation_diagnostic list" where
  "scale_diagnostics i s =
     (case sg_scale s of
        None \<Rightarrow> []
      | Some scale \<Rightarrow>
          (if paren_depth 0 scale \<noteq> 0
           then [diag_error_at (indexed ''signals'' i ''.scale'') (Msg ''scale-parentheses'' [scale])] else []) @
          (if CHR ''/'' \<in> set scale
           then [diag_warning_at (indexed ''signals'' i ''.scale'') (Msg ''scale-division'' [scale])] else []))"

definition check_signal ::
    "device_spec \<Rightarrow> validation_diagnostic list \<times> string set \<Rightarrow> nat \<times> signal_spec \<Rightarrow>
     validation_diagnostic list \<times> string set" where
  "check_signal dev st is =
     (let (ds, seen) = st; (i, s) = is; (id_ds, seen') = id_diagnostics seen i s in
      (ds @ id_ds @ range_diagnostics i s @ analog_diagnostics i s @ protocol_diagnostics dev i s @
       scale_diagnostics i s, seen'))"

definition check_alarm ::
    "validation_diagnostic list \<times> string set \<Rightarrow> nat \<times> alarm_spec \<Rightarrow> validation_diagnostic list \<times> string set" where
  "check_alarm st ia =
     (let (ds, seen) = st; (i, a) = ia;
          (id_ds, seen') =
            (if trim_utf8 (al_id a) = []
             then ([diag_error_at (indexed ''alarms'' i ''.id'') (Msg ''alarm-id-empty'' [])], seen)
             else if al_id a \<in> seen
             then ([diag_error_at (indexed ''alarms'' i ''.id'') (Msg ''alarm-id-duplicate'' [al_id a])], seen)
             else ([], insert (al_id a) seen));
          cond = trim_utf8 (al_condition a);
          cond_ds =
            (if cond = [] then [diag_error_at (indexed ''alarms'' i ''.condition'') (Msg ''alarm-condition-empty'' [])]
             else if paren_depth 0 cond \<noteq> 0
             then [diag_error_at (indexed ''alarms'' i ''.condition'') (Msg ''alarm-parentheses'' [al_condition a])]
             else [])
      in (ds @ id_ds @ cond_ds, seen'))"

definition device_validate :: "device_spec \<Rightarrow> validation_diagnostic list" where
  "device_validate dev =
     (let has_write_signal = list_ex (\<lambda>s. is_output_type (sg_signal_type s)) (dv_signals dev);
          signal_ds = fst (foldl (check_signal dev) ([], {}) (enumerate 0 (dv_signals dev)));
          write_ds = (if has_write_signal \<and> dv_alarms dev = []
                      then [diag_warning_at ''alarms'' (Msg ''write-without-alarm'' [])] else [])
      in fst (foldl check_alarm (signal_ds @ write_ds, {}) (enumerate 0 (dv_alarms dev))))"

text \<open>\<open>parse_device_yaml_validated\<close> after the YAML has been read.\<close>

definition device_validated :: "device_spec \<Rightarrow> device_spec dsl_result" where
  "device_validated dev =
     (if result_is_valid (device_validate dev) then Inr dev
      else Inl (Validation (Msg ''device'' [dv_id dev])
                  (Msg ''device-invalid''
                     (map vd_path (filter (\<lambda>d. vd_level d = LevelError) (device_validate dev))))))"

end
