(* ===== verification/Compiler_Checks.thy ===== *)
theory Compiler_Checks
  imports Dsl_Validate
begin

text \<open>
  What the workflow compiler checks before it builds anything, \<open>crates/dsl-compiler/src\<close>: references
  (\<open>context.rs\<close>), the state machine (\<open>validate.rs\<close>), and the guards of \<open>output/guards.rs\<close>: features the
  runtime lacks, bare variables in conditions, ids that collide once their characters are replaced.
\<close>

datatype diagnostic_level = DiagError | DiagWarning

record safety_diagnostic =
  sd_level :: diagnostic_level
  sd_rule :: string
  sd_message :: msg
  sd_state_name :: "string option"
  sd_transition_index :: "nat option"
  sd_capability_id :: "string option"
  sd_action_index :: "nat option"

type_synonym safety_report = "safety_diagnostic list"

datatype compile_error =
    Reference "msg list"
  | StateMachine "msg list"
  | CapabilityCall msg
  | Safety safety_report
  | OutputBuild msg

type_synonym 'a compiled = "compile_error + 'a"

section \<open>References\<close>

record compiler_context =
  cx_devices :: "(string, device_spec) hash_map"
  cx_capabilities :: "(string, capability_spec) hash_map"
  cx_duplicate_asset_errors :: "msg list"

definition add_device ::
    "msg list \<times> (string, device_spec) hash_map \<Rightarrow> device_spec \<Rightarrow> msg list \<times> (string, device_spec) hash_map" where
  "add_device st d =
     (if hm_contains (snd st) (dv_id d) then fst st @ [Msg ''duplicate-device'' [dv_id d]] else fst st,
      hm_insert (dv_id d) d (snd st))"

definition add_capability ::
    "msg list \<times> (string, capability_spec) hash_map \<Rightarrow> capability_spec \<Rightarrow>
     msg list \<times> (string, capability_spec) hash_map" where
  "add_capability st c =
     (if hm_contains (snd st) (cb_id c) then fst st @ [Msg ''duplicate-capability'' [cb_id c]] else fst st,
      hm_insert (cb_id c) c (snd st))"

definition new_context :: "device_spec list \<Rightarrow> capability_spec list \<Rightarrow> compiler_context" where
  "new_context devices capabilities =
     (let (errors1, device_map) = foldl add_device ([], []) devices;
          (errors2, capability_map) = foldl add_capability (errors1, []) capabilities
      in \<lparr>cx_devices = device_map, cx_capabilities = capability_map, cx_duplicate_asset_errors = errors2\<rparr>)"

definition capability_ref :: "action_spec \<Rightarrow> string list" where
  "capability_ref a = (case as_target a of Capability i \<Rightarrow> [i] | SystemAction _ \<Rightarrow> [])"

definition collect_capability_refs :: "action_spec list \<Rightarrow> string list" where
  "collect_capability_refs as = concat (map capability_ref as)"

definition transition_actions :: "transition_spec \<Rightarrow> action_spec list" where
  "transition_actions t = (case ts_action t of Some a \<Rightarrow> [a] | None \<Rightarrow> [])"

definition capability_refs :: "workflow_spec \<Rightarrow> string list" where
  "capability_refs spec =
     concat (map (\<lambda>(_, s). collect_capability_refs (st_entry s) @ collect_capability_refs (st_exit s)) (ws_states spec)) @
     concat (map (\<lambda>t. collect_capability_refs (transition_actions t)) (ws_transitions spec))"

definition missing_device :: "compiler_context \<Rightarrow> string \<Rightarrow> msg list" where
  "missing_device ctx d = (if hm_contains (cx_devices ctx) d then [] else [Msg ''device-missing'' [d]])"

definition missing_capability :: "compiler_context \<Rightarrow> string \<Rightarrow> msg list" where
  "missing_capability ctx i =
     (case map_of (cx_capabilities ctx) i of
        Some cap \<Rightarrow> if hm_contains (cx_devices ctx) (cb_device_id cap) then []
                    else [Msg ''capability-device-missing'' [i, cb_device_id cap]]
      | None \<Rightarrow> [Msg ''capability-missing'' [i]])"

definition validate_references :: "compiler_context \<Rightarrow> workflow_spec \<Rightarrow> unit compiled" where
  "validate_references ctx spec =
     (let missing = cx_duplicate_asset_errors ctx @ concat (map (missing_device ctx) (ws_devices spec)) @
                    concat (map (missing_capability ctx) (capability_refs spec))
      in if missing = [] then Inr () else Inl (Reference missing))"

definition connection_id_for_device :: "compiler_context \<Rightarrow> string \<Rightarrow> string option" where
  "connection_id_for_device ctx d =
     Option.bind (map_of (cx_devices ctx) d) (\<lambda>dev. map_option cn_id (dv_connection dev))"

section \<open>The state machine\<close>

definition transition_key :: "transition_spec \<Rightarrow> string \<times> string \<times> string" where
  "transition_key t = (ts_from t, ts_to t, ts_when t)"

definition check_transition ::
    "workflow_spec \<Rightarrow> msg list \<times> (string \<times> string \<times> string) set \<Rightarrow> nat \<times> transition_spec \<Rightarrow>
     msg list \<times> (string \<times> string \<times> string) set" where
  "check_transition spec st it =
     (let (errors, seen) = st; (i, t) = it; states = ws_states spec in
      (errors @
       (if ts_from t \<noteq> ''*'' \<and> \<not> hm_contains states (ts_from t)
        then [Msg ''from-state-missing'' [dec_digits i, ts_from t]] else []) @
       (if \<not> hm_contains states (ts_to t) then [Msg ''to-state-missing'' [dec_digits i, ts_to t]] else []) @
       (if ts_from t = ''*'' \<and> ts_priority t = None then [Msg ''wildcard-priority'' [dec_digits i]] else []) @
       (if transition_key t \<in> seen
        then [Msg ''transition-duplicate'' [dec_digits i, ts_from t, ts_to t, ts_when t]] else []),
       insert (transition_key t) seen))"

definition spec_errors :: "workflow_spec \<Rightarrow> msg list" where
  "spec_errors spec =
     (let e1 = (if ws_states spec = [] then [Msg ''no-state'' []] else []);
          e2 = fst (foldl (check_transition spec) (e1, {}) (enumerate 0 (ws_transitions spec)))
      in e2 @
         concat (map (\<lambda>(s, _). if hm_contains (ws_states spec) s then [] else [Msg ''timeout-state-missing'' [s]])
           (ws_timeout spec)) @
         (case ws_on_timeout spec of
            Some s \<Rightarrow> if hm_contains (ws_states spec) s then [] else [Msg ''on-timeout-state-missing'' [s]]
          | None \<Rightarrow> []))"

definition validate_workflow_spec :: "workflow_spec \<Rightarrow> unit compiled" where
  "validate_workflow_spec spec =
     (if spec_errors spec = [] then Inr () else Inl (StateMachine (spec_errors spec)))"

text \<open>Texts are compared byte by byte; \<open>min\<close> of the keys is taken in that order.\<close>

definition determine_initial_state :: "workflow_spec \<Rightarrow> string compiled" where
  "determine_initial_state spec =
     (if ws_states spec = [] then Inl (StateMachine [Msg ''no-state'' []])
      else if hm_contains (ws_states spec) ''idle'' then Inr ''idle''
      else Inr (foldl min (fst (hd (ws_states spec))) (map fst (tl (ws_states spec)))))"

section \<open>Conditions\<close>

text \<open>The reader of string literals: the open quote, and whether the last character was a backslash.\<close>

fun strip_literals_from :: "char option \<Rightarrow> bool \<Rightarrow> string \<Rightarrow> string" where
  "strip_literals_from q esc [] = []"
| "strip_literals_from (Some q) esc (c # cs) =
     CHR '' '' #
       (if esc then strip_literals_from (Some q) False cs
        else if c = CHR 0x5C then strip_literals_from (Some q) True cs
        else if c = q then strip_literals_from None False cs
        else strip_literals_from (Some q) False cs)"
| "strip_literals_from None esc (c # cs) =
     (if c = CHR 0x22 \<or> c = CHR 0x27 then CHR '' '' # strip_literals_from (Some c) esc cs
      else c # strip_literals_from None esc cs)"

definition strip_string_literals :: "string \<Rightarrow> string" where
  "strip_string_literals expr = strip_literals_from None False expr"

text \<open>A path after \<open>payload\<close>: runs of a dot and an identifier. The rest of the text is given.\<close>

function after_path :: "string \<Rightarrow> string" where
  "after_path s =
     (case s of
        d # c # rest \<Rightarrow>
          if d = CHR ''.'' \<and> ident_start c then after_path (dropWhile ident_continue rest) else s
      | _ \<Rightarrow> s)"
  by pat_completeness auto
termination
  by (relation "measure length") (auto simp: le_imp_less_Suc length_dropWhile_le less_SucI)

declare after_path.simps [simp del]

text \<open>\<open>prev\<close> is the character before the text, if there is one.\<close>

definition starts_payload_path :: "char option \<Rightarrow> string \<Rightarrow> bool" where
  "starts_payload_path prev s \<longleftrightarrow>
     \<not> (case prev of Some c \<Rightarrow> ident_continue c | None \<Rightarrow> False) \<and>
     starts_with s ''payload'' \<and> starts_with (drop 7 s) ''.''"

lemma length_after_path: "length (after_path s) \<le> length s"
proof (induction s rule: after_path.induct)
  case (1 s)
  show ?case
  proof (cases s)
    case (Cons d s')
    show ?thesis
    proof (cases s')
      case (Cons c rest)
      then show ?thesis
        using 1 \<open>s = d # s'\<close> length_dropWhile_le [of ident_continue rest]
        by (subst after_path.simps) fastforce
    qed (simp add: \<open>s = d # s'\<close> after_path.simps)
  qed (simp add: after_path.simps)
qed

function strip_paths_from :: "char option \<Rightarrow> string \<Rightarrow> string" where
  "strip_paths_from prev s =
     (case s of
        [] \<Rightarrow> []
      | c # cs \<Rightarrow>
          if starts_payload_path prev s then
            (let rest = after_path (drop 7 s); n = length s - length rest in
             replicate n (CHR '' '') @ strip_paths_from (Some (s ! (n - 1))) rest)
          else c # strip_paths_from (Some c) cs)"
  by pat_completeness auto
termination
  by (relation "measure (\<lambda>(_, s). length s)") (auto intro!: le_imp_less_Suc order.trans [OF length_after_path])

declare strip_paths_from.simps [simp del]

definition strip_payload_paths :: "string \<Rightarrow> string" where
  "strip_payload_paths expr = strip_paths_from None expr"

definition reserved_words :: "string list" where
  "reserved_words =
     [''true'', ''false'', ''payload'', ''let'', ''if'', ''else'', ''and'', ''or'', ''not'', ''while'', ''loop'',
      ''for'', ''in'', ''return'', ''fn'', ''import'', ''export'']"

definition is_condition_reserved_word :: "string \<Rightarrow> bool" where
  "is_condition_reserved_word s \<longleftrightarrow> s \<in> set reserved_words"

function extract_bare_identifiers :: "string \<Rightarrow> string list" where
  "extract_bare_identifiers s =
     (case s of
        [] \<Rightarrow> []
      | c # cs \<Rightarrow>
          if ident_start c then
            (let ident = c # takeWhile ident_continue cs in
             (if is_condition_reserved_word ident \<or> parses_f64 ident then [] else [ident]) @
             extract_bare_identifiers (dropWhile ident_continue cs))
          else extract_bare_identifiers cs)"
  by pat_completeness auto
termination
  by (relation "measure length") (auto simp: le_imp_less_Suc length_dropWhile_le)

declare extract_bare_identifiers.simps [simp del]

definition bare_identifiers :: "string \<Rightarrow> string list" where
  "bare_identifiers w = extract_bare_identifiers (strip_payload_paths (strip_string_literals w))"

definition validate_transition_condition_supported :: "transition_spec \<Rightarrow> compile_error option" where
  "validate_transition_condition_supported t =
     (case bare_identifiers (ts_when t) of
        [] \<Rightarrow> None
      | v # _ \<Rightarrow> Some (StateMachine [Msg ''bare-variable'' [ts_from t, ts_to t, ts_when t, v]]))"

section \<open>Supported features and collisions\<close>

definition validate_action_supported :: "action_spec \<Rightarrow> compile_error option" where
  "validate_action_supported a =
     (case as_target a of
        SystemAction i \<Rightarrow> Some (CapabilityCall (Msg ''system-action'' [i]))
      | Capability _ \<Rightarrow> None)"

definition validate_actions_supported :: "action_spec list \<Rightarrow> unit compiled" where
  "validate_actions_supported as = try_all validate_action_supported as"

definition validate_supported_runtime_features :: "workflow_spec \<Rightarrow> unit compiled" where
  "validate_supported_runtime_features spec =
     (if ws_timeout spec \<noteq> [] \<or> ws_on_timeout spec \<noteq> None
      then Inl (StateMachine [Msg ''timeout-unsupported'' []])
      else
        and_then (try_fold (\<lambda>_ (_, s). and_then (validate_actions_supported (st_entry s))
                                         (\<lambda>_. validate_actions_supported (st_exit s))) () (ws_states spec)) (\<lambda>_.
        try_fold (\<lambda>_ t. case validate_transition_condition_supported t of
                          Some e \<Rightarrow> Inl e
                        | None \<Rightarrow> validate_actions_supported (transition_actions t)) () (ws_transitions spec)))"

definition sanitize_id :: "string \<Rightarrow> string" where
  "sanitize_id s = map (\<lambda>c. if c = CHR ''.'' \<or> c = CHR ''-'' \<or> c = CHR '' '' then CHR ''_'' else c) s"

definition sanitize_node_id :: "string \<Rightarrow> string" where
  "sanitize_node_id s = map (\<lambda>c. if c = CHR ''.'' \<or> c = CHR ''-'' \<or> c = CHR '' '' then CHR ''_'' else c) s"

definition state_port :: "string \<Rightarrow> string \<Rightarrow> nat \<Rightarrow> string" where
  "state_port phase name i = phase @ ''_'' @ sanitize_id name @ ''_'' @ dec_digits i"

definition trans_port :: "nat \<Rightarrow> transition_spec \<Rightarrow> string" where
  "trans_port i t = ''trans_'' @ sanitize_id (ts_from t) @ ''_'' @ sanitize_id (ts_to t) @ ''_'' @ dec_digits i"

fun action_target_id :: "action_target \<Rightarrow> string" where
  "action_target_id (Capability i) = i"
| "action_target_id (SystemAction i) = i"

definition cap_node_id :: "string \<Rightarrow> string \<Rightarrow> string" where
  "cap_node_id target port = sanitize_node_id (''cap_'' @ target @ ''_'' @ port)"

text \<open>An origin names where an id comes from, for the message.\<close>

type_synonym origins = "(string \<times> msg) list"

definition insert_unique_sanitized_id :: "origins \<Rightarrow> string \<Rightarrow> msg \<Rightarrow> origins compiled" where
  "insert_unique_sanitized_id os i origin =
     (case map_of os i of
        Some _ \<Rightarrow> Inl (OutputBuild (Msg ''id-collision'' [i]))
      | None \<Rightarrow> Inr (bt_put i origin os))"

definition insert_action_node_origin :: "origins \<Rightarrow> action_spec \<Rightarrow> string \<Rightarrow> msg \<Rightarrow> origins compiled" where
  "insert_action_node_origin nodes a port origin =
     insert_unique_sanitized_id nodes (cap_node_id (action_target_id (as_target a)) port) origin"

definition insert_action :: "origins \<times> origins \<Rightarrow> string \<times> msg \<times> action_spec \<Rightarrow> (origins \<times> origins) compiled" where
  "insert_action st pa =
     (let (ports, nodes) = st; (port, origin, a) = pa in
      and_then (insert_unique_sanitized_id ports port origin) (\<lambda>ports'.
      and_then (insert_action_node_origin nodes a port origin) (\<lambda>nodes'. Inr (ports', nodes'))))"

definition state_action_origins :: "string \<Rightarrow> state_spec \<Rightarrow> (string \<times> msg \<times> action_spec) list" where
  "state_action_origins name s =
     map (\<lambda>(i, a). (state_port ''entry'' name i, Msg ''entry'' [name, dec_digits i], a)) (enumerate 0 (st_entry s)) @
     map (\<lambda>(i, a). (state_port ''exit'' name i, Msg ''exit'' [name, dec_digits i], a)) (enumerate 0 (st_exit s))"

definition trans_action_origins :: "nat \<Rightarrow> transition_spec \<Rightarrow> (string \<times> msg \<times> action_spec) list" where
  "trans_action_origins i t =
     map (\<lambda>a. (trans_port i t, Msg ''transition'' [ts_from t, ts_to t, dec_digits i], a)) (transition_actions t)"

definition validate_sanitized_ids :: "workflow_spec \<Rightarrow> unit compiled" where
  "validate_sanitized_ids spec =
     map_sum id (\<lambda>_. ())
       (and_then
          (try_fold (\<lambda>st (name, s). try_fold insert_action st (state_action_origins name s)) ([], []) (ws_states spec))
          (\<lambda>st. try_fold (\<lambda>st (i, t). try_fold insert_action st (trans_action_origins i t)) st
                  (enumerate 0 (ws_transitions spec))))"

end
