(* ===== verification/Dsl_Capability.thy ===== *)
theory Dsl_Capability
  imports Dsl_Validate
begin

text \<open>
  \<open>crates/dsl-core/src/capability.rs\<close>: the validator of a capability and the capabilities generated
  from the signals of a device, with the question how the two fit together.
\<close>

section \<open>Validation\<close>

definition cap_error :: "capability_spec \<Rightarrow> string \<Rightarrow> string list \<Rightarrow> msg \<Rightarrow> dsl_error" where
  "cap_error spec place args m = Validation (Msg (''capability'' @ place) (cb_id spec # args)) m"

text \<open>The three loops over ids: none is blank, none appears twice.\<close>

definition unique_step :: "(msg \<Rightarrow> dsl_error) \<Rightarrow> string \<Rightarrow> string set \<Rightarrow> string \<Rightarrow> string set dsl_result" where
  "unique_step err what ids i =
     (if trim_utf8 i = [] then Inl (err (Msg (what @ ''-id-empty'') []))
      else if i \<in> ids then Inl (err (Msg (what @ ''-id-duplicate'') [i]))
      else Inr (insert i ids))"

definition validate_unique_inputs :: "capability_spec \<Rightarrow> string set dsl_result" where
  "validate_unique_inputs spec =
     try_fold (unique_step (cap_error spec ''-inputs'' []) ''input'') {} (map cp_id (cb_inputs spec))"

definition validate_unique_outputs :: "capability_spec \<Rightarrow> unit dsl_result" where
  "validate_unique_outputs spec =
     map_sum id (\<lambda>_. ()) (try_fold (unique_step (cap_error spec ''-outputs'' []) ''output'') {}
       (map co_id (cb_outputs spec)))"

definition validate_required_input_ranges :: "capability_spec \<Rightarrow> unit dsl_result" where
  "validate_required_input_ranges spec =
     try_all (\<lambda>i. if cp_required i \<and> cp_range i = None
                  then Some (cap_error spec ''-inputs-range'' [cp_id i] (Msg ''required-input-range'' [])) else None)
       (cb_inputs spec)"

definition validate_fallback_constraints :: "capability_spec \<Rightarrow> unit dsl_result" where
  "validate_fallback_constraints spec =
     map_sum id (\<lambda>_. ()) (try_fold (unique_step (cap_error spec ''-fallback'' []) ''fallback'') {}
       (cb_fallback spec))"

text \<open>The braces of a template: \<open>None\<close> is a closing brace without an opening one.\<close>

fun brace_depth :: "int \<Rightarrow> string \<Rightarrow> int option" where
  "brace_depth d [] = Some d"
| "brace_depth d (c # cs) =
     (if c = CHR ''{'' then brace_depth (d + 1) cs
      else if c = CHR ''}'' then (if d - 1 < 0 then None else brace_depth (d - 1) cs)
      else brace_depth d cs)"

text \<open>The names in \<open>${\<dots>}\<close>, trimmed and not blank.\<close>

function extract_template_variables :: "string \<Rightarrow> string list" where
  "extract_template_variables (a # b # rest) =
     (if a = CHR ''$'' \<and> b = CHR ''{'' \<and> CHR ''}'' \<in> set rest then
        (let name = takeWhile (\<lambda>c. c \<noteq> CHR ''}'') rest in
         (if trim_utf8 name = [] then [] else [trim_utf8 name]) @
         extract_template_variables (drop (Suc (length name)) rest))
      else extract_template_variables (b # rest))"
| "extract_template_variables [a] = []"
| "extract_template_variables [] = []"
  by pat_completeness auto
termination by (relation "measure length") auto

definition validate_template_expr ::
    "capability_spec \<Rightarrow> string \<Rightarrow> string \<Rightarrow> string set \<Rightarrow> unit dsl_result" where
  "validate_template_expr spec field_path expr input_ids =
     (if brace_depth 0 expr \<noteq> Some 0
      then Inl (cap_error spec [] [field_path] (Msg ''template-braces'' [expr]))
      else try_all (\<lambda>v. if v \<in> input_ids then None
                        else Some (cap_error spec [] [field_path] (Msg ''template-variable'' [v])))
             (extract_template_variables expr))"

text \<open>Parentheses and brackets together: \<open>None\<close> is an early error.\<close>

fun rhai_depths :: "int \<Rightarrow> int \<Rightarrow> string \<Rightarrow> (int \<times> int) option" where
  "rhai_depths p b [] = Some (p, b)"
| "rhai_depths p b (c # cs) =
     (if c = CHR ''('' then rhai_depths (p + 1) b cs
      else if c = CHR '')'' then (if p - 1 < 0 then None else rhai_depths (p - 1) b cs)
      else if c = CHR ''['' then rhai_depths p (b + 1) cs
      else if c = CHR '']'' then (if b - 1 < 0 then None else rhai_depths p (b - 1) cs)
      else rhai_depths p b cs)"

definition validate_rhai_like_expr :: "string \<Rightarrow> unit dsl_result" where
  "validate_rhai_like_expr expr =
     (let trimmed = trim_utf8 expr in
      if trimmed = [] then Inl (Validation (Msg ''expression'' []) (Msg ''expression-empty'' []))
      else if rhai_depths 0 0 trimmed = Some (0, 0) then Inr ()
      else Inl (Validation (Msg ''expression'' []) (Msg ''brackets'' [expr])))"

definition validate_implementation :: "capability_spec \<Rightarrow> string set \<Rightarrow> unit dsl_result" where
  "validate_implementation spec input_ids =
     (case cb_implementation spec of
        ModbusWrite _ _ _ _ _ v \<Rightarrow> validate_template_expr spec ''implementation.value'' v input_ids
      | MqttPublish _ payload \<Rightarrow> validate_template_expr spec ''implementation.payload'' payload input_ids
      | SerialCommand command \<Rightarrow> validate_template_expr spec ''implementation.command'' command input_ids
      | CanWrite _ _ _ _ _ _ _ data \<Rightarrow> validate_template_expr spec ''implementation.data'' data input_ids
      | Script content \<Rightarrow> validate_template_expr spec ''implementation.content'' content input_ids
      | EthercatPdoWrite _ _ _ _ _ _ _ _ _ _ \<Rightarrow> Inr ())"

definition first_error :: "('a \<Rightarrow> unit dsl_result) \<Rightarrow> 'a list \<Rightarrow> unit dsl_result" where
  "first_error check xs = try_all (\<lambda>x. case check x of Inl e \<Rightarrow> Some e | Inr _ \<Rightarrow> None) xs"

definition capability_validate :: "capability_spec \<Rightarrow> unit dsl_result" where
  "capability_validate spec =
     and_then (validate_unique_inputs spec) (\<lambda>input_ids.
     and_then (validate_unique_outputs spec) (\<lambda>_.
     and_then (validate_required_input_ranges spec) (\<lambda>_.
     and_then (validate_implementation spec input_ids) (\<lambda>_.
     and_then (first_error validate_rhai_like_expr (cb_preconditions spec)) (\<lambda>_.
     and_then (first_error validate_rhai_like_expr (cb_effects spec)) (\<lambda>_.
     if cb_id spec \<in> set (cb_fallback spec)
     then Inl (cap_error spec [] [] (Msg ''fallback-self'' []))
     else validate_fallback_constraints spec))))))"

section \<open>Generation\<close>

definition is_writable_signal :: "signal_type \<Rightarrow> signal_source \<Rightarrow> bool" where
  "is_writable_signal t source =
     (case source of
        Register _ access _ _ \<Rightarrow> is_output_type t \<or> access = AccessWrite \<or> access = AccessReadWrite
      | Topic _ \<Rightarrow> is_output_type t
      | SerialCommandSource _ \<Rightarrow> is_output_type t
      | CanFrameSource _ _ _ _ _ _ \<Rightarrow> is_output_type t
      | EthercatPdo _ _ _ _ _ _ _ _ _ \<Rightarrow> False)"

text \<open>The two Chinese texts that become data of a capability, as UTF-8.\<close>

definition generated_prefix :: string where
  "generated_prefix =
     [CHR 0xE8, CHR 0x87, CHR 0xAA, CHR 0xE5, CHR 0x8A, CHR 0xA8, CHR 0xE7, CHR 0x94, CHR 0x9F, CHR 0xE6,
      CHR 0x88, CHR 0x90, CHR 0xEF, CHR 0xBC, CHR 0x9A, CHR 0xE5, CHR 0x86, CHR 0x99, CHR 0xE5, CHR 0x85,
      CHR 0xA5, CHR 0x20]"

definition modified_suffix :: string where
  "modified_suffix =
     [CHR 0x20, CHR 0xE8, CHR 0xA2, CHR 0xAB, CHR 0xE4, CHR 0xBF, CHR 0xAE, CHR 0xE6, CHR 0x94, CHR 0xB9]"

definition value_reference :: string where
  "value_reference = ''${value}''"

fun implementation_of :: "signal_spec \<Rightarrow> signal_source \<Rightarrow> capability_impl" where
  "implementation_of s (Register register access dt bt) =
     ModbusWrite register dt bt BigEndian (sg_scale s) value_reference"
| "implementation_of s (Topic topic) = MqttPublish topic value_reference"
| "implementation_of s (SerialCommandSource command) = SerialCommand (command @ '' '' @ value_reference)"
| "implementation_of s (CanFrameSource can_id ext off len dt order) =
     CanWrite can_id ext off len dt order (sg_scale s) value_reference"
| "implementation_of s (EthercatPdo slave pdo entry sub bits off dt pdo_name entry_name) =
     EthercatPdoWrite slave pdo entry sub bits (case off of Some o' \<Rightarrow> o' | None \<Rightarrow> 0) dt LittleEndian
       (sg_scale s) value_reference"

definition build_capability_from_signal :: "device_spec \<Rightarrow> signal_spec \<Rightarrow> capability_spec" where
  "build_capability_from_signal dev s =
     \<lparr>cb_id = dv_id dev @ ''.write_'' @ sg_id s, cb_device_id = dv_id dev,
      cb_description = generated_prefix @ sg_id s,
      cb_inputs = [\<lparr>cp_id = ''value'', cp_unit = sg_unit s, cp_range = sg_range s, cp_required = True\<rparr>],
      cb_outputs = [], cb_preconditions = [], cb_effects = [sg_id s @ modified_suffix],
      cb_implementation = implementation_of s (sg_source s), cb_fallback = [],
      cb_safety = \<lparr>sf_level = SafetyLow, sf_requires_approval = False, sf_max_execution_time = None\<rparr>\<rparr>"

definition writable_signals :: "device_spec \<Rightarrow> signal_spec list" where
  "writable_signals dev = filter (\<lambda>s. is_writable_signal (sg_signal_type s) (sg_source s)) (dv_signals dev)"

definition try_generate_capabilities_from_device :: "device_spec \<Rightarrow> capability_spec list" where
  "try_generate_capabilities_from_device dev = map (build_capability_from_signal dev) (writable_signals dev)"

definition generate_capabilities_from_device :: "device_spec \<Rightarrow> capability_spec list" where
  "generate_capabilities_from_device dev = try_generate_capabilities_from_device dev"

datatype capability_inference =
    Generated capability_spec string
  | Unsupported string msg json

definition infer_single_capability :: "device_spec \<Rightarrow> signal_spec \<Rightarrow> capability_inference" where
  "infer_single_capability dev s = Generated (build_capability_from_signal dev s) (sg_id s)"

definition infer_capabilities_from_signals ::
    "device_spec \<Rightarrow> string list option \<Rightarrow> capability_inference list" where
  "infer_capabilities_from_signals dev signal_ids =
     map (infer_single_capability dev)
       (filter (\<lambda>s. case signal_ids of None \<Rightarrow> True | Some ids \<Rightarrow> sg_id s \<in> set ids) (writable_signals dev))"

section \<open>What a valid capability is\<close>

lemma unique_step_run:
  "try_fold (unique_step err what) ids xs = Inr ids' \<longleftrightarrow>
     (\<forall>x\<in>set xs. trim_utf8 x \<noteq> []) \<and> distinct xs \<and> set xs \<inter> ids = {} \<and> ids' = ids \<union> set xs"
  by (induction xs arbitrary: ids) (auto simp: unique_step_def)

lemma map_sum_unit [simp]: "map_sum id (\<lambda>_. ()) x = Inr u \<longleftrightarrow> (\<exists>a. x = Inr a)"
  by (cases x) auto

lemma first_error_Inr: "first_error check xs = Inr u \<longleftrightarrow> (\<forall>x\<in>set xs. is_ok (check x))"
  by (auto simp: first_error_def try_all_Inr is_ok_def split: sum.split)

definition template_ok :: "string set \<Rightarrow> string \<Rightarrow> bool" where
  "template_ok ids t \<longleftrightarrow> brace_depth 0 t = Some 0 \<and> set (extract_template_variables t) \<subseteq> ids"

lemma validate_template_Inr: "validate_template_expr spec f t ids = Inr u \<longleftrightarrow> template_ok ids t"
  by (auto simp: validate_template_expr_def template_ok_def try_all_Inr split: if_splits)

fun impl_template :: "capability_impl \<Rightarrow> string option" where
  "impl_template (ModbusWrite _ _ _ _ _ v) = Some v"
| "impl_template (MqttPublish _ p) = Some p"
| "impl_template (SerialCommand c) = Some c"
| "impl_template (CanWrite _ _ _ _ _ _ _ d) = Some d"
| "impl_template (Script c) = Some c"
| "impl_template (EthercatPdoWrite _ _ _ _ _ _ _ _ _ _) = None"

definition ids_ok :: "string list \<Rightarrow> bool" where
  "ids_ok ids \<longleftrightarrow> distinct ids \<and> (\<forall>i\<in>set ids. trim_utf8 i \<noteq> [])"

definition capability_ok :: "capability_spec \<Rightarrow> bool" where
  "capability_ok spec \<longleftrightarrow>
     ids_ok (map cp_id (cb_inputs spec)) \<and> ids_ok (map co_id (cb_outputs spec)) \<and> ids_ok (cb_fallback spec) \<and>
     (\<forall>i\<in>set (cb_inputs spec). cp_required i \<longrightarrow> cp_range i \<noteq> None) \<and>
     (\<forall>t. impl_template (cb_implementation spec) = Some t \<longrightarrow> template_ok (cp_id ` set (cb_inputs spec)) t) \<and>
     (\<forall>e\<in>set (cb_preconditions spec) \<union> set (cb_effects spec). is_ok (validate_rhai_like_expr e)) \<and>
     cb_id spec \<notin> set (cb_fallback spec)"

lemma capability_validate_iff: "capability_validate spec = Inr u \<longleftrightarrow> capability_ok spec"
proof -
  have impl: "validate_implementation spec ids = Inr v \<longleftrightarrow>
      (\<forall>t. impl_template (cb_implementation spec) = Some t \<longrightarrow> template_ok ids t)" for ids v
    by (cases "cb_implementation spec") (simp_all add: validate_implementation_def validate_template_Inr)
  show ?thesis
    by (auto simp: capability_validate_def and_then_Inr validate_unique_inputs_def validate_unique_outputs_def
        validate_required_input_ranges_def validate_fallback_constraints_def unique_step_run try_all_Inr
        impl first_error_Inr capability_ok_def ids_ok_def split: if_splits)
qed

end
