(* ===== verification/Json_Build.thy ===== *)
theory Json_Build
  imports Json
begin

text \<open>
  Objects as the \<open>json!\<close> macro builds them: members inserted one after the other into a sorted map.
\<close>

text \<open>The object of a \<open>json!\<close> literal, and the numbers and optional texts in it.\<close>

definition json_object :: "(string \<times> json) list \<Rightarrow> json" where
  "json_object members = JObject (fold (\<lambda>(k, v). bt_put k v) members [])"

definition json_word :: "'a::len word \<Rightarrow> json" where
  "json_word w = JNumber (PosInt (ucast w))"

definition json_opt :: "string option \<Rightarrow> json" where
  "json_opt x = (case x of Some s \<Rightarrow> JString s | None \<Rightarrow> JNull)"

definition members :: "(string \<times> json) list \<Rightarrow> json_map" where
  "members ms = fold (\<lambda>(k, v). bt_put k v) ms []"

lemma json_object_members: "json_object ms = JObject (members ms)"
  by (simp add: json_object_def members_def)

lemma map_of_members [simp]: "distinct (map fst ms) \<Longrightarrow> map_of (members ms) k = map_of ms k"
  by (simp add: members_def btree.get_put_all split: option.split)

end
