(* ===== verification/Compiler.thy ===== *)
theory Compiler
  imports Compiler_Checks Dsl_Capability Json_Build
begin

text \<open>
  The workflow compiler, \<open>crates/dsl-compiler/src/output\<close>: \<open>json.rs\<close>, the graph builder (\<open>builder.rs\<close>)
  and \<open>compile\<close> (\<open>mod.rs\<close>). A workflow becomes one state machine node and one capability node for every
  action, joined by one edge per action.
\<close>

section \<open>Implementations and types\<close>

fun capability_impl_to_json :: "capability_impl \<Rightarrow> json" where
  "capability_impl_to_json (ModbusWrite register dt bt order scale v) =
     json_object [(''type'', JString ''modbus-write''), (''register'', json_word register),
       (''value_template'', JString v)]"
| "capability_impl_to_json (MqttPublish topic payload) =
     json_object [(''type'', JString ''mqtt-publish''), (''topic'', JString topic),
       (''payload_template'', JString payload)]"
| "capability_impl_to_json (SerialCommand command) =
     json_object [(''type'', JString ''serial-command''), (''command_template'', JString command)]"
| "capability_impl_to_json (CanWrite can_id ext off len dt order scale data) =
     json_object [(''type'', JString ''can-write''), (''can_id'', json_word can_id), (''data_template'', JString data),
       (''is_extended'', JBool ext)]"
| "capability_impl_to_json (Script content) =
     json_object [(''type'', JString ''script''), (''content'', JString content)]"
| "capability_impl_to_json (EthercatPdoWrite slave pdo entry sub bits off dt order scale v) =
     json_object
       ([(''type'', JString ''ethercat-pdo-write''), (''pdo_index'', json_word pdo), (''entry_index'', json_word entry),
         (''sub_index'', json_word sub), (''bit_len'', json_word bits)] @
        (case slave of Some a \<Rightarrow> [(''slave_address'', json_word a)] | None \<Rightarrow> []) @
        (case dt of Some t \<Rightarrow> [(''data_type'', JString t)] | None \<Rightarrow> []) @
        [(''byte_order'', JString (byte_order_tag order)), (''byte_offset'', json_word off)] @
        (case scale of Some s \<Rightarrow> [(''scale'', JString s)] | None \<Rightarrow> []))"

definition infer_pin_type_json :: "json \<Rightarrow> json" where
  "infer_pin_type_json v =
     json_object [(''kind'', JString
       (case v of
          JBool _ \<Rightarrow> ''bool''
        | JNumber n \<Rightarrow> if is_i64 n \<or> is_u64 n then ''integer'' else ''float''
        | JString _ \<Rightarrow> ''string''
        | _ \<Rightarrow> ''any''))]"

definition map_to_json_map :: "(string, json) hash_map \<Rightarrow> json_map" where
  "map_to_json_map m = fold (\<lambda>(k, v). bt_put k v) m []"

section \<open>The builder\<close>

record action_instance =
  ai_port_id :: string
  ai_target_id :: string
  ai_is_capability :: bool
  ai_args :: json_map

record graph_builder =
  gb_sm_node_id :: string
  gb_nodes :: json_map
  gb_actions :: "action_instance list"
  gb_edges :: "json list"
  gb_variables :: json_map

definition new_builder :: "workflow_spec \<Rightarrow> graph_builder" where
  "new_builder spec =
     \<lparr>gb_sm_node_id = sanitize_node_id (''sm_'' @ ws_id spec), gb_nodes = [], gb_actions = [], gb_edges = [],
      gb_variables = []\<rparr>"

definition action_instance :: "string \<Rightarrow> action_spec \<Rightarrow> action_instance" where
  "action_instance port a =
     \<lparr>ai_port_id = port, ai_target_id = action_target_id (as_target a),
      ai_is_capability = (case as_target a of Capability _ \<Rightarrow> True | SystemAction _ \<Rightarrow> False),
      ai_args = map_to_json_map (as_args a)\<rparr>"

definition collect_state_actions :: "string \<Rightarrow> state_spec \<Rightarrow> action_instance list" where
  "collect_state_actions name s =
     map (\<lambda>(i, a). action_instance (state_port ''entry'' name i) a) (enumerate 0 (st_entry s)) @
     map (\<lambda>(i, a). action_instance (state_port ''exit'' name i) a) (enumerate 0 (st_exit s))"

definition collect_actions :: "workflow_spec \<Rightarrow> graph_builder \<Rightarrow> graph_builder" where
  "collect_actions spec b =
     b\<lparr>gb_actions := gb_actions b @
         concat (map (\<lambda>(name, s). collect_state_actions name s) (ws_states spec)) @
         concat (map (\<lambda>(i, t). map (action_instance (trans_port i t)) (transition_actions t))
           (enumerate 0 (ws_transitions spec)))\<rparr>"

definition state_config_json :: "string \<Rightarrow> state_spec \<Rightarrow> json" where
  "state_config_json name s =
     json_object
       [(''name'', JString name),
        (''entry_actions'', JArray (map (\<lambda>(i, _). JString (state_port ''entry'' name i)) (enumerate 0 (st_entry s)))),
        (''exit_actions'', JArray (map (\<lambda>(i, _). JString (state_port ''exit'' name i)) (enumerate 0 (st_exit s))))]"

definition transition_config_json :: "nat \<Rightarrow> transition_spec \<Rightarrow> json" where
  "transition_config_json i t =
     json_object
       [(''from'', JString (ts_from t)), (''to'', JString (ts_to t)), (''when'', JString (ts_when t)),
        (''priority'', json_word (case ts_priority t of Some p \<Rightarrow> p | None \<Rightarrow> 0)),
        (''action_port'', json_opt (map_option (\<lambda>_. trans_port i t) (ts_action t)))]"

definition state_machine_config_json :: "workflow_spec \<Rightarrow> string \<Rightarrow> json" where
  "state_machine_config_json spec initial =
     json_object
       [(''initial_state'', JString initial),
        (''states'', JArray (map (\<lambda>(name, s). state_config_json name s) (ws_states spec))),
        (''transitions'', JArray (map (\<lambda>(i, t). transition_config_json i t) (enumerate 0 (ws_transitions spec)))),
        (''timeout_rules'', JArray (map (\<lambda>(s, d). json_object [(''state'', JString s), (''timeout_ms'', json_word (hd_millis d))])
           (ws_timeout spec))),
        (''on_timeout_target'', json_opt (ws_on_timeout spec))]"

definition build_state_machine_node :: "workflow_spec \<Rightarrow> string \<Rightarrow> graph_builder \<Rightarrow> graph_builder" where
  "build_state_machine_node spec initial b =
     b\<lparr>gb_nodes := bt_put (gb_sm_node_id b)
         (json_object
            [(''id'', JString (gb_sm_node_id b)), (''type'', JString ''stateMachine''),
             (''config'', state_machine_config_json spec initial), (''buffer'', JNumber (PosInt 32))])
         (gb_nodes b)\<rparr>"

definition instance_node_id :: "action_instance \<Rightarrow> string" where
  "instance_node_id a = cap_node_id (ai_target_id a) (ai_port_id a)"

definition capability_call_json :: "compiler_context \<Rightarrow> action_instance \<Rightarrow> capability_spec \<Rightarrow> json" where
  "capability_call_json ctx a cap =
     json_object
       ([(''id'', JString (instance_node_id a)), (''type'', JString ''capabilityCall''),
         (''config'', json_object
            [(''capability_id'', JString (ai_target_id a)), (''device_id'', JString (cb_device_id cap)),
             (''implementation'', capability_impl_to_json (cb_implementation cap)),
             (''args'', JObject (ai_args a))]),
         (''buffer'', JNumber (PosInt 32))] @
        (case connection_id_for_device ctx (cb_device_id cap) of
           Some c \<Rightarrow> [(''connection_id'', JString c)] | None \<Rightarrow> []))"

definition add_capability_node :: "compiler_context \<Rightarrow> json_map \<Rightarrow> action_instance \<Rightarrow> json_map compiled" where
  "add_capability_node ctx nodes a =
     (if \<not> ai_is_capability a then Inl (CapabilityCall (Msg ''system-action'' [ai_target_id a]))
      else
        and_then (ok_or (CapabilityCall (Msg ''capability-missing'' [ai_target_id a]))
                    (map_of (cx_capabilities ctx) (ai_target_id a)))
          (\<lambda>cap. Inr (bt_put (instance_node_id a) (capability_call_json ctx a cap) nodes)))"

definition build_capability_call_nodes :: "compiler_context \<Rightarrow> graph_builder \<Rightarrow> graph_builder compiled" where
  "build_capability_call_nodes ctx b =
     map_sum id (\<lambda>nodes. b\<lparr>gb_nodes := nodes\<rparr>) (try_fold (add_capability_node ctx) (gb_nodes b) (gb_actions b))"

definition edge_json :: "string \<Rightarrow> action_instance \<Rightarrow> json" where
  "edge_json sm a =
     json_object [(''from'', JString sm), (''to'', JString (instance_node_id a)),
       (''source_port_id'', JString (ai_port_id a))]"

definition build_edges :: "graph_builder \<Rightarrow> graph_builder" where
  "build_edges b = b\<lparr>gb_edges := gb_edges b @ map (edge_json (gb_sm_node_id b)) (gb_actions b)\<rparr>"

definition variable_json :: "json \<Rightarrow> json \<Rightarrow> json" where
  "variable_json ty initial = json_object [(''type'', ty), (''initial'', initial)]"

definition state_variable :: "graph_builder \<Rightarrow> string" where
  "state_variable b = ''_sm.'' @ gb_sm_node_id b @ ''.current_state''"

definition build_variables :: "workflow_spec \<Rightarrow> string \<Rightarrow> graph_builder \<Rightarrow> graph_builder" where
  "build_variables spec initial b =
     (let user = fold (\<lambda>(name, v). bt_put name (variable_json (infer_pin_type_json v) v)) (ws_variables spec)
                   (gb_variables b)
      in b\<lparr>gb_variables := bt_put (state_variable b)
             (variable_json (json_object [(''kind'', JString ''string'')]) (JString initial)) user\<rparr>)"

definition build_output :: "workflow_spec \<Rightarrow> graph_builder \<Rightarrow> json" where
  "build_output spec b =
     json_object
       [(''name'', JString (ws_id spec)), (''connections'', JArray []), (''nodes'', JObject (gb_nodes b)),
        (''edges'', JArray (gb_edges b)), (''variables'', JObject (gb_variables b))]"

section \<open>Compilation\<close>

text \<open>What both entry points check first; the result is the initial state.\<close>

definition compile_checks :: "compiler_context \<Rightarrow> workflow_spec \<Rightarrow> string compiled" where
  "compile_checks ctx spec =
     and_then (validate_references ctx spec) (\<lambda>_.
     and_then (validate_workflow_spec spec) (\<lambda>_.
     and_then (validate_supported_runtime_features spec) (\<lambda>_.
     and_then (validate_sanitized_ids spec) (\<lambda>_.
     determine_initial_state spec))))"

definition compile_graph :: "compiler_context \<Rightarrow> workflow_spec \<Rightarrow> string \<Rightarrow> json compiled" where
  "compile_graph ctx spec initial =
     and_then (build_capability_call_nodes ctx
        (build_state_machine_node spec initial (collect_actions spec (new_builder spec)))) (\<lambda>b.
     Inr (build_output spec (build_variables spec initial (build_edges b))))"

definition compile :: "compiler_context \<Rightarrow> workflow_spec \<Rightarrow> json compiled" where
  "compile ctx spec = and_then (compile_checks ctx spec) (compile_graph ctx spec)"

end
