(* ===== verification/Cycle_Search.thy ===== *)
theory Cycle_Search
  imports Prelude
begin

text \<open>
  The depth first search of \<open>crates/dsl-compiler/src/safety/state_graph.rs\<close> (\<open>dfs_find_cycles\<close>): it
  records the cycle of every edge back to its stack. The cycles it reports are cycles of the graph, and
  it reports one if there is any; it need not report all of them.
\<close>

section \<open>The search\<close>

type_synonym edge_list = "(string \<times> string) list"

record cycle_search =
  cs_visited :: "string set"
  cs_stack :: "string set"
  cs_path :: "string list"
  cs_cycles :: "string list list"

definition neighbors :: "edge_list \<Rightarrow> string \<Rightarrow> string list" where
  "neighbors es n = map snd (filter (\<lambda>e. fst e = n) es)"

definition record_cycle :: "string \<Rightarrow> cycle_search \<Rightarrow> cycle_search" where
  "record_cycle n st =
     (if n \<in> set (cs_path st) then
        (let cycle = dropWhile (\<lambda>p. p \<noteq> n) (cs_path st) in
         if sort cycle \<in> sort ` set (cs_cycles st) then st else st\<lparr>cs_cycles := cs_cycles st @ [cycle]\<rparr>)
      else st)"

definition enter_node :: "string \<Rightarrow> cycle_search \<Rightarrow> cycle_search" where
  "enter_node n st =
     st\<lparr>cs_visited := insert n (cs_visited st), cs_stack := insert n (cs_stack st), cs_path := cs_path st @ [n]\<rparr>"

definition leave_node :: "string \<Rightarrow> cycle_search \<Rightarrow> cycle_search" where
  "leave_node n st = st\<lparr>cs_stack := cs_stack st - {n}, cs_path := butlast (cs_path st)\<rparr>"

function (sequential) dfs_find_cycles :: "edge_list \<Rightarrow> string \<Rightarrow> cycle_search \<Rightarrow> cycle_search"
  and dfs_neighbors :: "edge_list \<Rightarrow> string list \<Rightarrow> cycle_search \<Rightarrow> cycle_search" where
  "dfs_find_cycles es n st =
     (if n \<in> cs_stack st then record_cycle n st
      else if n \<in> cs_visited st then st
      else leave_node n (dfs_neighbors es (neighbors es n) (enter_node n st)))"
| "dfs_neighbors es [] st = st"
| "dfs_neighbors es (n # ns) st = dfs_neighbors es ns (dfs_find_cycles es n st)"
  by pat_completeness auto

lemma search_visited [simp]:
  "cs_visited (record_cycle n st) = cs_visited st"
  "cs_visited (enter_node n st) = insert n (cs_visited st)"
  "cs_visited (leave_node n st) = cs_visited st"
  by (simp_all add: record_cycle_def enter_node_def leave_node_def Let_def)

lemma visited_grows:
  "dfs_find_cycles_dfs_neighbors_dom (Inl (es, n, st)) \<Longrightarrow> cs_visited st \<subseteq> cs_visited (dfs_find_cycles es n st)"
  "dfs_find_cycles_dfs_neighbors_dom (Inr (es, ns, st)) \<Longrightarrow> cs_visited st \<subseteq> cs_visited (dfs_neighbors es ns st)"
proof (induction es n st and es ns st rule: dfs_find_cycles_dfs_neighbors.pinduct)
  case (1 es n st)
  then show ?case by (subst dfs_find_cycles.psimps) auto
next
  case (2 es st)
  then show ?case by (simp add: dfs_neighbors.psimps)
next
  case (3 es n ns st)
  then show ?case by (simp add: dfs_neighbors.psimps)
qed

definition sources :: "edge_list \<Rightarrow> string set" where
  "sources es = fst ` set es"

lemma neighbors_outside: "n \<notin> sources es \<Longrightarrow> neighbors es n = []"
  by (auto simp: neighbors_def sources_def filter_empty_conv)

lemma set_neighbors [simp]: "m \<in> set (neighbors es n) \<longleftrightarrow> (n, m) \<in> set es"
  by (force simp: neighbors_def)

definition unseen :: "edge_list \<Rightarrow> cycle_search \<Rightarrow> nat" where
  "unseen es st = card (sources es - cs_visited st)"

lemma unseen_mono: "cs_visited st \<subseteq> cs_visited st' \<Longrightarrow> unseen es st' \<le> unseen es st"
  unfolding unseen_def by (rule card_mono) (auto simp: sources_def)

lemma unseen_enter: "n \<in> sources es \<Longrightarrow> n \<notin> cs_visited st \<Longrightarrow> unseen es (enter_node n st) < unseen es st"
  unfolding unseen_def by (rule psubset_card_mono) (auto simp: sources_def)

termination dfs_find_cycles
proof (relation "inv_image (less_than <*lex*> less_than)
    (\<lambda>x. case x of Inl (es, n, st) \<Rightarrow> (unseen es st, 1)
                 | Inr (es, ns, st) \<Rightarrow> (unseen es st, 2 * length ns))", goal_cases)
  case (2 es n st)
  show ?case
  proof (cases "n \<in> sources es")
    case True
    then show ?thesis using unseen_enter 2 by simp
  next
    case False
    then show ?thesis using unseen_mono [of st "enter_node n st" es] by (auto simp: neighbors_outside le_less)
  qed
next
  case (4 es n ns st)
  then show ?case
    using unseen_mono [OF visited_grows(1) [OF 4], of es] by (auto simp: le_less)
qed auto

declare dfs_find_cycles.simps [simp del]

lemma visited_mono:
  "cs_visited st \<subseteq> cs_visited (dfs_find_cycles es n st)"
  "cs_visited st \<subseteq> cs_visited (dfs_neighbors es ns st)"
  by (induction es n st and es ns st rule: dfs_find_cycles_dfs_neighbors.induct)
    (subst dfs_find_cycles.simps, auto)

definition search_start :: cycle_search where
  "search_start = \<lparr>cs_visited = {}, cs_stack = {}, cs_path = [], cs_cycles = []\<rparr>"

definition find_cycles :: "edge_list \<Rightarrow> string list \<Rightarrow> string list list" where
  "find_cycles es starts = cs_cycles (dfs_neighbors es starts search_start)"

section \<open>What it reports are cycles\<close>

text \<open>A list of nodes that can be gone through again and again.\<close>

definition closed_walk :: "edge_list \<Rightarrow> string list \<Rightarrow> bool" where
  "closed_walk es c \<longleftrightarrow> c \<noteq> [] \<and> successively (\<lambda>a b. (a, b) \<in> set es) (c @ [hd c])"

lemma successively_trancl:
  "successively (\<lambda>a b. (a, b) \<in> r) (x # xs @ [y]) \<Longrightarrow> (x, y) \<in> r\<^sup>+"
  by (induction xs arbitrary: x) (auto intro: trancl_into_trancl2)

lemma closed_walk_cyclic: "closed_walk es c \<Longrightarrow> \<not> acyclic (set es)"
  using successively_trancl [of "set es" "hd c" "tl c" "hd c"] by (cases c) (auto simp: closed_walk_def acyclic_def)

definition search_inv :: "edge_list \<Rightarrow> cycle_search \<Rightarrow> bool" where
  "search_inv es st \<longleftrightarrow>
     cs_stack st = set (cs_path st) \<and> distinct (cs_path st) \<and> cs_stack st \<subseteq> cs_visited st \<and>
     successively (\<lambda>a b. (a, b) \<in> set es) (cs_path st) \<and> (\<forall>c\<in>set (cs_cycles st). closed_walk es c)"

definition extends_path :: "edge_list \<Rightarrow> cycle_search \<Rightarrow> string \<Rightarrow> bool" where
  "extends_path es st n \<longleftrightarrow> cs_path st = [] \<or> (last (cs_path st), n) \<in> set es"

lemma successively_dropWhile: "successively P xs \<Longrightarrow> successively P (dropWhile Q xs)"
  by (induction xs) (auto simp: successively_Cons)

lemma last_dropWhile: "dropWhile Q xs \<noteq> [] \<Longrightarrow> last (dropWhile Q xs) = last xs"
  by (induction xs) (auto split: if_splits)

lemma record_cycle_inv:
  assumes "search_inv es st" and "extends_path es st n" and "n \<in> set (cs_path st)"
  shows "search_inv es (record_cycle n st)" and "cs_cycles (record_cycle n st) \<noteq> []"
    and "cs_path (record_cycle n st) = cs_path st" and "cs_stack (record_cycle n st) = cs_stack st"
    and "set (cs_cycles st) \<subseteq> set (cs_cycles (record_cycle n st))"
proof -
  let ?c = "dropWhile (\<lambda>p. p \<noteq> n) (cs_path st)"
  have c: "?c \<noteq> []" "hd ?c = n" "last ?c = last (cs_path st)"
    using assms(3) hd_dropWhile [of "\<lambda>p. p \<noteq> n" "cs_path st"] by (auto simp: dropWhile_eq_Nil_conv last_dropWhile)
  have "closed_walk es ?c"
    using assms(1,2,3) c successively_dropWhile [of "\<lambda>a b. (a, b) \<in> set es" "cs_path st" "\<lambda>p. p \<noteq> n"]
    by (auto simp: closed_walk_def successively_append_iff search_inv_def extends_path_def)
  with assms(1) show "search_inv es (record_cycle n st)"
    by (auto simp: record_cycle_def search_inv_def Let_def)
  show "cs_cycles (record_cycle n st) \<noteq> []"
    using assms(3) by (auto simp: record_cycle_def Let_def)
  show "cs_path (record_cycle n st) = cs_path st" "cs_stack (record_cycle n st) = cs_stack st"
    "set (cs_cycles st) \<subseteq> set (cs_cycles (record_cycle n st))"
    by (auto simp: record_cycle_def Let_def)
qed

lemma enter_node_inv:
  "search_inv es st \<Longrightarrow> extends_path es st n \<Longrightarrow> n \<notin> cs_stack st \<Longrightarrow> search_inv es (enter_node n st)"
  by (auto simp: search_inv_def enter_node_def extends_path_def successively_append_iff)

lemma leave_node_back:
  assumes "search_inv es st'" and "cs_path st' = cs_path st @ [n]" and "cs_stack st' = insert n (cs_stack st)"
    and "search_inv es st" and "n \<notin> cs_stack st"
  shows "search_inv es (leave_node n st')" and "cs_path (leave_node n st') = cs_path st"
    and "cs_stack (leave_node n st') = cs_stack st" and "cs_cycles (leave_node n st') = cs_cycles st'"
  using assms by (auto simp: search_inv_def leave_node_def)

text \<open>What a call keeps: the stack is as before, and cycles are only added.\<close>

definition search_frame :: "edge_list \<Rightarrow> cycle_search \<Rightarrow> cycle_search \<Rightarrow> bool" where
  "search_frame es st st' \<longleftrightarrow>
     search_inv es st' \<and> cs_path st' = cs_path st \<and> cs_stack st' = cs_stack st \<and>
     set (cs_cycles st) \<subseteq> set (cs_cycles st')"

lemma search_frame:
  "search_inv es st \<Longrightarrow> extends_path es st n \<Longrightarrow> search_frame es st (dfs_find_cycles es n st)"
  "search_inv es st \<Longrightarrow> \<forall>n\<in>set ns. extends_path es st n \<Longrightarrow> search_frame es st (dfs_neighbors es ns st)"
proof (induction es n st and es ns st rule: dfs_find_cycles_dfs_neighbors.induct)
  case (1 es n st)
  let ?st' = "dfs_neighbors es (neighbors es n) (enter_node n st)"
  consider "n \<in> cs_stack st" | "n \<notin> cs_stack st" "n \<in> cs_visited st" | "n \<notin> cs_stack st" "n \<notin> cs_visited st" by blast
  then show ?case
  proof cases
    case 1
    then have "n \<in> set (cs_path st)" using "1.prems"(1) by (simp add: search_inv_def)
    then show ?thesis
      using record_cycle_inv [OF "1.prems"] 1 by (simp add: dfs_find_cycles.simps [of es n st] search_frame_def)
  next
    case 2
    then show ?thesis using "1.prems"(1) by (simp add: dfs_find_cycles.simps [of es n st] search_frame_def)
  next
    case 3
    have "search_frame es (enter_node n st) ?st'"
      using "1.IH" [OF 3] enter_node_inv [OF "1.prems" 3(1)] by (simp add: extends_path_def enter_node_def)
    then show ?thesis
      using leave_node_back [of es ?st' st n] "1.prems"(1) 3
      by (simp add: dfs_find_cycles.simps [of es n st] search_frame_def enter_node_def)
  qed
next
  case (2 es st)
  then show ?case by (simp add: search_frame_def)
next
  case (3 es n ns st)
  let ?st1 = "dfs_find_cycles es n st"
  have first: "search_frame es st ?st1" using 3 by simp
  have "\<forall>m\<in>set ns. extends_path es st m" using 3 by simp
  then have inv: "search_inv es ?st1" "\<forall>m\<in>set ns. extends_path es ?st1 m"
    using first by (simp_all add: search_frame_def extends_path_def)
  show ?case using "3.IH"(2) [OF inv] first by (auto simp: search_frame_def)
qed

section \<open>It reports one if there is any\<close>

text \<open>Nodes settled one after the other, each after its successors.\<close>

inductive settled :: "edge_list \<Rightarrow> string set \<Rightarrow> bool" for es where
  settled_empty: "settled es {}"
| settled_insert: "settled es F \<Longrightarrow> n \<notin> F \<Longrightarrow> set (neighbors es n) \<subseteq> F \<Longrightarrow> settled es (insert n F)"

lemma settled_acyclic: "settled es F \<Longrightarrow> set es `` F \<subseteq> F \<and> acyclic (set es \<inter> F \<times> F)"
proof (induction rule: settled.induct)
  case (settled_insert F n)
  have "\<not> (m, n) \<in> set es" if "m \<in> insert n F" for m
    using settled_insert that by auto
  then have "set es \<inter> insert n F \<times> insert n F \<subseteq> (set es \<inter> F \<times> F) \<union> {n} \<times> F"
    using settled_insert by auto
  moreover have "acyclic ((set es \<inter> F \<times> F) \<union> {n} \<times> F)"
  proof -
    have "(a, b) \<in> ((set es \<inter> F \<times> F) \<union> {n} \<times> F)\<^sup>+ \<Longrightarrow> b \<in> F \<and> (a \<in> F \<longrightarrow> (a, b) \<in> (set es \<inter> F \<times> F)\<^sup>+)" for a b
      by (induction rule: trancl_induct) (use settled_insert.hyps(2) in \<open>auto intro: trancl_into_trancl\<close>)
    then show ?thesis
      using settled_insert by (fastforce simp: acyclic_def)
  qed
  ultimately have "acyclic (set es \<inter> insert n F \<times> insert n F)" by (rule acyclic_subset [rotated])
  moreover have "set es `` insert n F \<subseteq> insert n F" using settled_insert by auto
  ultimately show ?case by blast
qed (simp add: acyclic_def)

definition finished :: "cycle_search \<Rightarrow> string set" where
  "finished st = cs_visited st - cs_stack st"

lemma search_settles:
  "search_inv es st \<Longrightarrow> extends_path es st n \<Longrightarrow> settled es (finished st) \<Longrightarrow> cs_cycles (dfs_find_cycles es n st) = [] \<Longrightarrow>
    settled es (finished (dfs_find_cycles es n st)) \<and> n \<in> finished (dfs_find_cycles es n st)"
  "search_inv es st \<Longrightarrow> \<forall>n\<in>set ns. extends_path es st n \<Longrightarrow> settled es (finished st) \<Longrightarrow> cs_cycles (dfs_neighbors es ns st) = [] \<Longrightarrow>
    settled es (finished (dfs_neighbors es ns st)) \<and> set ns \<subseteq> finished (dfs_neighbors es ns st)"
proof (induction es n st and es ns st rule: dfs_find_cycles_dfs_neighbors.induct)
  case (1 es n st)
  let ?st' = "dfs_neighbors es (neighbors es n) (enter_node n st)"
  consider "n \<in> cs_stack st" | "n \<notin> cs_stack st" "n \<in> cs_visited st" | "n \<notin> cs_stack st" "n \<notin> cs_visited st" by blast
  then show ?case
  proof cases
    case 1
    then have "n \<in> set (cs_path st)" using "1.prems"(1) by (simp add: search_inv_def)
    then show ?thesis
      using record_cycle_inv(2) [OF "1.prems"(1,2)] 1 "1.prems"(4) by (simp add: dfs_find_cycles.simps [of es n st])
  next
    case 2
    then show ?thesis using "1.prems"(3) by (simp add: dfs_find_cycles.simps [of es n st] finished_def)
  next
    case 3
    have dfs: "dfs_find_cycles es n st = leave_node n ?st'" using 3 by (simp add: dfs_find_cycles.simps [of es n st])
    have inv: "search_inv es (enter_node n st)" by (rule enter_node_inv [OF "1.prems"(1,2) 3(1)])
    have adj: "\<forall>m\<in>set (neighbors es n). extends_path es (enter_node n st) m"
      by (simp add: extends_path_def enter_node_def)
    have "finished (enter_node n st) = finished st" using 3 by (auto simp: finished_def enter_node_def)
    moreover have "cs_cycles ?st' = []" using "1.prems"(4) by (simp add: dfs leave_node_def)
    ultimately have IH: "settled es (finished ?st')" "set (neighbors es n) \<subseteq> finished ?st'"
      using "1.IH" [OF 3 inv adj] "1.prems"(3) by simp_all
    have frame: "cs_stack ?st' = insert n (cs_stack st)" "cs_path ?st' = cs_path st @ [n]"
      using search_frame(2) [OF inv adj] by (simp_all add: search_frame_def enter_node_def)
    have "n \<in> cs_visited ?st'" using search_frame(2) [OF inv adj] by (auto simp: search_frame_def search_inv_def frame)
    then have "finished (dfs_find_cycles es n st) = insert n (finished ?st')"
      using 3 by (auto simp: dfs finished_def leave_node_def frame)
    moreover have "n \<notin> finished ?st'" by (simp add: finished_def frame)
    ultimately show ?thesis using IH by (auto intro: settled_insert)
  qed
next
  case (2 es st)
  then show ?case by simp
next
  case (3 es n ns st)
  let ?st1 = "dfs_find_cycles es n st"
  have frame: "search_frame es st ?st1" using search_frame(1) 3 by simp
  have "\<forall>m\<in>set ns. extends_path es st m" using 3 by simp
  with frame have inv: "search_inv es ?st1" "\<forall>m\<in>set ns. extends_path es ?st1 m"
    by (simp_all add: search_frame_def extends_path_def)
  have "set (cs_cycles ?st1) \<subseteq> set (cs_cycles (dfs_neighbors es ns ?st1))"
    using search_frame(2) [OF inv] by (simp add: search_frame_def)
  then have "cs_cycles ?st1 = []" using 3 by simp
  then have first: "settled es (finished ?st1)" "n \<in> finished ?st1" using 3 by simp_all
  then have rest: "settled es (finished (dfs_neighbors es ns ?st1))" "set ns \<subseteq> finished (dfs_neighbors es ns ?st1)"
    using "3.IH"(2) inv 3 by simp_all
  have "finished ?st1 \<subseteq> finished (dfs_neighbors es ns ?st1)"
    using search_frame(2) [OF inv] visited_mono(2) [of ?st1 es ns] by (auto simp: finished_def search_frame_def)
  with first rest show ?case by auto
qed

lemma find_cycles_correct:
  assumes "sources es \<subseteq> set starts"
  shows "find_cycles es starts = [] \<longleftrightarrow> acyclic (set es)"
    and "c \<in> set (find_cycles es starts) \<Longrightarrow> closed_walk es c"
proof -
  have inv: "search_inv es search_start" "\<forall>n\<in>set starts. extends_path es search_start n"
    by (simp_all add: search_inv_def search_start_def extends_path_def)
  have frame: "search_frame es search_start (dfs_neighbors es starts search_start)"
    by (rule search_frame(2) [OF inv])
  show walk: "closed_walk es c" if "c \<in> set (find_cycles es starts)" for c
    using frame that by (simp add: search_frame_def search_inv_def find_cycles_def)
  have "acyclic (set es)" if "find_cycles es starts = []"
  proof -
    let ?F = "finished (dfs_neighbors es starts search_start)"
    have "settled es ?F" "set starts \<subseteq> ?F"
      using search_settles(2) [OF inv] that by (simp_all add: find_cycles_def finished_def search_start_def settled_empty)
    then have "set es `` ?F \<subseteq> ?F" "acyclic (set es \<inter> ?F \<times> ?F)" "sources es \<subseteq> ?F"
      using settled_acyclic assms by auto
    moreover from this have "set es \<inter> ?F \<times> ?F = set es" by (force simp: sources_def)
    ultimately show ?thesis by simp
  qed
  moreover have "\<not> acyclic (set es)" if "c \<in> set (find_cycles es starts)" for c
    using closed_walk_cyclic [OF walk [OF that]] .
  ultimately show "find_cycles es starts = [] \<longleftrightarrow> acyclic (set es)" by (cases "find_cycles es starts") auto
qed

end
