(* ===== verification/Compiler_Safety.thy ===== *)
theory Compiler_Safety
  imports Compiler Cycle_Search
begin

text \<open>
  The safety rules of the workflow compiler, \<open>crates/dsl-compiler/src/safety.rs\<close> and \<open>safety/\<close>: units,
  ranges, preconditions, the shape of the state graph, approval and interlocks. What they take from the
  Unicode tables and the order in which hash sets are gone through are arguments.
\<close>

section \<open>Reports (\<open>report.rs\<close>)\<close>

definition has_errors :: "safety_report \<Rightarrow> bool" where
  "has_errors report \<longleftrightarrow> list_ex (\<lambda>d. sd_level d = DiagError) report"

definition diag_with ::
    "diagnostic_level \<Rightarrow> string \<Rightarrow> msg \<Rightarrow> string option \<Rightarrow> nat option \<Rightarrow> string option \<Rightarrow> nat option \<Rightarrow> safety_diagnostic" where
  "diag_with level rule m state transition cap action =
     \<lparr>sd_level = level, sd_rule = rule, sd_message = m, sd_state_name = state, sd_transition_index = transition,
      sd_capability_id = cap, sd_action_index = action\<rparr>"

definition diag_error :: "string \<Rightarrow> msg \<Rightarrow> safety_diagnostic" where
  "diag_error rule m = diag_with DiagError rule m None None None None"

definition diag_warning :: "string \<Rightarrow> msg \<Rightarrow> safety_diagnostic" where
  "diag_warning rule m = diag_with DiagWarning rule m None None None None"

section \<open>Templates (\<open>template.rs\<close>)\<close>

text \<open>The double nearest to an integer, ties to the even one (\<open>as f64\<close>), for 64-bit values.\<close>

definition f64_of_int :: "int \<Rightarrow> rat" where
  "f64_of_int i =
     (let n = \<bar>i\<bar>;
          shift = (if n < 2 ^ 53 then 0 else nat (int (length (filter (\<lambda>k. 2 ^ k \<le> n) [0..<65])) - 53));
          q = n div 2 ^ shift; r = n mod 2 ^ shift;
          up = (if shift > 0 \<and> (2 * r > 2 ^ shift \<or> 2 * r = 2 ^ shift \<and> odd q) then 1 else 0)
      in of_int (sgn i * ((q + up) * 2 ^ shift)))"

definition as_f64 :: "json \<Rightarrow> rat option" where
  "as_f64 v =
     (case v of
        JNumber (PosInt w) \<Rightarrow> Some (f64_of_int (uint w))
      | JNumber (NegInt w) \<Rightarrow> Some (f64_of_int (sint w))
      | JNumber (Float f) \<Rightarrow> Some f
      | _ \<Rightarrow> None)"

datatype template_value = VariableRef string | Numeric rat | OtherValue

definition extract_variable_ref :: "string \<Rightarrow> string option" where
  "extract_variable_ref s =
     (let t = trim_utf8 s in
      if starts_with t ''${'' \<and> ends_with t ''}'' then
        (let inner = take (length t - 3) (drop 2 t) in if inner \<noteq> [] then Some inner else None)
      else None)"

definition classify_template :: "json \<Rightarrow> template_value" where
  "classify_template v =
     (case v of
        JNumber _ \<Rightarrow> (case as_f64 v of Some f \<Rightarrow> Numeric f | None \<Rightarrow> OtherValue)
      | JString s \<Rightarrow> (case extract_variable_ref s of Some n \<Rightarrow> VariableRef n | None \<Rightarrow> OtherValue)
      | _ \<Rightarrow> OtherValue)"

section \<open>Rules on actions (\<open>action_rules.rs\<close>)\<close>

text \<open>Where an action stands: a state or a transition, and its index there.\<close>

type_synonym action_place = "string option \<times> nat option \<times> nat"

definition placed_actions :: "workflow_spec \<Rightarrow> (action_place \<times> action_spec) list" where
  "placed_actions spec =
     concat (map (\<lambda>(name, s).
       map (\<lambda>(i, a). ((Some name, None, i), a)) (enumerate 0 (st_entry s)) @
       map (\<lambda>(i, a). ((Some name, None, i), a)) (enumerate 0 (st_exit s))) (ws_states spec)) @
     concat (map (\<lambda>(i, t). map (\<lambda>a. ((None, Some i, 0), a)) (transition_actions t))
       (enumerate 0 (ws_transitions spec)))"

definition action_capability :: "compiler_context \<Rightarrow> action_spec \<Rightarrow> (string \<times> capability_spec) option" where
  "action_capability ctx a =
     (case as_target a of
        Capability i \<Rightarrow> map_option (\<lambda>cap. (i, cap)) (map_of (cx_capabilities ctx) i)
      | SystemAction _ \<Rightarrow> None)"

definition input_param :: "capability_spec \<Rightarrow> string \<Rightarrow> capability_param option" where
  "input_param cap k = find (\<lambda>p. cp_id p = k) (cb_inputs cap)"

definition placed_diag :: "diagnostic_level \<Rightarrow> string \<Rightarrow> string \<Rightarrow> action_place \<Rightarrow> msg \<Rightarrow> safety_diagnostic" where
  "placed_diag level rule cap pl m =
     (let (state, transition, i) = pl in diag_with level rule m state transition (Some cap) (Some i))"

definition check_action_unit :: "compiler_context \<Rightarrow> action_place \<times> action_spec \<Rightarrow> safety_report" where
  "check_action_unit ctx pa =
     (case action_capability ctx (snd pa) of
        None \<Rightarrow> []
      | Some (i, cap) \<Rightarrow>
          concat (map (\<lambda>(k, v).
            case Option.bind (input_param cap k) cp_unit of
              None \<Rightarrow> []
            | Some u \<Rightarrow>
                (case classify_template v of
                   Numeric _ \<Rightarrow> [placed_diag DiagWarning ''unit_consistency'' i (fst pa) (Msg ''unit-literal'' [k, u])]
                 | VariableRef n \<Rightarrow> [placed_diag DiagWarning ''unit_consistency'' i (fst pa) (Msg ''unit-variable'' [k, n, u])]
                 | OtherValue \<Rightarrow> [])) (as_args (snd pa))))"

definition check_unit_consistency :: "compiler_context \<Rightarrow> workflow_spec \<Rightarrow> safety_report" where
  "check_unit_consistency ctx spec = concat (map (check_action_unit ctx) (placed_actions spec))"

definition check_argument_range ::
    "workflow_spec \<Rightarrow> string \<Rightarrow> action_place \<Rightarrow> string \<Rightarrow> range \<Rightarrow> json \<Rightarrow> safety_report" where
  "check_argument_range spec i pl k r v =
     (case classify_template v of
        Numeric x \<Rightarrow>
          if range_contains r x then [] else [placed_diag DiagError ''range_boundary'' i pl (Msg ''literal-out-of-range'' [k])]
      | VariableRef n \<Rightarrow>
          (case map_of (ws_variables spec) n of
             Some initial \<Rightarrow>
               (case as_f64 initial of
                  Some x \<Rightarrow>
                    if range_contains r x then []
                    else [placed_diag DiagError ''range_boundary'' i pl (Msg ''initial-out-of-range'' [n, k])]
                | None \<Rightarrow> [placed_diag DiagWarning ''range_boundary'' i pl (Msg ''initial-not-a-number'' [n, k])])
           | None \<Rightarrow> [placed_diag DiagWarning ''range_boundary'' i pl (Msg ''variable-undeclared'' [n, k])])
      | OtherValue \<Rightarrow> [])"

definition check_action_range ::
    "compiler_context \<Rightarrow> workflow_spec \<Rightarrow> action_place \<times> action_spec \<Rightarrow> safety_report" where
  "check_action_range ctx spec pa =
     (case action_capability ctx (snd pa) of
        None \<Rightarrow> []
      | Some (i, cap) \<Rightarrow>
          concat (map (\<lambda>(k, v).
            case Option.bind (input_param cap k) cp_range of
              None \<Rightarrow> [] | Some r \<Rightarrow> check_argument_range spec i (fst pa) k r v) (as_args (snd pa))))"

definition check_range_boundary :: "compiler_context \<Rightarrow> workflow_spec \<Rightarrow> safety_report" where
  "check_range_boundary ctx spec = concat (map (check_action_range ctx spec) (placed_actions spec))"

definition check_action_approval :: "compiler_context \<Rightarrow> action_place \<times> action_spec \<Rightarrow> safety_report" where
  "check_action_approval ctx pa =
     (case action_capability ctx (snd pa) of
        None \<Rightarrow> []
      | Some (i, cap) \<Rightarrow>
          if sf_level (cb_safety cap) = SafetyHigh \<and> sf_requires_approval (cb_safety cap)
          then [placed_diag DiagWarning ''dangerous_action_approval'' i (fst pa)
                 (Msg ''approval'' [i, case fst (fst pa) of Some s \<Rightarrow> s | None \<Rightarrow> ''transition''])]
          else [])"

definition check_dangerous_action_approval :: "compiler_context \<Rightarrow> workflow_spec \<Rightarrow> safety_report" where
  "check_dangerous_action_approval ctx spec = concat (map (check_action_approval ctx) (placed_actions spec))"

section \<open>Preconditions (\<open>preconditions.rs\<close>)\<close>

text \<open>
  \<open>un_lower\<close> is \<open>str::to_lowercase\<close>; \<open>un_words\<close> splits a text at every character that is neither
  alphanumeric nor an underscore; the other three are the orders of the hash collections.
\<close>

record safety_env =
  un_lower :: "string \<Rightarrow> string"
  un_words :: "string \<Rightarrow> string list"
  ho_capabilities :: "string list \<Rightarrow> string list"
  ho_interlocks :: "string list \<Rightarrow> string list"
  ho_devices :: "string list \<Rightarrow> string list"

definition expression_reserved_words :: "string list" where
  "expression_reserved_words =
     [''true'', ''false'', ''let'', ''if'', ''else'', ''and'', ''or'', ''not'', ''while'', ''loop'', ''for'', ''in'',
      ''return'', ''fn'', ''import'', ''export'']"

definition is_reserved_word :: "string \<Rightarrow> bool" where
  "is_reserved_word s \<longleftrightarrow> s \<in> set expression_reserved_words"

definition extract_identifiers :: "safety_env \<Rightarrow> string \<Rightarrow> string list" where
  "extract_identifiers env expr =
     filter (\<lambda>t. \<not> parses_f64 t) (filter (\<lambda>t. \<not> is_reserved_word t) (filter (\<lambda>t. t \<noteq> []) (un_words env expr)))"

definition is_signal_readable :: "signal_spec \<Rightarrow> bool" where
  "is_signal_readable s \<longleftrightarrow>
     sg_signal_type s = AnalogInput \<or> sg_signal_type s = DigitalInput \<or>
     (case sg_source s of
        Register address access dt bt \<Rightarrow> access = AccessRead \<or> access = AccessReadWrite
      | _ \<Rightarrow> False)"

definition used_capabilities :: "workflow_spec \<Rightarrow> string list" where
  "used_capabilities spec = remdups (capability_refs spec)"

definition check_identifier :: "string \<Rightarrow> string \<Rightarrow> device_spec \<Rightarrow> string \<Rightarrow> safety_report" where
  "check_identifier cap_id cond dev ident =
     (if is_reserved_word ident \<or> parses_f64 ident then []
      else
        (case find (\<lambda>s. sg_id s = ident) (dv_signals dev) of
           Some s \<Rightarrow>
             if is_signal_readable s then []
             else [diag_with DiagError ''precondition_reachability'' (Msg ''signal-not-readable'' [cap_id, cond, ident])
                     None None (Some cap_id) None]
         | None \<Rightarrow>
             [diag_with DiagWarning ''precondition_reachability'' (Msg ''not-a-signal'' [cap_id, cond, ident, dv_id dev])
                None None (Some cap_id) None]))"

definition check_capability_preconditions :: "safety_env \<Rightarrow> compiler_context \<Rightarrow> string \<Rightarrow> safety_report" where
  "check_capability_preconditions env ctx cap_id =
     (case map_of (cx_capabilities ctx) cap_id of
        None \<Rightarrow> []
      | Some cap \<Rightarrow>
          if cb_preconditions cap = [] then []
          else
            (case map_of (cx_devices ctx) (cb_device_id cap) of
               None \<Rightarrow> []
             | Some dev \<Rightarrow>
                 concat (map (\<lambda>cond. concat (map (check_identifier cap_id cond dev) (extract_identifiers env cond)))
                   (cb_preconditions cap))))"

definition check_precondition_reachability ::
    "safety_env \<Rightarrow> compiler_context \<Rightarrow> workflow_spec \<Rightarrow> safety_report" where
  "check_precondition_reachability env ctx spec =
     concat (map (check_capability_preconditions env ctx) (ho_capabilities env (used_capabilities spec)))"

section \<open>The state graph (\<open>state_graph.rs\<close>)\<close>

text \<open>One pass over the transitions, and passes until nothing changes.\<close>

definition reach_step :: "string set \<times> bool \<Rightarrow> transition_spec \<Rightarrow> string set \<times> bool" where
  "reach_step st t =
     (if (ts_from t = ''*'' \<or> ts_from t \<in> fst st) \<and> ts_to t \<notin> fst st then (insert (ts_to t) (fst st), True) else st)"

definition reach_pass :: "transition_spec list \<Rightarrow> string set \<Rightarrow> string set \<times> bool" where
  "reach_pass ts R = foldl reach_step (R, False) ts"

lemma reach_pass_grows:
  "foldl reach_step (R, c) ts = (R', c') \<Longrightarrow>
    R \<subseteq> R' \<and> R' \<subseteq> R \<union> ts_to ` set ts \<and> (c' \<longrightarrow> c \<or> R \<noteq> R') \<and> (\<not> c' \<longrightarrow> R' = R \<and> \<not> c)"
proof (induction ts arbitrary: R c)
  case (Cons t ts)
  have step: "reach_step (R, c) t = (if (ts_from t = ''*'' \<or> ts_from t \<in> R) \<and> ts_to t \<notin> R then (insert (ts_to t) R, True) else (R, c))"
    by (simp add: reach_step_def)
  show ?case
  proof (cases "(ts_from t = ''*'' \<or> ts_from t \<in> R) \<and> ts_to t \<notin> R")
    case True
    then have "foldl reach_step (insert (ts_to t) R, True) ts = (R', c')" using Cons.prems by (simp add: step)
    from Cons.IH [OF this] True show ?thesis by auto
  next
    case False
    then have "reach_step (R, c) t = (R, c)" unfolding step by (rule if_not_P)
    then have "foldl reach_step (R, c) ts = (R', c')" using Cons.prems by simp
    from Cons.IH [OF this] show ?thesis by auto
  qed
qed simp

function reach_loop :: "transition_spec list \<Rightarrow> string set \<Rightarrow> string set" where
  "reach_loop ts R = (let (R', changed) = reach_pass ts R in if changed then reach_loop ts R' else R')"
  by pat_completeness auto
termination
proof (relation "measure (\<lambda>(ts, R). card (ts_to ` set ts - R))", goal_cases)
  case (2 ts R p R' changed)
  then have "R \<subset> R'" "R' \<subseteq> R \<union> ts_to ` set ts"
    using reach_pass_grows [of R False ts R' changed] by (auto simp: reach_pass_def)
  then have "ts_to ` set ts - R' \<subset> ts_to ` set ts - R" by blast
  then show ?case by (auto intro: psubset_card_mono)
qed auto

declare reach_loop.simps [simp del]

definition find_reachable_states :: "workflow_spec \<Rightarrow> string \<Rightarrow> string set" where
  "find_reachable_states spec initial = reach_loop (ws_transitions spec) {initial}"

definition is_terminal_state_hint :: "safety_env \<Rightarrow> string \<Rightarrow> bool" where
  "is_terminal_state_hint env name \<longleftrightarrow>
     list_ex (str_contains (un_lower env name)) [''done'', ''complete'', ''end'', ''fault'', ''error'', ''finish'']"

definition find_dead_end_states :: "safety_env \<Rightarrow> workflow_spec \<Rightarrow> string list" where
  "find_dead_end_states env spec =
     filter (\<lambda>name.
       \<not> list_ex (\<lambda>t. ts_from t \<noteq> ''*'' \<and> ts_from t = name) (ws_transitions spec) \<and>
       \<not> list_ex (\<lambda>t. ts_from t = ''*'') (ws_transitions spec) \<and>
       \<not> hm_contains (ws_timeout spec) name \<and> \<not> is_terminal_state_hint env name) (map fst (ws_states spec))"

definition certain_edges :: "workflow_spec \<Rightarrow> edge_list" where
  "certain_edges spec = map (\<lambda>t. (ts_from t, ts_to t)) (filter (\<lambda>t. ts_from t \<noteq> ''*'') (ws_transitions spec))"

definition find_trigger_cycles :: "workflow_spec \<Rightarrow> string list list" where
  "find_trigger_cycles spec = find_cycles (certain_edges spec) (map fst (ws_states spec))"

definition is_unconditional_when :: "string \<Rightarrow> bool" where
  "is_unconditional_when w \<longleftrightarrow> trim_utf8 w = [] \<or> trim_utf8 w = ''true''"

definition has_unconditional_edge :: "workflow_spec \<Rightarrow> string \<Rightarrow> string \<Rightarrow> bool" where
  "has_unconditional_edge spec a b \<longleftrightarrow>
     list_ex (\<lambda>t. ts_from t = a \<and> ts_to t = b \<and> is_unconditional_when (ts_when t)) (ws_transitions spec)"

definition is_unconditional_cycle :: "workflow_spec \<Rightarrow> string list \<Rightarrow> bool" where
  "is_unconditional_cycle spec c \<longleftrightarrow>
     c \<noteq> [] \<and> list_all (\<lambda>i. has_unconditional_edge spec (c ! i) (c ! ((i + 1) mod length c))) [0..<length c]"

definition completeness_rule :: string where
  "completeness_rule = ''state_machine_completeness''"

definition check_cycle :: "workflow_spec \<Rightarrow> string list \<Rightarrow> safety_diagnostic" where
  "check_cycle spec c =
     (if is_unconditional_cycle spec c then diag_error completeness_rule (Msg ''unconditional-cycle'' c)
      else diag_warning completeness_rule (Msg ''conditional-cycle'' c))"

definition check_state_machine_completeness :: "safety_env \<Rightarrow> workflow_spec \<Rightarrow> string \<Rightarrow> safety_report" where
  "check_state_machine_completeness env spec initial =
     map (\<lambda>s. diag_with DiagWarning completeness_rule (Msg ''unreachable-state'' [s]) (Some s) None None None)
       (filter (\<lambda>s. s \<notin> find_reachable_states spec initial) (map fst (ws_states spec))) @
     map (\<lambda>s. diag_with DiagWarning completeness_rule (Msg ''dead-end-state'' [s]) (Some s) None None None)
       (find_dead_end_states env spec) @
     map (check_cycle spec) (find_trigger_cycles spec)"

section \<open>Interlocks (\<open>interlock.rs\<close>)\<close>

definition capabilities_by_device :: "compiler_context \<Rightarrow> string list \<Rightarrow> (string \<times> capability_spec list) list" where
  "capabilities_by_device ctx ids =
     foldl (\<lambda>m i. case map_of (cx_capabilities ctx) i of
         None \<Rightarrow> m
       | Some cap \<Rightarrow>
           hm_insert (cb_device_id cap) ((case map_of m (cb_device_id cap) of Some cs \<Rightarrow> cs | None \<Rightarrow> []) @ [cap]) m) [] ids"

definition register_conflict :: "capability_spec \<Rightarrow> capability_spec \<Rightarrow> (string \<times> string \<times> u16) list" where
  "register_conflict a b =
     (case (cb_implementation a, cb_implementation b) of
        (ModbusWrite r1 _ _ _ _ _, ModbusWrite r2 _ _ _ _ _) \<Rightarrow> if r1 = r2 then [(cb_id a, cb_id b, r1)] else []
      | _ \<Rightarrow> [])"

fun find_register_conflicts :: "capability_spec list \<Rightarrow> (string \<times> string \<times> u16) list" where
  "find_register_conflicts [] = []"
| "find_register_conflicts (c # cs) = concat (map (register_conflict c) cs) @ find_register_conflicts cs"

definition check_mechanical_interlock :: "safety_env \<Rightarrow> compiler_context \<Rightarrow> workflow_spec \<Rightarrow> safety_report" where
  "check_mechanical_interlock env ctx spec =
     (let by_device = capabilities_by_device ctx (ho_interlocks env (used_capabilities spec)) in
      concat (map (\<lambda>dev.
        map (\<lambda>(a, b, r). diag_warning ''mechanical_interlock'' (Msg ''register-conflict'' [dev, a, b, dec_digits (unat r)]))
          (find_register_conflicts (the (map_of by_device dev)))) (ho_devices env (map fst by_device))))"

section \<open>All rules\<close>

definition run_safety_checks :: "safety_env \<Rightarrow> compiler_context \<Rightarrow> workflow_spec \<Rightarrow> string \<Rightarrow> safety_report" where
  "run_safety_checks env ctx spec initial =
     check_unit_consistency ctx spec @ check_range_boundary ctx spec @ check_precondition_reachability env ctx spec @
     check_state_machine_completeness env spec initial @ check_dangerous_action_approval ctx spec @
     check_mechanical_interlock env ctx spec"

definition compile_with_safety ::
    "safety_env \<Rightarrow> compiler_context \<Rightarrow> workflow_spec \<Rightarrow> (json \<times> safety_report) compiled" where
  "compile_with_safety env ctx spec =
     and_then (compile_checks ctx spec) (\<lambda>initial.
       let report = run_safety_checks env ctx spec initial in
       if has_errors report then Inl (Safety report)
       else and_then (compile_graph ctx spec initial) (\<lambda>out. Inr (out, report)))"

end
