(* ===== verification/State_Machine.thy ===== *)
theory State_Machine
  imports Runner Variables
begin

text \<open>
  \<open>crates/nodes-flow/src/state_machine.rs\<close>: the node that runs a state machine of the workflow
  language. Its state is a workflow variable, so it outlives the node. The scripting engine is an
  argument: \<open>se_compile\<close> gives the error of a condition that does not compile, \<open>se_scope\<close> puts a
  payload into a scope, and \<open>se_eval\<close> evaluates the condition of a transition, given by its text, in a
  scope, which it may change.
\<close>

record 'sc script_engine =
  se_compile :: "string \<Rightarrow> msg option"
  se_scope :: "json \<Rightarrow> msg + 'sc"
  se_eval :: "string \<Rightarrow> 'sc \<Rightarrow> (msg + bool) \<times> 'sc"

record state_config =
  sc_name :: string
  sc_entry_actions :: "string list"
  sc_exit_actions :: "string list"

record transition_config =
  tc_from :: string
  tc_to :: string
  tc_when :: string
  tc_priority :: u32
  tc_action_port :: "string option"

record timeout_rule =
  tr_state :: string
  tr_timeout_ms :: u64

record state_machine_config =
  sm_initial_state :: string
  sm_states :: "state_config list"
  sm_transitions :: "transition_config list"
  sm_timeout_rules :: "timeout_rule list"
  sm_on_timeout_target :: "string option"
  sm_max_operations :: u64

record state_machine_node =
  sn_id :: string
  sn_config :: state_machine_config
  sn_action_ports :: "string list"
  sn_state_map :: "(string \<times> nat) list"

section \<open>Construction\<close>

definition add_port :: "string list \<Rightarrow> string \<Rightarrow> string list" where
  "add_port seen p = (if p \<in> set seen then seen else seen @ [p])"

definition collect_action_ports :: "state_machine_config \<Rightarrow> string list" where
  "collect_action_ports config =
     fold (\<lambda>t ports. case tc_action_port t of Some p \<Rightarrow> add_port ports p | None \<Rightarrow> ports)
       (sm_transitions config)
       (fold (\<lambda>s ports. foldl add_port (foldl add_port ports (sc_entry_actions s)) (sc_exit_actions s))
          (sm_states config) [])"

definition new_state_machine ::
    "'sc script_engine \<Rightarrow> string \<Rightarrow> state_machine_config \<Rightarrow> state_machine_node result" where
  "new_state_machine engine i config =
     (if sm_max_operations config = 0 then Inl (NodeConfig i (Msg ''max-operations-zero'' []))
      else
        and_then
          (try_all (\<lambda>t. map_option (\<lambda>_. ScriptCompile i (Msg ''transition'' [tc_from t, tc_to t]))
                          (se_compile engine (tc_when t))) (sm_transitions config))
          (\<lambda>_. Inr \<lparr>sn_id = i, sn_config = config, sn_action_ports = collect_action_ports config,
                     sn_state_map = map (\<lambda>(k, s). (sc_name s, k)) (enumerate 0 (sm_states config))\<rparr>))"

definition action_pin :: "string \<Rightarrow> pin_definition" where
  "action_pin port =
     \<lparr>pin_id = port, pin_label = port, pin_ty = TAny, pin_dir = Engine_Error.Output, pin_required = False,
      pin_kind_of = Exec, pin_description = None, pin_empty_policy = BlockUntilReady,
      pin_block_timeout_ms = None, pin_ttl_ms = None\<rparr>"

definition state_machine_pins :: "state_machine_node \<Rightarrow> pin_definition list" where
  "state_machine_pins node = map action_pin (sn_action_ports node)"

section \<open>The state variable\<close>

definition state_variable_key :: "state_machine_node \<Rightarrow> string" where
  "state_variable_key node = ''_sm.'' @ sn_id node @ ''.current_state''"

definition read_current_state :: "state_machine_node \<Rightarrow> workflow_variables option \<Rightarrow> string result" where
  "read_current_state node variables =
     and_then (ok_or (InvalidGraph (Msg ''state-machine-needs-variables'' [sn_id node])) variables) (\<lambda>vs.
       and_then (ok_or (InvalidGraph (Msg ''state-uninitialised'' [sn_id node, state_variable_key node]))
                   (get_value vs (state_variable_key node))) (\<lambda>v.
         ok_or (PayloadConversion (sn_id node) (Msg ''state-not-a-string'' [])) (as_str v)))"

definition write_current_state ::
    "time \<Rightarrow> state_machine_node \<Rightarrow> workflow_variables option \<Rightarrow> string \<Rightarrow> workflow_variables option result" where
  "write_current_state now node variables new_state =
     and_then (ok_or (InvalidGraph (Msg ''state-machine-needs-variables'' [sn_id node])) variables) (\<lambda>vs.
       map_sum (\<lambda>_. PayloadConversion (sn_id node) (Msg ''state-write-failed'' [])) Some
         (set_var now vs (state_variable_key node) (JString new_state) None))"

definition find_state :: "state_machine_node \<Rightarrow> string \<Rightarrow> state_config option" where
  "find_state node name =
     Option.bind (map_of (sn_state_map node) name)
       (\<lambda>k. if k < length (sm_states (sn_config node)) then Some (sm_states (sn_config node) ! k) else None)"

section \<open>Transitions\<close>

text \<open>The sort is stable: among equal priorities the order of the configuration stays.\<close>

definition by_priority :: "transition_config list \<Rightarrow> transition_config list" where
  "by_priority ts = sort_key (\<lambda>t. - int (unat (tc_priority t))) ts"

fun first_match ::
    "'sc script_engine \<Rightarrow> string \<Rightarrow> string \<Rightarrow> transition_config list \<Rightarrow> 'sc \<Rightarrow> transition_config option result" where
  "first_match engine i current [] scope = Inr None"
| "first_match engine i current (t # ts) scope =
     (if tc_from t \<noteq> ''*'' \<and> tc_from t \<noteq> current then first_match engine i current ts scope
      else (case se_eval engine (tc_when t) scope of
              (Inl e, _) \<Rightarrow> Inl (ScriptRuntime i e)
            | (Inr True, _) \<Rightarrow> Inr (Some t)
            | (Inr False, scope') \<Rightarrow> first_match engine i current ts scope'))"

definition evaluate_transitions ::
    "'sc script_engine \<Rightarrow> state_machine_node \<Rightarrow> string \<Rightarrow> json \<Rightarrow> transition_config option result" where
  "evaluate_transitions engine node current payload =
     and_then (map_sum (PayloadConversion (sn_id node)) id (se_scope engine payload))
       (first_match engine (sn_id node) current (by_priority (sm_transitions (sn_config node))))"

definition state_metadata :: "(string \<times> json) list \<Rightarrow> json_map" where
  "state_metadata members = [(''state_machine'', JObject (fold (\<lambda>(k, v). bt_put k v) members []))]"

definition exit_ports :: "state_machine_node \<Rightarrow> string \<Rightarrow> string list" where
  "exit_ports node s = (case find_state node s of Some c \<Rightarrow> sc_exit_actions c | None \<Rightarrow> [])"

definition entry_ports :: "state_machine_node \<Rightarrow> string \<Rightarrow> string list" where
  "entry_ports node s = (case find_state node s of Some c \<Rightarrow> sc_entry_actions c | None \<Rightarrow> [])"

definition transition_ports :: "state_machine_node \<Rightarrow> string \<Rightarrow> transition_config \<Rightarrow> string list" where
  "transition_ports node current t =
     exit_ports node current @ (case tc_action_port t of Some p \<Rightarrow> [p] | None \<Rightarrow> []) @
     entry_ports node (tc_to t)"

definition sm_transform ::
    "'sc script_engine \<Rightarrow> time \<Rightarrow> state_machine_node \<Rightarrow> json \<Rightarrow> workflow_variables option \<Rightarrow>
     node_execution result \<times> workflow_variables option" where
  "sm_transform engine now node payload variables =
     (case read_current_state node variables of
        Inl e \<Rightarrow> (Inl e, variables)
      | Inr current \<Rightarrow>
     (case evaluate_transitions engine node current payload of
        Inl e \<Rightarrow> (Inl e, variables)
      | Inr None \<Rightarrow> (Inr (broadcast payload), variables)
      | Inr (Some t) \<Rightarrow>
     (case write_current_state now node variables (tc_to t) of
        Inl e \<Rightarrow> (Inl e, variables)
      | Inr variables' \<Rightarrow>
          (let ports = transition_ports node current t;
               states = [(''from_state'', JString current), (''to_state'', JString (tc_to t))];
               md = (if ports = [] then states else states @ [(''matched_transition'', JString (tc_when t))])
           in (Inr [\<lparr>no_payload = payload, no_metadata = Some (state_metadata md),
                     no_dispatch = Route ports\<rparr>], variables')))))"

section \<open>The machine it implements\<close>

text \<open>
  The machine is stated on the configuration alone. A transition is open in its source state, or in
  every state when its source is the wildcard; \<open>preferred\<close> takes the highest priority among the
  transitions that qualify, and the first of the file among equals.
\<close>

definition open_in :: "string \<Rightarrow> transition_config \<Rightarrow> bool" where
  "open_in s t \<longleftrightarrow> tc_from t = s \<or> tc_from t = ''*''"

fun preferred :: "(transition_config \<Rightarrow> bool) \<Rightarrow> transition_config list \<Rightarrow> transition_config option" where
  "preferred Q [] = None"
| "preferred Q (t # ts) =
     (case preferred Q ts of
        None \<Rightarrow> if Q t then Some t else None
      | Some u \<Rightarrow> if Q t \<and> tc_priority u \<le> tc_priority t then Some t else Some u)"

definition actions_of :: "(state_config \<Rightarrow> string list) \<Rightarrow> state_machine_config \<Rightarrow> string \<Rightarrow> string list" where
  "actions_of sel config s =
     (case find (\<lambda>c. sc_name c = s) (sm_states config) of None \<Rightarrow> [] | Some c \<Rightarrow> sel c)"

definition fired_actions :: "state_machine_config \<Rightarrow> string \<Rightarrow> transition_config \<Rightarrow> string list" where
  "fired_actions config s t =
     actions_of sc_exit_actions config s @ (case tc_action_port t of None \<Rightarrow> [] | Some a \<Rightarrow> [a]) @
     actions_of sc_entry_actions config (tc_to t)"

text \<open>
  A message is refused when its payload does not enter a scope, or when the condition of a transition
  fails and no better transition is enabled: then the machine stays. It fires the preferred transition
  whose condition is true otherwise, and is broadcast when there is none.
\<close>

definition spec_step ::
    "'sc script_engine \<Rightarrow> string \<Rightarrow> state_machine_config \<Rightarrow> string \<Rightarrow> json \<Rightarrow> string \<times> node_dispatch result" where
  "spec_step engine i config s p =
     (case se_scope engine p of
        Inl e \<Rightarrow> (s, Inl (PayloadConversion i e))
      | Inr sc \<Rightarrow>
          (case preferred (\<lambda>t. open_in s t \<and> fst (se_eval engine (tc_when t) sc) \<noteq> Inr False)
                  (sm_transitions config) of
             None \<Rightarrow> (s, Inr Broadcast)
           | Some t \<Rightarrow>
               (case fst (se_eval engine (tc_when t) sc) of
                  Inl e \<Rightarrow> (s, Inl (ScriptRuntime i e))
                | Inr _ \<Rightarrow> (tc_to t, Inr (Route (fired_actions config s t))))))"

fun spec_run ::
    "'sc script_engine \<Rightarrow> string \<Rightarrow> state_machine_config \<Rightarrow> string \<Rightarrow> json list \<Rightarrow> string \<times> node_dispatch result list" where
  "spec_run engine i config s [] = (s, [])"
| "spec_run engine i config s (p # ps) =
     (let (s', a) = spec_step engine i config s p; (s'', rest) = spec_run engine i config s' ps in (s'', a # rest))"

text \<open>
  The conditions of one message share a scope. They are independent when having evaluated some of
  them does not change what another gives.
\<close>

definition independent_conditions :: "'sc script_engine \<Rightarrow> state_machine_config \<Rightarrow> json \<Rightarrow> bool" where
  "independent_conditions engine config p \<longleftrightarrow>
     (\<forall>sc us w. se_scope engine p = Inr sc \<longrightarrow> set (w # us) \<subseteq> tc_when ` set (sm_transitions config) \<longrightarrow>
        fst (se_eval engine w (fold (\<lambda>u sc. snd (se_eval engine u sc)) us sc)) = fst (se_eval engine w sc))"

text \<open>Conditions that give a truth value on a payload.\<close>

definition conditions_answer :: "'sc script_engine \<Rightarrow> state_machine_config \<Rightarrow> json \<Rightarrow> bool" where
  "conditions_answer engine config p \<longleftrightarrow>
     (\<exists>sc. se_scope engine p = Inr sc \<and>
        (\<forall>t\<in>set (sm_transitions config). \<exists>b. fst (se_eval engine (tc_when t) sc) = Inr b))"

lemma preferred_None: "preferred Q ts = None \<longleftrightarrow> (\<forall>t\<in>set ts. \<not> Q t)"
  by (induction ts) (auto split: option.splits)

lemma preferred_Some:
  "preferred Q ts = Some t \<Longrightarrow> t \<in> set ts \<and> Q t \<and> (\<forall>u\<in>set ts. Q u \<longrightarrow> tc_priority u \<le> tc_priority t)"
proof (induction ts arbitrary: t)
  case (Cons v ts)
  then show ?case by (cases "preferred Q ts") (fastforce simp: preferred_None split: if_splits)+
qed simp

text \<open>The node sorts the transitions by priority first; the sort is stable, so it finds the preferred one.\<close>

lemma find_insort_key:
  assumes "sorted (map f xs)"
  shows "find Q (insort_key f a xs) =
    (case find Q xs of None \<Rightarrow> if Q a then Some a else None
     | Some u \<Rightarrow> if Q a \<and> f a \<le> f u then Some a else Some u)"
  using assms
proof (induction xs)
  case (Cons x xs)
  then have below: "f x \<le> f u" if "find Q xs = Some u" for u
    using that by (auto simp: find_Some_iff)
  show ?case
    using Cons below by (fastforce split: option.splits)
qed simp

lemma find_by_priority: "find Q (by_priority ts) = preferred Q ts"
proof (induction ts)
  case (Cons t ts)
  let ?f = "\<lambda>t. - int (unat (tc_priority t))"
  have "find Q (insort_key ?f t (sort_key ?f ts)) =
      (case find Q (sort_key ?f ts) of None \<Rightarrow> if Q t then Some t else None
       | Some u \<Rightarrow> if Q t \<and> ?f t \<le> ?f u then Some t else Some u)"
    by (rule find_insort_key) simp
  then show ?case using Cons.IH by (simp add: by_priority_def word_le_def split: option.split)
qed (simp add: by_priority_def)

lemma set_by_priority [simp]: "set (by_priority ts) = set ts"
  by (simp add: by_priority_def)

text \<open>The states are found by their index, the first of a name.\<close>

lemma map_of_enumerate:
  "map_of (map (\<lambda>(k, s). (sc_name s, k)) (enumerate n xs)) name = Some k \<Longrightarrow> n \<le> k"
  by (induction xs arbitrary: n) (auto split: if_splits dest: Suc_leD)

lemma find_enumerate:
  "(case map_of (map (\<lambda>(k, s). (sc_name s, k)) (enumerate n xs)) name of
      None \<Rightarrow> None | Some k \<Rightarrow> if k - n < length xs then Some (xs ! (k - n)) else None) =
    find (\<lambda>c. sc_name c = name) xs"
proof (induction xs arbitrary: n)
  case (Cons x xs)
  note IH = Cons [of "Suc n"]
  show ?case
  proof (cases "map_of (map (\<lambda>(k, s). (sc_name s, k)) (enumerate (Suc n) xs)) name")
    case None
    then show ?thesis using IH by simp
  next
    case (Some k)
    then have "Suc n \<le> k" by (rule map_of_enumerate)
    then have "k - n = Suc (k - Suc n)" by simp
    then show ?thesis using IH unfolding Some by (auto simp: Some split: if_splits)
  qed
qed simp

lemma built_machine:
  assumes "new_state_machine engine i config = Inr node"
  shows "sn_id node = i" and "sn_config node = config" and "sn_action_ports node = collect_action_ports config"
    and "find_state node name = find (\<lambda>c. sc_name c = name) (sm_states config)"
proof -
  have node: "node = \<lparr>sn_id = i, sn_config = config, sn_action_ports = collect_action_ports config,
      sn_state_map = map (\<lambda>(k, s). (sc_name s, k)) (enumerate 0 (sm_states config))\<rparr>"
    using assms by (auto simp: new_state_machine_def and_then_Inr split: if_splits)
  show "sn_id node = i" "sn_config node = config" "sn_action_ports node = collect_action_ports config"
    by (simp_all add: node)
  show "find_state node name = find (\<lambda>c. sc_name c = name) (sm_states config)"
    using find_enumerate [of 0 "sm_states config" name]
    by (auto simp: find_state_def node split: option.splits bind_splits if_splits)
qed

lemma transition_ports_fired:
  assumes "new_state_machine engine i config = Inr node"
  shows "transition_ports node s t = fired_actions config s t"
  by (auto simp: transition_ports_def fired_actions_def exit_ports_def entry_ports_def actions_of_def
      built_machine(4) [OF assms] split: option.splits)

text \<open>The search over the sorted transitions threads the scope.\<close>

lemma first_match_spec:
  assumes "\<And>us w. set (w # us) \<subseteq> W \<Longrightarrow>
      fst (se_eval engine w (fold (\<lambda>u sc. snd (se_eval engine u sc)) us sc)) = fst (se_eval engine w sc)"
    and "set us \<subseteq> W" and "tc_when ` set ts \<subseteq> W"
  shows "first_match engine i s ts (fold (\<lambda>u sc. snd (se_eval engine u sc)) us sc) =
    (case find (\<lambda>t. open_in s t \<and> fst (se_eval engine (tc_when t) sc) \<noteq> Inr False) ts of
       None \<Rightarrow> Inr None
     | Some t \<Rightarrow> (case fst (se_eval engine (tc_when t) sc) of
                    Inl e \<Rightarrow> Inl (ScriptRuntime i e) | Inr _ \<Rightarrow> Inr (Some t)))"
  using assms(2,3)
proof (induction ts arbitrary: us)
  case (Cons t ts)
  let ?sc = "fold (\<lambda>u sc. snd (se_eval engine u sc)) us sc"
  show ?case
  proof (cases "open_in s t")
    case True
    then have test: "(tc_from t \<noteq> ''*'' \<and> tc_from t \<noteq> s) = False" by (auto simp: open_in_def)
    obtain v sc' where v: "se_eval engine (tc_when t) ?sc = (v, sc')" by (cases "se_eval engine (tc_when t) ?sc")
    have same: "fst (se_eval engine (tc_when t) sc) = v"
      using assms(1) [of "tc_when t" us] Cons.prems v by simp
    have after: "sc' = fold (\<lambda>u sc. snd (se_eval engine u sc)) (us @ [tc_when t]) sc" using v by simp
    have rest: "first_match engine i s ts sc' =
        (case find (\<lambda>t. open_in s t \<and> fst (se_eval engine (tc_when t) sc) \<noteq> Inr False) ts of
           None \<Rightarrow> Inr None
         | Some t \<Rightarrow> (case fst (se_eval engine (tc_when t) sc) of
                        Inl e \<Rightarrow> Inl (ScriptRuntime i e) | Inr _ \<Rightarrow> Inr (Some t)))"
      unfolding after by (rule Cons.IH) (use Cons.prems in auto)
    show ?thesis using True rest
      by (auto simp: test v same split: sum.split bool.split)
  next
    case False
    then have "tc_from t \<noteq> ''*'' \<and> tc_from t \<noteq> s" by (auto simp: open_in_def)
    then show ?thesis using Cons False by simp
  qed
qed simp

lemma evaluate_transitions_spec:
  assumes "new_state_machine engine i config = Inr node" and "independent_conditions engine config p"
  shows "evaluate_transitions engine node s p =
    (case se_scope engine p of
       Inl e \<Rightarrow> Inl (PayloadConversion i e)
     | Inr sc \<Rightarrow>
         (case preferred (\<lambda>t. open_in s t \<and> fst (se_eval engine (tc_when t) sc) \<noteq> Inr False)
                 (sm_transitions config) of
            None \<Rightarrow> Inr None
          | Some t \<Rightarrow> (case fst (se_eval engine (tc_when t) sc) of
                         Inl e \<Rightarrow> Inl (ScriptRuntime i e) | Inr _ \<Rightarrow> Inr (Some t))))"
proof (cases "se_scope engine p")
  case (Inr sc)
  have "first_match engine i s (by_priority (sm_transitions config)) (fold (\<lambda>u sc. snd (se_eval engine u sc)) [] sc) =
    (case find (\<lambda>t. open_in s t \<and> fst (se_eval engine (tc_when t) sc) \<noteq> Inr False) (by_priority (sm_transitions config)) of
       None \<Rightarrow> Inr None
     | Some t \<Rightarrow> (case fst (se_eval engine (tc_when t) sc) of
                    Inl e \<Rightarrow> Inl (ScriptRuntime i e) | Inr _ \<Rightarrow> Inr (Some t)))"
    using assms(2) Inr
    by (intro first_match_spec [where W = "tc_when ` set (sm_transitions config)"])
      (auto simp: independent_conditions_def)
  then show ?thesis
    using Inr by (simp add: evaluate_transitions_def built_machine(1,2) [OF assms(1)] find_by_priority and_then_def)
qed (simp add: evaluate_transitions_def built_machine(1,2) [OF assms(1)] and_then_def)

text \<open>The node on a sequence of messages, with the instants of their arrival.\<close>

fun sm_run ::
    "'sc script_engine \<Rightarrow> state_machine_node \<Rightarrow> (time \<times> json) list \<Rightarrow> workflow_variables option \<Rightarrow>
     node_execution result list \<times> workflow_variables option" where
  "sm_run engine node [] vs = ([], vs)"
| "sm_run engine node ((now, p) # ps) vs =
     (let (r, vs1) = sm_transform engine now node p vs; (rs, vs2) = sm_run engine node ps vs1
      in (r # rs, vs2))"

text \<open>What a message is answered with: an error, or one output with its payload and its dispatch.\<close>

definition sm_answer :: "node_execution result \<Rightarrow> (json \<times> node_dispatch) list result" where
  "sm_answer r = map_sum id (map (\<lambda>out. (no_payload out, no_dispatch out))) r"

definition reply :: "json \<Rightarrow> node_dispatch result \<Rightarrow> (json \<times> node_dispatch) list result" where
  "reply p a = map_sum id (\<lambda>d. [(p, d)]) a"

lemma sm_answer_reply:
  "sm_answer r = reply p (Inl e) \<longleftrightarrow> r = Inl e"
  "sm_answer r = reply p (Inr d) \<longleftrightarrow> (\<exists>out. r = Inr [out] \<and> no_payload out = p \<and> no_dispatch out = d)"
  by (cases r; auto simp: sm_answer_def reply_def)+

definition holds_state :: "state_machine_node \<Rightarrow> string \<Rightarrow> workflow_variables option \<Rightarrow> bool" where
  "holds_state node s vs \<longleftrightarrow>
     (\<exists>w e. vs = Some w \<and> map_of (vars w) (state_variable_key node) = Some e \<and>
        tv_type e = TString \<and> tv_value e = JString s)"

lemma holds_state_read: "holds_state node s vs \<Longrightarrow> read_current_state node vs = Inr s"
  by (auto simp: holds_state_def read_current_state_def get_value_def)

lemma holds_state_write:
  assumes "holds_state node s vs"
  obtains vs' where "write_current_state now node vs s' = Inr vs'" and "holds_state node s' vs'"
proof -
  from assms obtain w e where w: "vs = Some w" "map_of (vars w) (state_variable_key node) = Some e" "tv_type e = TString"
    by (auto simp: holds_state_def)
  obtain e' ep where e': "store_value now e (JString s') None = (e', ep)" by fastforce
  have "pin_type_matches_value TString (JString s')" by simp
  then have "set_locked now w (state_variable_key node) (JString s') None =
      Inr (w\<lparr>vars := hm_insert (state_variable_key node) e' (vars w)\<rparr>, ep)"
    using w e' by (simp add: set_locked_def)
  then obtain w' where set: "set_var now w (state_variable_key node) (JString s') None = Inr w'"
    and vars: "vars w' = hm_insert (state_variable_key node) e' (vars w)"
    by (simp add: set_var_def)
  have "holds_state node s' (Some w')"
    using vars w(3) store_value_fields [OF e'] by (simp add: holds_state_def)
  moreover have "write_current_state now node vs s' = Inr (Some w')"
    using set w(1) by (simp add: write_current_state_def)
  ultimately show thesis using that by blast
qed

lemma sm_transform_refines:
  assumes built: "new_state_machine engine i config = Inr node" and "independent_conditions engine config p"
    and "holds_state node s vs"
  obtains r vs' where "sm_transform engine now node p vs = (r, vs')"
    and "holds_state node (fst (spec_step engine i config s p)) vs'"
    and "sm_answer r = reply p (snd (spec_step engine i config s p))"
proof -
  note eval = evaluate_transitions_spec [OF assms(1,2), of s] holds_state_read [OF assms(3)]
  show thesis
  proof (cases "se_scope engine p")
    case (Inl e)
    then show ?thesis
      using assms(3) by (intro that) (auto simp: sm_transform_def eval spec_step_def sm_answer_reply)
  next
    case (Inr sc)
    let ?choice = "preferred (\<lambda>t. open_in s t \<and> fst (se_eval engine (tc_when t) sc) \<noteq> Inr False) (sm_transitions config)"
    show ?thesis
    proof (cases ?choice)
      case None
      then show ?thesis
        using assms(3) Inr
        by (intro that) (auto simp: sm_transform_def eval spec_step_def sm_answer_reply broadcast_def)
    next
      case (Some t)
      show ?thesis
      proof (cases "fst (se_eval engine (tc_when t) sc)")
        case (Inl e)
        then show ?thesis
          using assms(3) Inr Some by (intro that) (auto simp: sm_transform_def eval spec_step_def sm_answer_reply)
      next
        case (Inr b)
        obtain vs' where "write_current_state now node vs (tc_to t) = Inr vs'" "holds_state node (tc_to t) vs'"
          by (rule holds_state_write [OF assms(3)])
        then show ?thesis
          using Inr Some \<open>se_scope engine p = Inr sc\<close>
          by (intro that) (auto simp: sm_transform_def eval spec_step_def sm_answer_reply Let_def
              transition_ports_fired [OF built])
      qed
    qed
  qed
qed

lemma state_machine_refines_spec:
  assumes "new_state_machine engine i config = Inr node"
    and "\<forall>(_, p)\<in>set ps. independent_conditions engine config p" and "holds_state node s vs"
  shows "\<exists>rs vs'. sm_run engine node ps vs = (rs, vs') \<and>
    holds_state node (fst (spec_run engine i config s (map snd ps))) vs' \<and>
    map sm_answer rs =
      map2 (\<lambda>(_, p). reply p) ps (snd (spec_run engine i config s (map snd ps)))"
  using assms(2,3)
proof (induction ps arbitrary: s vs)
  case (Cons np ps)
  obtain now p where np: "np = (now, p)" by (cases np)
  have ind: "independent_conditions engine config p" and
    later: "\<forall>(_, p)\<in>set ps. independent_conditions engine config p"
    using Cons.prems(1) by (simp_all add: np)
  obtain r vs1 where step: "sm_transform engine now node p vs = (r, vs1)"
    "holds_state node (fst (spec_step engine i config s p)) vs1"
    "sm_answer r = reply p (snd (spec_step engine i config s p))"
    by (rule sm_transform_refines [OF assms(1) ind Cons.prems(2)])
  obtain rs vs2 where rest: "sm_run engine node ps vs1 = (rs, vs2)"
    "holds_state node (fst (spec_run engine i config (fst (spec_step engine i config s p)) (map snd ps))) vs2"
    "map sm_answer rs = map2 (\<lambda>(_, p). reply p) ps
      (snd (spec_run engine i config (fst (spec_step engine i config s p)) (map snd ps)))"
    using Cons.IH [OF later step(2)] by blast
  show ?case
    using step rest
    by (intro exI [of _ "r # rs"] exI [of _ vs2]) (simp add: np split_beta)
qed simp

text \<open>
  C20: over any sequence of messages whose conditions do not disturb each other (having evaluated some
  of a machine's conditions on a payload does not change what another gives), the state machine node
  follows the abstract machine of its configuration. The state variable always holds the machine's
  state, and every message is answered as the machine answers it. Of the transitions that leave the
  current state, or any state, and whose condition is not false, the machine takes the one of highest
  priority, and among equals the first of the file: when its condition is true it moves and the message
  is routed to the exit actions of the old state, the action of the transition and the entry actions of
  the new state, in this order; when its condition fails the message is refused with the error and the
  machine stays. When there is no such transition the message is broadcast and the machine stays.
\<close>

theorem state_machine_refines:
  assumes "new_state_machine engine i config = Inr node"
    and "\<forall>(_, p)\<in>set ps. independent_conditions engine config p" and "holds_state node s vs"
  shows "\<exists>rs vs'. sm_run engine node ps vs = (rs, vs') \<and>
    holds_state node (fst (spec_run engine i config s (map snd ps))) vs' \<and>
    map sm_answer rs =
      map2 (\<lambda>(_, p). reply p) ps (snd (spec_run engine i config s (map snd ps)))"
  by (rule state_machine_refines_spec [OF assms])

text \<open>A step of the machine moves along a transition it is open to, or stays.\<close>

lemma spec_step_cases:
  obtains (refused) e where "spec_step engine i config s p = (s, Inl e)" and "\<not> conditions_answer engine config p"
  | (idle) "spec_step engine i config s p = (s, Inr Broadcast)"
  | (fired) t where "t \<in> set (sm_transitions config)" and "open_in s t"
      and "spec_step engine i config s p = (tc_to t, Inr (Route (fired_actions config s t)))"
proof (cases "se_scope engine p")
  case (Inl e)
  then show thesis by (intro refused) (auto simp: spec_step_def conditions_answer_def)
next
  case (Inr sc)
  show thesis
  proof (cases "preferred (\<lambda>t. open_in s t \<and> fst (se_eval engine (tc_when t) sc) \<noteq> Inr False) (sm_transitions config)")
    case None
    then show thesis using Inr by (intro idle) (simp add: spec_step_def)
  next
    case (Some t)
    note t = preferred_Some [OF Some]
    show thesis
    proof (cases "fst (se_eval engine (tc_when t) sc)")
      case (Inl e)
      then show thesis using Inr Some t
        by (intro refused [of "ScriptRuntime i e"]) (auto simp: spec_step_def conditions_answer_def, force)
    next
      case (Inr b)
      then show thesis using \<open>se_scope engine p = Inr sc\<close> Some t by (intro fired [of t]) (auto simp: spec_step_def)
    qed
  qed
qed

text \<open>
  The dispatch of a message that enables no transition reaches every target of the node: all
  actions are triggered although the machine stays in its state.
\<close>

lemma idle_message_triggers_all_actions:
  "rn_data_pins rn = [] \<Longrightarrow> matching_targets rn Broadcast = rn_targets rn"
  by (simp add: matching_targets_def filter_id_conv split: option.split)

text \<open>The ports a machine routes to are output ports of its node, without repetition.\<close>

lemma foldl_add_port:
  "distinct seen \<Longrightarrow> distinct (foldl add_port seen ps) \<and> set (foldl add_port seen ps) = set seen \<union> set ps"
  by (induction ps arbitrary: seen) (auto simp: add_port_def)

lemma fold_ports:
  assumes "distinct seen" and "\<And>x ps. distinct ps \<Longrightarrow> distinct (f x ps) \<and> set (f x ps) = set ps \<union> A x"
  shows "distinct (fold f xs seen) \<and> set (fold f xs seen) = set seen \<union> (\<Union>x\<in>set xs. A x)"
  using assms(1)
proof (induction xs arbitrary: seen)
  case (Cons x xs)
  then show ?case using Cons.IH [of "f x seen"] assms(2) [OF Cons.prems, of x] by auto
qed simp

lemma collect_action_ports:
  "distinct (collect_action_ports config)"
  "set (collect_action_ports config) =
     (\<Union>s\<in>set (sm_states config). set (sc_entry_actions s) \<union> set (sc_exit_actions s)) \<union>
     (\<Union>t\<in>set (sm_transitions config). set_option (tc_action_port t))"
proof -
  let ?states = "fold (\<lambda>s ports. foldl add_port (foldl add_port ports (sc_entry_actions s)) (sc_exit_actions s))
    (sm_states config) []"
  have states: "distinct ?states \<and> set ?states =
      set [] \<union> (\<Union>s\<in>set (sm_states config). set (sc_entry_actions s) \<union> set (sc_exit_actions s))"
    by (rule fold_ports) (simp_all add: foldl_add_port Un_assoc)
  have "distinct (collect_action_ports config) \<and> set (collect_action_ports config) =
      set ?states \<union> (\<Union>t\<in>set (sm_transitions config). set_option (tc_action_port t))"
    unfolding collect_action_ports_def
    by (rule fold_ports) (use states in \<open>auto simp: add_port_def split: option.splits\<close>)
  with states show "distinct (collect_action_ports config)"
    "set (collect_action_ports config) =
       (\<Union>s\<in>set (sm_states config). set (sc_entry_actions s) \<union> set (sc_exit_actions s)) \<union>
       (\<Union>t\<in>set (sm_transitions config). set_option (tc_action_port t))"
    by simp_all
qed

lemma find_state_mem: "find_state node name = Some c \<Longrightarrow> c \<in> set (sm_states (sn_config node))"
  by (auto simp: find_state_def bind_eq_Some_conv split: if_splits)

lemma transition_ports_declared:
  assumes "new_state_machine engine i config = Inr node" and "t \<in> set (sm_transitions config)"
  shows "set (transition_ports node s t) \<subseteq> set (map pin_id (state_machine_pins node))"
proof -
  have node: "sn_action_ports node = collect_action_ports config" "sn_config node = config"
    using assms(1) by (auto simp: new_state_machine_def and_then_Inr split: if_splits)
  have "set (exit_ports node s) \<subseteq> set (collect_action_ports config)" for s
    using find_state_mem [of node s] node
    by (auto simp: exit_ports_def collect_action_ports(2) split: option.splits)
  moreover have "set (entry_ports node s) \<subseteq> set (collect_action_ports config)" for s
    using find_state_mem [of node s] node
    by (auto simp: entry_ports_def collect_action_ports(2) split: option.splits)
  moreover have "set_option (tc_action_port t) \<subseteq> set (collect_action_ports config)"
    using assms(2) by (auto simp: collect_action_ports(2))
  ultimately show ?thesis
    by (auto simp: transition_ports_def state_machine_pins_def action_pin_def comp_def node split: option.splits)
qed

section \<open>A small machine\<close>

text \<open>The conditions of this engine are members of the payload; a member that is not a truth value fails.\<close>

definition demo_engine :: "json script_engine" where
  "demo_engine = \<lparr>se_compile = (\<lambda>_. None), se_scope = Inr,
     se_eval = (\<lambda>w sc. (case json_get sc w of
        None \<Rightarrow> Inr False | Some (JBool b) \<Rightarrow> Inr b | Some _ \<Rightarrow> Inl (Msg ''not-a-bool'' []), sc))\<rparr>"

lemma demo_independent: "independent_conditions demo_engine config p"
proof -
  have "snd (se_eval demo_engine u sc) = sc" for u sc by (simp add: demo_engine_def)
  then have "fold (\<lambda>u sc. snd (se_eval demo_engine u sc)) us sc = sc" for us sc by (induction us) auto
  then show ?thesis by (simp add: independent_conditions_def)
qed

definition demo_config :: state_machine_config where
  "demo_config =
     \<lparr>sm_initial_state = ''idle'',
      sm_states = [\<lparr>sc_name = ''idle'', sc_entry_actions = [], sc_exit_actions = []\<rparr>,
        \<lparr>sc_name = ''run'', sc_entry_actions = [''e''], sc_exit_actions = [''x'']\<rparr>],
      sm_transitions = [\<lparr>tc_from = ''run'', tc_to = ''run'', tc_when = ''go'', tc_priority = 0, tc_action_port = None\<rparr>,
        \<lparr>tc_from = ''idle'', tc_to = ''run'', tc_when = ''go'', tc_priority = 0, tc_action_port = None\<rparr>,
        \<lparr>tc_from = ''*'', tc_to = ''idle'', tc_when = ''stop'', tc_priority = 9, tc_action_port = Some ''t''\<rparr>],
      sm_timeout_rules = [], sm_on_timeout_target = None, sm_max_operations = 50000\<rparr>"

definition demo_machine :: state_machine_node where
  "demo_machine = \<lparr>sn_id = ''m'', sn_config = demo_config, sn_action_ports = [''e'', ''x'', ''t''],
     sn_state_map = [(''idle'', 0), (''run'', 1)]\<rparr>"

definition demo_machine_vars :: workflow_variables where
  "demo_machine_vars =
     \<lparr>vars = [(''_sm.m.current_state'', typed_variable_new (JString ''idle'') TString (JString ''idle'') 0 None)],
      event_sink = None\<rparr>"

definition demo_messages :: "(time \<times> json) list" where
  "demo_messages = [(1, JObject [(''go'', JBool True)]), (2, JNull), (3, JObject [(''stop'', JNull)]),
     (4, JObject [(''go'', JBool True), (''stop'', JBool True)])]"

theorem state_machine_refines_witness:
  "\<exists>rs vs'. sm_run demo_engine demo_machine demo_messages (Some demo_machine_vars) = (rs, vs') \<and>
    holds_state demo_machine ''idle'' vs' \<and>
    map sm_answer rs = map2 (\<lambda>(_, p). reply p) demo_messages
      [Inr (Route [''e'']), Inr Broadcast, Inl (ScriptRuntime ''m'' (Msg ''not-a-bool'' [])), Inr (Route [''x'', ''t''])]"
proof -
  have built: "new_state_machine demo_engine ''m'' demo_config = Inr demo_machine" by code_simp
  have start: "holds_state demo_machine ''idle'' (Some demo_machine_vars)"
    by (simp add: holds_state_def demo_machine_vars_def demo_machine_def state_variable_key_def typed_variable_new_def)
  have "spec_run demo_engine ''m'' demo_config ''idle'' (map snd demo_messages) =
      (''idle'', [Inr (Route [''e'']), Inr Broadcast, Inl (ScriptRuntime ''m'' (Msg ''not-a-bool'' [])), Inr (Route [''x'', ''t''])])"
    by code_simp
  then show ?thesis
    using state_machine_refines [OF built _ start, of demo_messages] by (simp add: demo_independent split_beta)
qed

end
