(* ===== verification/Hex.thy ===== *)
theory Hex
  imports Texts
begin

text \<open>
  \<open>crates/nodes-io/src/can/hex.rs\<close>, and the hexadecimal formatting and parsing of integers of the
  standard library. A byte is an \<open>8 word\<close>; the digits are ASCII characters.
\<close>

type_synonym u8 = "8 word"

definition HEX_CHARS :: string where
  "HEX_CHARS = ''0123456789ABCDEF''"

unbundle bit_operations_syntax

definition hex_byte :: "u8 \<Rightarrow> string" where
  "hex_byte byte = [HEX_CHARS ! unat (drop_bit 4 byte), HEX_CHARS ! unat (byte AND 0x0F)]"

definition hex_encode :: "u8 list \<Rightarrow> string" where
  "hex_encode data = concat (map hex_byte data)"

definition decode_hex_digit :: "char \<Rightarrow> msg + u8" where
  "decode_hex_digit c =
     (let n = of_char c :: nat in
      if 48 \<le> n \<and> n \<le> 57 then Inr (of_nat n - 48)
      else if 97 \<le> n \<and> n \<le> 102 then Inr (of_nat n - 97 + 10)
      else if 65 \<le> n \<and> n \<le> 70 then Inr (of_nat n - 65 + 10)
      else Inl (Msg ''bad-hex-digit'' [[c]]))"

fun hex_pairs :: "string \<Rightarrow> msg + u8 list" where
  "hex_pairs (a # b # cs) =
     (case decode_hex_digit a of Inl e \<Rightarrow> Inl e
      | Inr hi \<Rightarrow> (case decode_hex_digit b of Inl e \<Rightarrow> Inl e
        | Inr lo \<Rightarrow> (case hex_pairs cs of Inl e \<Rightarrow> Inl e
          | Inr rest \<Rightarrow> Inr ((push_bit 4 hi OR lo) # rest))))"
| "hex_pairs _ = Inr []"

definition hex_decode :: "string \<Rightarrow> msg + u8 list" where
  "hex_decode hex = (if odd (length hex) then Inl (Msg ''odd-hex-length'' []) else hex_pairs hex)"

section \<open>Integers as text\<close>

text \<open>\<open>{:0wX}\<close>: at least \<open>w\<close> upper case digits.\<close>

fun hex_digits :: "nat \<Rightarrow> string" where
  "hex_digits n = (if n < 16 then [HEX_CHARS ! n] else hex_digits (n div 16) @ [HEX_CHARS ! (n mod 16)])"

declare hex_digits.simps [simp del]

definition format_hex :: "nat \<Rightarrow> nat \<Rightarrow> string" where
  "format_hex w n = (let ds = hex_digits n in replicate (w - length ds) CHR ''0'' @ ds)"

definition digit_value :: "int \<Rightarrow> char \<Rightarrow> int option" where
  "digit_value radix c =
     (let n = of_char c :: int;
          v = (if 48 \<le> n \<and> n \<le> 57 then Some (n - 48)
               else if 97 \<le> n \<and> n \<le> 122 then Some (n - 97 + 10)
               else if 65 \<le> n \<and> n \<le> 90 then Some (n - 65 + 10) else None)
      in case v of Some d \<Rightarrow> if d < radix then Some d else None | None \<Rightarrow> None)"

fun digits_value :: "int \<Rightarrow> int \<Rightarrow> string \<Rightarrow> int option" where
  "digits_value radix acc [] = Some acc"
| "digits_value radix acc (c # cs) =
     (case digit_value radix c of None \<Rightarrow> None | Some d \<Rightarrow> digits_value radix (acc * radix + d) cs)"

text \<open>
  \<open>from_str_radix\<close> of an unsigned type with values below \<open>bound\<close>: an optional plus sign and at least
  one digit.
\<close>

definition unsigned_from_str_radix :: "int \<Rightarrow> int \<Rightarrow> string \<Rightarrow> int option" where
  "unsigned_from_str_radix bound radix s =
     (let ds = (case s of c # cs \<Rightarrow> if c = CHR ''+'' then cs else s | [] \<Rightarrow> [])
      in if ds = [] then None
         else case digits_value radix 0 ds of
                Some n \<Rightarrow> if n < bound then Some n else None
              | None \<Rightarrow> None)"

section \<open>Round trips\<close>

lemma hex_char_values:
  assumes "n < 16"
  shows "decode_hex_digit (HEX_CHARS ! n) = Inr (of_nat n)" and "digit_value 16 (HEX_CHARS ! n) = Some (int n)"
    and "HEX_CHARS ! n \<noteq> CHR ''+''" and "\<not> is_space (HEX_CHARS ! n)" and "of_char (HEX_CHARS ! n) < (128 :: nat)"
proof -
  have all: "list_all (\<lambda>n. decode_hex_digit (HEX_CHARS ! n) = Inr (of_nat n) \<and>
      digit_value 16 (HEX_CHARS ! n) = Some (int n) \<and> HEX_CHARS ! n \<noteq> CHR ''+'' \<and>
      \<not> is_space (HEX_CHARS ! n) \<and> of_char (HEX_CHARS ! n) < (128 :: nat)) [0..<16]"
    by code_simp
  have "n \<in> set [0..<16]" using assms by (simp only: set_upt atLeastLessThan_iff le0 simp_thms)
  note bspec [OF all [unfolded list_all_iff] this]
  then show "decode_hex_digit (HEX_CHARS ! n) = Inr (of_nat n)" and "digit_value 16 (HEX_CHARS ! n) = Some (int n)"
    and "HEX_CHARS ! n \<noteq> CHR ''+''" and "\<not> is_space (HEX_CHARS ! n)" and "of_char (HEX_CHARS ! n) < (128 :: nat)"
    by simp_all
qed

lemma nibbles:
  fixes b :: u8
  shows "unat (drop_bit 4 b) < 16" and "unat (b AND 0x0F) < 16" and "push_bit 4 (drop_bit 4 b) OR (b AND 0x0F) = b"
proof -
  have "unat b < 256" using unsigned_less [where ?'a = nat, of b] by simp
  then have "unat b div 16 < 16" by simp
  then show "unat (drop_bit 4 b) < 16" by (simp add: drop_bit_eq_div unat_div)
  have "b AND 0x0F \<le> 0x0F" by (rule word_and_le1)
  then show "unat (b AND 0x0F) < 16" by (simp add: word_le_nat_alt)
  have "b AND 0x0F = take_bit 4 b" by (simp add: take_bit_eq_mask mask_eq_exp_minus_1)
  then show "push_bit 4 (drop_bit 4 b) OR (b AND 0x0F) = b"
    by (intro bit_word_eqI) (auto simp: bit_simps)
qed

lemma hex_pairs_byte: "hex_pairs (hex_byte b @ cs) = map_sum id ((#) b) (hex_pairs cs)"
  using nibbles [of b] hex_char_values(1)
  by (simp add: hex_byte_def unsigned_of_nat split: sum.split)

lemma length_hex_encode [simp]: "length (hex_encode data) = 2 * length data"
  by (induction data) (simp_all add: hex_encode_def hex_byte_def)

text \<open>Decoding inverts encoding.\<close>

lemma hex_decode_encode: "hex_decode (hex_encode data) = Inr data"
proof -
  have "hex_pairs (hex_encode data) = Inr data"
    by (induction data) (simp_all add: hex_encode_def hex_pairs_byte)
  then show ?thesis by (simp add: hex_decode_def)
qed

lemma digits_value_append:
  "digits_value r acc (xs @ ys) = Option.bind (digits_value r acc xs) (\<lambda>a. digits_value r a ys)"
  by (induction xs arbitrary: acc) (auto split: option.split)

lemma hex_digits_value: "digits_value 16 0 (hex_digits n) = Some (int n)"
proof (induction n rule: hex_digits.induct)
  case (1 n)
  show ?case
  proof (cases "n < 16")
    case True
    then show ?thesis by (simp add: hex_digits.simps [of n] hex_char_values(2))
  next
    case False
    then show ?thesis
      using 1 by (simp add: hex_digits.simps [of n] digits_value_append hex_char_values(2) zdiv_int zmod_int)
  qed
qed

lemma zeros_value: "digits_value 16 0 (replicate k CHR ''0'' @ ds) = digits_value 16 0 ds"
proof (induction k)
  case (Suc k)
  have "digit_value 16 CHR ''0'' = Some 0" by code_simp
  then show ?case using Suc by simp
qed simp

lemma hex_digits_not_Nil [simp]: "hex_digits n \<noteq> []"
  by (simp add: hex_digits.simps [of n])

lemma length_hex_digits: "n < 16 ^ w \<Longrightarrow> 0 < w \<Longrightarrow> length (hex_digits n) \<le> w"
proof (induction n arbitrary: w rule: hex_digits.induct)
  case (1 n)
  show ?case
  proof (cases "n < 16")
    case False
    then obtain v where v: "w = Suc v" "0 < v" using "1.prems" by (cases w; cases "w = 1") auto
    then have "n div 16 < 16 ^ v" using "1.prems" by (simp add: less_mult_imp_div_less mult.commute)
    then show ?thesis using 1(1) [OF False, of v] v False by (simp add: hex_digits.simps [of n])
  qed (use "1.prems" in \<open>simp add: hex_digits.simps [of n]\<close>)
qed

lemma length_format_hex: "n < 16 ^ w \<Longrightarrow> 0 < w \<Longrightarrow> length (format_hex w n) = w"
  using length_hex_digits [of n w] by (simp add: format_hex_def Let_def)

text \<open>Every character of encoded bytes and of a formatted number is a digit.\<close>

definition hex_char :: "char \<Rightarrow> bool" where
  "hex_char c \<longleftrightarrow> c \<in> set HEX_CHARS"

lemma length_HEX_CHARS: "length HEX_CHARS = 16"
  by (simp add: HEX_CHARS_def)

lemma hex_char_nth: "n < 16 \<Longrightarrow> hex_char (HEX_CHARS ! n)"
  by (simp add: hex_char_def length_HEX_CHARS)

lemma hex_encode_chars: "c \<in> set (hex_encode data) \<Longrightarrow> hex_char c"
  using nibbles by (auto simp: hex_encode_def hex_byte_def intro: hex_char_nth)

lemma hex_digits_chars: "c \<in> set (hex_digits n) \<Longrightarrow> hex_char c"
proof (induction n rule: hex_digits.induct)
  case (1 n)
  show ?case
  proof (cases "n < 16")
    case True
    then show ?thesis using "1.prems" by (simp add: hex_digits.simps [of n] hex_char_nth)
  next
    case False
    then show ?thesis using 1 by (auto simp: hex_digits.simps [of n] hex_char_nth)
  qed
qed

lemma format_hex_chars: "c \<in> set (format_hex w n) \<Longrightarrow> hex_char c"
proof -
  have "hex_char CHR ''0''" by (simp add: hex_char_def HEX_CHARS_def)
  moreover assume "c \<in> set (format_hex w n)"
  ultimately show ?thesis using hex_digits_chars [of c n] by (auto simp: format_hex_def Let_def)
qed

lemma hex_char_facts:
  assumes "hex_char c"
  shows "c \<noteq> CHR ''+''" and "\<not> is_space c" and "of_char c < (128 :: nat)"
proof -
  obtain n where "n < 16" "c = HEX_CHARS ! n"
    using assms by (auto simp: hex_char_def in_set_conv_nth length_HEX_CHARS)
  then show "c \<noteq> CHR ''+''" and "\<not> is_space c" and "of_char c < (128 :: nat)"
    using hex_char_values(3,4,5) by simp_all
qed

text \<open>Parsing inverts formatting.\<close>

lemma parse_format_hex:
  assumes "int n < bound"
  shows "unsigned_from_str_radix bound 16 (format_hex w n) = Some (int n)"
proof -
  let ?s = "format_hex w n"
  have "?s \<noteq> []" by (simp add: format_hex_def Let_def)
  moreover have "hd ?s \<noteq> CHR ''+''"
    using hex_char_facts(1) format_hex_chars [of "hd ?s" w n] \<open>?s \<noteq> []\<close> by simp
  moreover have "digits_value 16 0 ?s = Some (int n)"
    by (simp add: format_hex_def Let_def zeros_value hex_digits_value)
  ultimately show ?thesis
    using assms by (cases ?s) (auto simp: unsigned_from_str_radix_def Let_def)
qed

end
