(* ===== verification/Can.thy ===== *)
theory Can
  imports Hex Node Output_Cache
begin

text \<open>
  \<open>crates/nodes-io/src/can\<close>: frames, receive filters, the SLCAN text protocol on a serial line, the
  reader thread, the simulated bus and the frame a \<open>canWrite\<close> node builds from its payload. A line
  read from the port is a list of bytes that form valid UTF-8; taking a slice of it panics when an
  end of the slice is inside a character. An outer \<open>None\<close> is a panic.
\<close>

datatype can_error =
    UnsupportedInterface string | OpenFailed msg | SendFailed msg | RecvFailed msg | CanTimeout
  | FilterFailed msg | EncodeFailed msg | DecodeFailed msg | Serial msg | LockPoisoned | Io msg

datatype bus_state = BusActive | BusPassive | BusError

record can_frame =
  cf_id :: u32
  cf_data :: "u8 list"
  cf_dlc :: u8
  cf_is_extended :: bool
  cf_is_fd :: bool
  cf_is_remote :: bool
  cf_timestamp :: "time option"

definition new_frame :: "bool \<Rightarrow> time \<Rightarrow> u32 \<Rightarrow> u8 list \<Rightarrow> can_frame" where
  "new_frame extended now i data =
     (let dlc = min (length data) 8
      in \<lparr>cf_id = i, cf_data = take dlc data, cf_dlc = of_int dlc, cf_is_extended = extended,
          cf_is_fd = False, cf_is_remote = False, cf_timestamp = Some now\<rparr>)"

definition new_standard :: "time \<Rightarrow> u32 \<Rightarrow> u8 list \<Rightarrow> can_frame" where
  "new_standard = new_frame False"

definition new_extended :: "time \<Rightarrow> u32 \<Rightarrow> u8 list \<Rightarrow> can_frame" where
  "new_extended = new_frame True"

definition extract_bytes :: "can_frame \<Rightarrow> u8 \<Rightarrow> u8 \<Rightarrow> u8 list option" where
  "extract_bytes f offset len =
     (let start = unat offset; stop = start + unat len
      in if stop > length (cf_data f) then None else Some (take (unat len) (drop start (cf_data f))))"

section \<open>Filters and identifiers\<close>

unbundle bit_operations_syntax

record can_filter =
  fl_can_id :: u32
  fl_can_mask :: u32
  fl_extended :: bool

definition filter_standard :: "u32 \<Rightarrow> u32 \<Rightarrow> can_filter" where
  "filter_standard i m = \<lparr>fl_can_id = i AND 0x7FF, fl_can_mask = m AND 0x7FF, fl_extended = False\<rparr>"

definition filter_extended :: "u32 \<Rightarrow> u32 \<Rightarrow> can_filter" where
  "filter_extended i m =
     \<lparr>fl_can_id = i AND 0x1FFFFFFF, fl_can_mask = m AND 0x1FFFFFFF, fl_extended = True\<rparr>"

definition matches :: "can_filter \<Rightarrow> u32 \<Rightarrow> bool \<Rightarrow> bool" where
  "matches f frame_id frame_is_extended =
     (if fl_extended f \<and> \<not> frame_is_extended then False
      else frame_id AND fl_can_mask f = fl_can_id f AND fl_can_mask f)"

text \<open>A \<open>canRead\<close> node with a configured identifier takes only its frames.\<close>

definition node_filter :: "u32 option \<Rightarrow> bool \<Rightarrow> can_filter option" where
  "node_filter can_id extended =
     map_option (\<lambda>i. if extended then filter_extended i 0x1FFFFFFF else filter_standard i 0x7FF) can_id"

definition matches_filter :: "u32 option \<Rightarrow> bool \<Rightarrow> can_frame \<Rightarrow> bool" where
  "matches_filter can_id extended f =
     (case node_filter can_id extended of
        Some flt \<Rightarrow> matches flt (cf_id f) (cf_is_extended f) | None \<Rightarrow> True)"

definition validate_can_id :: "u32 \<Rightarrow> bool \<Rightarrow> can_error + unit" where
  "validate_can_id can_id extended =
     (if extended then
        (if can_id \<le> 0x1FFFFFFF then Inr ()
         else Inl (EncodeFailed (Msg ''extended-id-too-large'' [format_hex 8 (unat can_id)])))
      else if can_id \<le> 0x7FF then Inr ()
      else Inl (EncodeFailed (Msg ''standard-id-too-large'' [format_hex 3 (unat can_id)])))"

definition slcan_bitrate_code :: "u32 \<Rightarrow> char option" where
  "slcan_bitrate_code bitrate =
     map_of [(10000, CHR ''0''), (20000, CHR ''1''), (50000, CHR ''2''), (100000, CHR ''3''),
       (125000, CHR ''4''), (250000, CHR ''5''), (500000, CHR ''6''), (800000, CHR ''7''),
       (1000000, CHR ''8'')] bitrate"

section \<open>The SLCAN text\<close>

text \<open>Slicing the data panics when the frame carries fewer bytes than its length code says.\<close>

definition encode_slcan_frame :: "can_frame \<Rightarrow> (can_error + string) option" where
  "encode_slcan_frame f =
     (let dlc = min (unat (cf_dlc f)) 8 in
      if length (cf_data f) < dlc then None
      else
        (let data_hex = to_ascii_uppercase (hex_encode (take dlc (cf_data f))) in
         Some (if cf_is_extended f then
                 (if cf_id f > 0x1FFFFFFF
                  then Inl (EncodeFailed (Msg ''extended-id-too-large'' [format_hex 8 (unat (cf_id f))]))
                  else Inr (''T'' @ format_hex 8 (unat (cf_id f)) @ dec_digits dlc @ data_hex @ [CHR 0x0D]))
               else
                 (if cf_id f > 0x7FF
                  then Inl (EncodeFailed (Msg ''standard-id-too-large'' [format_hex 3 (unat (cf_id f))]))
                  else Inr (''t'' @ format_hex 3 (unat (cf_id f)) @ dec_digits dlc @ data_hex @ [CHR 0x0D])))))"

definition decode_remote :: "time \<Rightarrow> string \<Rightarrow> nat \<Rightarrow> nat \<Rightarrow> bool \<Rightarrow> can_frame option option" where
  "decode_remote now line w minlen extended =
     (if length line < minlen then Some None
      else case str_slice line 1 (1 + w) of None \<Rightarrow> None
      | Some ids \<Rightarrow>
     (case unsigned_from_str_radix (2 ^ 32) 16 ids of None \<Rightarrow> Some None
      | Some i \<Rightarrow>
     (case str_slice line (1 + w) (2 + w) of None \<Rightarrow> None
      | Some ds \<Rightarrow>
     (case unsigned_from_str_radix (2 ^ 8) 10 ds of None \<Rightarrow> Some None
      | Some dlc \<Rightarrow>
          Some (Some \<lparr>cf_id = of_int i, cf_data = [], cf_dlc = of_int dlc, cf_is_extended = extended,
                      cf_is_fd = False, cf_is_remote = True, cf_timestamp = Some now\<rparr>)))))"

definition decode_data :: "time \<Rightarrow> string \<Rightarrow> nat \<Rightarrow> nat \<Rightarrow> bool \<Rightarrow> can_frame option option" where
  "decode_data now line w minlen extended =
     (if length line < minlen then Some None
      else case str_slice line 1 (1 + w) of None \<Rightarrow> None
      | Some ids \<Rightarrow>
     (case unsigned_from_str_radix (2 ^ 32) 16 ids of None \<Rightarrow> Some None
      | Some i \<Rightarrow>
     (case str_slice line (1 + w) (2 + w) of None \<Rightarrow> None
      | Some ds \<Rightarrow>
     (case unsigned_from_str_radix (2 ^ 8) 10 ds of None \<Rightarrow> Some None
      | Some dlc \<Rightarrow>
     (if length line < 2 + w + 2 * nat dlc then Some None
      else case str_slice line (2 + w) (2 + w + 2 * nat dlc) of None \<Rightarrow> None
      | Some hs \<Rightarrow>
     (case hex_decode hs of Inl _ \<Rightarrow> Some None
      | Inr data \<Rightarrow>
          Some (Some \<lparr>cf_id = of_int i, cf_data = data, cf_dlc = of_int dlc, cf_is_extended = extended,
                      cf_is_fd = False, cf_is_remote = False, cf_timestamp = Some now\<rparr>)))))))"

definition decode_slcan_frame :: "time \<Rightarrow> string \<Rightarrow> can_frame option option" where
  "decode_slcan_frame now text =
     (let line = trim_utf8 text in
      case line of
        [] \<Rightarrow> Some None
      | c # _ \<Rightarrow>
          if c = CHR ''t'' then decode_data now line 3 5 False
          else if c = CHR ''T'' then decode_data now line 8 11 True
          else if c = CHR ''r'' then decode_remote now line 3 5 False
          else if c = CHR ''R'' then decode_remote now line 8 10 True
          else Some None)"

section \<open>The reader thread\<close>

text \<open>
  What the serial port gives: a byte, a time-out of 100 ms, another error, or the end. \<open>read_line\<close>
  collects bytes up to a line feed; bytes collected before a time-out are dropped, since the
  line is cleared before the next call. The result lists the frames sent to the receiver and the
  state the thread leaves, \<open>None\<close> for a panic of the thread.
\<close>

datatype serial_event = SByte char | STimedOut | SFault

definition newline :: char where
  "newline = CHR 0x0A"

fun slcan_reader :: "time \<Rightarrow> serial_event list \<Rightarrow> string \<Rightarrow> (can_frame list \<times> bus_state) option" where
  "slcan_reader now [] line =
     (if line = [] then Some ([], BusActive)
      else if \<not> utf8_valid line then Some ([], BusError)
      else (case decode_slcan_frame now line of
              None \<Rightarrow> None
            | Some f \<Rightarrow> Some (case f of Some x \<Rightarrow> [x] | None \<Rightarrow> [], BusActive)))"
| "slcan_reader now (STimedOut # es) line = slcan_reader now es []"
| "slcan_reader now (SFault # es) line = Some ([], BusError)"
| "slcan_reader now (SByte c # es) line =
     (if c \<noteq> newline then slcan_reader now es (line @ [c])
      else if \<not> utf8_valid (line @ [c]) then Some ([], BusError)
      else (case decode_slcan_frame now (line @ [c]) of
              None \<Rightarrow> None
            | Some f \<Rightarrow>
                map_option (map_prod (\<lambda>fs. (case f of Some x \<Rightarrow> x # fs | None \<Rightarrow> fs)) id)
                  (slcan_reader now es [])))"

text \<open>
  \<open>recv\<close> on the frames the thread has sent, each with the instant it arrives: the first one that
  passes the filters before the deadline, and what is left. \<open>gone\<close> says that the thread has ended.
\<close>

fun slcan_recv ::
    "can_filter list \<Rightarrow> time \<Rightarrow> bool \<Rightarrow> time \<Rightarrow> (time \<times> can_frame) list \<Rightarrow> bus_state \<Rightarrow>
     can_frame option \<times> (time \<times> can_frame) list \<times> bus_state" where
  "slcan_recv filters deadline gone now [] s =
     (if now \<ge> deadline then (None, [], s) else (None, [], if gone then BusError else s))"
| "slcan_recv filters deadline gone now ((t, f) # fs) s =
     (if now \<ge> deadline \<or> t \<ge> deadline then (None, (t, f) # fs, s)
      else if filters = [] \<or> list_ex (\<lambda>flt. matches flt (cf_id f) (cf_is_extended f)) filters
      then (Some f, fs, s)
      else slcan_recv filters deadline gone (max now t) fs s)"

section \<open>The simulated bus\<close>

definition mock_next_frame :: "time \<Rightarrow> u32 \<Rightarrow> can_frame \<times> u32" where
  "mock_next_frame now counter =
     (let c = counter + 1;
          byte = (\<lambda>k. ucast (drop_bit k c AND 0xFF) :: u8)
      in (\<lparr>cf_id = 0x0C6, cf_data = [byte 0, byte 8, byte 16, byte 24, 0, 0, 0, 0], cf_dlc = 8,
           cf_is_extended = False, cf_is_fd = False, cf_is_remote = False, cf_timestamp = Some now\<rparr>, c))"

definition mock_recv :: "can_filter list \<Rightarrow> time \<Rightarrow> u32 \<Rightarrow> can_frame option \<times> u32" where
  "mock_recv filters now counter =
     (let (f, c) = mock_next_frame now counter
      in if filters \<noteq> [] \<and> \<not> list_ex (\<lambda>flt. matches flt (cf_id f) (cf_is_extended f)) filters
         then (None, c) else (Some f, c))"

section \<open>Writing a frame\<close>

fun remove_pair :: "char \<Rightarrow> char \<Rightarrow> string \<Rightarrow> string" where
  "remove_pair a b (x # y # cs) =
     (if x = a \<and> y = b then remove_pair a b cs else x # remove_pair a b (y # cs))"
| "remove_pair a b cs = cs"

definition is_ascii_hexdigit :: "char \<Rightarrow> bool" where
  "is_ascii_hexdigit c \<longleftrightarrow> digit_value 16 c \<noteq> None"

definition is_separator :: "char \<Rightarrow> bool" where
  "is_separator c \<longleftrightarrow> of_char c \<in> {9, 10, 12, 13, 32 :: nat} \<or> c \<in> set ''_-:,''"

fun keep_hex :: "string \<Rightarrow> msg + string" where
  "keep_hex [] = Inr []"
| "keep_hex (c # cs) =
     (if is_ascii_hexdigit c then map_sum id ((#) c) (keep_hex cs)
      else if is_separator c then keep_hex cs
      else Inl (Msg ''bad-hex-character'' []))"

definition parse_hex_string :: "string \<Rightarrow> msg + u8 list" where
  "parse_hex_string s =
     (case keep_hex (remove_pair CHR ''0'' CHR ''X'' (remove_pair CHR ''0'' CHR ''x'' s)) of
        Inl e \<Rightarrow> Inl e | Inr cleaned \<Rightarrow> hex_decode cleaned)"

fun parse_byte_array :: "json list \<Rightarrow> string \<Rightarrow> nat \<Rightarrow> u8 list result" where
  "parse_byte_array [] node_id index = Inr []"
| "parse_byte_array (v # vs) node_id index =
     (case as_u64 v of
        None \<Rightarrow> Inl (NodeConfig node_id (Msg ''data-not-a-byte'' [dec_digits index]))
      | Some number \<Rightarrow>
          if number > 255 then
            Inl (NodeConfig node_id (Msg ''data-above-255'' [dec_digits index, dec_digits (unat number)]))
          else map_sum id ((#) (ucast number)) (parse_byte_array vs node_id (Suc index)))"

record can_write_config =
  cw_connection_id :: "string option"
  cw_simulation :: bool
  cw_can_id :: "u32 option"
  cw_is_extended :: bool

definition frame_id_of :: "string \<Rightarrow> can_write_config \<Rightarrow> json_map \<Rightarrow> u32 result" where
  "frame_id_of node_id config payload =
     (case Option.bind (map_of payload ''can_id'') as_u64 of
        Some value \<Rightarrow>
          if unat value < 2 ^ 32 then Inr (ucast value)
          else Inl (NodeConfig node_id (Msg ''can-id-above-u32'' [dec_digits (unat value)]))
      | None \<Rightarrow> Inr (case cw_can_id config of Some i \<Rightarrow> i | None \<Rightarrow> 0x001))"

definition frame_data_of :: "string \<Rightarrow> json_map \<Rightarrow> u8 list result" where
  "frame_data_of node_id payload =
     (case map_of payload ''data'' of
        Some (JArray arr) \<Rightarrow> parse_byte_array arr node_id 0
      | Some (JString s) \<Rightarrow> map_sum (NodeConfig node_id) id (parse_hex_string s)
      | _ \<Rightarrow> Inr [])"

definition frame_from_payload ::
    "time \<Rightarrow> string \<Rightarrow> can_write_config \<Rightarrow> json \<Rightarrow> (json_map \<times> can_frame) result" where
  "frame_from_payload now node_id config payload =
     (let m = into_payload_map payload in
      and_then (frame_id_of node_id config m) (\<lambda>can_id.
        let extended = (case map_of m ''is_extended'' of Some (JBool b) \<Rightarrow> b | _ \<Rightarrow> cw_is_extended config) in
        and_then (map_sum (\<lambda>_. NodeConfig node_id (Msg ''can-id-out-of-range'' [])) id
                    (validate_can_id can_id extended)) (\<lambda>_.
          and_then (frame_data_of node_id m) (\<lambda>data.
            Inr (m, if extended then new_extended now can_id data else new_standard now can_id data)))))"

end
