(* ===== verification/Byte_Codec.thy ===== *)
theory Byte_Codec
  imports Can Numbers
begin

text \<open>
  Values as bytes. What a capability writes to a device, \<open>crates/nodes-io/src/capability_call/executor.rs\<close>
  (\<open>encode_value_to_bytes\<close>, \<open>encode_can_frame_data\<close>, \<open>encode_modbus_words\<close>), and what a signal reads from
  one, \<open>crates/nodes-io/src/signal_decode\<close>. A type and a byte order of the writer are texts, those of the
  reader are enums. Floats stand for their bits; the argument \<open>fp\<close> holds the conversions of the
  standard library between text, bits and value (\<open>None\<close>: not a finite number).
\<close>

record float_ops =
  parse_f32 :: "string \<Rightarrow> u32 option"
  parse_f64 :: "string \<Rightarrow> u64 option"
  value_f32 :: "u32 \<Rightarrow> rat option"
  value_f64 :: "u64 \<Rightarrow> rat option"

section \<open>Bytes of words\<close>

definition to_le_bytes :: "'a::len word \<Rightarrow> u8 list" where
  "to_le_bytes w = map (\<lambda>i. ucast (drop_bit (8 * i) w)) [0..<LENGTH('a) div 8]"

definition to_be_bytes :: "'a::len word \<Rightarrow> u8 list" where
  "to_be_bytes w = rev (to_le_bytes w)"

fun le_value :: "u8 list \<Rightarrow> int" where
  "le_value [] = 0"
| "le_value (b # bs) = uint b + 256 * le_value bs"

definition from_le_bytes :: "u8 list \<Rightarrow> 'a::len word" where
  "from_le_bytes bs = word_of_int (le_value bs)"

definition from_be_bytes :: "u8 list \<Rightarrow> 'a::len word" where
  "from_be_bytes bs = from_le_bytes (rev bs)"

section \<open>Writing\<close>

definition is_little :: "string \<Rightarrow> bool" where
  "is_little byte_order \<longleftrightarrow> byte_order = ''little_endian'' \<or> byte_order = ''little''"

definition word_bytes :: "string \<Rightarrow> 'a::len word \<Rightarrow> u8 list" where
  "word_bytes byte_order w = (if is_little byte_order then to_le_bytes w else to_be_bytes w)"

definition parse_bool_value :: "string \<Rightarrow> string \<Rightarrow> bool result" where
  "parse_bool_value v node_id =
     (let t = to_ascii_lowercase (trim_utf8 v) in
      if t = ''true'' \<or> t = ''1'' then Inr True
      else if t = ''false'' \<or> t = ''0'' then Inr False
      else Inl (NodeConfig node_id (Msg ''bool-value'' [t])))"

definition written_word :: "string \<Rightarrow> string \<Rightarrow> string \<Rightarrow> 'a::len word option \<Rightarrow> 'a word result" where
  "written_word what v node_id x = ok_or (NodeConfig node_id (Msg (what @ ''-value'') [v])) x"

definition parsed_unsigned :: "string \<Rightarrow> 'a::len word option" where
  "parsed_unsigned v = map_option word_of_int (parse_unsigned LENGTH('a) (trim_utf8 v))"

definition parsed_signed :: "string \<Rightarrow> 'a::len word option" where
  "parsed_signed v = map_option word_of_int (parse_signed LENGTH('a) (trim_utf8 v))"

definition encode_value_to_bytes ::
    "float_ops \<Rightarrow> string \<Rightarrow> string \<Rightarrow> string \<Rightarrow> string \<Rightarrow> u8 list result" where
  "encode_value_to_bytes fp v data_type byte_order node_id =
     (if data_type = ''u16'' \<or> data_type = [] then
        map_sum id (word_bytes byte_order) (written_word ''can-u16'' v node_id (parsed_unsigned v :: u16 option))
      else if data_type = ''i16'' then
        map_sum id (word_bytes byte_order) (written_word ''can-i16'' v node_id (parsed_signed v :: u16 option))
      else if data_type = ''bool'' then
        map_sum id (\<lambda>b. [if b then 1 else 0]) (parse_bool_value v node_id)
      else if data_type = ''u32'' then
        map_sum id (word_bytes byte_order) (written_word ''can-u32'' v node_id (parsed_unsigned v :: u32 option))
      else if data_type = ''i32'' then
        map_sum id (word_bytes byte_order) (written_word ''can-i32'' v node_id (parsed_signed v :: u32 option))
      else if data_type = ''float32'' then
        map_sum id (word_bytes byte_order) (written_word ''can-float32'' v node_id (parse_f32 fp (trim_utf8 v)))
      else if data_type = ''float64'' then
        map_sum id (word_bytes byte_order) (written_word ''can-float64'' v node_id (parse_f64 fp (trim_utf8 v)))
      else Inl (NodeConfig node_id (Msg ''can-data-type'' [data_type])))"

definition parse_hex_bytes :: "string \<Rightarrow> msg + u8 list" where
  "parse_hex_bytes v = parse_hex_string v"

definition encode_can_frame_data ::
    "float_ops \<Rightarrow> string \<Rightarrow> u8 \<Rightarrow> u8 \<Rightarrow> string \<Rightarrow> string \<Rightarrow> string \<Rightarrow> u8 list result" where
  "encode_can_frame_data fp v byte_offset byte_length data_type byte_order node_id =
     (if byte_length = 0 then map_sum (NodeConfig node_id) id (parse_hex_bytes v)
      else if unat byte_offset + unat byte_length > 8
      then Inl (NodeConfig node_id (Msg ''can-region'' []))
      else
        and_then (encode_value_to_bytes fp v data_type byte_order node_id) (\<lambda>encoded.
          let src = drop (length encoded - unat byte_length) encoded in
          if length src \<noteq> unat byte_length then Inl (NodeConfig node_id (Msg ''can-length'' [data_type]))
          else Inr (replicate (unat byte_offset) 0 @ src @
                    replicate (8 - (unat byte_offset + unat byte_length)) 0)))"

definition u32_to_registers :: "u32 \<Rightarrow> string \<Rightarrow> u16 list" where
  "u32_to_registers v byte_order =
     (if is_little byte_order then [ucast (v AND 0xFFFF), ucast (drop_bit 16 v AND 0xFFFF)]
      else [ucast (drop_bit 16 v AND 0xFFFF), ucast (v AND 0xFFFF)])"

definition u64_to_registers :: "u64 \<Rightarrow> string \<Rightarrow> u16 list" where
  "u64_to_registers v byte_order =
     (if is_little byte_order then
        [ucast (v AND 0xFFFF), ucast (drop_bit 16 v AND 0xFFFF), ucast (drop_bit 32 v AND 0xFFFF),
         ucast (drop_bit 48 v AND 0xFFFF)]
      else
        [ucast (drop_bit 48 v AND 0xFFFF), ucast (drop_bit 32 v AND 0xFFFF), ucast (drop_bit 16 v AND 0xFFFF),
         ucast (v AND 0xFFFF)])"

definition encode_modbus_words ::
    "float_ops \<Rightarrow> string \<Rightarrow> string \<Rightarrow> string \<Rightarrow> u8 option \<Rightarrow> string \<Rightarrow> u16 list result" where
  "encode_modbus_words fp v data_type byte_order bt node_id =
     (if data_type = ''u16'' \<or> data_type = [] then
        map_sum id (\<lambda>w. [w]) (written_word ''modbus-u16'' v node_id (parsed_unsigned v))
      else if data_type = ''i16'' then
        map_sum id (\<lambda>w. [w]) (written_word ''modbus-i16'' v node_id (parsed_signed v))
      else if data_type = ''bool'' then
        map_sum id (\<lambda>b. [if b then 1 else 0]) (parse_bool_value v node_id)
      else if data_type = ''u32'' then
        map_sum id (\<lambda>w. u32_to_registers w byte_order) (written_word ''modbus-u32'' v node_id (parsed_unsigned v))
      else if data_type = ''i32'' then
        map_sum id (\<lambda>w. u32_to_registers w byte_order) (written_word ''modbus-i32'' v node_id (parsed_signed v))
      else if data_type = ''float32'' then
        map_sum id (\<lambda>w. u32_to_registers w byte_order) (written_word ''modbus-float32'' v node_id (parse_f32 fp (trim_utf8 v)))
      else if data_type = ''float64'' then
        map_sum id (\<lambda>w. u64_to_registers w byte_order) (written_word ''modbus-float64'' v node_id (parse_f64 fp (trim_utf8 v)))
      else Inl (NodeConfig node_id (Msg ''modbus-data-type'' [data_type])))"

section \<open>Reading\<close>

datatype data_type_snapshot = SnBool | SnU16 | SnI16 | SnU32 | SnI32 | SnFloat32 | SnFloat64 | SnString

datatype byte_order_snapshot = SnBigEndian | SnLittleEndian

fun modbus_register_count :: "data_type_snapshot \<Rightarrow> u16" where
  "modbus_register_count SnU32 = 2"
| "modbus_register_count SnI32 = 2"
| "modbus_register_count SnFloat32 = 2"
| "modbus_register_count SnFloat64 = 4"
| "modbus_register_count _ = 1"

fun byte_count :: "data_type_snapshot \<Rightarrow> nat" where
  "byte_count SnU32 = 4"
| "byte_count SnI32 = 4"
| "byte_count SnFloat32 = 4"
| "byte_count SnFloat64 = 8"
| "byte_count SnString = 0"
| "byte_count _ = 2"

datatype decode_error =
    BufferTooShort nat nat
  | BitExtractionUnsupported data_type_snapshot
  | BitOutOfRange u8 u8
  | InvalidUtf8

type_synonym 'a decoded = "decode_error + 'a"

definition read_bytes :: "nat \<Rightarrow> u8 list \<Rightarrow> u8 list decoded" where
  "read_bytes n raw = (if length raw < n then Inl (BufferTooShort n (length raw)) else Inr (take n raw))"

definition from_bytes :: "byte_order_snapshot \<Rightarrow> u8 list \<Rightarrow> 'a::len word" where
  "from_bytes order bs = (case order of SnBigEndian \<Rightarrow> from_be_bytes bs | SnLittleEndian \<Rightarrow> from_le_bytes bs)"

definition decode_u16 :: "u8 list \<Rightarrow> byte_order_snapshot \<Rightarrow> u16 decoded" where
  "decode_u16 raw order = map_sum id (from_bytes order) (read_bytes 2 raw)"

definition check_bit_index :: "u8 \<Rightarrow> u8 \<Rightarrow> unit decoded" where
  "check_bit_index idx width = (if idx \<ge> width then Inl (BitOutOfRange idx width) else Inr ())"

definition bit_value :: "u16 \<Rightarrow> u8 \<Rightarrow> json decoded" where
  "bit_value w idx = map_sum id (\<lambda>_. JBool (w AND push_bit (unat idx) 1 \<noteq> 0)) (check_bit_index idx 16)"

text \<open>\<open>Number::from\<close> on an integer: non-negative or negative.\<close>

definition json_int :: "int \<Rightarrow> json" where
  "json_int i = JNumber (if i < 0 then NegInt (word_of_int i) else PosInt (word_of_int i))"

definition float_to_value :: "rat option \<Rightarrow> json" where
  "float_to_value f = (case f of Some r \<Rightarrow> JNumber (Float r) | None \<Rightarrow> JNull)"

definition decode_bool :: "u8 list \<Rightarrow> byte_order_snapshot \<Rightarrow> u8 option \<Rightarrow> json decoded" where
  "decode_bool raw order bt =
     and_then (decode_u16 raw order) (\<lambda>w. case bt of Some idx \<Rightarrow> bit_value w idx | None \<Rightarrow> Inr (JBool (w \<noteq> 0)))"

definition decode_u16_value :: "u8 list \<Rightarrow> byte_order_snapshot \<Rightarrow> u8 option \<Rightarrow> json decoded" where
  "decode_u16_value raw order bt =
     and_then (decode_u16 raw order) (\<lambda>w. case bt of Some idx \<Rightarrow> bit_value w idx | None \<Rightarrow> Inr (json_int (uint w)))"

definition decode_i16_value :: "u8 list \<Rightarrow> byte_order_snapshot \<Rightarrow> u8 option \<Rightarrow> json decoded" where
  "decode_i16_value raw order bt =
     and_then (decode_u16 raw order) (\<lambda>w. case bt of Some idx \<Rightarrow> bit_value w idx | None \<Rightarrow> Inr (json_int (sint w)))"

definition decode_u32_value :: "u8 list \<Rightarrow> byte_order_snapshot \<Rightarrow> json decoded" where
  "decode_u32_value raw order = map_sum id (\<lambda>bs. json_int (uint (from_bytes order bs :: u32))) (read_bytes 4 raw)"

definition decode_i32_value :: "u8 list \<Rightarrow> byte_order_snapshot \<Rightarrow> json decoded" where
  "decode_i32_value raw order = map_sum id (\<lambda>bs. json_int (sint (from_bytes order bs :: u32))) (read_bytes 4 raw)"

definition decode_float32_value :: "float_ops \<Rightarrow> u8 list \<Rightarrow> byte_order_snapshot \<Rightarrow> json decoded" where
  "decode_float32_value fp raw order =
     map_sum id (\<lambda>bs. float_to_value (value_f32 fp (from_bytes order bs))) (read_bytes 4 raw)"

definition decode_float64_value :: "float_ops \<Rightarrow> u8 list \<Rightarrow> byte_order_snapshot \<Rightarrow> json decoded" where
  "decode_float64_value fp raw order =
     map_sum id (\<lambda>bs. float_to_value (value_f64 fp (from_bytes order bs))) (read_bytes 8 raw)"

definition decode_raw_bytes ::
    "float_ops \<Rightarrow> u8 list \<Rightarrow> data_type_snapshot \<Rightarrow> byte_order_snapshot \<Rightarrow> u8 option \<Rightarrow> json decoded" where
  "decode_raw_bytes fp raw ty order bt =
     (if bt \<noteq> None \<and> ty \<notin> {SnBool, SnU16, SnI16} then Inl (BitExtractionUnsupported ty)
      else
        (case ty of
           SnBool \<Rightarrow> decode_bool raw order bt
         | SnU16 \<Rightarrow> decode_u16_value raw order bt
         | SnI16 \<Rightarrow> decode_i16_value raw order bt
         | SnU32 \<Rightarrow> decode_u32_value raw order
         | SnI32 \<Rightarrow> decode_i32_value raw order
         | SnFloat32 \<Rightarrow> decode_float32_value fp raw order
         | SnFloat64 \<Rightarrow> decode_float64_value fp raw order
         | SnString \<Rightarrow>
             (let s = map (\<lambda>b. char_of (unat b)) raw
              in if utf8_valid s then Inr (JString s) else Inl InvalidUtf8)))"

text \<open>A slice of the process data: the sum of offset and length may overflow a \<open>usize\<close>.\<close>

definition extract_pdo_bytes :: "u8 list \<Rightarrow> usize \<Rightarrow> usize \<Rightarrow> u8 list decoded" where
  "extract_pdo_bytes pdo offset len =
     (let stop = unat offset + unat len in
      if stop \<ge> 2 ^ 64 then Inl (BufferTooShort (2 ^ 64 - 1) (length pdo))
      else if stop > length pdo then Inl (BufferTooShort stop (length pdo))
      else Inr (take (unat len) (drop (unat offset) pdo)))"

end
