(* ===== verification/Serde.thy ===== *)
theory Serde
  imports Json "HOL-Library.Monad_Syntax"
begin

text \<open>
  How the derived \<open>Deserialize\<close> implementations of the program read a JSON value, as serde documents
  it: a struct is an object whose unknown members are ignored, a missing member is an error unless the
  field has a default, an optional field may be missing or \<open>null\<close>, an integer has to be in range.
  (Serde also takes an array of the fields for a struct; no file of the program has one.)
\<close>

fun de_string :: "json \<Rightarrow> string option" where
  "de_string (JString s) = Some s"
| "de_string _ = None"

fun de_bool :: "json \<Rightarrow> bool option" where
  "de_bool (JBool b) = Some b"
| "de_bool _ = None"

fun de_word :: "json \<Rightarrow> 'a::len word option" where
  "de_word (JNumber (PosInt n)) = (if uint n < 2 ^ LENGTH('a) then Some (ucast n) else None)"
| "de_word _ = None"

fun de_option :: "(json \<Rightarrow> 'a option) \<Rightarrow> json \<Rightarrow> 'a option option" where
  "de_option d JNull = Some None"
| "de_option d v = map_option Some (d v)"

fun de_list :: "(json \<Rightarrow> 'a option) \<Rightarrow> json \<Rightarrow> 'a list option" where
  "de_list d (JArray vs) = those (map d vs)"
| "de_list d _ = None"

fun de_map :: "(json \<Rightarrow> 'a option) \<Rightarrow> json \<Rightarrow> (string, 'a) hash_map option" where
  "de_map d (JObject m) = those (map (\<lambda>(k, v). map_option (Pair k) (d v)) m)"
| "de_map d _ = None"

definition de_field :: "json_map \<Rightarrow> string \<Rightarrow> (json \<Rightarrow> 'a option) \<Rightarrow> 'a option" where
  "de_field m k d = Option.bind (map_of m k) d"

definition de_field_or :: "json_map \<Rightarrow> string \<Rightarrow> (json \<Rightarrow> 'a option) \<Rightarrow> 'a \<Rightarrow> 'a option" where
  "de_field_or m k d x = (case map_of m k of None \<Rightarrow> Some x | Some v \<Rightarrow> d v)"

text \<open>A field with a second name: both at once are a duplicate.\<close>

definition alias_key :: "json_map \<Rightarrow> string \<Rightarrow> string \<Rightarrow> string option" where
  "alias_key m k a =
     (if map_of m k \<noteq> None \<and> map_of m a \<noteq> None then None else if map_of m k \<noteq> None then Some k else Some a)"

definition de_alias :: "json_map \<Rightarrow> string \<Rightarrow> string \<Rightarrow> (json \<Rightarrow> 'a option) \<Rightarrow> 'a option" where
  "de_alias m k a d = Option.bind (alias_key m k a) (\<lambda>k'. de_field m k' d)"

definition de_alias_or :: "json_map \<Rightarrow> string \<Rightarrow> string \<Rightarrow> (json \<Rightarrow> 'a option) \<Rightarrow> 'a \<Rightarrow> 'a option" where
  "de_alias_or m k a d x = Option.bind (alias_key m k a) (\<lambda>k'. de_field_or m k' d x)"

lemma field_Some [simp]: "map_of m k = Some v \<Longrightarrow> de_field m k d = d v"
  by (simp add: de_field_def)

lemma field_None [simp]: "map_of m k = None \<Longrightarrow> de_field m k d = None"
  by (simp add: de_field_def)

lemma field_or_Some [simp]: "map_of m k = Some v \<Longrightarrow> de_field_or m k d x = d v"
  by (simp add: de_field_or_def)

lemma field_or_None [simp]: "map_of m k = None \<Longrightarrow> de_field_or m k d x = Some x"
  by (simp add: de_field_or_def)

lemma those_map_Some: "(\<And>x. x \<in> set xs \<Longrightarrow> f x = Some (g x)) \<Longrightarrow> those (map f xs) = Some (map g xs)"
  by (induction xs) auto

lemma those_length: "those xs = Some ys \<Longrightarrow> length ys = length xs"
  by (induction xs arbitrary: ys) (auto split: option.splits)

lemma de_option_not_null: "v \<noteq> JNull \<Longrightarrow> de_option d v = map_option Some (d v)"
  by (cases v) simp_all

text \<open>An integer of a smaller type in 64 bits, and back.\<close>

lemma uint_ucast_u64: "LENGTH('a) \<le> 64 \<Longrightarrow> uint (ucast w :: u64) = uint (w :: 'a::len word)"
proof -
  assume a: "LENGTH('a) \<le> 64"
  have "uint w < 2 ^ 64"
    using uint_lt2p [of w] power_increasing [OF a, of "2 :: int"] by linarith
  then show ?thesis by (simp add: unsigned_ucast_eq take_bit_int_eq_self)
qed

lemma unat_ucast_u64: "LENGTH('a) \<le> 64 \<Longrightarrow> unat (ucast w :: u64) = unat (w :: 'a::len word)"
  using uint_ucast_u64 [of w] by (metis nat_uint_eq)

lemma ucast_ucast_u64: "LENGTH('a) \<le> 64 \<Longrightarrow> ucast (ucast w :: u64) = (w :: 'a::len word)"
  by (metis uint_ucast_u64 ucast_eq word_of_int_uint)

lemma de_word_word [simp]: "LENGTH('a) \<le> 64 \<Longrightarrow> de_word (JNumber (PosInt (ucast w))) = Some (w :: 'a::len word)"
  by (simp add: uint_ucast_u64 ucast_ucast_u64 uint_lt2p)

end
