(* ===== verification/Capability_Call.thy ===== *)
theory Capability_Call
  imports Byte_Codec Serde Conn_Health Variables
begin

text \<open>
  The node that carries out an action, \<open>crates/nodes-io/src/capability_call.rs\<close> and
  \<open>capability_call/protocol.rs\<close>, \<open>capability_call/executor.rs\<close>: its configuration, the resolution of
  \<open>${\<dots>}\<close> templates, and what it asks a protocol to do (\<open>request\<close>). The exchange with the device after
  that is not modelled; the EtherCAT write is, up to the process data it sends. The printer of JSON
  values other than texts, integers and booleans is the argument \<open>pj\<close>.
\<close>

section \<open>Configuration\<close>

datatype capability_impl_snapshot =
    ModbusWriteSn u16 string "u8 option" string "string option" string
  | MqttPublishSn string string
  | SerialCommandSn string
  | CanWriteSn u32 bool u8 u8 string string "string option" string
  | EthercatPdoWriteSn "u16 option" u16 u16 u8 u16 u16 "string option" string "string option" string
  | ScriptSn string

record capability_call_config =
  cc_connection_id :: "string option"
  cc_capability_id :: string
  cc_device_id :: string
  cc_implementation :: capability_impl_snapshot
  cc_args :: "(string, json) hash_map"

definition de_opt_field :: "json_map \<Rightarrow> string \<Rightarrow> (json \<Rightarrow> 'a option) \<Rightarrow> 'a option option" where
  "de_opt_field m k d = de_field_or m k (de_option d) None"

definition de_snapshot :: "json \<Rightarrow> capability_impl_snapshot option" where
  "de_snapshot v =
     do { m \<leftarrow> as_object v; tag \<leftarrow> de_field m ''type'' de_string;
       if tag = ''modbus-write'' then
         do { register \<leftarrow> de_field m ''register'' de_word; dt \<leftarrow> de_field_or m ''data_type'' de_string [];
              bt \<leftarrow> de_opt_field m ''bit'' de_word; order \<leftarrow> de_field_or m ''byte_order'' de_string [];
              scale \<leftarrow> de_opt_field m ''scale'' de_string; t \<leftarrow> de_field m ''value_template'' de_string;
              Some (ModbusWriteSn register dt bt order scale t) }
       else if tag = ''mqtt-publish'' then
         do { topic \<leftarrow> de_field m ''topic'' de_string; t \<leftarrow> de_field m ''payload_template'' de_string;
              Some (MqttPublishSn topic t) }
       else if tag = ''serial-command'' then
         do { t \<leftarrow> de_field m ''command_template'' de_string; Some (SerialCommandSn t) }
       else if tag = ''can-write'' then
         do { can_id \<leftarrow> de_field m ''can_id'' de_word; ext \<leftarrow> de_field m ''is_extended'' de_bool;
              off \<leftarrow> de_field_or m ''byte_offset'' de_word 0; len \<leftarrow> de_field_or m ''byte_length'' de_word 0;
              dt \<leftarrow> de_field_or m ''data_type'' de_string []; order \<leftarrow> de_field_or m ''byte_order'' de_string [];
              scale \<leftarrow> de_opt_field m ''scale'' de_string; t \<leftarrow> de_field m ''data_template'' de_string;
              Some (CanWriteSn can_id ext off len dt order scale t) }
       else if tag = ''ethercat-pdo-write'' then
         do { slave \<leftarrow> de_opt_field m ''slave_address'' de_word; pdo \<leftarrow> de_field m ''pdo_index'' de_word;
              entry \<leftarrow> de_field m ''entry_index'' de_word; sub \<leftarrow> de_field m ''sub_index'' de_word;
              bits \<leftarrow> de_field m ''bit_len'' de_word; off \<leftarrow> de_field_or m ''byte_offset'' de_word 0;
              dt \<leftarrow> de_opt_field m ''data_type'' de_string; order \<leftarrow> de_field_or m ''byte_order'' de_string [];
              scale \<leftarrow> de_opt_field m ''scale'' de_string; t \<leftarrow> de_field m ''value_template'' de_string;
              Some (EthercatPdoWriteSn slave pdo entry sub bits off dt order scale t) }
       else if tag = ''script'' then
         do { c \<leftarrow> de_field m ''content'' de_string; Some (ScriptSn c) }
       else None }"

definition de_capability_call_config :: "json \<Rightarrow> capability_call_config option" where
  "de_capability_call_config v =
     do { m \<leftarrow> as_object v; conn \<leftarrow> de_opt_field m ''connection_id'' de_string;
          cap \<leftarrow> de_field m ''capability_id'' de_string; dev \<leftarrow> de_field m ''device_id'' de_string;
          impl \<leftarrow> de_field m ''implementation'' de_snapshot; args \<leftarrow> de_field_or m ''args'' (de_map Some) [];
          Some \<lparr>cc_connection_id = conn, cc_capability_id = cap, cc_device_id = dev, cc_implementation = impl,
                cc_args = args\<rparr> }"

record capability_call_node =
  cl_node_id :: string
  cl_config :: capability_call_config
  cl_variables :: "workflow_variables option"

section \<open>Templates\<close>

definition value_to_string :: "(json \<Rightarrow> string) \<Rightarrow> json \<Rightarrow> string" where
  "value_to_string pj v =
     (case v of
        JString s \<Rightarrow> s
      | JNumber (PosInt n) \<Rightarrow> dec_digits (unat n)
      | JNumber (NegInt n) \<Rightarrow> print_int (sint n)
      | JBool b \<Rightarrow> if b then ''true'' else ''false''
      | _ \<Rightarrow> pj v)"

definition lookup_variable :: "capability_call_node \<Rightarrow> json \<Rightarrow> string \<Rightarrow> json option" where
  "lookup_variable node payload name =
     (case json_get payload name of
        Some v \<Rightarrow> Some v
      | None \<Rightarrow>
     (case Option.bind (cl_variables node) (\<lambda>vs. get_value vs name) of
        Some v \<Rightarrow> Some v
      | None \<Rightarrow> map_of (cc_args (cl_config node)) name))"

definition placeholder :: "string \<Rightarrow> string" where
  "placeholder name = ''${'' @ name @ ''}''"

definition resolve_variable :: "(json \<Rightarrow> string) \<Rightarrow> capability_call_node \<Rightarrow> string \<Rightarrow> json \<Rightarrow> string" where
  "resolve_variable pj node name payload =
     (case lookup_variable node payload name of Some v \<Rightarrow> value_to_string pj v | None \<Rightarrow> placeholder name)"

text \<open>The loop replaces one placeholder after the other and goes on behind what it has put in.\<close>

function resolve_with :: "(string \<Rightarrow> string) \<Rightarrow> string \<Rightarrow> string" where
  "resolve_with f (a # b # rest) =
     (if a = CHR ''$'' \<and> b = CHR ''{'' then
        (if CHR ''}'' \<in> set rest then
           (let name = takeWhile (\<lambda>c. c \<noteq> CHR ''}'') rest
            in f name @ resolve_with f (drop (Suc (length name)) rest))
         else a # b # rest)
      else a # resolve_with f (b # rest))"
| "resolve_with f [a] = [a]"
| "resolve_with f [] = []"
  by pat_completeness auto
termination by (relation "measure (length \<circ> snd)") auto

definition resolve_template :: "(json \<Rightarrow> string) \<Rightarrow> capability_call_node \<Rightarrow> string \<Rightarrow> json \<Rightarrow> string" where
  "resolve_template pj node template payload = resolve_with (\<lambda>name. resolve_variable pj node name payload) template"

definition resolve_args :: "(json \<Rightarrow> string) \<Rightarrow> capability_call_node \<Rightarrow> json \<Rightarrow> (string, json) hash_map" where
  "resolve_args pj node payload =
     map (\<lambda>(k, v). (k, case as_str v of Some s \<Rightarrow> JString (resolve_template pj node s payload) | None \<Rightarrow> v))
       (cc_args (cl_config node))"

section \<open>Connections\<close>

definition call_connection_id :: "capability_call_node \<Rightarrow> string result" where
  "call_connection_id node =
     (case cc_connection_id (cl_config node) of
        Some c \<Rightarrow> if trim_utf8 c = [] then Inl (NodeConfig (cl_node_id node) (Msg ''connection-id-missing'' [])) else Inr c
      | None \<Rightarrow> Inl (NodeConfig (cl_node_id node) (Msg ''connection-id-missing'' [])))"

definition dashed :: "string \<Rightarrow> string" where
  "dashed s = map (\<lambda>c. if c = CHR ''_'' then CHR ''-'' else c) s"

definition connection_kind_matches :: "string \<Rightarrow> string list \<Rightarrow> bool" where
  "connection_kind_matches kind allowed \<longleftrightarrow>
     dashed (to_ascii_lowercase (trim_utf8 kind)) \<in> set (map dashed allowed)"

definition required_metadata_str :: "json \<Rightarrow> string \<Rightarrow> string \<Rightarrow> string \<Rightarrow> string result" where
  "required_metadata_str metadata key node_id protocol =
     (case map_option trim_utf8 (Option.bind (json_get metadata key) as_str) of
        Some s \<Rightarrow> if s = [] then Inl (NodeConfig node_id (Msg ''metadata-missing'' [protocol, key])) else Inr s
      | None \<Rightarrow> Inl (NodeConfig node_id (Msg ''metadata-missing'' [protocol, key])))"

definition metadata_word :: "json \<Rightarrow> string \<Rightarrow> string \<Rightarrow> string \<Rightarrow> 'a::len word result option" where
  "metadata_word metadata key node_id protocol =
     (case Option.bind (json_get metadata key) as_u64 of
        Some raw \<Rightarrow>
          Some (if uint raw < 2 ^ LENGTH('a) then Inr (ucast raw)
                else Inl (NodeConfig node_id (Msg ''metadata-range'' [protocol, key])))
      | None \<Rightarrow> None)"

definition required_metadata_u16 :: "json \<Rightarrow> string \<Rightarrow> string \<Rightarrow> string \<Rightarrow> u16 result" where
  "required_metadata_u16 metadata key node_id protocol =
     (case metadata_word metadata key node_id protocol of
        Some r \<Rightarrow> r | None \<Rightarrow> Inl (NodeConfig node_id (Msg ''metadata-missing'' [protocol, key])))"

definition required_metadata_u8 :: "json \<Rightarrow> string \<Rightarrow> string \<Rightarrow> string \<Rightarrow> u8 result" where
  "required_metadata_u8 metadata key node_id protocol =
     (case metadata_word metadata key node_id protocol of
        Some r \<Rightarrow> r | None \<Rightarrow> Inl (NodeConfig node_id (Msg ''metadata-missing'' [protocol, key])))"

definition metadata_u16_or :: "json \<Rightarrow> string \<Rightarrow> u16 \<Rightarrow> string \<Rightarrow> string \<Rightarrow> u16 result" where
  "metadata_u16_or metadata key fallback node_id protocol =
     (case metadata_word metadata key node_id protocol of Some r \<Rightarrow> r | None \<Rightarrow> Inr fallback)"

definition metadata_u32_or :: "json \<Rightarrow> string \<Rightarrow> u32 \<Rightarrow> string \<Rightarrow> string \<Rightarrow> u32 result" where
  "metadata_u32_or metadata key fallback node_id protocol =
     (case metadata_word metadata key node_id protocol of Some r \<Rightarrow> r | None \<Rightarrow> Inr fallback)"

definition metadata_u8_or :: "json \<Rightarrow> string \<Rightarrow> u8 \<Rightarrow> string \<Rightarrow> string \<Rightarrow> u8 result" where
  "metadata_u8_or metadata key fallback node_id protocol =
     (case metadata_word metadata key node_id protocol of Some r \<Rightarrow> r | None \<Rightarrow> Inr fallback)"

section \<open>Requests\<close>

text \<open>
  What surrounds a call: the pool (\<open>acquire\<close> gives kind and metadata of a lease, \<open>get\<close> the kind of a
  record), the session and the process data of an EtherCAT slave, and library functions.
\<close>

record call_env =
  ce_acquire :: "string \<Rightarrow> (string \<times> json) result"
  ce_record_kind :: "string \<Rightarrow> string option"
  ce_session :: "string \<Rightarrow> unit result"
  ce_outputs :: "u16 \<Rightarrow> u8 list result"
  ce_parse_ip :: "string \<Rightarrow> bool"
  ce_floats :: float_ops
  ce_print_json :: "json \<Rightarrow> string"
  ce_now :: time

datatype capability_request =
    ModbusRequest string u16 u8 u16 "u16 list"
  | MqttRequest string u16 u8 string string
  | SerialRequest string u32 string
  | CanRequest can_frame
  | EthercatRequest u16 "u8 list"

definition acquire_for_protocol ::
    "call_env \<Rightarrow> capability_call_node \<Rightarrow> string \<Rightarrow> string list \<Rightarrow> json result" where
  "acquire_for_protocol env node protocol allowed =
     and_then (call_connection_id node) (\<lambda>c.
     and_then (ce_acquire env c) (\<lambda>(kind, metadata).
     if connection_kind_matches kind allowed then Inr metadata
     else Inl (NodeConfig (cl_node_id node)
                 (Msg ''connection-kind'' [cc_capability_id (cl_config node), protocol, c, kind]))))"

definition modbus_request ::
    "call_env \<Rightarrow> uuid \<Rightarrow> capability_call_node \<Rightarrow> u16 \<Rightarrow> string \<Rightarrow> string \<Rightarrow> u8 option \<Rightarrow> string \<Rightarrow>
     capability_request result" where
  "modbus_request env trace node register v data_type bt byte_order =
     (let i = cl_node_id node in
      and_then (acquire_for_protocol env node ''Modbus'' [''modbus'', ''modbus_tcp'', ''modbus-tcp'']) (\<lambda>md.
      and_then (required_metadata_str md ''host'' i ''Modbus'') (\<lambda>host.
      and_then (required_metadata_u16 md ''port'' i ''Modbus'') (\<lambda>port.
      and_then (required_metadata_u8 md ''unit_id'' i ''Modbus'') (\<lambda>unit_id.
      and_then (encode_modbus_words (ce_floats env) v data_type byte_order bt i) (\<lambda>words.
      if ce_parse_ip env host then Inr (ModbusRequest host port unit_id register words)
      else Inl (StageExecution i trace (Msg ''modbus-address'' [host]))))))))"

definition mqtt_qos :: "u8 \<Rightarrow> u8" where
  "mqtt_qos v = (if v = 1 then 1 else if v = 2 then 2 else 0)"

definition mqtt_request ::
    "call_env \<Rightarrow> capability_call_node \<Rightarrow> string \<Rightarrow> string \<Rightarrow> capability_request result" where
  "mqtt_request env node topic payload =
     (let i = cl_node_id node in
      and_then (acquire_for_protocol env node ''MQTT'' [''mqtt'']) (\<lambda>md.
      and_then (required_metadata_str md ''host'' i ''MQTT'') (\<lambda>host.
      and_then (metadata_u16_or md ''port'' 1883 i ''MQTT'') (\<lambda>port.
      and_then (metadata_u8_or md ''qos'' 0 i ''MQTT'') (\<lambda>qos.
      and_then (if trim_utf8 topic = [] then required_metadata_str md ''topic'' i ''MQTT'' else Inr topic) (\<lambda>t.
      Inr (MqttRequest host port (mqtt_qos qos) t payload)))))))"

definition serial_request :: "call_env \<Rightarrow> capability_call_node \<Rightarrow> string \<Rightarrow> capability_request result" where
  "serial_request env node command =
     (let i = cl_node_id node in
      and_then (acquire_for_protocol env node ''serial''
        [''serial'', ''serialport'', ''serial_port'', ''uart'', ''rs232'', ''rs485'']) (\<lambda>md.
      and_then (required_metadata_str md ''port_path'' i ''serial'') (\<lambda>path.
      and_then (metadata_u32_or md ''baud_rate'' 9600 i ''serial'') (\<lambda>baud.
      Inr (SerialRequest path baud command)))))"

definition can_request ::
    "call_env \<Rightarrow> capability_call_node \<Rightarrow> u32 \<Rightarrow> string \<Rightarrow> bool \<Rightarrow> u8 \<Rightarrow> u8 \<Rightarrow> string \<Rightarrow> string \<Rightarrow>
     capability_request result" where
  "can_request env node can_id data extended off len data_type byte_order =
     (let i = cl_node_id node in
      and_then (call_connection_id node) (\<lambda>c.
      and_then (ok_or (NodeConfig i (Msg ''can-connection-missing'' [c])) (ce_record_kind env c)) (\<lambda>kind.
      if \<not> connection_kind_matches kind [''can'', ''can-slcan'', ''slcan'']
      then Inl (NodeConfig i (Msg ''connection-kind'' [cc_capability_id (cl_config node), ''CAN'', c, kind]))
      else
      and_then (map_sum (\<lambda>_. NodeConfig i (Msg ''can-id'' [])) id (validate_can_id can_id extended)) (\<lambda>_.
      and_then (encode_can_frame_data (ce_floats env) data off len data_type byte_order i) (\<lambda>bytes.
      Inr (CanRequest (if extended then new_extended (ce_now env) can_id bytes
                       else new_standard (ce_now env) can_id bytes)))))))"

text \<open>The process data of the slave with the value put in at its offset.\<close>

definition ethercat_request ::
    "call_env \<Rightarrow> capability_call_node \<Rightarrow> u16 option \<Rightarrow> u16 \<Rightarrow> u16 \<Rightarrow> string option \<Rightarrow> string \<Rightarrow> string \<Rightarrow>
     capability_request result" where
  "ethercat_request env node slave_address bit_len byte_offset data_type byte_order v =
     (let i = cl_node_id node;
          slave = (case slave_address of Some a \<Rightarrow> a | None \<Rightarrow> 1);
          ty = (case data_type of Some t \<Rightarrow> t | None \<Rightarrow> ''u16'') in
      and_then (call_connection_id node) (\<lambda>c.
      and_then (ce_session env c) (\<lambda>_.
      and_then (encode_value_to_bytes (ce_floats env) v ty byte_order i) (\<lambda>encoded.
      and_then (ce_outputs env slave) (\<lambda>outputs.
      let byte_len = (unat bit_len + 7) div 8; start = unat byte_offset in
      if start + byte_len > length outputs then Inl (NodeConfig i (Msg ''ethercat-offset'' []))
      else
        (let bytes = take (min byte_len (length encoded)) encoded in
         Inr (EthercatRequest slave (take start outputs @ bytes @ drop (start + length bytes) outputs))))))))"

definition capability_request :: "call_env \<Rightarrow> uuid \<Rightarrow> capability_call_node \<Rightarrow> json \<Rightarrow> capability_request result" where
  "capability_request env trace node payload =
     (let resolve = (\<lambda>t. resolve_template (ce_print_json env) node t payload) in
      case cc_implementation (cl_config node) of
        ModbusWriteSn register dt bt order scale t \<Rightarrow> modbus_request env trace node register (resolve t) dt bt order
      | MqttPublishSn topic t \<Rightarrow> mqtt_request env node (resolve topic) (resolve t)
      | SerialCommandSn t \<Rightarrow> serial_request env node (resolve t)
      | CanWriteSn can_id ext off len dt order scale t \<Rightarrow> can_request env node can_id (resolve t) ext off len dt order
      | EthercatPdoWriteSn slave pdo entry sub bits off dt order scale t \<Rightarrow>
          ethercat_request env node slave bits off dt order (resolve t)
      | ScriptSn content \<Rightarrow> Inl (NodeConfig (cl_node_id node) (Msg ''script-unsupported'' [])))"

definition capability_metadata :: "capability_call_node \<Rightarrow> json_map" where
  "capability_metadata node =
     [(''capability_call'', JObject
        [(''capability_id'', JString (cc_capability_id (cl_config node))),
         (''connection_id'', case cc_connection_id (cl_config node) of Some c \<Rightarrow> JString c | None \<Rightarrow> JNull),
         (''device_id'', JString (cc_device_id (cl_config node)))])]"

definition call_output :: "capability_call_node \<Rightarrow> json \<Rightarrow> (string \<times> json) option \<Rightarrow> node_execution" where
  "call_output node payload protocol_metadata =
     [\<lparr>no_payload = payload,
       no_metadata = Some (case protocol_metadata of
          None \<Rightarrow> capability_metadata node | Some (k, v) \<Rightarrow> bt_put k v (capability_metadata node)),
       no_dispatch = Broadcast\<rparr>]"

end
