(* ===== verification/Workflow_Json.thy ===== *)
theory Workflow_Json
  imports Deploy State_Machine Capability_Call
begin

text \<open>
  The JSON of a workflow file, as the \<open>Deserialize\<close> implementations read it: \<open>WorkflowGraph\<close> and
  \<open>WorkflowEdge\<close> (\<open>crates/graph/src/types.rs\<close>), \<open>WorkflowNodeDefinition\<close> (\<open>crates/core/src/plugin.rs\<close>),
  \<open>PinType\<close>, \<open>VariableDeclaration\<close>, \<open>ConnectionDefinition\<close> and \<open>StateMachineConfig\<close>
  (\<open>crates/nodes-flow/src/state_machine.rs\<close>).
\<close>

lemma size_member [termination_simp]: "map_of m k = Some v \<Longrightarrow> size v < size (JObject m)"
proof -
  assume "map_of m k = Some v"
  then have "(k, v) \<in> set m" by (rule map_of_SomeD)
  then have "size_prod (\<lambda>_. 0) size (k, v) \<le> size_list (size_prod (\<lambda>_. 0) size) m"
    by (rule size_list_estimation') simp
  then show ?thesis by simp
qed

function de_pin_type :: "json \<Rightarrow> pin_type option" where
  "de_pin_type v =
     (case v of
        JObject m \<Rightarrow>
          (case Option.bind (map_of m ''kind'') de_string of
             None \<Rightarrow> None
           | Some k \<Rightarrow>
               if k = ''any'' then Some TAny
               else if k = ''bool'' then Some TBool
               else if k = ''integer'' then Some TInteger
               else if k = ''float'' then Some TFloat
               else if k = ''string'' then Some TString
               else if k = ''json'' then Some TJson
               else if k = ''binary'' then Some TBinary
               else if k = ''array'' then
                 (case map_of m ''inner'' of None \<Rightarrow> None | Some i \<Rightarrow> map_option TArray (de_pin_type i))
               else if k = ''custom'' then
                 map_option TCustom (Option.bind (map_of m ''name'') de_string)
               else None)
      | _ \<Rightarrow> None)"
  by pat_completeness auto
termination by (relation "measure size") (auto dest: size_member)

declare de_pin_type.simps [simp del]

definition de_variable_declaration :: "json \<Rightarrow> variable_declaration option" where
  "de_variable_declaration v =
     do { m \<leftarrow> as_object v; t \<leftarrow> de_field m ''type'' de_pin_type; i \<leftarrow> de_field m ''initial'' Some;
          Some \<lparr>decl_type = t, decl_initial = i\<rparr> }"

definition de_connection_definition :: "json \<Rightarrow> connection_definition option" where
  "de_connection_definition v =
     do { m \<leftarrow> as_object v; i \<leftarrow> de_field m ''id'' de_string; k \<leftarrow> de_alias m ''type'' ''kind'' de_string;
          md \<leftarrow> de_field_or m ''metadata'' Some JNull;
          Some \<lparr>cd_id = i, cd_kind = k, cd_metadata = md\<rparr> }"

definition de_node_definition :: "json \<Rightarrow> workflow_node_definition option" where
  "de_node_definition v =
     do { m \<leftarrow> as_object v; i \<leftarrow> de_field_or m ''id'' de_string []; t \<leftarrow> de_alias m ''type'' ''kind'' de_string;
          c \<leftarrow> de_opt_field m ''connection_id'' de_string; cfg \<leftarrow> de_field_or m ''config'' Some JNull;
          timeout \<leftarrow> de_opt_field m ''timeout_ms'' de_word; b \<leftarrow> de_field_or m ''buffer'' de_word default_node_buffer;
          Some \<lparr>wd_id = i, wd_node_type = t, wd_connection_id = c, wd_config = cfg, wd_timeout_ms = timeout,
                wd_buffer = b\<rparr> }"

definition de_backpressure_policy :: "json \<Rightarrow> backpressure_policy option" where
  "de_backpressure_policy v = Option.bind (de_string v) parse_backpressure_policy"

definition de_edge :: "json \<Rightarrow> workflow_edge option" where
  "de_edge v =
     do { m \<leftarrow> as_object v; f \<leftarrow> de_alias m ''from'' ''source'' de_string; t \<leftarrow> de_alias m ''to'' ''target'' de_string;
          sp \<leftarrow> de_alias_or m ''source_port_id'' ''sourcePortID'' (de_option de_string) None;
          tp \<leftarrow> de_alias_or m ''target_port_id'' ''targetPortID'' (de_option de_string) None;
          bp \<leftarrow> de_opt_field m ''backpressure_policy'' de_backpressure_policy;
          Some \<lparr>e_from = f, e_to = t, e_source_port_id = sp, e_target_port_id = tp, e_backpressure_policy = bp\<rparr> }"

definition de_workflow_file :: "json \<Rightarrow> workflow_file option" where
  "de_workflow_file v =
     do { m \<leftarrow> as_object v; name \<leftarrow> de_opt_field m ''name'' de_string;
          conns \<leftarrow> de_field_or m ''connections'' (de_list de_connection_definition) [];
          nodes \<leftarrow> de_field_or m ''nodes'' (de_map de_node_definition) [];
          edges \<leftarrow> de_field_or m ''edges'' (de_list de_edge) [];
          variables \<leftarrow> de_opt_field m ''variables'' (de_map de_variable_declaration);
          Some \<lparr>wf_graph = \<lparr>g_name = name, g_nodes = nodes, g_edges = edges\<rparr>, wf_variables = variables,
                wf_connections = conns\<rparr> }"

section \<open>The configuration of a state machine\<close>

definition de_state_config :: "json \<Rightarrow> state_config option" where
  "de_state_config v =
     do { m \<leftarrow> as_object v; n \<leftarrow> de_field m ''name'' de_string;
          en \<leftarrow> de_field_or m ''entry_actions'' (de_list de_string) [];
          ex \<leftarrow> de_field_or m ''exit_actions'' (de_list de_string) [];
          Some \<lparr>sc_name = n, sc_entry_actions = en, sc_exit_actions = ex\<rparr> }"

definition de_transition_config :: "json \<Rightarrow> transition_config option" where
  "de_transition_config v =
     do { m \<leftarrow> as_object v; f \<leftarrow> de_field m ''from'' de_string; t \<leftarrow> de_field m ''to'' de_string;
          w \<leftarrow> de_field m ''when'' de_string; p \<leftarrow> de_field_or m ''priority'' de_word 0;
          a \<leftarrow> de_opt_field m ''action_port'' de_string;
          Some \<lparr>tc_from = f, tc_to = t, tc_when = w, tc_priority = p, tc_action_port = a\<rparr> }"

definition de_timeout_rule :: "json \<Rightarrow> timeout_rule option" where
  "de_timeout_rule v =
     do { m \<leftarrow> as_object v; s \<leftarrow> de_field m ''state'' de_string; t \<leftarrow> de_field m ''timeout_ms'' de_word;
          Some \<lparr>tr_state = s, tr_timeout_ms = t\<rparr> }"

definition default_max_operations :: u64 where
  "default_max_operations = 50000"

definition de_state_machine_config :: "json \<Rightarrow> state_machine_config option" where
  "de_state_machine_config v =
     do { m \<leftarrow> as_object v; i \<leftarrow> de_field m ''initial_state'' de_string;
          ss \<leftarrow> de_field m ''states'' (de_list de_state_config);
          ts \<leftarrow> de_field m ''transitions'' (de_list de_transition_config);
          rules \<leftarrow> de_field_or m ''timeout_rules'' (de_list de_timeout_rule) [];
          target \<leftarrow> de_opt_field m ''on_timeout_target'' de_string;
          ops \<leftarrow> de_field_or m ''max_operations'' de_word default_max_operations;
          Some \<lparr>sm_initial_state = i, sm_states = ss, sm_transitions = ts, sm_timeout_rules = rules,
                sm_on_timeout_target = target, sm_max_operations = ops\<rparr> }"

end
