(* ===== verification/Compiler_Correct.thy ===== *)
theory Compiler_Correct
  imports Compiler Workflow_Json
begin

text \<open>
  What a compiled workflow is for the runtime that reads it: the file parses, its graph is a star
  around the state machine node, the configuration of that node is the machine of the specification,
  and each of its ports leads to the node of its own action.
\<close>

section \<open>Objects and decoding\<close>

lemma de_members [simp]:
  "distinct (map fst ms) \<Longrightarrow> de_field (members ms) k d = Option.bind (map_of ms k) d"
  "distinct (map fst ms) \<Longrightarrow> de_field_or (members ms) k d x = (case map_of ms k of None \<Rightarrow> Some x | Some v \<Rightarrow> d v)"
  "distinct (map fst ms) \<Longrightarrow> de_opt_field (members ms) k d' = (case map_of ms k of None \<Rightarrow> Some None | Some v \<Rightarrow> de_option d' v)"
  by (simp_all add: de_field_def de_field_or_def de_opt_field_def)

lemma de_alias_members [simp]:
  "distinct (map fst ms) \<Longrightarrow> map_of ms a = None \<Longrightarrow> de_alias (members ms) k a d = Option.bind (map_of ms k) d"
  "distinct (map fst ms) \<Longrightarrow> map_of ms a = None \<Longrightarrow>
    de_alias_or (members ms) k a d x = (case map_of ms k of None \<Rightarrow> Some x | Some v \<Rightarrow> d v)"
  by (cases "map_of ms k"; simp add: de_alias_def de_alias_or_def alias_key_def)+

lemma de_list_map: "(\<And>x. x \<in> set xs \<Longrightarrow> d (f x) = Some (g x)) \<Longrightarrow> de_list d (JArray (map f xs)) = Some (map g xs)"
  by (simp add: those_map_Some comp_def)

lemma de_map_some:
  "(\<And>k v. (k, v) \<in> set m \<Longrightarrow> d v = Some (g v)) \<Longrightarrow> de_map d (JObject m) = Some (map (\<lambda>(k, v). (k, g v)) m)"
  unfolding de_map.simps by (rule those_map_Some) auto

lemma de_word_json_word [simp]: "LENGTH('a) \<le> 64 \<Longrightarrow> de_word (json_word w) = Some (w :: 'a::len word)"
  unfolding json_word_def by (rule de_word_word)

section \<open>The actions of a workflow\<close>

definition spec_actions :: "workflow_spec \<Rightarrow> action_instance list" where
  "spec_actions spec = gb_actions (collect_actions spec (new_builder spec))"

definition action_origins :: "workflow_spec \<Rightarrow> (string \<times> msg \<times> action_spec) list" where
  "action_origins spec =
     concat (map (\<lambda>(name, s). state_action_origins name s) (ws_states spec)) @
     concat (map (\<lambda>(i, t). trans_action_origins i t) (enumerate 0 (ws_transitions spec)))"

lemma spec_actions_origins: "spec_actions spec = map (\<lambda>(p, _, a). action_instance p a) (action_origins spec)"
proof -
  have "collect_state_actions n s = map (\<lambda>(p, _, a). action_instance p a) (state_action_origins n s)" for n s
    by (simp add: collect_state_actions_def state_action_origins_def case_prod_unfold)
  moreover have "map (action_instance (trans_port i t)) (transition_actions t) =
      map (\<lambda>(p, _, a). action_instance p a) (trans_action_origins i t)" for i t
    by (simp add: trans_action_origins_def)
  ultimately show ?thesis
    by (simp add: spec_actions_def collect_actions_def new_builder_def action_origins_def map_concat comp_def case_prod_unfold)
qed

lemma try_fold_concat: "try_fold (\<lambda>st x. try_fold f st (g x)) s xs = try_fold f s (concat (map g xs))"
  by (induction xs arbitrary: s) (auto simp: try_fold_append and_then_def split: sum.split)

lemma insert_unique_Inr:
  "insert_unique_sanitized_id os i origin = Inr os' \<longleftrightarrow> map_of os i = None \<and> os' = bt_put i origin os"
  by (auto simp: insert_unique_sanitized_id_def split: option.split)

lemma insert_action_step:
  "insert_action (ports, nodes) (p, og, a) =
    and_then (insert_unique_sanitized_id ports p og) (\<lambda>ports'.
    and_then (insert_action_node_origin nodes a p og) (\<lambda>nodes'. Inr (ports', nodes')))"
  by (simp add: insert_action_def)

lemma insert_actions_run:
  "try_fold insert_action (ports, nodes) xs = Inr (ports', nodes') \<Longrightarrow>
    distinct (map fst xs) \<and> fst ` set xs \<inter> dom (map_of ports) = {} \<and>
    distinct (map (\<lambda>(p, _, a). instance_node_id (action_instance p a)) xs) \<and>
    (\<lambda>(p, _, a). instance_node_id (action_instance p a)) ` set xs \<inter> dom (map_of nodes) = {}"
proof (induction xs arbitrary: ports nodes)
  case (Cons x xs)
  obtain p og a where x: "x = (p, og, a)" by (cases x)
  from Cons.prems obtain nodes1 where n: "map_of ports p = None"
    "insert_action_node_origin nodes a p og = Inr nodes1"
    "try_fold insert_action (bt_put p og ports, nodes1) xs = Inr (ports', nodes')"
    by (auto simp: x insert_action_step and_then_Inr insert_unique_Inr split: sum.splits)
  have i: "cap_node_id (action_target_id (as_target a)) p = instance_node_id (action_instance p a)"
    by (simp add: instance_node_id_def action_instance_def)
  from n(2) have n1: "map_of nodes (instance_node_id (action_instance p a)) = None"
    "nodes1 = bt_put (instance_node_id (action_instance p a)) og nodes"
    by (auto simp: insert_action_node_origin_def insert_unique_Inr i)
  have d: "dom (map_of (bt_put k v m)) = insert k (dom (map_of m))" for k v and m :: origins
    by (auto simp: map_of_bt_put)
  show ?case
    using Cons.IH [OF n(3)] n(1) n1 by (auto simp: x d domIff image_iff)
qed simp

lemma sanitized_ids_distinct:
  assumes "validate_sanitized_ids spec = Inr u"
  shows "distinct (map ai_port_id (spec_actions spec))" and "distinct (map instance_node_id (spec_actions spec))"
proof -
  from assms obtain st where "try_fold insert_action ([], []) (action_origins spec) = Inr st"
    by (auto simp: validate_sanitized_ids_def try_fold_concat try_fold_append action_origins_def case_prod_unfold)
  then have "distinct (map fst (action_origins spec))"
    "distinct (map (\<lambda>(p, _, a). instance_node_id (action_instance p a)) (action_origins spec))"
    using insert_actions_run [of "[]" "[]" "action_origins spec" "fst st" "snd st"] by simp_all
  moreover have "ai_port_id (action_instance p a) = p" for p a by (simp add: action_instance_def)
  ultimately show "distinct (map ai_port_id (spec_actions spec))" "distinct (map instance_node_id (spec_actions spec))"
    by (simp_all add: spec_actions_origins comp_def case_prod_unfold)
qed


section \<open>The built nodes\<close>

definition known_capability :: "compiler_context \<Rightarrow> action_instance \<Rightarrow> capability_spec \<Rightarrow> bool" where
  "known_capability ctx a cap \<longleftrightarrow> ai_is_capability a \<and> map_of (cx_capabilities ctx) (ai_target_id a) = Some cap"

definition node_json :: "compiler_context \<Rightarrow> action_instance \<Rightarrow> json" where
  "node_json ctx a = capability_call_json ctx a (the (map_of (cx_capabilities ctx) (ai_target_id a)))"

lemma add_nodes_run:
  "try_fold (add_capability_node ctx) nodes as = Inr nodes' \<Longrightarrow>
    (\<forall>a\<in>set as. \<exists>cap. known_capability ctx a cap) \<and>
    nodes' = fold (\<lambda>(k, v). bt_put k v) (map (\<lambda>a. (instance_node_id a, node_json ctx a)) as) nodes"
proof (induction as arbitrary: nodes)
  case (Cons a as)
  then obtain nodes1 where n: "add_capability_node ctx nodes a = Inr nodes1"
    "try_fold (add_capability_node ctx) nodes1 as = Inr nodes'"
    by (auto split: sum.splits)
  from n(1) obtain cap where "known_capability ctx a cap"
    "nodes1 = bt_put (instance_node_id a) (node_json ctx a) nodes"
    by (auto simp: add_capability_node_def and_then_Inr known_capability_def node_json_def split: if_splits)
  then show ?case using Cons.IH [OF n(2)] by auto
qed simp

definition sm_id :: "workflow_spec \<Rightarrow> string" where
  "sm_id spec = sanitize_node_id (''sm_'' @ ws_id spec)"

definition sm_node_json :: "workflow_spec \<Rightarrow> string \<Rightarrow> json" where
  "sm_node_json spec initial =
     json_object
       [(''id'', JString (sm_id spec)), (''type'', JString ''stateMachine''),
        (''config'', state_machine_config_json spec initial), (''buffer'', JNumber (PosInt 32))]"

definition all_nodes :: "compiler_context \<Rightarrow> workflow_spec \<Rightarrow> string \<Rightarrow> (string \<times> json) list" where
  "all_nodes ctx spec initial =
     (sm_id spec, sm_node_json spec initial) # map (\<lambda>a. (instance_node_id a, node_json ctx a)) (spec_actions spec)"

definition user_variables :: "workflow_spec \<Rightarrow> (string \<times> json) list" where
  "user_variables spec = map (\<lambda>(n, v). (n, variable_json (infer_pin_type_json v) v)) (ws_variables spec)"

definition state_variable_name :: "workflow_spec \<Rightarrow> string" where
  "state_variable_name spec = ''_sm.'' @ sm_id spec @ ''.current_state''"

definition all_variables :: "workflow_spec \<Rightarrow> string \<Rightarrow> json_map" where
  "all_variables spec initial =
     bt_put (state_variable_name spec)
       (variable_json (json_object [(''kind'', JString ''string'')]) (JString initial)) (members (user_variables spec))"

lemma compile_graph_Inr:
  assumes "compile_graph ctx spec initial = Inr out"
  shows "\<forall>a\<in>set (spec_actions spec). \<exists>cap. known_capability ctx a cap"
    and "out = json_object
      [(''name'', JString (ws_id spec)), (''connections'', JArray []),
       (''nodes'', JObject (members (all_nodes ctx spec initial))),
       (''edges'', JArray (map (edge_json (sm_id spec)) (spec_actions spec))),
       (''variables'', JObject (all_variables spec initial))]"
proof -
  let ?b0 = "build_state_machine_node spec initial (collect_actions spec (new_builder spec))"
  have b0: "gb_actions ?b0 = spec_actions spec" "gb_sm_node_id ?b0 = sm_id spec" "gb_edges ?b0 = []" "gb_variables ?b0 = []"
    "gb_nodes ?b0 = bt_put (sm_id spec) (sm_node_json spec initial) []"
    by (simp_all add: build_state_machine_node_def spec_actions_def collect_actions_def new_builder_def sm_id_def sm_node_json_def)
  from assms obtain nodes where nodes: "try_fold (add_capability_node ctx) (gb_nodes ?b0) (spec_actions spec) = Inr nodes"
    and out: "out = build_output spec (build_variables spec initial (build_edges (?b0\<lparr>gb_nodes := nodes\<rparr>)))"
    by (auto simp: compile_graph_def build_capability_call_nodes_def b0 and_then_Inr map_sum_def split: sum.splits)
  show "\<forall>a\<in>set (spec_actions spec). \<exists>cap. known_capability ctx a cap"
    using add_nodes_run [OF nodes] by blast
  have "nodes = members (all_nodes ctx spec initial)"
    using add_nodes_run [OF nodes] by (simp add: members_def all_nodes_def b0)
  moreover have "fold (\<lambda>(name, v). bt_put name (variable_json (infer_pin_type_json v) v)) (ws_variables spec) [] =
      members (user_variables spec)"
    by (simp add: members_def user_variables_def fold_map comp_def case_prod_unfold)
  ultimately show "out = json_object
      [(''name'', JString (ws_id spec)), (''connections'', JArray []),
       (''nodes'', JObject (members (all_nodes ctx spec initial))),
       (''edges'', JArray (map (edge_json (sm_id spec)) (spec_actions spec))),
       (''variables'', JObject (all_variables spec initial))]"
    by (simp add: out build_output_def build_variables_def build_edges_def b0 Let_def all_variables_def
        state_variable_def state_variable_name_def)
qed


section \<open>What the runtime reads\<close>

definition machine_of :: "workflow_spec \<Rightarrow> string \<Rightarrow> state_machine_config" where
  "machine_of spec initial =
     \<lparr>sm_initial_state = initial,
      sm_states = map (\<lambda>(n, s).
        \<lparr>sc_name = n, sc_entry_actions = map (\<lambda>(i, _). state_port ''entry'' n i) (enumerate 0 (st_entry s)),
         sc_exit_actions = map (\<lambda>(i, _). state_port ''exit'' n i) (enumerate 0 (st_exit s))\<rparr>) (ws_states spec),
      sm_transitions = map (\<lambda>(i, t).
        \<lparr>tc_from = ts_from t, tc_to = ts_to t, tc_when = ts_when t,
         tc_priority = (case ts_priority t of Some p \<Rightarrow> p | None \<Rightarrow> 0),
         tc_action_port = map_option (\<lambda>_. trans_port i t) (ts_action t)\<rparr>) (enumerate 0 (ws_transitions spec)),
      sm_timeout_rules = map (\<lambda>(s, d). \<lparr>tr_state = s, tr_timeout_ms = hd_millis d\<rparr>) (ws_timeout spec),
      sm_on_timeout_target = ws_on_timeout spec, sm_max_operations = default_max_operations\<rparr>"

lemma de_json_opt [simp]: "de_option de_string (json_opt x) = Some x"
  by (simp add: json_opt_def split: option.split)

lemma de_state_config_json:
  "de_state_config (state_config_json n s) = Some
    \<lparr>sc_name = n, sc_entry_actions = map (\<lambda>(i, _). state_port ''entry'' n i) (enumerate 0 (st_entry s)),
     sc_exit_actions = map (\<lambda>(i, _). state_port ''exit'' n i) (enumerate 0 (st_exit s))\<rparr>"
proof -
  have ports: "those (map (de_string \<circ> (\<lambda>(i, y). JString (state_port k n i))) xs) =
      Some (map (\<lambda>(i, _). state_port k n i) xs)" for k and xs :: "(nat \<times> action_spec) list"
    by (rule those_map_Some) auto
  show ?thesis
    by (simp add: de_state_config_def state_config_json_def json_object_members ports)
qed

lemma de_transition_config_json:
  "de_transition_config (transition_config_json i t) = Some
    \<lparr>tc_from = ts_from t, tc_to = ts_to t, tc_when = ts_when t,
     tc_priority = (case ts_priority t of Some p \<Rightarrow> p | None \<Rightarrow> 0),
     tc_action_port = map_option (\<lambda>_. trans_port i t) (ts_action t)\<rparr>"
  by (simp add: de_transition_config_def transition_config_json_def json_object_members)

lemma de_timeout_rule_json:
  "de_timeout_rule (json_object [(''state'', JString s), (''timeout_ms'', json_word (hd_millis d))]) =
    Some \<lparr>tr_state = s, tr_timeout_ms = hd_millis d\<rparr>"
  by (simp add: de_timeout_rule_def json_object_members)

lemma de_machine: "de_state_machine_config (state_machine_config_json spec initial) = Some (machine_of spec initial)"
proof -
  have "de_list de_state_config (JArray (map (\<lambda>(n, s). state_config_json n s) (ws_states spec))) =
      Some (sm_states (machine_of spec initial))"
    unfolding machine_of_def state_machine_config.simps by (rule de_list_map) (auto simp: de_state_config_json)
  moreover have "de_list de_transition_config (JArray (map (\<lambda>(i, t). transition_config_json i t) (enumerate 0 (ws_transitions spec)))) =
      Some (sm_transitions (machine_of spec initial))"
    unfolding machine_of_def state_machine_config.simps by (rule de_list_map) (auto simp: de_transition_config_json)
  moreover have "de_list de_timeout_rule
      (JArray (map (\<lambda>(s, d). json_object [(''state'', JString s), (''timeout_ms'', json_word (hd_millis d))]) (ws_timeout spec))) =
      Some (sm_timeout_rules (machine_of spec initial))"
    unfolding machine_of_def state_machine_config.simps by (rule de_list_map) (auto simp: de_timeout_rule_json)
  ultimately show ?thesis
    by (simp add: de_state_machine_config_def state_machine_config_json_def json_object_members machine_of_def
        del: de_list.simps)
qed

definition call_config_json :: "action_instance \<Rightarrow> capability_spec \<Rightarrow> json" where
  "call_config_json a cap = json_object
     [(''capability_id'', JString (ai_target_id a)), (''device_id'', JString (cb_device_id cap)),
      (''implementation'', capability_impl_to_json (cb_implementation cap)), (''args'', JObject (ai_args a))]"

definition sm_definition :: "workflow_spec \<Rightarrow> string \<Rightarrow> workflow_node_definition" where
  "sm_definition spec initial =
     \<lparr>wd_id = sm_id spec, wd_node_type = ''stateMachine'', wd_connection_id = None,
      wd_config = state_machine_config_json spec initial, wd_timeout_ms = None, wd_buffer = 32\<rparr>"

definition call_definition :: "compiler_context \<Rightarrow> action_instance \<Rightarrow> capability_spec \<Rightarrow> workflow_node_definition" where
  "call_definition ctx a cap =
     \<lparr>wd_id = instance_node_id a, wd_node_type = ''capabilityCall'',
      wd_connection_id = connection_id_for_device ctx (cb_device_id cap), wd_config = call_config_json a cap,
      wd_timeout_ms = None, wd_buffer = 32\<rparr>"

lemma de_sm_node: "de_node_definition (sm_node_json spec initial) = Some (sm_definition spec initial)"
  by (simp add: de_node_definition_def sm_node_json_def json_object_members sm_definition_def)

lemma de_call_node: "de_node_definition (capability_call_json ctx a cap) = Some (call_definition ctx a cap)"
  by (cases "connection_id_for_device ctx (cb_device_id cap)")
    (simp_all add: de_node_definition_def capability_call_json_def json_object_members call_definition_def call_config_json_def)

definition action_edge :: "workflow_spec \<Rightarrow> action_instance \<Rightarrow> workflow_edge" where
  "action_edge spec a =
     \<lparr>e_from = sm_id spec, e_to = instance_node_id a, e_source_port_id = Some (ai_port_id a),
      e_target_port_id = None, e_backpressure_policy = None\<rparr>"

lemma de_edge_json: "de_edge (edge_json (sm_id spec) a) = Some (action_edge spec a)"
  by (simp add: de_edge_def edge_json_def json_object_members action_edge_def)


section \<open>The whole file\<close>

definition infer_pin_type :: "json \<Rightarrow> pin_type" where
  "infer_pin_type v =
     (case v of
        JBool _ \<Rightarrow> TBool
      | JNumber n \<Rightarrow> if is_i64 n \<or> is_u64 n then TInteger else TFloat
      | JString _ \<Rightarrow> TString
      | _ \<Rightarrow> TAny)"

lemma de_inferred: "de_pin_type (infer_pin_type_json v) = Some (infer_pin_type v)"
  by (subst de_pin_type.simps)
    (simp add: infer_pin_type_json_def json_object_members infer_pin_type_def split: json.split)

lemma de_string_type: "de_pin_type (json_object [(''kind'', JString ''string'')]) = Some TString"
  by (subst de_pin_type.simps) (simp add: json_object_members)

lemma de_variable: "de_pin_type ty = Some t \<Longrightarrow>
    de_variable_declaration (variable_json ty v) = Some \<lparr>decl_type = t, decl_initial = v\<rparr>"
  by (simp add: de_variable_declaration_def variable_json_def json_object_members)

lemma set_bt_put: "set (bt_put k v m) \<subseteq> insert (k, v) (set m)"
  by (induction m) (auto split: if_splits)

lemma set_fold_put: "set (fold (\<lambda>(k, v). bt_put k v) ms m) \<subseteq> set ms \<union> set m"
proof (induction ms arbitrary: m)
  case (Cons kv ms)
  then show ?case using set_bt_put [of "fst kv" "snd kv" m] Cons.IH [of "bt_put (fst kv) (snd kv) m"]
    by (auto simp: case_prod_unfold)
qed simp

lemma set_members: "set (members ms) \<subseteq> set ms"
  using set_fold_put [of ms "[]"] by (simp add: members_def)

definition compiled_nodes :: "compiler_context \<Rightarrow> workflow_spec \<Rightarrow> string \<Rightarrow> (string, workflow_node_definition) hash_map" where
  "compiled_nodes ctx spec initial =
     map (\<lambda>(k, v). (k, the (de_node_definition v))) (members (all_nodes ctx spec initial))"

definition compiled_variables :: "workflow_spec \<Rightarrow> string \<Rightarrow> (string, variable_declaration) hash_map" where
  "compiled_variables spec initial =
     map (\<lambda>(k, v). (k, the (de_variable_declaration v))) (all_variables spec initial)"

definition compiled_file :: "compiler_context \<Rightarrow> workflow_spec \<Rightarrow> string \<Rightarrow> workflow_file" where
  "compiled_file ctx spec initial =
     \<lparr>wf_graph = \<lparr>g_name = Some (ws_id spec), g_nodes = compiled_nodes ctx spec initial,
        g_edges = map (action_edge spec) (spec_actions spec)\<rparr>,
      wf_variables = Some (compiled_variables spec initial), wf_connections = []\<rparr>"

lemma all_nodes_decode:
  assumes "(k, v) \<in> set (all_nodes ctx spec initial)"
  shows "de_node_definition v = Some (the (de_node_definition v)) \<and> wd_id (the (de_node_definition v)) = k \<and>
    fallback_connection_id (the (de_node_definition v)) = None"
  using assms de_sm_node [of spec initial] de_call_node [of ctx]
  by (auto simp: all_nodes_def node_json_def sm_definition_def call_definition_def fallback_connection_id_def
      state_machine_config_json_def call_config_json_def json_object_members split: option.split)

lemma de_compiled:
  assumes "compile_graph ctx spec initial = Inr out"
  shows "de_workflow_file out = Some (compiled_file ctx spec initial)"
proof -
  have nodes: "de_map de_node_definition (JObject (members (all_nodes ctx spec initial))) = Some (compiled_nodes ctx spec initial)"
    unfolding compiled_nodes_def
    using set_members [of "all_nodes ctx spec initial"] all_nodes_decode by (intro de_map_some) blast
  have edges: "de_list de_edge (JArray (map (edge_json (sm_id spec)) (spec_actions spec))) =
      Some (map (action_edge spec) (spec_actions spec))"
    by (rule de_list_map) (rule de_edge_json)
  have "de_variable_declaration v = Some (the (de_variable_declaration v))" if "(k, v) \<in> set (all_variables spec initial)" for k v
  proof -
    have "v = variable_json (json_object [(''kind'', JString ''string'')]) (JString initial) \<or>
        (\<exists>u. v = variable_json (infer_pin_type_json u) u)"
      using that set_bt_put set_members [of "user_variables spec"]
      unfolding all_variables_def by (fastforce simp: user_variables_def)
    then show ?thesis using de_variable [OF de_string_type] de_variable [OF de_inferred] by auto
  qed
  then have variables: "de_map de_variable_declaration (JObject (all_variables spec initial)) =
      Some (compiled_variables spec initial)"
    unfolding compiled_variables_def by (intro de_map_some) blast
  show ?thesis
    using nodes edges variables
    by (simp add: compile_graph_Inr(2) [OF assms] json_object_members de_workflow_file_def compiled_file_def
        del: de_map.simps) 
qed

lemma sanitize_node_id_append: "sanitize_node_id (s @ t) = sanitize_node_id s @ sanitize_node_id t"
  by (simp add: sanitize_node_id_def)

lemma sm_id_fresh: "sm_id spec \<noteq> instance_node_id a"
  by (simp add: sm_id_def instance_node_id_def cap_node_id_def sanitize_node_id_def)

lemma members_wf: "bt_wf (members ms)"
  unfolding members_def by (rule btree.wf_put_all) simp

lemma hm_wf_compiled: "hm_wf (compiled_nodes ctx spec initial)" "hm_wf (compiled_variables spec initial)"
  using members_wf [of "all_nodes ctx spec initial"]
    bt_wf_bt_put [OF members_wf [of "user_variables spec"]]
  by (simp_all add: compiled_nodes_def compiled_variables_def all_variables_def hm_wf_def bt_wf_def comp_def
      case_prod_unfold)

lemma map_of_map_snd: "map_of (map (\<lambda>(k, v). (k, f v)) m) k = map_option f (map_of m k)"
  by (induction m) auto

lemma all_nodes_distinct:
  assumes "distinct (map instance_node_id (spec_actions spec))"
  shows "distinct (map fst (all_nodes ctx spec initial))"
  using assms sm_id_fresh by (auto simp: all_nodes_def comp_def)

lemma compiled_node_at:
  assumes "distinct (map instance_node_id (spec_actions spec))"
  shows "map_of (compiled_nodes ctx spec initial) (sm_id spec) = Some (sm_definition spec initial)"
    and "a \<in> set (spec_actions spec) \<Longrightarrow> known_capability ctx a cap \<Longrightarrow>
      map_of (compiled_nodes ctx spec initial) (instance_node_id a) = Some (call_definition ctx a cap)"
    and "fst ` set (compiled_nodes ctx spec initial) = insert (sm_id spec) (instance_node_id ` set (spec_actions spec))"
proof -
  have at: "map_of (compiled_nodes ctx spec initial) k = map_option (the \<circ> de_node_definition) (map_of (all_nodes ctx spec initial) k)" for k
    using all_nodes_distinct [OF assms, of ctx initial]
    by (simp add: compiled_nodes_def map_of_map_snd comp_def)
  show "map_of (compiled_nodes ctx spec initial) (sm_id spec) = Some (sm_definition spec initial)"
    by (simp add: at all_nodes_def de_sm_node)
  show "map_of (compiled_nodes ctx spec initial) (instance_node_id a) = Some (call_definition ctx a cap)"
    if "a \<in> set (spec_actions spec)" "known_capability ctx a cap"
  proof -
    have "(instance_node_id a, node_json ctx a) \<in> set (all_nodes ctx spec initial)" using that(1) by (auto simp: all_nodes_def)
    then have "map_of (all_nodes ctx spec initial) (instance_node_id a) = Some (node_json ctx a)"
      using all_nodes_distinct [OF assms] by (rule map_of_is_SomeI [rotated])
    then show ?thesis using that(2) by (simp add: at node_json_def known_capability_def de_call_node)
  qed
  have "dom (map_of (compiled_nodes ctx spec initial)) = dom (map_of (all_nodes ctx spec initial))"
    by (auto simp: at)
  then show "fst ` set (compiled_nodes ctx spec initial) = insert (sm_id spec) (instance_node_id ` set (spec_actions spec))"
    by (simp add: dom_map_of_conv_image_fst) (auto simp: all_nodes_def image_image)
qed


section \<open>The compiled workflow is wired\<close>

lemma action_edge_port [simp]: "e_source_port_id (action_edge spec a) = Some (ai_port_id a)"
  by (simp add: action_edge_def)

lemma filter_port:
  "distinct (map ai_port_id as) \<Longrightarrow> a \<in> set as \<Longrightarrow>
    filter (\<lambda>e. e_source_port_id e = Some (ai_port_id a)) (map (action_edge spec) as) = [action_edge spec a]"
proof (induction as)
  case (Cons b as)
  show ?case
  proof (cases "a = b")
    case True
    then have "filter (\<lambda>e. e_source_port_id e = Some (ai_port_id a)) (map (action_edge spec) as) = []"
      using Cons.prems(1) by (auto simp: filter_empty_conv image_iff)
    then show ?thesis using True by simp
  next
    case False
    then have "ai_port_id a \<noteq> ai_port_id b" using Cons.prems by (auto simp: image_iff)
    then show ?thesis using Cons False by simp
  qed
qed simp

text \<open>The port of an action leads by exactly one edge to the node of that action.\<close>

definition wired :: "compiler_context \<Rightarrow> workflow_spec \<Rightarrow> workflow_graph \<Rightarrow> string \<Rightarrow> action_spec \<Rightarrow> bool" where
  "wired ctx spec g port act \<longleftrightarrow>
     (\<exists>e i cap. filter (\<lambda>e. e_source_port_id e = Some port) (g_edges g) = [e] \<and> e_from e = sm_id spec \<and>
        as_target act = Capability i \<and> map_of (cx_capabilities ctx) i = Some cap \<and>
        map_of (g_nodes g) (e_to e) = Some (call_definition ctx (action_instance port act) cap))"

text \<open>The actions of a specification with the ports the machine has for them.\<close>

definition spec_ports :: "workflow_spec \<Rightarrow> (string \<times> action_spec) set" where
  "spec_ports spec =
     {(state_port ''entry'' n i, st_entry s ! i) | n s i. (n, s) \<in> set (ws_states spec) \<and> i < length (st_entry s)} \<union>
     {(state_port ''exit'' n i, st_exit s ! i) | n s i. (n, s) \<in> set (ws_states spec) \<and> i < length (st_exit s)} \<union>
     {(trans_port i (ws_transitions spec ! i), a) | i a. i < length (ws_transitions spec) \<and>
        ts_action (ws_transitions spec ! i) = Some a}"

lemma set_enumerate_at: "(i, x) \<in> set (enumerate 0 xs) \<longleftrightarrow> i < length xs \<and> x = xs ! i"
  by (auto simp: in_set_enumerate_eq)

lemma in_map_enumerate: "x \<in> set (map h (enumerate 0 xs)) \<longleftrightarrow> (\<exists>i < length xs. x = h (i, xs ! i))"
proof -
  have "x \<in> set (map h (enumerate 0 xs)) \<longleftrightarrow> (\<exists>i y. (i, y) \<in> set (enumerate 0 xs) \<and> x = h (i, y))" by auto
  then show ?thesis by (auto simp: set_enumerate_at)
qed

lemma in_state_origins:
  "(\<exists>m. (p, m, a) \<in> set (state_action_origins n s)) \<longleftrightarrow>
     (\<exists>i < length (st_entry s). p = state_port ''entry'' n i \<and> a = st_entry s ! i) \<or>
     (\<exists>i < length (st_exit s). p = state_port ''exit'' n i \<and> a = st_exit s ! i)"
  unfolding state_action_origins_def set_append Un_iff in_map_enumerate by auto

lemma in_trans_origins:
  "(\<exists>m. (p, m, a) \<in> set (trans_action_origins i t)) \<longleftrightarrow> p = trans_port i t \<and> ts_action t = Some a"
  by (auto simp: trans_action_origins_def transition_actions_def split: option.split)

lemma in_action_origins:
  "(\<exists>m. (p, m, a) \<in> set (action_origins spec)) \<longleftrightarrow>
     (\<exists>n s. (n, s) \<in> set (ws_states spec) \<and> (\<exists>m. (p, m, a) \<in> set (state_action_origins n s))) \<or>
     (\<exists>i < length (ws_transitions spec). \<exists>m. (p, m, a) \<in> set (trans_action_origins i (ws_transitions spec ! i)))"
proof -
  have member: "x \<in> set (concat (map (\<lambda>(k, v). f k v) xs)) \<longleftrightarrow> (\<exists>k v. (k, v) \<in> set xs \<and> x \<in> set (f k v))"
    for x :: "string \<times> msg \<times> action_spec" and f and xs :: "('b \<times> 'c) list"
    by fastforce
  show ?thesis
    unfolding action_origins_def set_append Un_iff member set_enumerate_at by blast
qed

lemma spec_ports_actions: "spec_ports spec = {(p, a). \<exists>m. (p, m, a) \<in> set (action_origins spec)}"
  unfolding in_action_origins in_state_origins in_trans_origins spec_ports_def by blast

definition star :: "compiler_context \<Rightarrow> workflow_spec \<Rightarrow> workflow_graph \<Rightarrow> bool" where
  "star ctx spec g \<longleftrightarrow>
     (\<forall>(port, act)\<in>spec_ports spec. wired ctx spec g port act) \<and>
     length (g_edges g) = length (spec_actions spec) \<and>
     fst ` set (g_nodes g) = insert (sm_id spec) (e_to ` set (g_edges g))"

lemma compiled_star:
  assumes "validate_sanitized_ids spec = Inr u" and "compile_graph ctx spec initial = Inr out"
  shows "star ctx spec (wf_graph (compiled_file ctx spec initial))"
proof -
  let ?g = "wf_graph (compiled_file ctx spec initial)"
  note dist = sanitized_ids_distinct [OF assms(1)]
  have edges: "g_edges ?g = map (action_edge spec) (spec_actions spec)" by (simp add: compiled_file_def)
  have nodes: "g_nodes ?g = compiled_nodes ctx spec initial" by (simp add: compiled_file_def)
  have "wired ctx spec ?g port act" if "(port, act) \<in> spec_ports spec" for port act
  proof -
    have a: "action_instance port act \<in> set (spec_actions spec)"
      using that by (force simp: spec_ports_actions spec_actions_origins)
    obtain cap where cap: "known_capability ctx (action_instance port act) cap"
      using compile_graph_Inr(1) [OF assms(2)] a by blast
    then obtain i where i: "as_target act = Capability i" "map_of (cx_capabilities ctx) i = Some cap"
      by (auto simp: known_capability_def action_instance_def split: action_target.splits)
    have "filter (\<lambda>e. e_source_port_id e = Some port) (g_edges ?g) = [action_edge spec (action_instance port act)]"
      using filter_port [OF dist(1) a] by (simp add: edges action_instance_def)
    moreover have "map_of (g_nodes ?g) (instance_node_id (action_instance port act)) = Some (call_definition ctx (action_instance port act) cap)"
      unfolding nodes by (rule compiled_node_at(2) [OF dist(2) a cap])
    ultimately show ?thesis using i unfolding wired_def by (fastforce simp: action_edge_def)
  qed
  moreover have "e_to ` set (g_edges ?g) = instance_node_id ` set (spec_actions spec)"
    by (simp add: edges action_edge_def image_image)
  ultimately show ?thesis
    using compiled_node_at(3) [OF dist(2), of ctx initial] by (auto simp: star_def edges nodes)
qed

lemma trancl_subset_Sigma_aux: "r \<subseteq> A \<times> B \<Longrightarrow> r\<^sup>+ \<subseteq> A \<times> B"
  using trancl_mono [of _ r "A \<times> B"] trancl_subset_Sigma [of r A]
  by (auto dest: tranclD tranclD2)

lemma compiled_accepted:
  assumes "validate_sanitized_ids spec = Inr u"
  shows "from_parsed (wf_graph (compiled_file ctx spec initial)) = Some (Inr (wf_graph (compiled_file ctx spec initial)))"
proof -
  let ?g = "wf_graph (compiled_file ctx spec initial)"
  note dist = sanitized_ids_distinct [OF assms]
  have edges: "g_edges ?g = map (action_edge spec) (spec_actions spec)" by (simp add: compiled_file_def)
  have nodes: "g_nodes ?g = compiled_nodes ctx spec initial" by (simp add: compiled_file_def)
  have "normalize n (fallback_connection_id d) d = d" if nd: "(n, d) \<in> set (g_nodes ?g)" for n d
  proof -
    obtain v where v: "(n, v) \<in> set (all_nodes ctx spec initial)" "d = the (de_node_definition v)"
      using nd subsetD [OF set_members [of "all_nodes ctx spec initial"]]
      by (auto simp: nodes compiled_nodes_def)
    have "n \<noteq> []" using v(1) by (auto simp: all_nodes_def sm_id_def instance_node_id_def cap_node_id_def sanitize_node_id_def)
    then show ?thesis
      using all_nodes_decode [OF v(1)] by (simp add: v(2) normalize_def Let_def split: option.split)
  qed
  then have norm: "normalize_nodes ?g = ?g"
    by (simp add: normalize_nodes_def map_idI case_prod_unfold)
  have closed: "edges_closed ?g (g_edges ?g)"
    using compiled_node_at(3) [OF dist(2), of ctx initial]
    by (auto simp: edges_closed_def edges nodes action_edge_def hm_contains_iff list_all_iff)
  have "set (edge_pairs (g_edges ?g)) \<subseteq> {sm_id spec} \<times> instance_node_id ` set (spec_actions spec)"
    by (auto simp: set_edge_pairs edges action_edge_def)
  then have "(set (edge_pairs (g_edges ?g)))\<^sup>+ \<subseteq> {sm_id spec} \<times> instance_node_id ` set (spec_actions spec)"
    by (rule trancl_subset_Sigma_aux)
  then have "acyclic (set (edge_pairs (g_edges ?g)))"
    using sm_id_fresh by (fastforce simp: acyclic_def)
  moreover have "g_nodes ?g \<noteq> []" using compiled_node_at(1) [OF dist(2), of ctx initial] by (auto simp: nodes)
  moreover have "hm_wf (g_nodes ?g)" by (simp add: nodes hm_wf_compiled)
  ultimately obtain u where "validate ?g = Some (Inr u)"
    using validate_accepts_spec [of ?g] closed by (auto simp: is_ok_iff)
  then show ?thesis by (simp add: from_parsed_def norm Let_def)
qed

end
