(* ===== verification/Compile_Accepts.thy ===== *)
theory Compile_Accepts
  imports Compiler_Correct
begin

text \<open>
  Which workflows the compiler accepts: the conditions its checks amount to, and that nothing fails
  after them.
\<close>

section \<open>Assets\<close>

lemma dom_hm_insert: "dom (map_of (hm_insert k v m)) = insert k (dom (map_of m))"
  by simp

lemma add_devices:
  "foldl add_device (es, m) ds = (es', m') \<Longrightarrow>
    (es' = [] \<longleftrightarrow> es = [] \<and> distinct (map dv_id ds) \<and> dv_id ` set ds \<inter> dom (map_of m) = {}) \<and>
    dom (map_of m') = dom (map_of m) \<union> dv_id ` set ds"
proof (induction ds arbitrary: es m)
  case (Cons d ds)
  obtain es1 where a: "add_device (es, m) d = (es1, hm_insert (dv_id d) d m)"
    "es1 = [] \<longleftrightarrow> es = [] \<and> dv_id d \<notin> dom (map_of m)"
    by (simp add: add_device_def hm_contains_def domIff)
  with Cons.prems have "foldl add_device (es1, hm_insert (dv_id d) d m) ds = (es', m')" by simp
  from Cons.IH [OF this] a(2) show ?case unfolding dom_hm_insert by auto
qed auto

lemma add_capabilities:
  "foldl add_capability (es, m) cs = (es', m') \<Longrightarrow>
    (es' = [] \<longleftrightarrow> es = [] \<and> distinct (map cb_id cs) \<and> cb_id ` set cs \<inter> dom (map_of m) = {}) \<and>
    dom (map_of m') = dom (map_of m) \<union> cb_id ` set cs \<and>
    (distinct (map cb_id cs) \<longrightarrow> (\<forall>i. map_of m' i = (if i \<in> cb_id ` set cs then
        map_of (map (\<lambda>c. (cb_id c, c)) cs) i else map_of m i)))"
proof (induction cs arbitrary: es m)
  case (Cons c cs)
  obtain es1 where a: "add_capability (es, m) c = (es1, hm_insert (cb_id c) c m)"
    "es1 = [] \<longleftrightarrow> es = [] \<and> cb_id c \<notin> dom (map_of m)"
    by (simp add: add_capability_def hm_contains_def domIff)
  with Cons.prems have run: "foldl add_capability (es1, hm_insert (cb_id c) c m) cs = (es', m')" by simp
  note IH = Cons.IH [OF run]
  have "(es' = [] \<longleftrightarrow> es = [] \<and> distinct (map cb_id (c # cs)) \<and> cb_id ` set (c # cs) \<inter> dom (map_of m) = {}) \<and>
      dom (map_of m') = dom (map_of m) \<union> cb_id ` set (c # cs)"
    using IH a(2) unfolding dom_hm_insert by auto
  moreover have "map_of m' i = (if i \<in> cb_id ` set (c # cs) then
      map_of (map (\<lambda>c. (cb_id c, c)) (c # cs)) i else map_of m i)" if "distinct (map cb_id (c # cs))" for i
    using IH that by simp
  ultimately show ?case by blast
qed simp

lemma new_context:
  "cx_duplicate_asset_errors (new_context ds cs) = [] \<longleftrightarrow> distinct (map dv_id ds) \<and> distinct (map cb_id cs)"
  "hm_contains (cx_devices (new_context ds cs)) d \<longleftrightarrow> d \<in> dv_id ` set ds"
  "distinct (map cb_id cs) \<Longrightarrow> map_of (cx_capabilities (new_context ds cs)) i = Some c \<longleftrightarrow> c \<in> set cs \<and> cb_id c = i"
proof -
  obtain es1 m1 where d: "foldl add_device ([], []) ds = (es1, m1)" by (rule prod.exhaust)
  obtain es2 m2 where c: "foldl add_capability (es1, []) cs = (es2, m2)" by (rule prod.exhaust)
  have ctx: "new_context ds cs = \<lparr>cx_devices = m1, cx_capabilities = m2, cx_duplicate_asset_errors = es2\<rparr>"
    by (simp add: new_context_def d c)
  show "cx_duplicate_asset_errors (new_context ds cs) = [] \<longleftrightarrow> distinct (map dv_id ds) \<and> distinct (map cb_id cs)"
    using add_devices [OF d] add_capabilities [OF c] by (simp add: ctx)
  show "hm_contains (cx_devices (new_context ds cs)) d \<longleftrightarrow> d \<in> dv_id ` set ds"
    using add_devices [OF d] by (auto simp: ctx hm_contains_def)
  assume u: "distinct (map cb_id cs)"
  then have "map_of m2 i = (if i \<in> cb_id ` set cs then map_of (map (\<lambda>c. (cb_id c, c)) cs) i else None)"
    using add_capabilities [OF c] by simp
  moreover have "map_of (map (\<lambda>c. (cb_id c, c)) cs) i = Some c \<longleftrightarrow> c \<in> set cs \<and> cb_id c = i"
    using u by (subst map_of_eq_Some_iff) (auto simp: comp_def)
  ultimately show "map_of (cx_capabilities (new_context ds cs)) i = Some c \<longleftrightarrow> c \<in> set cs \<and> cb_id c = i"
    by (auto simp: ctx)
qed

section \<open>References and features\<close>

definition spec_action_set :: "workflow_spec \<Rightarrow> action_spec set" where
  "spec_action_set spec =
     (\<Union>(_, s)\<in>set (ws_states spec). set (st_entry s) \<union> set (st_exit s)) \<union>
     (\<Union>t\<in>set (ws_transitions spec). set_option (ts_action t))"

lemma capability_refs_set: "set (capability_refs spec) = {i. \<exists>a\<in>spec_action_set spec. as_target a = Capability i}"
proof -
  have ref: "set (capability_ref a) = {i. as_target a = Capability i}" for a
    by (cases "as_target a") (simp_all add: capability_ref_def)
  have refs: "set (collect_capability_refs as) = {i. \<exists>a\<in>set as. as_target a = Capability i}" for as
    by (simp add: collect_capability_refs_def ref) blast
  have "set (transition_actions t) = set_option (ts_action t)" for t
    by (cases "ts_action t") (simp_all add: transition_actions_def)
  then show ?thesis
    unfolding capability_refs_def spec_action_set_def by (simp add: refs case_prod_unfold) blast
qed

lemma validate_references_ok:
  "is_ok (validate_references ctx spec) \<longleftrightarrow>
    cx_duplicate_asset_errors ctx = [] \<and> (\<forall>d\<in>set (ws_devices spec). hm_contains (cx_devices ctx) d) \<and>
    (\<forall>i\<in>set (capability_refs spec). \<exists>cap. map_of (cx_capabilities ctx) i = Some cap \<and>
       hm_contains (cx_devices ctx) (cb_device_id cap))"
proof -
  have "missing_device ctx d = [] \<longleftrightarrow> hm_contains (cx_devices ctx) d" for d
    by (simp add: missing_device_def)
  moreover have "missing_capability ctx i = [] \<longleftrightarrow>
      (\<exists>cap. map_of (cx_capabilities ctx) i = Some cap \<and> hm_contains (cx_devices ctx) (cb_device_id cap))" for i
    by (simp add: missing_capability_def split: option.split)
  ultimately show ?thesis by (simp add: validate_references_def Let_def)
qed

lemma not_system_action: "(\<forall>i. t \<noteq> SystemAction i) \<longleftrightarrow> (\<exists>i. t = Capability i)"
  by (cases t) auto

lemma try_fold_unit: "is_ok (try_fold (\<lambda>_ x. f x) () xs) \<longleftrightarrow> (\<forall>x\<in>set xs. is_ok (f x :: 'e + unit))"
  by (induction xs) (auto simp: is_ok_iff split: sum.splits)

lemma validate_supported_ok:
  "is_ok (validate_supported_runtime_features spec) \<longleftrightarrow>
    ws_timeout spec = [] \<and> ws_on_timeout spec = None \<and>
    (\<forall>a\<in>spec_action_set spec. \<exists>i. as_target a = Capability i) \<and>
    (\<forall>t\<in>set (ws_transitions spec). bare_identifiers (ts_when t) = [])"
proof -
  have actions: "is_ok (validate_actions_supported as) \<longleftrightarrow> (\<forall>a\<in>set as. \<exists>i. as_target a = Capability i)" for as
    by (simp add: is_ok_iff validate_actions_supported_def try_all_Inr validate_action_supported_def not_system_action
        split: action_target.split)
  have both: "is_ok (and_then x (\<lambda>_. y)) \<longleftrightarrow> is_ok x \<and> is_ok y" for x :: "unit compiled" and y :: "unit compiled"
    by (cases x) auto
  have states: "is_ok (try_fold (\<lambda>_ (_, s). and_then (validate_actions_supported (st_entry s))
        (\<lambda>_. validate_actions_supported (st_exit s))) () (ws_states spec)) \<longleftrightarrow>
      (\<forall>(_, s)\<in>set (ws_states spec). \<forall>a\<in>set (st_entry s) \<union> set (st_exit s). \<exists>i. as_target a = Capability i)"
    unfolding try_fold_unit by (auto simp: both actions)
  have "is_ok (case validate_transition_condition_supported t of
        Some e \<Rightarrow> Inl e | None \<Rightarrow> validate_actions_supported (transition_actions t)) \<longleftrightarrow>
      bare_identifiers (ts_when t) = [] \<and> (\<forall>a\<in>set_option (ts_action t). \<exists>i. as_target a = Capability i)" for t
    by (auto simp: validate_transition_condition_supported_def actions transition_actions_def
        split: list.split option.split)
  then have transitions: "is_ok (try_fold (\<lambda>_ t. case validate_transition_condition_supported t of
        Some e \<Rightarrow> Inl e | None \<Rightarrow> validate_actions_supported (transition_actions t)) () (ws_transitions spec)) \<longleftrightarrow>
      (\<forall>t\<in>set (ws_transitions spec). bare_identifiers (ts_when t) = [] \<and>
         (\<forall>a\<in>set_option (ts_action t). \<exists>i. as_target a = Capability i))"
    unfolding try_fold_unit by simp
  show ?thesis
    unfolding validate_supported_runtime_features_def spec_action_set_def
    by (simp add: both states transitions) (fastforce split: if_splits)
qed

section \<open>The state machine\<close>

definition transition_ok :: "workflow_spec \<Rightarrow> transition_spec \<Rightarrow> bool" where
  "transition_ok spec t \<longleftrightarrow>
     (if ts_from t = ''*'' then ts_priority t \<noteq> None else hm_contains (ws_states spec) (ts_from t)) \<and>
     hm_contains (ws_states spec) (ts_to t)"

lemma check_transitions:
  "fst (foldl (check_transition spec) (es, seen) (enumerate k ts)) = [] \<longleftrightarrow>
    es = [] \<and> (\<forall>t\<in>set ts. transition_ok spec t) \<and> distinct (map transition_key ts) \<and>
    transition_key ` set ts \<inter> seen = {}"
proof (induction ts arbitrary: es seen k)
  case (Cons t ts)
  obtain es1 where c: "check_transition spec (es, seen) (k, t) = (es1, insert (transition_key t) seen)"
    "es1 = [] \<longleftrightarrow> es = [] \<and> transition_ok spec t \<and> transition_key t \<notin> seen"
    by (simp add: check_transition_def transition_ok_def Let_def)
  show ?case
    using Cons.IH [of es1 "insert (transition_key t) seen" "Suc k"] c(2) by (simp add: c(1)) blast
qed simp

lemma validate_workflow_spec_ok:
  assumes "ws_timeout spec = []" and "ws_on_timeout spec = None"
  shows "is_ok (validate_workflow_spec spec) \<longleftrightarrow>
    ws_states spec \<noteq> [] \<and> (\<forall>t\<in>set (ws_transitions spec). transition_ok spec t) \<and>
    distinct (map transition_key (ws_transitions spec))"
  by (simp add: validate_workflow_spec_def spec_errors_def check_transitions assms Let_def)

lemma insert_actions_ok:
  "is_ok (try_fold insert_action (ports, nodes) xs) \<longleftrightarrow>
    distinct (map fst xs) \<and> fst ` set xs \<inter> dom (map_of ports) = {} \<and>
    distinct (map (\<lambda>(p, _, a). instance_node_id (action_instance p a)) xs) \<and>
    (\<lambda>(p, _, a). instance_node_id (action_instance p a)) ` set xs \<inter> dom (map_of nodes) = {}"
  (is "?ok ports nodes xs \<longleftrightarrow> ?free ports nodes xs")
proof
  assume "?ok ports nodes xs"
  then show "?free ports nodes xs" by (auto simp: is_ok_iff dest!: insert_actions_run)
next
  show "?free ports nodes xs \<Longrightarrow> ?ok ports nodes xs"
  proof (induction xs arbitrary: ports nodes)
    case (Cons x xs)
    obtain p og a where x: "x = (p, og, a)" by (cases x)
    let ?n = "instance_node_id (action_instance p a)"
    have n: "cap_node_id (action_target_id (as_target a)) p = ?n"
      by (simp add: instance_node_id_def action_instance_def)
    have new: "map_of ports p = None" "map_of nodes ?n = None"
      using Cons.prems by (auto simp: x domIff)
    then have step: "insert_action (ports, nodes) x = Inr (bt_put p og ports, bt_put ?n og nodes)"
      by (simp add: x insert_action_step insert_unique_sanitized_id_def insert_action_node_origin_def n)
    have "dom (map_of (bt_put k v m)) = insert k (dom (map_of m))" for k v and m :: origins
      by (auto simp: map_of_bt_put)
    then have "?free (bt_put p og ports) (bt_put ?n og nodes) xs" using Cons.prems by (auto simp: x)
    then show ?case using Cons.IH by (simp add: step)
  qed simp
qed

lemma validate_sanitized_ids_ok:
  "is_ok (validate_sanitized_ids spec) \<longleftrightarrow>
    distinct (map ai_port_id (spec_actions spec)) \<and> distinct (map instance_node_id (spec_actions spec))"
proof -
  have "is_ok (validate_sanitized_ids spec) \<longleftrightarrow> is_ok (try_fold insert_action ([], []) (action_origins spec))"
    by (simp add: validate_sanitized_ids_def try_fold_concat try_fold_append action_origins_def case_prod_unfold is_ok_def
        split: sum.split)
  moreover have "ai_port_id (action_instance p a) = p" for p a by (simp add: action_instance_def)
  ultimately show ?thesis
    by (simp add: insert_actions_ok spec_actions_origins comp_def case_prod_unfold)
qed

section \<open>Nothing fails later\<close>

lemma add_nodes_ok:
  "\<forall>a\<in>set as. \<exists>cap. known_capability ctx a cap \<Longrightarrow> is_ok (try_fold (add_capability_node ctx) nodes as)"
proof (induction as arbitrary: nodes)
  case (Cons a as)
  then obtain cap where "known_capability ctx a cap" by auto
  then have "is_ok (add_capability_node ctx nodes a)" by (simp add: add_capability_node_def known_capability_def)
  then show ?case using Cons by (auto simp: is_ok_iff)
qed simp

lemma compile_graph_ok:
  assumes "\<forall>a\<in>set (spec_actions spec). \<exists>cap. known_capability ctx a cap"
  shows "is_ok (compile_graph ctx spec initial)"
proof -
  let ?b0 = "build_state_machine_node spec initial (collect_actions spec (new_builder spec))"
  have "gb_actions ?b0 = spec_actions spec"
    by (simp add: build_state_machine_node_def spec_actions_def)
  then show ?thesis
    using add_nodes_ok [OF assms, of "gb_nodes ?b0"]
    by (auto simp: is_ok_iff compile_graph_def build_capability_call_nodes_def)
qed

lemma spec_actions_set: "(\<lambda>(_, _, a). a) ` set (action_origins spec) = spec_action_set spec"
proof -
  have acts: "(\<lambda>(_, _, a). a) ` (\<lambda>(i, a). (f i, g i, a)) ` set (enumerate k xs) = set xs"
    for f :: "nat \<Rightarrow> string" and g :: "nat \<Rightarrow> msg" and k and xs :: "action_spec list"
    unfolding image_image case_prod_unfold by (simp flip: set_map)
  have states: "(\<lambda>(_, _, a). a) ` set (state_action_origins n s) = set (st_entry s) \<union> set (st_exit s)" for n s
    unfolding state_action_origins_def set_append image_Un set_map acts ..
  have transitions: "(\<lambda>(_, _, a). a) ` set (trans_action_origins i t) = set_option (ts_action t)" for i t
    by (cases "ts_action t") (simp_all add: trans_action_origins_def transition_actions_def)
  have "snd ` set (enumerate 0 (ws_transitions spec)) = set (ws_transitions spec)" by (simp flip: set_map)
  then have "(\<Union>x\<in>set (enumerate 0 (ws_transitions spec)). set_option (ts_action (snd x))) =
      (\<Union>t\<in>set (ws_transitions spec). set_option (ts_action t))"
    by (metis image_image)
  then show ?thesis
    unfolding action_origins_def set_append set_concat set_map image_Un image_UN
    by (simp add: case_prod_unfold states [unfolded case_prod_unfold] transitions [unfolded case_prod_unfold]
        spec_action_set_def)
qed

section \<open>The accepted workflows\<close>

definition workflow_accepted :: "device_spec list \<Rightarrow> capability_spec list \<Rightarrow> workflow_spec \<Rightarrow> bool" where
  "workflow_accepted ds cs spec \<longleftrightarrow>
     distinct (map dv_id ds) \<and> distinct (map cb_id cs) \<and> set (ws_devices spec) \<subseteq> dv_id ` set ds \<and>
     (\<forall>a\<in>spec_action_set spec. \<exists>c\<in>set cs. as_target a = Capability (cb_id c) \<and> cb_device_id c \<in> dv_id ` set ds) \<and>
     ws_states spec \<noteq> [] \<and> ws_timeout spec = [] \<and> ws_on_timeout spec = None \<and>
     (\<forall>t\<in>set (ws_transitions spec). transition_ok spec t \<and> bare_identifiers (ts_when t) = []) \<and>
     distinct (map transition_key (ws_transitions spec)) \<and>
     distinct (map ai_port_id (spec_actions spec)) \<and> distinct (map instance_node_id (spec_actions spec))"

lemma is_ok_and_then: "is_ok (and_then x f) \<longleftrightarrow> (\<exists>a. x = Inr a \<and> is_ok (f a))"
  by (cases x) auto

lemma determine_initial_ok: "is_ok (determine_initial_state spec) \<longleftrightarrow> ws_states spec \<noteq> []"
  by (simp add: determine_initial_state_def)

lemma compile_checks_ok:
  "is_ok (compile_checks ctx spec) \<longleftrightarrow>
    is_ok (validate_references ctx spec) \<and> is_ok (validate_workflow_spec spec) \<and>
    is_ok (validate_supported_runtime_features spec) \<and> is_ok (validate_sanitized_ids spec) \<and> ws_states spec \<noteq> []"
  unfolding compile_checks_def is_ok_and_then determine_initial_ok by (auto simp: is_ok_iff)

lemma compile_checked:
  assumes ok: "is_ok (compile_checks (new_context ds cs) spec)"
  shows "is_ok (compile (new_context ds cs) spec)"
proof -
  let ?ctx = "new_context ds cs"
  note checks = compile_checks_ok [of ?ctx spec]
  have "\<exists>cap. known_capability ?ctx a cap" if in_spec: "a \<in> set (spec_actions spec)" for a
  proof -
    obtain p act where a: "a = action_instance p act" "act \<in> spec_action_set spec"
      using in_spec by (force simp: spec_actions_origins spec_actions_set [symmetric])
    then obtain i where i: "as_target act = Capability i"
      using ok by (auto simp: checks validate_supported_ok)
    moreover from ok i a(2) obtain cap where "map_of (cx_capabilities ?ctx) i = Some cap"
      unfolding checks validate_references_ok capability_refs_set by blast
    ultimately show ?thesis by (simp add: a(1) known_capability_def action_instance_def)
  qed
  then show ?thesis using ok compile_graph_ok by (fastforce simp: compile_def is_ok_iff)
qed

lemma compile_accepts_spec:
  "is_ok (compile (new_context ds cs) spec) \<longleftrightarrow> workflow_accepted ds cs spec"
proof -
  let ?ctx = "new_context ds cs"
  note checks = compile_checks_ok [of "new_context ds cs" spec]
  have known: "distinct (map cb_id cs) \<Longrightarrow>
      (\<exists>cap. map_of (cx_capabilities ?ctx) i = Some cap \<and> cb_device_id cap \<in> dv_id ` set ds) \<longleftrightarrow>
      (\<exists>c\<in>set cs. i = cb_id c \<and> cb_device_id c \<in> dv_id ` set ds)" for i
    by (auto simp: new_context)
  have "is_ok (validate_references ?ctx spec) \<and> is_ok (validate_supported_runtime_features spec) \<longleftrightarrow>
      distinct (map dv_id ds) \<and> distinct (map cb_id cs) \<and> set (ws_devices spec) \<subseteq> dv_id ` set ds \<and>
      (\<forall>a\<in>spec_action_set spec. \<exists>c\<in>set cs. as_target a = Capability (cb_id c) \<and> cb_device_id c \<in> dv_id ` set ds) \<and>
      ws_timeout spec = [] \<and> ws_on_timeout spec = None \<and>
      (\<forall>t\<in>set (ws_transitions spec). bare_identifiers (ts_when t) = [])"
  proof (cases "distinct (map cb_id cs)")
    case True
    have "(\<forall>i\<in>{i. \<exists>a\<in>S. as_target a = Capability i}. K i) \<and> (\<forall>a\<in>S. \<exists>i. as_target a = Capability i) \<longleftrightarrow>
        (\<forall>a\<in>S. \<exists>i. as_target a = Capability i \<and> K i)" for K :: "string \<Rightarrow> bool" and S :: "action_spec set"
      by fastforce
    moreover have target: "(\<exists>i. as_target a = Capability i \<and> (\<exists>c\<in>set cs. i = cb_id c \<and> cb_device_id c \<in> dv_id ` set ds)) \<longleftrightarrow>
        (\<exists>c\<in>set cs. as_target a = Capability (cb_id c) \<and> cb_device_id c \<in> dv_id ` set ds)" for a
      by auto
    moreover note calculation(1) [of "spec_action_set spec" "\<lambda>i. \<exists>c\<in>set cs. i = cb_id c \<and> cb_device_id c \<in> dv_id ` set ds"]
    ultimately show ?thesis
      unfolding validate_references_ok validate_supported_ok capability_refs_set new_context(1,2) known [OF True] subset_iff
      by (simp add: True target) blast
  next
    case False
    then show ?thesis by (simp add: validate_references_ok new_context(1))
  qed
  moreover have "is_ok (compile_checks ?ctx spec)" if "is_ok (compile ?ctx spec)"
    using that by (auto simp: compile_def is_ok_iff and_then_Inr)
  moreover note compile_checked [of ds cs spec]
  ultimately show ?thesis
    unfolding workflow_accepted_def checks validate_sanitized_ids_ok
    using validate_workflow_spec_ok [of spec] checks validate_sanitized_ids_ok [of spec] by blast
qed

end
