(* ===== verification/Compiled.thy ===== *)
theory Compiled
  imports Compile_Accepts
begin

text \<open>
  The properties of the compiler: which specifications it accepts, that what it writes is wired the
  way the specification says, and how the compiled state machine runs.
\<close>

section \<open>A small workflow\<close>

definition demo_press :: device_spec where
  "demo_press = \<lparr>dv_id = ''press'', dv_device_type = ''press'', dv_manufacturer = None, dv_model = None,
     dv_connection = Some \<lparr>cn_connection_type = ''modbus'', cn_id = ''line'', cn_unit = None\<rparr>, dv_network_group = None,
     dv_ethercat_identity = None, dv_signals = [], dv_alarms = []\<rparr>"

definition demo_move :: capability_spec where
  "demo_move = \<lparr>cb_id = ''move'', cb_device_id = ''press'', cb_description = [], cb_inputs = [], cb_outputs = [],
     cb_preconditions = [], cb_effects = [], cb_implementation = ModbusWrite 7 DtFloat32 None LittleEndian None ''${p}'',
     cb_fallback = [], cb_safety = \<lparr>sf_level = SafetyLow, sf_requires_approval = False, sf_max_execution_time = None\<rparr>\<rparr>"

definition demo_context :: compiler_context where
  "demo_context = new_context [demo_press] [demo_move]"

definition demo_action :: action_spec where
  "demo_action = \<lparr>as_target = Capability ''move'', as_args = [(''p'', JNumber (PosInt 5))]\<rparr>"

definition demo_spec :: workflow_spec where
  "demo_spec = \<lparr>ws_id = ''demo'', ws_description = [], ws_version = ''1'', ws_devices = [''press''],
     ws_variables = [(''limit'', JNumber (PosInt 9))],
     ws_states = [(''idle'', \<lparr>st_entry = [], st_exit = []\<rparr>), (''run'', \<lparr>st_entry = [demo_action], st_exit = []\<rparr>)],
     ws_transitions =
       [\<lparr>ts_from = ''idle'', ts_to = ''run'', ts_when = ''payload.go == true'', ts_priority = None, ts_action = None\<rparr>,
        \<lparr>ts_from = ''*'', ts_to = ''idle'', ts_when = ''payload.stop'', ts_priority = Some 9, ts_action = Some demo_action\<rparr>],
     ws_timeout = [], ws_on_timeout = None\<rparr>"

lemma demo_checks: "compile_checks demo_context demo_spec = Inr ''idle''"
proof -
  have "is_ok (validate_references demo_context demo_spec)" by code_simp
  moreover have "is_ok (validate_workflow_spec demo_spec)" by code_simp
  moreover have "is_ok (validate_supported_runtime_features demo_spec)" by code_simp
  moreover have "is_ok (validate_sanitized_ids demo_spec)" by code_simp
  moreover have "determine_initial_state demo_spec = Inr ''idle''" by code_simp
  ultimately show ?thesis by (auto simp: compile_checks_def is_ok_iff)
qed

lemma demo_compiles: "is_ok (compile demo_context demo_spec)"
  unfolding demo_context_def
  by (rule compile_checked) (simp add: demo_checks [unfolded demo_context_def])

section \<open>Acceptance\<close>

text \<open>
  C24: the compiler accepts a workflow exactly when the devices and the capabilities have distinct ids,
  every device the workflow names is known, every action calls a known capability of a known device, it
  has at least one state, each transition leads to a declared state and comes from one or from the
  wildcard, a wildcard transition has a priority, no transition is repeated, the compiler's scanner finds
  no bare name in a condition (the scanner takes the exponent of \<open>1e5\<close> for one, see below), there is no
  timeout, and the ids of its ports and nodes stay apart once their characters are replaced. Nothing
  fails after these checks.
\<close>

theorem compile_accepts_iff:
  "is_ok (compile (new_context ds cs) spec) \<longleftrightarrow> workflow_accepted ds cs spec"
  by (rule compile_accepts_spec)

text \<open>The exponent of a number is taken for a variable.\<close>

lemma exponent_taken_for_variable: "bare_identifiers ''payload.x > 1e5'' = [''e5'']"
  by code_simp

section \<open>The wiring\<close>

lemma compile_Inr:
  assumes "compile ctx spec = Inr out"
  obtains initial where "compile_checks ctx spec = Inr initial" and "compile_graph ctx spec initial = Inr out"
    and "validate_sanitized_ids spec = Inr ()" and "determine_initial_state spec = Inr initial"
  using assms by (auto simp: compile_def and_then_Inr compile_checks_def)

lemma UN_enumerate: "(\<Union>x\<in>set (enumerate 0 xs). f (fst x) (snd x)) = (\<Union>i<length xs. f i (xs ! i))"
proof -
  have "set (enumerate 0 xs) = (\<lambda>i. (i, xs ! i)) ` {..<length xs}" by (auto simp: set_enumerate_at)
  then show ?thesis by simp
qed

lemma fst_triples:
  "fst ` {(f n s i, h n s i) | n s i. P n s i} = {f n s i | n s i. P n s i}"
  by force

lemma fst_pairs: "fst ` {(f i, a) | i a. P i a} = {f i | i a. P i a}"
  by force

lemma machine_ports: "set (collect_action_ports (machine_of spec initial)) = fst ` spec_ports spec"
proof -
  have "fst ` spec_ports spec =
      {state_port ''entry'' n i | n s i. (n, s) \<in> set (ws_states spec) \<and> i < length (st_entry s)} \<union>
      {state_port ''exit'' n i | n s i. (n, s) \<in> set (ws_states spec) \<and> i < length (st_exit s)} \<union>
      {trans_port i (ws_transitions spec ! i) | i a. i < length (ws_transitions spec) \<and>
         ts_action (ws_transitions spec ! i) = Some a}"
    unfolding spec_ports_def image_Un fst_triples fst_pairs ..
  moreover have "(\<Union>s\<in>set (sm_states (machine_of spec initial)). set (sc_entry_actions s) \<union> set (sc_exit_actions s)) =
      {state_port ''entry'' n i | n s i. (n, s) \<in> set (ws_states spec) \<and> i < length (st_entry s)} \<union>
      {state_port ''exit'' n i | n s i. (n, s) \<in> set (ws_states spec) \<and> i < length (st_exit s)}"
  proof -
    have p: "set (map (\<lambda>(i, _). state_port k n i) (enumerate 0 xs)) = {state_port k n i | i. i < length xs}"
      for k n and xs :: "action_spec list"
      using in_map_enumerate [of _ "\<lambda>(i, _). state_port k n i" xs] by (auto simp del: set_map)
    have "(\<Union>s\<in>set (sm_states (machine_of spec initial)). set (sc_entry_actions s) \<union> set (sc_exit_actions s)) =
        (\<Union>(n, s)\<in>set (ws_states spec). set (map (\<lambda>(i, _). state_port ''entry'' n i) (enumerate 0 (st_entry s))) \<union>
           set (map (\<lambda>(i, _). state_port ''exit'' n i) (enumerate 0 (st_exit s))))"
      unfolding machine_of_def state_machine_config.simps by (simp add: case_prod_unfold del: list.set_map)
    then show ?thesis unfolding p by blast
  qed
  moreover have "(\<Union>t\<in>set (sm_transitions (machine_of spec initial)). set_option (tc_action_port t)) =
      {trans_port i (ws_transitions spec ! i) | i a. i < length (ws_transitions spec) \<and>
         ts_action (ws_transitions spec ! i) = Some a}"
    by (simp add: machine_of_def case_prod_unfold UN_enumerate [of "\<lambda>i t. set_option (map_option (\<lambda>_. trans_port i t) (ts_action t))",
        simplified]) (auto; fastforce)
  ultimately show ?thesis by (simp only: collect_action_ports(2))
qed

lemma entry_port:
  "(n, s) \<in> set (ws_states spec) \<Longrightarrow> i < length (st_entry s) \<Longrightarrow> (state_port ''entry'' n i, st_entry s ! i) \<in> spec_ports spec"
  unfolding spec_ports_def by blast

text \<open>
  C23: what the compiler writes is a workflow file the runtime reads: it is parsed back and its graph is
  well-formed (building the nodes may still fail later: a capability on an EtherCAT connection has no
  node). For an initial state of the specification, the configuration of its state
  machine node is the machine of the specification; every port of that machine belongs to one
  action of the specification, in the order it declares, and leads by exactly one edge to the node
  that calls the capability of that action with its arguments on the connection of its device. There
  is no other node and no other edge.
\<close>

theorem compiled_workflow_is_wired:
  assumes "compile ctx spec = Inr out"
  shows "\<exists>file initial. de_workflow_file out = Some file \<and>
    from_parsed (wf_graph file) = Some (Inr (wf_graph file)) \<and>
    map_of (g_nodes (wf_graph file)) (sm_id spec) = Some (sm_definition spec initial) \<and>
    de_state_machine_config (wd_config (sm_definition spec initial)) = Some (machine_of spec initial) \<and>
    set (collect_action_ports (machine_of spec initial)) = fst ` spec_ports spec \<and>
    star ctx spec (wf_graph file)"
proof -
  obtain initial where i: "compile_graph ctx spec initial = Inr out" "validate_sanitized_ids spec = Inr ()"
    by (rule compile_Inr [OF assms])
  have "map_of (g_nodes (wf_graph (compiled_file ctx spec initial))) (sm_id spec) = Some (sm_definition spec initial)"
    using compiled_node_at(1) [OF sanitized_ids_distinct(2) [OF i(2)]] by (simp add: compiled_file_def)
  moreover have "de_state_machine_config (wd_config (sm_definition spec initial)) = Some (machine_of spec initial)"
    by (simp add: sm_definition_def de_machine)
  ultimately show ?thesis
    using de_compiled [OF i(1)] compiled_accepted [OF i(2)] compiled_star [OF i(2,1)] machine_ports by blast
qed

theorem compiled_workflow_is_wired_witness:
  "\<exists>out file. compile demo_context demo_spec = Inr out \<and> de_workflow_file out = Some file \<and>
    wired demo_context demo_spec (wf_graph file) ''entry_run_0'' demo_action"
proof -
  obtain out where out: "compile demo_context demo_spec = Inr out"
    using demo_compiles by (auto simp: is_ok_iff)
  have port: "''entry_run_0'' = state_port ''entry'' ''run'' 0" by code_simp
  have "(''run'', \<lparr>st_entry = [demo_action], st_exit = []\<rparr>) \<in> set (ws_states demo_spec)" by (simp add: demo_spec_def)
  from entry_port [OF this, of 0] have member: "(''entry_run_0'', demo_action) \<in> spec_ports demo_spec" by (simp add: port)
  obtain wf where wf: "de_workflow_file out = Some wf" "star demo_context demo_spec (wf_graph wf)"
    using compiled_workflow_is_wired [OF out] by blast
  have "wired demo_context demo_spec (wf_graph wf) ''entry_run_0'' demo_action"
    using bspec [OF conjunct1 [OF wf(2) [unfolded star_def]] member] by (simp only: case_prod_conv)
  then show ?thesis using out wf(1) by blast
qed

end
