(* ===== verification/Compiled_Run.thy ===== *)
theory Compiled_Run
  imports Compiled
begin

text \<open>
  A compiled workflow at run time: what a capability node reads of the implementation the compiler
  wrote, and how the compiled state machine moves.
\<close>

section \<open>The implementation of an action\<close>

fun runtime_implementation :: "capability_impl \<Rightarrow> capability_impl_snapshot option" where
  "runtime_implementation (ModbusWrite register dt bt order scale v) = Some (ModbusWriteSn register [] None [] None v)"
| "runtime_implementation (MqttPublish topic payload) = Some (MqttPublishSn topic payload)"
| "runtime_implementation (SerialCommand command) = Some (SerialCommandSn command)"
| "runtime_implementation (CanWrite can_id ext off len dt order scale data) =
     Some (CanWriteSn can_id ext 0 0 [] [] None data)"
| "runtime_implementation (EthercatPdoWrite slave pdo e sub bits off dt order scale v) = None"
| "runtime_implementation (Script content) = Some (ScriptSn content)"

lemma snapshot_of_implementation: "de_snapshot (capability_impl_to_json impl) = runtime_implementation impl"
proof (cases impl)
  case (EthercatPdoWrite slave pdo e sub bits off dt order scale v)
  then show ?thesis
    by (cases slave; cases dt; cases scale) (simp_all add: de_snapshot_def json_object_members Option.bind_eq_None_conv)
qed (simp_all add: de_snapshot_def json_object_members)

text \<open>
  The implementation a capability node reads is the one of its capability, less its data type, bit,
  byte order, scale, offset and length: a Modbus write is one of a single unsigned word and a CAN write
  one of hexadecimal text, whatever the capability says. Nothing is read of an EtherCAT write, whose
  node cannot be built.
\<close>

theorem compiled_implementation:
  "de_snapshot (capability_impl_to_json impl) = runtime_implementation impl"
  by (rule snapshot_of_implementation)

text \<open>The node of an action reads the capability, the device and the arguments as they are.\<close>

lemma compiled_call_config:
  "de_capability_call_config (wd_config (call_definition ctx a cap)) =
    map_option (\<lambda>impl. \<lparr>cc_connection_id = None, cc_capability_id = ai_target_id a, cc_device_id = cb_device_id cap,
        cc_implementation = impl, cc_args = ai_args a\<rparr>)
      (runtime_implementation (cb_implementation cap))"
proof -
  have "de_map Some (JObject (ai_args a)) = Some (ai_args a)"
    using de_map_some [of "ai_args a" Some id] by (simp add: case_prod_unfold)
  then show ?thesis
    by (cases "runtime_implementation (cb_implementation cap)")
      (simp_all add: call_definition_def call_config_json_def de_capability_call_config_def json_object_members
        snapshot_of_implementation del: de_map.simps)
qed

section \<open>The variables\<close>

lemma infer_pin_type_matches: "pin_type_matches_value (infer_pin_type v) v"
  by (cases v) (auto simp: infer_pin_type_def simp del: is_i64.simps is_u64.simps)

lemma declare_all:
  assumes "\<forall>(n, d)\<in>set decls. pin_type_matches_value (decl_type d) (decl_initial d)" and "distinct (map fst decls)"
  shows "\<exists>m'. try_fold (declare_variable now) m decls = Inr m' \<and>
    (\<forall>(n, d)\<in>set decls. map_of m' n = Some (typed_variable_new (decl_initial d) (decl_type d) (decl_initial d) now None)) \<and>
    (\<forall>n. n \<notin> fst ` set decls \<longrightarrow> map_of m' n = map_of m n)"
  using assms
proof (induction decls arbitrary: m)
  case (Cons nd decls)
  obtain n d where nd: "nd = (n, d)" by (cases nd)
  let ?m1 = "hm_insert n (typed_variable_new (decl_initial d) (decl_type d) (decl_initial d) now None) m"
  have step: "declare_variable now m (n, d) = Inr ?m1" using Cons.prems(1) by (simp add: nd declare_variable_def)
  obtain m' where m': "try_fold (declare_variable now) ?m1 decls = Inr m'"
    "\<forall>(n, d)\<in>set decls. map_of m' n = Some (typed_variable_new (decl_initial d) (decl_type d) (decl_initial d) now None)"
    "\<forall>n. n \<notin> fst ` set decls \<longrightarrow> map_of m' n = map_of ?m1 n"
    using Cons.IH [of ?m1] Cons.prems by auto
  have "n \<notin> fst ` set decls" using Cons.prems(2) by (simp add: nd)
  then show ?case using m' by (intro exI [of _ m']) (auto simp: nd step)
qed auto

lemma all_variables_shape:
  assumes "(k, v) \<in> set (all_variables spec initial)"
  shows "let d = the (de_variable_declaration v) in pin_type_matches_value (decl_type d) (decl_initial d)"
proof -
  have "v = variable_json (json_object [(''kind'', JString ''string'')]) (JString initial) \<or>
      (\<exists>u. v = variable_json (infer_pin_type_json u) u)"
    using assms set_bt_put set_members [of "user_variables spec"]
    unfolding all_variables_def by (fastforce simp: user_variables_def)
  then show ?thesis
    by (auto simp: de_variable [OF de_string_type] de_variable [OF de_inferred] infer_pin_type_matches)
qed

lemma compiled_variables_run:
  "\<exists>w. build_workflow_variables now (Some (compiled_variables spec initial)) = Inr w \<and>
     (sn_id node = sm_id spec \<longrightarrow> holds_state node initial (Some w))"
proof -
  let ?decls = "compiled_variables spec initial"
  let ?key = "state_variable_name spec"
  have "\<forall>(n, d)\<in>set ?decls. pin_type_matches_value (decl_type d) (decl_initial d)"
    using all_variables_shape [unfolded Let_def] by (auto simp: compiled_variables_def)
  moreover have "distinct (map fst ?decls)" using hm_wf_compiled(2) by (simp add: hm_wf_def)
  ultimately obtain m' where m': "try_fold (declare_variable now) [] ?decls = Inr m'"
    "\<forall>(n, d)\<in>set ?decls. map_of m' n = Some (typed_variable_new (decl_initial d) (decl_type d) (decl_initial d) now None)"
    using declare_all [of ?decls now "[]"] by blast
  have "map_of (all_variables spec initial) ?key =
      Some (variable_json (json_object [(''kind'', JString ''string'')]) (JString initial))"
    by (simp add: all_variables_def map_of_bt_put)
  then have "(?key, the (de_variable_declaration (variable_json (json_object [(''kind'', JString ''string'')]) (JString initial))))
      \<in> set ?decls"
    by (auto simp: compiled_variables_def dest!: map_of_SomeD intro!: image_eqI [rotated])
  then have "map_of m' ?key = Some (typed_variable_new (JString initial) TString (JString initial) now None)"
    using bspec [OF m'(2)] by (fastforce simp: de_variable [OF de_string_type])
  then show ?thesis
    using m'(1) by (simp add: build_workflow_variables_def from_declarations_def holds_state_def state_variable_key_def
        state_variable_name_def typed_variable_new_def)
qed

section \<open>The run\<close>

lemma compiled_initial:
  assumes "determine_initial_state spec = Inr initial"
  shows "hm_contains (ws_states spec) initial"
proof (cases "hm_contains (ws_states spec) ''idle''")
  case True
  then show ?thesis using assms by (auto simp: determine_initial_state_def split: if_splits)
next
  case False
  then have ne: "ws_states spec \<noteq> []" "initial = foldl min (fst (hd (ws_states spec))) (map fst (tl (ws_states spec)))"
    using assms by (auto simp: determine_initial_state_def split: if_splits)
  have "foldl min x xs \<in> insert x (set xs)" for x :: string and xs
    by (induction xs arbitrary: x) (auto simp: min_def)
  from this [of "fst (hd (ws_states spec))" "map fst (tl (ws_states spec))"] show ?thesis
    using ne by (cases "ws_states spec") (auto simp: hm_contains_iff)
qed

text \<open>The transitions a machine may take, as a relation on states.\<close>

definition state_moves :: "workflow_spec \<Rightarrow> (string \<times> string) set" where
  "state_moves spec = {(s, ts_to t) | s t. t \<in> set (ws_transitions spec) \<and> (ts_from t = ''*'' \<or> ts_from t = s)}"

lemma machine_transition:
  "t \<in> set (sm_transitions (machine_of spec initial)) \<Longrightarrow>
    \<exists>u\<in>set (ws_transitions spec). tc_from t = ts_from u \<and> tc_to t = ts_to u \<and> tc_when t = ts_when u"
  by (fastforce simp: machine_of_def set_enumerate_at)

lemma spec_step_moves:
  "(s, fst (spec_step engine i (machine_of spec initial) s p)) \<in> (state_moves spec)\<^sup>*"
proof (cases rule: spec_step_cases [of engine i "machine_of spec initial" s p])
  case (fired t)
  have "(s, tc_to t) \<in> state_moves spec"
    using machine_transition [OF fired(1)] fired(2) by (force simp: state_moves_def open_in_def)
  then show ?thesis using fired(3) by auto
qed simp_all

lemma spec_run_moves:
  "(s, fst (spec_run engine i (machine_of spec initial) s ps)) \<in> (state_moves spec)\<^sup>*"
proof (induction ps arbitrary: s)
  case (Cons p ps)
  show ?case using spec_step_moves [of s engine i spec initial p] Cons.IH
    by (auto simp: split_beta Let_def intro: rtrancl_trans)
qed simp

text \<open>The dispatches a compiled machine may give: a broadcast, or a route to actions of the specification.\<close>

definition dispatch_ok :: "workflow_spec \<Rightarrow> node_dispatch \<Rightarrow> bool" where
  "dispatch_ok spec d \<longleftrightarrow> d = Broadcast \<or> (\<exists>ports. d = Route ports \<and> set ports \<subseteq> fst ` spec_ports spec)"

lemma fired_actions_declared:
  assumes "new_state_machine engine i (machine_of spec initial) = Inr node"
    and "t \<in> set (sm_transitions (machine_of spec initial))"
  shows "set (fired_actions (machine_of spec initial) s t) \<subseteq> fst ` spec_ports spec"
proof -
  have "set (map pin_id (state_machine_pins node)) = fst ` spec_ports spec"
    using machine_ports [of spec initial]
    by (simp add: state_machine_pins_def action_pin_def comp_def built_machine(3) [OF assms(1)])
  then show ?thesis
    using transition_ports_declared [OF assms, of s] by (simp add: transition_ports_fired [OF assms(1)])
qed

lemma spec_run_answers:
  assumes "new_state_machine engine i (machine_of spec initial) = Inr node"
  shows "list_all2 (\<lambda>p a. case a of Inl _ \<Rightarrow> \<not> conditions_answer engine (machine_of spec initial) p
                             | Inr d \<Rightarrow> dispatch_ok spec d)
           ps (snd (spec_run engine i (machine_of spec initial) s ps))"
proof (induction ps arbitrary: s)
  case (Cons p ps)
  show ?case
  proof (cases rule: spec_step_cases [of engine i "machine_of spec initial" s p])
    case (fired t)
    then show ?thesis using Cons.IH fired_actions_declared [OF assms fired(1)]
      by (simp add: split_beta Let_def dispatch_ok_def)
  qed (use Cons.IH in \<open>simp_all add: split_beta Let_def dispatch_ok_def\<close>)
qed simp

lemma list_all2_replies:
  assumes "list_all2 P (map snd ps) as" and "map sm_answer rs = map2 (\<lambda>(_, p). reply p) ps as"
    and "\<And>p a r. P p a \<Longrightarrow> sm_answer r = reply p a \<Longrightarrow> Q p r"
  shows "list_all2 (\<lambda>(_, p) r. Q p r) ps rs"
  using assms(1,2)
proof (induction ps arbitrary: as rs)
  case (Cons np ps)
  then obtain a as' r rs' where "as = a # as'" "rs = r # rs'"
    by (cases np; cases as; cases rs) auto
  with Cons assms(3) show ?case by (cases np) auto
qed simp

lemma state_moves_declared:
  assumes "(s, s') \<in> (state_moves spec)\<^sup>*" and "hm_contains (ws_states spec) s"
    and "\<forall>t\<in>set (ws_transitions spec). transition_ok spec t"
  shows "hm_contains (ws_states spec) s'"
  using assms by (induction rule: rtrancl_induct) (auto simp: state_moves_def transition_ok_def)

lemma compiled_start:
  assumes "compile ctx spec = Inr out" and "determine_initial_state spec = Inr initial"
    and "new_state_machine engine (sm_id spec) (machine_of spec initial) = Inr node"
  obtains wf w where "de_workflow_file out = Some wf" and "build_workflow_variables now (wf_variables wf) = Inr w"
    and "holds_state node initial (Some w)" and "sn_config node = machine_of spec initial"
proof -
  have graph: "compile_graph ctx spec initial = Inr out"
    using compile_Inr [OF assms(1)] assms(2) by auto
  have node: "sn_config node = machine_of spec initial" "sn_id node = sm_id spec"
    using assms(3) by (auto simp: new_state_machine_def and_then_Inr split: if_splits)
  obtain w where "build_workflow_variables now (Some (compiled_variables spec initial)) = Inr w"
    "holds_state node initial (Some w)"
    using compiled_variables_run [of now spec initial node] node(2) by blast
  then show thesis
    using that [of "compiled_file ctx spec initial" w] de_compiled [OF graph] node(1) by (simp add: compiled_file_def)
qed

text \<open>
  C25: the state machine node of a compiled workflow, started with the variables of the file, answers
  every message; the conditions of the machine on the messages are taken not to disturb each other.
  The state it then holds is one of the declared states and is reached from the initial one along the
  declared transitions. Every message is broadcast or routed to ports of actions of the specification,
  or, when a condition of the machine fails on it, refused with an error.
\<close>

theorem compiled_machine_runs:
  assumes "compile (new_context ds cs) spec = Inr out" and "determine_initial_state spec = Inr initial"
    and "new_state_machine engine (sm_id spec) (machine_of spec initial) = Inr node"
    and "\<forall>(_, p)\<in>set ps. independent_conditions engine (machine_of spec initial) p"
  shows "\<exists>wf w rs vs s. de_workflow_file out = Some wf \<and>
    build_workflow_variables now (wf_variables wf) = Inr w \<and>
    sm_run engine node ps (Some w) = (rs, vs) \<and> holds_state node s vs \<and>
    (initial, s) \<in> (state_moves spec)\<^sup>* \<and> hm_contains (ws_states spec) s \<and>
    list_all2 (\<lambda>(_, p) r. case r of
        Inl _ \<Rightarrow> \<not> conditions_answer engine (machine_of spec initial) p
      | Inr ex \<Rightarrow> map no_dispatch ex = [Broadcast] \<or>
          (\<exists>ports. map no_dispatch ex = [Route ports] \<and> set ports \<subseteq> fst ` spec_ports spec)) ps rs"
proof -
  have accepted: "workflow_accepted ds cs spec" using assms(1) by (simp flip: compile_accepts_spec)
  obtain wf w where w: "de_workflow_file out = Some wf" "build_workflow_variables now (wf_variables wf) = Inr w"
    "holds_state node initial (Some w)"
    by (rule compiled_start [OF assms(1-3)])
  let ?last = "spec_run engine (sm_id spec) (machine_of spec initial) initial (map snd ps)"
  obtain rs vs where run: "sm_run engine node ps (Some w) = (rs, vs)" "holds_state node (fst ?last) vs"
    "map sm_answer rs = map2 (\<lambda>(_, p). reply p) ps (snd ?last)"
    using state_machine_refines_spec [OF assms(3,4) w(3)] by blast
  have moves: "(initial, fst ?last) \<in> (state_moves spec)\<^sup>*" by (rule spec_run_moves)
  then have "hm_contains (ws_states spec) (fst ?last)"
    using state_moves_declared compiled_initial [OF assms(2)] accepted by (auto simp: workflow_accepted_def)
  moreover have "list_all2 (\<lambda>(_, p) r. case r of
        Inl _ \<Rightarrow> \<not> conditions_answer engine (machine_of spec initial) p
      | Inr ex \<Rightarrow> map no_dispatch ex = [Broadcast] \<or>
          (\<exists>ports. map no_dispatch ex = [Route ports] \<and> set ports \<subseteq> fst ` spec_ports spec)) ps rs"
    by (rule list_all2_replies [OF spec_run_answers [OF assms(3)] run(3)])
      (auto simp: sm_answer_reply dispatch_ok_def split: sum.splits)
  ultimately show ?thesis
    using w(1,2) run(1,2) moves by blast
qed

lemma demo_machine:
  obtains node where "new_state_machine demo_engine i (machine_of spec initial) = Inr node"
proof -
  have "new_state_machine demo_engine i config \<noteq> Inl e" if "sm_max_operations config \<noteq> 0" for config e
    using that by (auto simp: new_state_machine_def demo_engine_def and_then_Inl dest: try_all_Inl)
  moreover have "sm_max_operations (machine_of spec initial) \<noteq> 0"
    by (simp add: machine_of_def default_max_operations_def)
  ultimately show thesis using that by (meson sum.exhaust)
qed

lemma demo_independent_all: "\<forall>(_, p)\<in>set ps. independent_conditions demo_engine config p"
  by (simp add: demo_independent split_beta)

theorem compiled_machine_runs_witness:
  "\<exists>node wf w rs vs s out. compile demo_context demo_spec = Inr out \<and> de_workflow_file out = Some wf \<and>
    build_workflow_variables 0 (wf_variables wf) = Inr w \<and>
    sm_run demo_engine node [(1, JNull)] (Some w) = (rs, vs) \<and> holds_state node s vs \<and>
    (''idle'', s) \<in> (state_moves demo_spec)\<^sup>*"
proof -
  obtain out where out: "compile (new_context [demo_press] [demo_move]) demo_spec = Inr out"
    using demo_compiles by (auto simp: is_ok_iff demo_context_def)
  have start: "determine_initial_state demo_spec = Inr ''idle''" by code_simp
  obtain node where node: "new_state_machine demo_engine (sm_id demo_spec) (machine_of demo_spec ''idle'') = Inr node"
    by (rule demo_machine)
  show ?thesis
    using compiled_machine_runs [where now = 0 and ps = "[(1, JNull)]", OF out start node demo_independent_all] out unfolding demo_context_def by blast
qed

end
