(* ===== verification/Safety_Correct.thy ===== *)
theory Safety_Correct
  imports Compiler_Safety Compiled_Run
begin

text \<open>
  What the safety rules mean: when they stop a compilation, and what their warnings about the state graph
  say of the running machine.
\<close>

section \<open>Reachable states\<close>

lemma foldl_reach_closed:
  "foldl reach_step (R, False) ts = (R', False) \<Longrightarrow> t \<in> set ts \<Longrightarrow> ts_from t = ''*'' \<or> ts_from t \<in> R \<Longrightarrow> ts_to t \<in> R"
proof (induction ts)
  case (Cons u ts)
  have changed: "foldl reach_step (S, True) us = (S', c) \<Longrightarrow> c" for S us S' c
    using reach_pass_grows [of S True us S' c] by auto
  show ?case
  proof (cases "(ts_from u = ''*'' \<or> ts_from u \<in> R) \<and> ts_to u \<notin> R")
    case True
    then have "reach_step (R, False) u = (insert (ts_to u) R, True)" by (simp add: reach_step_def)
    then show ?thesis using Cons.prems(1) changed by auto
  next
    case False
    then have "reach_step (R, False) u = (R, False)" by (auto simp: reach_step_def)
    then show ?thesis using Cons False by auto
  qed
qed simp

lemma foldl_reach_sound:
  assumes "foldl reach_step (R, c) ts = (R', c')" and "set ts \<subseteq> set (ws_transitions spec)"
    and "R \<subseteq> (state_moves spec)\<^sup>* `` {s}"
  shows "R' \<subseteq> (state_moves spec)\<^sup>* `` {s}"
  using assms
proof (induction ts arbitrary: R c)
  case (Cons t ts)
  have "ts_to t \<in> (state_moves spec)\<^sup>* `` {s}" if "ts_from t = ''*'' \<or> ts_from t \<in> R"
  proof -
    from that obtain u where u: "(s, u) \<in> (state_moves spec)\<^sup>*" "ts_from t = ''*'' \<or> ts_from t = u"
      using Cons.prems(3) by auto
    then have "(u, ts_to t) \<in> state_moves spec" using Cons.prems(2) by (auto simp: state_moves_def)
    then show ?thesis using u(1) by auto
  qed
  then have sub: "fst (reach_step (R, c) t) \<subseteq> (state_moves spec)\<^sup>* `` {s}"
    using Cons.prems(3) by (simp add: reach_step_def)
  have run: "foldl reach_step (fst (reach_step (R, c) t), snd (reach_step (R, c) t)) ts = (R', c')"
    using Cons.prems(1) by simp
  show ?case by (rule Cons.IH [OF run _ sub]) (use Cons.prems(2) in simp)
qed simp

lemma reach_loop_spec:
  "s \<in> R \<Longrightarrow> R \<subseteq> (state_moves spec)\<^sup>* `` {s} \<Longrightarrow> reach_loop (ws_transitions spec) R = (state_moves spec)\<^sup>* `` {s}"
proof (induction "ws_transitions spec" R rule: reach_loop.induct)
  case (1 R)
  obtain R' c where p: "reach_pass (ws_transitions spec) R = (R', c)" by (rule prod.exhaust)
  then have fold: "foldl reach_step (R, False) (ws_transitions spec) = (R', c)" by (simp add: reach_pass_def)
  have sound: "R' \<subseteq> (state_moves spec)\<^sup>* `` {s}" by (rule foldl_reach_sound [OF fold order.refl 1(3)])
  show ?case
  proof (cases c)
    case True
    then have "s \<in> R'" using reach_pass_grows [OF fold] 1(2) by blast
    then show ?thesis using 1(1) [OF p [symmetric]] True sound by (subst reach_loop.simps) (simp add: p)
  next
    case False
    then have same: "R' = R" using reach_pass_grows [OF fold] by blast
    have stop: "reach_loop (ws_transitions spec) R = R" using False by (subst reach_loop.simps) (simp add: p same)
    have "b \<in> R" if "(a, b) \<in> state_moves spec" "a \<in> R" for a b
      using that foldl_reach_closed [of R "ws_transitions spec" R'] fold False by (auto simp: state_moves_def)
    then have "(state_moves spec)\<^sup>* `` R \<subseteq> R" by (metis Image_closed_trancl subsetI ImageE order.refl)
    then have "(state_moves spec)\<^sup>* `` {s} \<subseteq> R" using 1(2) by blast
    then show ?thesis unfolding stop using sound same by blast
  qed
qed

lemma find_reachable_states: "find_reachable_states spec initial = (state_moves spec)\<^sup>* `` {initial}"
  unfolding find_reachable_states_def by (rule reach_loop_spec) auto

section \<open>Errors\<close>

lemma has_errors_simps [simp]:
  "\<not> has_errors []"
  "has_errors (ds @ es) \<longleftrightarrow> has_errors ds \<or> has_errors es"
  "has_errors (d # ds) \<longleftrightarrow> sd_level d = DiagError \<or> has_errors ds"
  "has_errors (concat dss) \<longleftrightarrow> (\<exists>ds\<in>set dss. has_errors ds)"
  by (auto simp: has_errors_def list_ex_iff)

lemma levels [simp]:
  "sd_level (diag_with l r m s t c a) = l"
  "sd_level (placed_diag l r i pl m) = l"
  "sd_level (diag_error r m) = DiagError"
  "sd_level (diag_warning r m) = DiagWarning"
  by (simp_all add: diag_with_def placed_diag_def diag_error_def diag_warning_def split: prod.split)

lemma has_errors_map: "has_errors (map f xs) \<longleftrightarrow> (\<exists>x\<in>set xs. sd_level (f x) = DiagError)"
  by (auto simp: has_errors_def list_ex_iff)

text \<open>The number an argument stands for when that is known before the run.\<close>

definition static_value :: "workflow_spec \<Rightarrow> json \<Rightarrow> rat option" where
  "static_value spec v =
     (case classify_template v of
        Numeric x \<Rightarrow> Some x
      | VariableRef n \<Rightarrow> Option.bind (map_of (ws_variables spec) n) as_f64
      | OtherValue \<Rightarrow> None)"

definition arguments_in_range :: "compiler_context \<Rightarrow> workflow_spec \<Rightarrow> action_spec \<Rightarrow> bool" where
  "arguments_in_range ctx spec a \<longleftrightarrow>
     (\<forall>i cap k v r x. action_capability ctx a = Some (i, cap) \<longrightarrow> (k, v) \<in> set (as_args a) \<longrightarrow>
        Option.bind (input_param cap k) cp_range = Some r \<longrightarrow> static_value spec v = Some x \<longrightarrow> range_contains r x)"

lemma argument_range_error:
  "has_errors (check_argument_range spec i pl k r v) \<longleftrightarrow>
     (\<exists>x. static_value spec v = Some x \<and> \<not> range_contains r x)"
  by (auto simp: check_argument_range_def static_value_def split: template_value.split option.split)

lemma action_range_error: "has_errors (check_action_range ctx spec (pl, a)) \<longleftrightarrow> \<not> arguments_in_range ctx spec a"
proof (cases "action_capability ctx a")
  case None
  then show ?thesis by (simp add: check_action_range_def arguments_in_range_def)
next
  case (Some ic)
  obtain i cap where ic: "ic = (i, cap)" by (cases ic)
  have "has_errors (case Option.bind (input_param cap k) cp_range of
        None \<Rightarrow> [] | Some r \<Rightarrow> check_argument_range spec i pl k r v) \<longleftrightarrow>
      (\<exists>r x. Option.bind (input_param cap k) cp_range = Some r \<and> static_value spec v = Some x \<and> \<not> range_contains r x)" for k v
    by (auto simp: argument_range_error split: option.split)
  then show ?thesis
    by (simp add: check_action_range_def Some ic arguments_in_range_def case_prod_unfold) (metis prod.collapse fst_conv snd_conv)
qed

lemma placed_actions_set: "snd ` set (placed_actions spec) = spec_action_set spec"
proof -
  have seconds: "snd ` set (enumerate k xs) = set xs" for k and xs :: "'a list" by (simp flip: set_map)
  have "(\<Union>x\<in>set (enumerate 0 (ws_transitions spec)). set (transition_actions (snd x))) =
      (\<Union>t\<in>set (ws_transitions spec). set (transition_actions t))"
    by (metis image_image seconds)
  moreover have "set (transition_actions t) = set_option (ts_action t)" for t
    by (cases "ts_action t") (simp_all add: transition_actions_def)
  moreover have "snd ` (\<lambda>p. (f p, snd p)) ` set (enumerate k xs) = set xs"
    for f :: "nat \<times> action_spec \<Rightarrow> action_place" and k and xs :: "action_spec list"
    by (simp add: image_image seconds)
  ultimately show ?thesis
    unfolding placed_actions_def set_append set_concat set_map image_Un image_UN spec_action_set_def
    by (simp add: case_prod_unfold image_image image_Un)
qed

lemma range_errors:
  "has_errors (check_range_boundary ctx spec) \<longleftrightarrow> (\<exists>a\<in>spec_action_set spec. \<not> arguments_in_range ctx spec a)"
proof -
  have "has_errors (check_range_boundary ctx spec) \<longleftrightarrow>
      (\<exists>x\<in>set (placed_actions spec). \<not> arguments_in_range ctx spec (snd x))"
    using action_range_error by (auto simp: check_range_boundary_def) (metis prod.collapse)+
  then show ?thesis by (auto simp flip: placed_actions_set)
qed

lemma unit_no_error: "\<not> has_errors (check_unit_consistency ctx spec)"
  by (auto simp: check_unit_consistency_def check_action_unit_def split: option.splits template_value.splits)

lemma approval_no_error: "\<not> has_errors (check_dangerous_action_approval ctx spec)"
  by (auto simp: check_dangerous_action_approval_def check_action_approval_def split: option.splits)

lemma interlock_no_error: "\<not> has_errors (check_mechanical_interlock env ctx spec)"
  by (auto simp: check_mechanical_interlock_def has_errors_map Let_def)

definition preconditions_readable :: "safety_env \<Rightarrow> compiler_context \<Rightarrow> workflow_spec \<Rightarrow> bool" where
  "preconditions_readable env ctx spec \<longleftrightarrow>
     (\<forall>a\<in>spec_action_set spec. \<forall>i cap dev cond w s. action_capability ctx a = Some (i, cap) \<longrightarrow>
        map_of (cx_devices ctx) (cb_device_id cap) = Some dev \<longrightarrow> cond \<in> set (cb_preconditions cap) \<longrightarrow>
        w \<in> set (extract_identifiers env cond) \<longrightarrow> find (\<lambda>s. sg_id s = w) (dv_signals dev) = Some s \<longrightarrow>
        is_signal_readable s)"

text \<open>A hash set is gone through completely, in some order.\<close>

definition complete_orders :: "safety_env \<Rightarrow> bool" where
  "complete_orders env \<longleftrightarrow> (\<forall>ids. set (ho_capabilities env ids) = set ids)"

lemma identifier_error:
  "w \<in> set (extract_identifiers env cond) \<Longrightarrow>
    has_errors (check_identifier i cond dev w) \<longleftrightarrow>
      (\<exists>s. find (\<lambda>s. sg_id s = w) (dv_signals dev) = Some s \<and> \<not> is_signal_readable s)"
  by (auto simp: extract_identifiers_def check_identifier_def split: option.split)

lemma capability_precondition_error:
  "has_errors (check_capability_preconditions env ctx i) \<longleftrightarrow>
    (\<exists>cap dev cond w s. map_of (cx_capabilities ctx) i = Some cap \<and> map_of (cx_devices ctx) (cb_device_id cap) = Some dev \<and>
       cond \<in> set (cb_preconditions cap) \<and> w \<in> set (extract_identifiers env cond) \<and>
       find (\<lambda>s. sg_id s = w) (dv_signals dev) = Some s \<and> \<not> is_signal_readable s)"
proof (cases "map_of (cx_capabilities ctx) i")
  case (Some cap)
  show ?thesis
  proof (cases "map_of (cx_devices ctx) (cb_device_id cap)")
    case (Some dev)
    then show ?thesis
      using \<open>map_of (cx_capabilities ctx) i = Some cap\<close> identifier_error [of _ env _ i dev]
      by (auto simp: check_capability_preconditions_def)
  qed (simp add: check_capability_preconditions_def Some)
qed (simp add: check_capability_preconditions_def)

lemma action_capability_iff:
  "action_capability ctx a = Some (i, cap) \<longleftrightarrow> as_target a = Capability i \<and> map_of (cx_capabilities ctx) i = Some cap"
  by (auto simp: action_capability_def split: action_target.split)

lemma precondition_errors:
  assumes "complete_orders env"
  shows "has_errors (check_precondition_reachability env ctx spec) \<longleftrightarrow> \<not> preconditions_readable env ctx spec"
proof -
  have "set (ho_capabilities env (used_capabilities spec)) = {i. \<exists>a\<in>spec_action_set spec. as_target a = Capability i}"
    using assms by (simp add: complete_orders_def used_capabilities_def capability_refs_set)
  then have "has_errors (check_precondition_reachability env ctx spec) \<longleftrightarrow>
      (\<exists>i. (\<exists>a\<in>spec_action_set spec. as_target a = Capability i) \<and> has_errors (check_capability_preconditions env ctx i))"
    by (auto simp: check_precondition_reachability_def)
  also have "\<dots> \<longleftrightarrow> \<not> preconditions_readable env ctx spec"
    unfolding preconditions_readable_def capability_precondition_error action_capability_iff by blast
  finally show ?thesis .
qed

definition unconditional_cycle_found :: "workflow_spec \<Rightarrow> bool" where
  "unconditional_cycle_found spec \<longleftrightarrow> (\<exists>c\<in>set (find_trigger_cycles spec). is_unconditional_cycle spec c)"

lemma state_graph_errors:
  "has_errors (check_state_machine_completeness env spec initial) \<longleftrightarrow> unconditional_cycle_found spec"
  by (auto simp: check_state_machine_completeness_def has_errors_map unconditional_cycle_found_def check_cycle_def)

lemma run_safety_errors:
  assumes "complete_orders env"
  shows "has_errors (run_safety_checks env ctx spec initial) \<longleftrightarrow>
    (\<exists>a\<in>spec_action_set spec. \<not> arguments_in_range ctx spec a) \<or> \<not> preconditions_readable env ctx spec \<or>
    unconditional_cycle_found spec"
  by (simp add: run_safety_checks_def unit_no_error range_errors precondition_errors [OF assms] state_graph_errors
      approval_no_error interlock_no_error)

lemma compile_with_safety_Inr:
  "compile_with_safety env ctx spec = Inr (out, report) \<longleftrightarrow>
    compile ctx spec = Inr out \<and> (\<exists>initial. compile_checks ctx spec = Inr initial \<and>
      report = run_safety_checks env ctx spec initial \<and> \<not> has_errors report)"
  by (auto simp: compile_with_safety_def compile_def and_then_Inr Let_def)

lemma safe_compile_accepts_spec:
  assumes "complete_orders env"
  shows "is_ok (compile_with_safety env (new_context ds cs) spec) \<longleftrightarrow>
    workflow_accepted ds cs spec \<and> (\<forall>a\<in>spec_action_set spec. arguments_in_range (new_context ds cs) spec a) \<and>
    preconditions_readable env (new_context ds cs) spec \<and> \<not> unconditional_cycle_found spec"
proof -
  let ?ctx = "new_context ds cs"
  have checks: "compile ?ctx spec = Inr out \<Longrightarrow> \<exists>initial. compile_checks ?ctx spec = Inr initial" for out
    by (auto simp: compile_def and_then_Inr)
  have "is_ok (compile_with_safety env ?ctx spec) \<longleftrightarrow>
      is_ok (compile ?ctx spec) \<and> (\<exists>initial. compile_checks ?ctx spec = Inr initial \<and> \<not> has_errors (run_safety_checks env ?ctx spec initial))"
    by (auto simp: is_ok_iff compile_with_safety_Inr)
  then show ?thesis
    using checks by (auto simp: run_safety_errors [OF assms] compile_accepts_spec [symmetric] is_ok_iff)
qed

text \<open>
  C28: with the safety rules the compiler accepts a workflow exactly when it accepts it without them, every
  argument known before the run lies in the range of its parameter, every signal a precondition names can
  be read, and no cycle the search reports is without conditions. Units, approvals and register conflicts
  only warn.
\<close>

theorem safe_compile_accepts_iff:
  assumes "complete_orders env"
  shows "is_ok (compile_with_safety env (new_context ds cs) spec) \<longleftrightarrow>
    workflow_accepted ds cs spec \<and> (\<forall>a\<in>spec_action_set spec. arguments_in_range (new_context ds cs) spec a) \<and>
    preconditions_readable env (new_context ds cs) spec \<and> \<not> unconditional_cycle_found spec"
  by (rule safe_compile_accepts_spec [OF assms])

definition demo_safety_env :: safety_env where
  "demo_safety_env = \<lparr>un_lower = to_ascii_lowercase, un_words = (\<lambda>s. [s]), ho_capabilities = rev, ho_interlocks = id, ho_devices = id\<rparr>"

lemma demo_orders: "complete_orders demo_safety_env"
  by (simp add: complete_orders_def demo_safety_env_def)

lemma demo_conditions:
  assumes "compile_checks demo_context spec = Inr initial" and "spec_action_set spec \<subseteq> {demo_action}"
    and "\<forall>t\<in>set (ws_transitions spec). \<not> is_unconditional_when (ts_when t)"
  shows "workflow_accepted [demo_press] [demo_move] spec \<and>
    (\<forall>a\<in>spec_action_set spec. arguments_in_range (new_context [demo_press] [demo_move]) spec a) \<and>
    preconditions_readable demo_safety_env (new_context [demo_press] [demo_move]) spec \<and> \<not> unconditional_cycle_found spec"
proof -
  have ctx: "new_context [demo_press] [demo_move] = demo_context" by (simp add: demo_context_def)
  have "is_ok (compile (new_context [demo_press] [demo_move]) spec)"
    by (rule compile_checked) (simp add: ctx assms(1))
  then have "workflow_accepted [demo_press] [demo_move] spec"
    by (simp add: compile_accepts_spec)
  moreover have used: "cap = demo_move" if "a \<in> spec_action_set spec" "action_capability demo_context a = Some (i, cap)" for a i cap
  proof -
    have "action_capability demo_context demo_action = Some (''move'', demo_move)" by code_simp
    then show ?thesis using that assms(2) by auto
  qed
  moreover have "arguments_in_range demo_context spec a" if "a \<in> spec_action_set spec" for a
  proof -
    have "action_capability demo_context a = Some (i, cap) \<Longrightarrow> cb_inputs cap = []" for i cap
      using used [OF that] by (simp add: demo_move_def)
    then show ?thesis by (fastforce simp: arguments_in_range_def input_param_def)
  qed
  moreover have "preconditions_readable demo_safety_env demo_context spec"
    using used by (fastforce simp: preconditions_readable_def demo_move_def)
  moreover have "\<not> unconditional_cycle_found spec"
  proof -
    have "\<not> has_unconditional_edge spec a b" for a b using assms(3) by (auto simp: has_unconditional_edge_def list_ex_iff)
    then have "\<not> is_unconditional_cycle spec c" for c by (cases c) (auto simp: is_unconditional_cycle_def list_all_iff)
    then show ?thesis by (simp add: unconditional_cycle_found_def)
  qed
  ultimately show ?thesis by (simp add: ctx)
qed

theorem safe_compile_accepts_iff_witness:
  "is_ok (compile_with_safety demo_safety_env (new_context [demo_press] [demo_move]) demo_spec)"
proof -
  have "\<not> is_unconditional_when ''payload.go == true''" "\<not> is_unconditional_when ''payload.stop''" by code_simp+
  then have "\<forall>t\<in>set (ws_transitions demo_spec). \<not> is_unconditional_when (ts_when t)" by (simp add: demo_spec_def)
  moreover have "spec_action_set demo_spec \<subseteq> {demo_action}" by (auto simp: spec_action_set_def demo_spec_def)
  ultimately show ?thesis
    using safe_compile_accepts_iff [OF demo_orders] demo_conditions [OF demo_checks] by blast
qed

text \<open>A workflow that goes round, with a state to park in and one it never reaches.\<close>

definition round_spec :: workflow_spec where
  "round_spec = demo_spec\<lparr>
     ws_states := [(''idle'', \<lparr>st_entry = [], st_exit = []\<rparr>), (''run'', \<lparr>st_entry = [demo_action], st_exit = []\<rparr>),
       (''halt'', \<lparr>st_entry = [], st_exit = []\<rparr>), (''lost'', \<lparr>st_entry = [], st_exit = []\<rparr>)],
     ws_transitions := map (\<lambda>(a, b, w). \<lparr>ts_from = a, ts_to = b, ts_when = w, ts_priority = None, ts_action = None\<rparr>)
       [(''idle'', ''run'', ''payload.go''), (''run'', ''idle'', ''payload.back''), (''run'', ''halt'', ''payload.halt'')]\<rparr>"

lemma round_checks: "compile_checks demo_context round_spec = Inr ''idle''"
proof -
  have "is_ok (validate_references demo_context round_spec)" by code_simp
  moreover have "is_ok (validate_workflow_spec round_spec)" by code_simp
  moreover have "is_ok (validate_supported_runtime_features round_spec)" by code_simp
  moreover have "is_ok (validate_sanitized_ids round_spec)" by code_simp
  moreover have "determine_initial_state round_spec = Inr ''idle''" by code_simp
  ultimately show ?thesis by (auto simp: compile_checks_def is_ok_iff)
qed

lemma round_safe:
  obtains out report where "compile_with_safety demo_safety_env (new_context [demo_press] [demo_move]) round_spec = Inr (out, report)"
proof -
  have "\<not> is_unconditional_when ''payload.go''" "\<not> is_unconditional_when ''payload.back''"
    "\<not> is_unconditional_when ''payload.halt''" by code_simp+
  then have "\<forall>t\<in>set (ws_transitions round_spec). \<not> is_unconditional_when (ts_when t)" by (simp add: round_spec_def)
  moreover have "spec_action_set round_spec \<subseteq> {demo_action}" by (auto simp: spec_action_set_def round_spec_def)
  ultimately have "is_ok (compile_with_safety demo_safety_env (new_context [demo_press] [demo_move]) round_spec)"
    using safe_compile_accepts_spec [OF demo_orders] demo_conditions [OF round_checks] by blast
  then show thesis using that by (auto simp: is_ok_iff)
qed

section \<open>Cycles\<close>

lemma certain_edges_declared:
  assumes "is_ok (compile_checks ctx spec)"
  shows "sources (certain_edges spec) \<subseteq> set (map fst (ws_states spec))"
proof -
  have "ws_timeout spec = []" "ws_on_timeout spec = None"
    using assms by (auto simp: compile_checks_ok validate_supported_ok)
  then have "\<forall>t\<in>set (ws_transitions spec). transition_ok spec t"
    using assms by (simp add: compile_checks_ok validate_workflow_spec_ok)
  then show ?thesis
    by (auto simp: sources_def certain_edges_def transition_ok_def hm_contains_iff)
qed

text \<open>The cycles, unreachable states and dead ends a report names.\<close>

definition reported :: "string \<Rightarrow> safety_report \<Rightarrow> string list set" where
  "reported key report = {xs. \<exists>d\<in>set report. sd_message d = Msg key xs}"

definition reported_at :: "diagnostic_level \<Rightarrow> string \<Rightarrow> safety_report \<Rightarrow> string list set" where
  "reported_at level key report = {xs. \<exists>d\<in>set report. sd_level d = level \<and> sd_message d = Msg key xs}"

lemma reported_at_append [simp]: "reported_at level key (ds @ es) = reported_at level key ds \<union> reported_at level key es"
  by (auto simp: reported_at_def)

lemma reported_at_none: "reported key ds = {} \<Longrightarrow> reported_at level key ds = {}"
  by (auto simp: reported_def reported_at_def)

lemma reported_append [simp]: "reported key (ds @ es) = reported key ds \<union> reported key es"
  by (auto simp: reported_def)

lemma messages [simp]:
  "sd_message (diag_with l r m s t c a) = m"
  "sd_message (placed_diag l r i pl m) = m"
  "sd_message (diag_error r m) = m"
  "sd_message (diag_warning r m) = m"
  by (simp_all add: diag_with_def placed_diag_def diag_error_def diag_warning_def split: prod.split)

definition graph_keys :: "string set" where
  "graph_keys = {''conditional-cycle'', ''unconditional-cycle'', ''unreachable-state'', ''dead-end-state''}"

lemma other_rules_silent:
  assumes "key \<in> graph_keys"
  shows "reported key (check_unit_consistency ctx spec) = {}" and "reported key (check_range_boundary ctx spec) = {}"
    and "reported key (check_precondition_reachability env ctx spec) = {}"
    and "reported key (check_dangerous_action_approval ctx spec) = {}"
    and "reported key (check_mechanical_interlock env ctx spec) = {}"
proof -
  have concat: "reported key (concat dss) = (\<Union>ds\<in>set dss. reported key ds)" for dss by (auto simp: reported_def)
  have cons: "reported key (d # ds) = {xs. sd_message d = Msg key xs} \<union> reported key ds" "reported key [] = {}" for d ds
    by (auto simp: reported_def)
  have key: "key \<noteq> ''unit-literal''" "key \<noteq> ''unit-variable''" "key \<noteq> ''literal-out-of-range''"
    "key \<noteq> ''initial-out-of-range''" "key \<noteq> ''initial-not-a-number''" "key \<noteq> ''variable-undeclared''" "key \<noteq> ''approval''"
    "key \<noteq> ''signal-not-readable''" "key \<noteq> ''not-a-signal''" "key \<noteq> ''register-conflict''"
    using assms by (auto simp: graph_keys_def)
  note key [THEN not_sym, simp]
  note [simp] = concat cons
  show "reported key (check_unit_consistency ctx spec) = {}"
    by (auto simp: check_unit_consistency_def check_action_unit_def split: option.splits template_value.splits if_splits)
  show "reported key (check_range_boundary ctx spec) = {}"
    by (auto simp: check_range_boundary_def check_action_range_def check_argument_range_def split: option.splits template_value.splits if_splits)
  show "reported key (check_precondition_reachability env ctx spec) = {}"
    by (auto simp: check_precondition_reachability_def check_capability_preconditions_def check_identifier_def split: option.splits if_splits)
  show "reported key (check_dangerous_action_approval ctx spec) = {}"
    by (auto simp: check_dangerous_action_approval_def check_action_approval_def split: option.splits if_splits)
  show "reported key (check_mechanical_interlock env ctx spec) = {}"
    by (auto simp: check_mechanical_interlock_def reported_def Let_def)
qed

lemma state_graph_report:
  fixes env ctx spec initial
  defines "report \<equiv> run_safety_checks env ctx spec initial"
  shows "reported ''unreachable-state'' report =
      {[s] | s. hm_contains (ws_states spec) s \<and> s \<notin> find_reachable_states spec initial}"
    and "reported ''dead-end-state'' report = {[s] | s. s \<in> set (find_dead_end_states env spec)}"
    and "reported_at DiagWarning ''conditional-cycle'' report =
      {c \<in> set (find_trigger_cycles spec). \<not> is_unconditional_cycle spec c}"
    and "reported_at DiagError ''unconditional-cycle'' report =
      {c \<in> set (find_trigger_cycles spec). is_unconditional_cycle spec c}"
proof -
  have cycle: "sd_message (check_cycle spec c) =
      Msg (if is_unconditional_cycle spec c then ''unconditional-cycle'' else ''conditional-cycle'') c"
    "sd_level (check_cycle spec c) = (if is_unconditional_cycle spec c then DiagError else DiagWarning)" for c
    by (simp_all add: check_cycle_def)
  show "reported ''unreachable-state'' report =
      {[s] | s. hm_contains (ws_states spec) s \<and> s \<notin> find_reachable_states spec initial}"
    "reported ''dead-end-state'' report = {[s] | s. s \<in> set (find_dead_end_states env spec)}"
    unfolding report_def run_safety_checks_def reported_append
    by (simp_all add: other_rules_silent graph_keys_def check_state_machine_completeness_def)
      (auto simp: reported_def hm_contains_iff cycle)
  show "reported_at DiagWarning ''conditional-cycle'' report =
      {c \<in> set (find_trigger_cycles spec). \<not> is_unconditional_cycle spec c}"
    "reported_at DiagError ''unconditional-cycle'' report =
      {c \<in> set (find_trigger_cycles spec). is_unconditional_cycle spec c}"
    unfolding report_def run_safety_checks_def reported_at_append
    by (simp_all add: reported_at_none other_rules_silent graph_keys_def check_state_machine_completeness_def)
      (auto simp: reported_at_def cycle split: if_splits)
qed

text \<open>The transitions between named states that need no condition.\<close>

definition free_edges :: "workflow_spec \<Rightarrow> edge_list" where
  "free_edges spec =
     map (\<lambda>t. (ts_from t, ts_to t))
       (filter (\<lambda>t. ts_from t \<noteq> ''*'' \<and> is_unconditional_when (ts_when t)) (ws_transitions spec))"

lemma closed_walk_nth:
  "closed_walk es c \<longleftrightarrow> c \<noteq> [] \<and> (\<forall>i < length c. (c ! i, c ! ((i + 1) mod length c)) \<in> set es)"
proof (cases "c = []")
  case False
  have "(c @ [hd c]) ! Suc i = c ! ((i + 1) mod length c)" if "i < length c" for i
    using that False by (cases "Suc i = length c") (auto simp: nth_append hd_conv_nth)
  then show ?thesis
    using False by (auto simp: closed_walk_def successively_conv_nth nth_append)
qed (simp add: closed_walk_def)

lemma unconditional_walk:
  assumes "closed_walk (certain_edges spec) c"
  shows "is_unconditional_cycle spec c \<longleftrightarrow> closed_walk (free_edges spec) c"
proof -
  have "a \<noteq> ''*''" if "(a, b) \<in> set (certain_edges spec)" for a b using that by (auto simp: certain_edges_def)
  then have "has_unconditional_edge spec (c ! i) (c ! ((i + 1) mod length c)) \<longleftrightarrow>
      (c ! i, c ! ((i + 1) mod length c)) \<in> set (free_edges spec)" if "i < length c" for i
    using assms that by (force simp: closed_walk_nth has_unconditional_edge_def free_edges_def list_ex_iff)
  then show ?thesis
    using assms by (auto simp: is_unconditional_cycle_def closed_walk_nth list_all_iff)
qed

text \<open>
  C29: of every workflow whose names and structure pass the earlier checks, accepted by the safety rules
  or not, the rule on the state graph reports some cycle, as an error or as a warning, exactly when the
  transitions between named states have one. Every cycle it reports can be gone through; the errors are
  the ones that can be gone through without a condition, the warnings the ones that cannot.
\<close>

theorem trigger_cycles_correct:
  assumes "compile_checks ctx spec = Inr initial"
  shows "let report = run_safety_checks env ctx spec initial;
             errors = reported_at DiagError ''unconditional-cycle'' report;
             warnings = reported_at DiagWarning ''conditional-cycle'' report
         in (errors \<union> warnings = {} \<longleftrightarrow> acyclic (set (certain_edges spec))) \<and>
           (\<forall>c\<in>errors \<union> warnings. closed_walk (certain_edges spec) c) \<and>
           (\<forall>c\<in>errors. closed_walk (free_edges spec) c) \<and>
           (\<forall>c\<in>warnings. \<not> closed_walk (free_edges spec) c)"
proof -
  have declared: "sources (certain_edges spec) \<subseteq> set (map fst (ws_states spec))"
    using assms by (intro certain_edges_declared [of ctx]) simp
  note search = find_cycles_correct [OF declared]
  have walks: "closed_walk (certain_edges spec) c" if "c \<in> set (find_trigger_cycles spec)" for c
    using search(2) that by (simp add: find_trigger_cycles_def)
  have "find_trigger_cycles spec = [] \<longleftrightarrow> acyclic (set (certain_edges spec))"
    using search(1) by (simp add: find_trigger_cycles_def)
  then show ?thesis
    using walks unconditional_walk by (auto simp: Let_def state_graph_report)
qed

theorem trigger_cycles_correct_witness:
  "\<exists>initial. compile_checks demo_context round_spec = Inr initial \<and> \<not> acyclic (set (certain_edges round_spec)) \<and>
    reported_at DiagError ''unconditional-cycle'' (run_safety_checks demo_safety_env demo_context round_spec initial) \<union>
    reported_at DiagWarning ''conditional-cycle'' (run_safety_checks demo_safety_env demo_context round_spec initial) \<noteq> {}"
proof -
  have "(''idle'', ''idle'') \<in> (set (certain_edges round_spec))\<^sup>+"
    by (rule trancl_trans [of _ "''run''"]; rule r_into_trancl) (simp_all add: certain_edges_def round_spec_def)
  then have "\<not> acyclic (set (certain_edges round_spec))" by (auto simp: acyclic_def)
  then show ?thesis
    using trigger_cycles_correct [OF round_checks, of demo_safety_env] round_checks by (auto simp: Let_def)
qed

text \<open>
  A cycle without conditions may be missed: only one cycle is recorded through a node the search has
  left. The machine below goes from \<open>A\<close> to \<open>D\<close> and back unconditionally, but the search meets \<open>D\<close> through
  \<open>B\<close> and records \<open>A\<close>, \<open>B\<close>, \<open>D\<close>, one of whose transitions has a condition.
\<close>

definition detour_spec :: workflow_spec where
  "detour_spec = demo_spec\<lparr>
     ws_states := [(''A'', \<lparr>st_entry = [], st_exit = []\<rparr>), (''B'', \<lparr>st_entry = [], st_exit = []\<rparr>),
       (''D'', \<lparr>st_entry = [], st_exit = []\<rparr>)],
     ws_transitions := map (\<lambda>(a, b, w). (hd (ws_transitions demo_spec))\<lparr>ts_from := a, ts_to := b, ts_when := w\<rparr>)
       [(''A'', ''B'', ''payload.go''), (''B'', ''D'', ''payload.go''), (''A'', ''D'', ''true''), (''D'', ''A'', ''true'')]\<rparr>"

lemma detour_cycles: "find_trigger_cycles detour_spec = [[''A'', ''B'', ''D'']]"
  by code_simp

lemma unconditional_cycle_missed:
  "is_unconditional_cycle detour_spec [''A'', ''D''] \<and> \<not> unconditional_cycle_found detour_spec"
proof -
  have "\<not> is_unconditional_cycle detour_spec [''A'', ''B'', ''D'']" by code_simp
  moreover have "is_unconditional_cycle detour_spec [''A'', ''D'']" by code_simp
  ultimately show ?thesis by (simp add: unconditional_cycle_found_def detour_cycles)
qed

section \<open>At run time\<close>

lemma compile_checks_initial: "compile_checks ctx spec = Inr initial \<Longrightarrow> determine_initial_state spec = Inr initial"
  by (auto simp: compile_checks_def and_then_Inr)

lemma dead_end_stays:
  assumes "s \<in> set (find_dead_end_states env spec)" and "(s, s') \<in> (state_moves spec)\<^sup>*"
  shows "s' = s"
proof -
  have "\<forall>t\<in>set (ws_transitions spec). ts_from t \<noteq> ''*'' \<and> ts_from t \<noteq> s"
    using assms(1) by (auto simp: find_dead_end_states_def list_ex_iff)
  then have "(s, u) \<notin> state_moves spec" for u by (auto simp: state_moves_def)
  then show ?thesis using assms(2) by (auto elim: converse_rtranclE)
qed

text \<open>
  C30: the warnings on the state graph are true of the running machine, on any messages on which its
  conditions do not disturb each other, a message refused because a condition fails included. It never
  holds a state the report calls unreachable, and once it is in a state the report calls a dead end, no
  message moves it.
\<close>

theorem safety_report_true_at_run_time:
  assumes "compile_with_safety env (new_context ds cs) spec = Inr (out, report)"
    and "determine_initial_state spec = Inr initial"
    and "new_state_machine engine (sm_id spec) (machine_of spec initial) = Inr node"
    and "\<forall>(_, p)\<in>set (ps @ qs). independent_conditions engine (machine_of spec initial) p"
  shows "\<exists>wf w rs vs s. de_workflow_file out = Some wf \<and>
    build_workflow_variables now (wf_variables wf) = Inr w \<and>
    sm_run engine node ps (Some w) = (rs, vs) \<and> holds_state node s vs \<and>
    [s] \<notin> reported ''unreachable-state'' report \<and>
    ([s] \<in> reported ''dead-end-state'' report \<longrightarrow>
       (\<exists>rs' vs'. sm_run engine node qs vs = (rs', vs') \<and> holds_state node s vs'))"
proof -
  obtain i where c: "compile (new_context ds cs) spec = Inr out" "compile_checks (new_context ds cs) spec = Inr i"
    "report = run_safety_checks env (new_context ds cs) spec i" "\<not> has_errors report"
    using assms(1) by (auto simp: compile_with_safety_Inr)
  have i: "i = initial" using compile_checks_initial [OF c(2)] assms(2) by simp
  note graph = state_graph_report(1,2) [of env "new_context ds cs" spec i, folded c(3), unfolded i find_reachable_states]
  obtain wf w where w: "de_workflow_file out = Some wf" "build_workflow_variables now (wf_variables wf) = Inr w"
    "holds_state node initial (Some w)"
    by (rule compiled_start [OF c(1) assms(2,3)])
  have ind: "\<forall>(_, p)\<in>set ps. independent_conditions engine (machine_of spec initial) p"
    "\<forall>(_, p)\<in>set qs. independent_conditions engine (machine_of spec initial) p"
    using assms(4) by auto
  define s where "s = fst (spec_run engine (sm_id spec) (machine_of spec initial) initial (map snd ps))"
  obtain rs vs where run: "sm_run engine node ps (Some w) = (rs, vs)" "holds_state node s vs"
    using state_machine_refines_spec [OF assms(3) ind(1) w(3)] by (auto simp: s_def)
  have "[s] \<notin> reported ''unreachable-state'' report"
    using spec_run_moves [of initial engine "sm_id spec" spec initial "map snd ps"] by (auto simp: graph(1) s_def)
  moreover have "\<exists>rs' vs'. sm_run engine node qs vs = (rs', vs') \<and> holds_state node s vs'"
    if "[s] \<in> reported ''dead-end-state'' report"
  proof -
    have "fst (spec_run engine (sm_id spec) (machine_of spec initial) s (map snd qs)) = s"
      using that by (intro dead_end_stays [OF _ spec_run_moves]) (auto simp: graph(2))
    then show ?thesis using state_machine_refines_spec [OF assms(3) ind(2) run(2)] by auto
  qed
  ultimately show ?thesis using w(1,2) run by blast
qed

theorem safety_report_true_at_run_time_witness:
  "\<exists>node wf w rs vs s out report.
    compile_with_safety demo_safety_env (new_context [demo_press] [demo_move]) round_spec = Inr (out, report) \<and>
    de_workflow_file out = Some wf \<and> build_workflow_variables 0 (wf_variables wf) = Inr w \<and>
    sm_run demo_engine node [(1, JNull)] (Some w) = (rs, vs) \<and> holds_state node s vs \<and> s \<noteq> ''lost''"
proof -
  obtain out report where r: "compile_with_safety demo_safety_env (new_context [demo_press] [demo_move]) round_spec = Inr (out, report)"
    by (rule round_safe)
  have start: "determine_initial_state round_spec = Inr ''idle''" by code_simp
  obtain node where node: "new_state_machine demo_engine (sm_id round_spec) (machine_of round_spec ''idle'') = Inr node"
    by (rule demo_machine)
  obtain i where c: "compile_checks (new_context [demo_press] [demo_move]) round_spec = Inr i"
    "report = run_safety_checks demo_safety_env (new_context [demo_press] [demo_move]) round_spec i" "\<not> has_errors report"
    using r by (auto simp: compile_with_safety_Inr)
  have i: "i = ''idle''" using compile_checks_initial [OF c(1)] start by simp
  have "(s, ''lost'') \<notin> state_moves round_spec" for s by (auto simp: state_moves_def round_spec_def)
  then have "''lost'' \<notin> find_reachable_states round_spec i"
    by (auto simp: find_reachable_states i elim: rtranclE)
  moreover have "hm_contains (ws_states round_spec) ''lost''" by code_simp
  ultimately have "[''lost''] \<in> reported ''unreachable-state'' report"
    by (simp add: c(2) state_graph_report(1))
  then show ?thesis
    using safety_report_true_at_run_time [where now = 0 and ps = "[(1, JNull)]" and qs = "[]",
      OF r start node demo_independent_all] r by metis
qed

end
