(* ===== verification/Conn_Spec.thy ===== *)
theory Conn_Spec
  imports Json_Build Dsl_Types Conn_Health
begin

text \<open>
  Connection assets: \<open>crates/dsl-core/src/connection.rs\<close>, their validation, and
  \<open>src-tauri/src/connection_resolver.rs\<close>, which turns one into the definition the pool takes. The store of
  secrets and local overrides is an argument.
\<close>

section \<open>Assets\<close>

datatype serial_parity = ParityNone | ParityOdd | ParityEven

datatype serial_flow_control = FlowNone | FlowSoftware | FlowHardware

datatype http_method = HttpGet | HttpPost | HttpPut | HttpPatch | HttpDelete

datatype header_value = Literal string | SecretRef string

record header_spec =
  hs_name :: string
  hs_value :: header_value

datatype ethercat_backend = Ethercrab | MockBackend

record serial_settings =
  ss_port_path :: string
  ss_baud_rate :: u32
  ss_data_bits :: u8
  ss_parity :: serial_parity
  ss_stop_bits :: u8
  ss_flow_control :: serial_flow_control
  ss_encoding :: "string option"
  ss_delimiter :: "string option"
  ss_read_timeout_ms :: "u64 option"
  ss_idle_gap_ms :: "u64 option"
  ss_max_frame_bytes :: "u64 option"
  ss_trim :: "bool option"

record ethercat_settings =
  es_backend :: ethercat_backend
  es_interface :: string
  es_cycle_time_ms :: u64
  es_cycle_time_us :: "u64 option"
  es_dc_sync0_period_us :: "u64 option"
  es_dc_sync0_shift_us :: "u64 option"
  es_dc_start_delay_us :: "u64 option"
  es_op_timeout_ms :: u64

datatype connection_protocol =
    ModbusTcp string u16 "u8 option"
  | Serial serial_settings
  | Mqtt string u16 string "string option"
  | Http string http_method "header_spec list"
  | Bark string "u64 option"
  | CanSlcan string u32 u32
  | Ethercat ethercat_settings

record connection_governance_spec =
  cg_connect_timeout_ms :: u64
  cg_operation_timeout_ms :: u64
  cg_heartbeat_interval_ms :: u64
  cg_heartbeat_timeout_ms :: u64
  cg_rate_limit_max_attempts :: u32
  cg_rate_limit_window_ms :: u64
  cg_rate_limit_cooldown_ms :: u64
  cg_circuit_failure_threshold :: u32
  cg_circuit_open_ms :: u64
  cg_reconnect_base_ms :: u64
  cg_reconnect_max_ms :: u64

record connection_spec =
  ca_id :: string
  ca_protocol :: connection_protocol
  ca_governance :: connection_governance_spec
  ca_secrets :: "(string \<times> string) list"
  ca_labels :: "string list"
  ca_description :: "string option"

section \<open>Validation\<close>

text \<open>A check yields an error or passes; the first error of a list of checks is returned.\<close>

definition validation_error :: "string \<Rightarrow> msg \<Rightarrow> dsl_error" where
  "validation_error context m = Validation (Msg ''connection'' [context]) m"

definition validate_non_empty :: "string \<Rightarrow> string \<Rightarrow> string \<Rightarrow> dsl_error option" where
  "validate_non_empty context f v =
     (if trim_utf8 v = [] then Some (validation_error context (Msg ''must-not-be-empty'' [f])) else None)"

definition validate_port :: "string \<Rightarrow> string \<Rightarrow> u16 \<Rightarrow> dsl_error option" where
  "validate_port c f v = (if v = 0 then Some (validation_error c (Msg ''port-range'' [f])) else None)"

definition validate_positive :: "string \<Rightarrow> string \<Rightarrow> 'a::len word \<Rightarrow> dsl_error option" where
  "validate_positive c f v = (if v = 0 then Some (validation_error c (Msg ''must-be-positive'' [f])) else None)"

definition validate_positive_opt :: "string \<Rightarrow> string \<Rightarrow> u64 option \<Rightarrow> dsl_error option" where
  "validate_positive_opt c f v = Option.bind v (validate_positive c f)"

definition supported_bitrates :: "u32 list" where
  "supported_bitrates = [10000, 20000, 50000, 100000, 125000, 250000, 500000, 800000, 1000000]"

definition validate_can_bitrate :: "string \<Rightarrow> u32 \<Rightarrow> dsl_error option" where
  "validate_can_bitrate c v =
     (if v \<in> set supported_bitrates then None else Some (validation_error c (Msg ''bitrate-unsupported'' [])))"

definition validate_serial_frame_params :: "string \<Rightarrow> u8 \<Rightarrow> u8 \<Rightarrow> dsl_error option" where
  "validate_serial_frame_params c data_bits stop_bits =
     (if \<not> (5 \<le> data_bits \<and> data_bits \<le> 8) then Some (validation_error c (Msg ''data-bits'' []))
      else if \<not> (stop_bits = 1 \<or> stop_bits = 2) then Some (validation_error c (Msg ''stop-bits'' []))
      else None)"

definition is_sensitive_header :: "string \<Rightarrow> bool" where
  "is_sensitive_header name \<longleftrightarrow>
     to_ascii_lowercase (trim_utf8 name) \<in> {''authorization'', ''proxy-authorization'', ''cookie'', ''x-api-key'', ''api-key''}"

definition secret_prefix :: string where
  "secret_prefix = ''secret://''"

fun first_error_of :: "dsl_error option list \<Rightarrow> dsl_error option" where
  "first_error_of [] = None"
| "first_error_of (Some e # es) = Some e"
| "first_error_of (None # es) = first_error_of es"

definition validate_secret_ref :: "string \<Rightarrow> string \<Rightarrow> dsl_error option" where
  "validate_secret_ref c v =
     first_error_of
       [validate_non_empty c ''secret-ref'' v,
        if starts_with v secret_prefix then None else Some (validation_error c (Msg ''secret-prefix'' []))]"

definition validate_header :: "string \<Rightarrow> header_spec \<Rightarrow> dsl_error option" where
  "validate_header c h =
     first_error_of
       [validate_non_empty c ''protocol.headers.name'' (hs_name h),
        (case hs_value h of
           Literal v \<Rightarrow>
             first_error_of
               [validate_non_empty c ''protocol.headers.value'' v,
                if is_sensitive_header (hs_name h) then Some (validation_error c (Msg ''sensitive-header'' [])) else None]
         | SecretRef i \<Rightarrow> validate_secret_ref c i)]"

definition validate_headers :: "string \<Rightarrow> header_spec list \<Rightarrow> dsl_error option" where
  "validate_headers c hs = first_error_of (map (validate_header c) hs)"

definition validate_secret_refs :: "string \<Rightarrow> (string \<times> string) list \<Rightarrow> dsl_error option" where
  "validate_secret_refs c secrets =
     first_error_of (map (\<lambda>(k, v). first_error_of [validate_non_empty c ''secrets.key'' k, validate_secret_ref c v]) secrets)"

definition validate_ethercat_params :: "string \<Rightarrow> ethercat_settings \<Rightarrow> dsl_error option" where
  "validate_ethercat_params c s =
     first_error_of
       ([validate_non_empty c ''protocol.interface'' (es_interface s),
         validate_positive c ''protocol.cycle_time_ms'' (es_cycle_time_ms s),
         validate_positive_opt c ''protocol.cycle_time_us'' (es_cycle_time_us s),
         validate_positive_opt c ''protocol.dc_sync0_period_us'' (es_dc_sync0_period_us s),
         validate_positive_opt c ''protocol.dc_start_delay_us'' (es_dc_start_delay_us s),
         validate_positive c ''protocol.op_timeout_ms'' (es_op_timeout_ms s)] @
        (if es_backend s = Ethercrab then
           [if es_dc_sync0_period_us s = None then Some (validation_error c (Msg ''dc-sync0-period-required'' [])) else None,
            if es_dc_sync0_shift_us s = None then Some (validation_error c (Msg ''dc-sync0-shift-required'' [])) else None,
            if es_dc_start_delay_us s = None then Some (validation_error c (Msg ''dc-start-delay-required'' [])) else None]
         else []))"

fun protocol_error :: "string \<Rightarrow> connection_protocol \<Rightarrow> dsl_error option" where
  "protocol_error c (ModbusTcp host port unit_id) =
     first_error_of [validate_non_empty c ''protocol.host'' host, validate_port c ''protocol.port'' port]"
| "protocol_error c (Serial s) =
     first_error_of
       [validate_non_empty c ''protocol.port_path'' (ss_port_path s),
        validate_positive c ''protocol.baud_rate'' (ss_baud_rate s),
        validate_serial_frame_params c (ss_data_bits s) (ss_stop_bits s),
        validate_positive_opt c ''protocol.read_timeout_ms'' (ss_read_timeout_ms s),
        validate_positive_opt c ''protocol.idle_gap_ms'' (ss_idle_gap_ms s),
        validate_positive_opt c ''protocol.max_frame_bytes'' (ss_max_frame_bytes s)]"
| "protocol_error c (Mqtt host port topic client_id) =
     first_error_of
       [validate_non_empty c ''protocol.host'' host, validate_port c ''protocol.port'' port,
        validate_non_empty c ''protocol.topic'' topic]"
| "protocol_error c (Http url method headers) =
     first_error_of [validate_non_empty c ''protocol.url'' url, validate_headers c headers]"
| "protocol_error c (Bark server_url timeout) =
     first_error_of
       [validate_non_empty c ''protocol.server_url'' server_url,
        validate_positive_opt c ''protocol.request_timeout_ms'' timeout]"
| "protocol_error c (CanSlcan channel baud_rate bitrate) =
     first_error_of
       [validate_non_empty c ''protocol.channel'' channel, validate_positive c ''protocol.baud_rate'' baud_rate,
        validate_can_bitrate c bitrate]"
| "protocol_error c (Ethercat s) = validate_ethercat_params c s"

definition governance_error :: "string \<Rightarrow> connection_governance_spec \<Rightarrow> dsl_error option" where
  "governance_error c g =
     first_error_of
       [validate_positive c ''governance.connect_timeout_ms'' (cg_connect_timeout_ms g),
        validate_positive c ''governance.operation_timeout_ms'' (cg_operation_timeout_ms g),
        validate_positive c ''governance.heartbeat_interval_ms'' (cg_heartbeat_interval_ms g),
        validate_positive c ''governance.heartbeat_timeout_ms'' (cg_heartbeat_timeout_ms g),
        validate_positive c ''governance.rate_limit_max_attempts'' (cg_rate_limit_max_attempts g),
        validate_positive c ''governance.rate_limit_window_ms'' (cg_rate_limit_window_ms g),
        validate_positive c ''governance.rate_limit_cooldown_ms'' (cg_rate_limit_cooldown_ms g),
        validate_positive c ''governance.circuit_failure_threshold'' (cg_circuit_failure_threshold g),
        validate_positive c ''governance.circuit_open_ms'' (cg_circuit_open_ms g),
        validate_positive c ''governance.reconnect_base_ms'' (cg_reconnect_base_ms g),
        validate_positive c ''governance.reconnect_max_ms'' (cg_reconnect_max_ms g),
        if cg_heartbeat_timeout_ms g \<le> cg_heartbeat_interval_ms g
        then Some (validation_error c (Msg ''heartbeat-timeout'' [])) else None,
        if cg_reconnect_max_ms g < cg_reconnect_base_ms g
        then Some (validation_error c (Msg ''reconnect-max'' [])) else None]"

definition connection_spec_validate :: "connection_spec \<Rightarrow> unit dsl_result" where
  "connection_spec_validate spec =
     (case first_error_of
             [validate_non_empty ''connection'' ''id'' (ca_id spec), protocol_error (ca_id spec) (ca_protocol spec),
              governance_error (ca_id spec) (ca_governance spec), validate_secret_refs (ca_id spec) (ca_secrets spec)] of
        Some e \<Rightarrow> Inl e
      | None \<Rightarrow> Inr ())"

section \<open>The store\<close>

record asset_store =
  load_connection_secret :: "string \<Rightarrow> string \<Rightarrow> msg + string option"
  list_local_overrides :: "string \<Rightarrow> string \<Rightarrow> msg + (string \<times> json) list"

type_synonym 'a resolved = "msg + 'a"

definition resolve_secret_ref :: "string \<Rightarrow> string \<Rightarrow> asset_store option \<Rightarrow> string resolved" where
  "resolve_secret_ref c ref store =
     (if \<not> starts_with ref secret_prefix then Inl (Msg ''secret-prefix'' [c])
      else
        (let key = drop (length secret_prefix) ref in
         case store of
           None \<Rightarrow> Inl (Msg ''store-not-ready'' [c, key])
         | Some st \<Rightarrow>
             (case load_connection_secret st c key of
                Inl e \<Rightarrow> Inl (Msg ''secret-unreadable'' [c, key])
              | Inr None \<Rightarrow> Inl (Msg ''secret-missing'' [c, key])
              | Inr (Some v) \<Rightarrow> Inr v)))"

definition resolve_header_value :: "string \<Rightarrow> header_value \<Rightarrow> asset_store option \<Rightarrow> string resolved" where
  "resolve_header_value c v store =
     (case v of Literal s \<Rightarrow> Inr s | SecretRef i \<Rightarrow> resolve_secret_ref c i store)"

section \<open>Resolution\<close>

fun parity_tag :: "serial_parity \<Rightarrow> string" where
  "parity_tag ParityNone = ''none''" | "parity_tag ParityOdd = ''odd''" | "parity_tag ParityEven = ''even''"

fun flow_control_tag :: "serial_flow_control \<Rightarrow> string" where
  "flow_control_tag FlowNone = ''none''" | "flow_control_tag FlowSoftware = ''software''"
| "flow_control_tag FlowHardware = ''hardware''"

fun http_method_tag :: "http_method \<Rightarrow> string" where
  "http_method_tag HttpGet = ''GET''" | "http_method_tag HttpPost = ''POST''" | "http_method_tag HttpPut = ''PUT''"
| "http_method_tag HttpPatch = ''PATCH''" | "http_method_tag HttpDelete = ''DELETE''"

fun backend_tag :: "ethercat_backend \<Rightarrow> string" where
  "backend_tag Ethercrab = ''ethercrab''" | "backend_tag MockBackend = ''mock''"

fun resolve_connection_kind :: "connection_protocol \<Rightarrow> string" where
  "resolve_connection_kind (ModbusTcp _ _ _) = ''modbus''"
| "resolve_connection_kind (Serial _) = ''serial''"
| "resolve_connection_kind (Mqtt _ _ _ _) = ''mqtt''"
| "resolve_connection_kind (Http _ _ _) = ''http''"
| "resolve_connection_kind (Bark _ _) = ''bark''"
| "resolve_connection_kind (CanSlcan _ _ _) = ''can-slcan''"
| "resolve_connection_kind (Ethercat _) = ''ethercat''"

definition insert_optional :: "string \<Rightarrow> ('a \<Rightarrow> json) \<Rightarrow> 'a option \<Rightarrow> (string \<times> json) list" where
  "insert_optional k f v = (case v of None \<Rightarrow> [] | Some x \<Rightarrow> [(k, f x)])"

definition insert_header :: "string \<Rightarrow> asset_store option \<Rightarrow> json_map \<Rightarrow> header_spec \<Rightarrow> json_map resolved" where
  "insert_header c store m h =
     and_then (resolve_header_value c (hs_value h) store) (\<lambda>v. Inr (bt_put (hs_name h) (JString v) m))"

text \<open>The entries a protocol inserts into the metadata, in order.\<close>

fun protocol_entries :: "string \<Rightarrow> asset_store option \<Rightarrow> connection_protocol \<Rightarrow> (string \<times> json) list resolved" where
  "protocol_entries c store (ModbusTcp host port unit_id) =
     Inr ([(''host'', JString host), (''port'', json_word port)] @ insert_optional ''unit_id'' json_word unit_id)"
| "protocol_entries c store (Serial s) =
     Inr ([(''port_path'', JString (ss_port_path s)), (''baud_rate'', json_word (ss_baud_rate s)),
           (''data_bits'', json_word (ss_data_bits s)), (''parity'', JString (parity_tag (ss_parity s))),
           (''stop_bits'', json_word (ss_stop_bits s)), (''flow_control'', JString (flow_control_tag (ss_flow_control s)))] @
          insert_optional ''encoding'' JString (ss_encoding s) @
          insert_optional ''delimiter'' JString (ss_delimiter s) @
          insert_optional ''read_timeout_ms'' json_word (ss_read_timeout_ms s) @
          insert_optional ''idle_gap_ms'' json_word (ss_idle_gap_ms s) @
          insert_optional ''max_frame_bytes'' json_word (ss_max_frame_bytes s) @
          insert_optional ''trim'' JBool (ss_trim s))"
| "protocol_entries c store (Mqtt host port topic client_id) =
     Inr ([(''host'', JString host), (''port'', json_word port), (''topic'', JString topic)] @
          insert_optional ''client_id'' JString client_id)"
| "protocol_entries c store (Http url method headers) =
     and_then (try_fold (insert_header c store) [] headers) (\<lambda>hm.
     Inr ([(''url'', JString url), (''method'', JString (http_method_tag method))] @
          (if hm = [] then [] else [(''headers'', JObject hm)])))"
| "protocol_entries c store (Bark server_url timeout) =
     Inr ([(''server_url'', JString server_url)] @ insert_optional ''request_timeout_ms'' json_word timeout)"
| "protocol_entries c store (CanSlcan channel baud_rate bitrate) =
     Inr [(''interface'', JString ''slcan''), (''channel'', JString channel), (''baud_rate'', json_word baud_rate),
          (''bitrate'', json_word bitrate)]"
| "protocol_entries c store (Ethercat s) =
     Inr ([(''backend'', JString (backend_tag (es_backend s))), (''interface'', JString (es_interface s)),
           (''cycle_time_ms'', json_word (es_cycle_time_ms s))] @
          insert_optional ''cycle_time_us'' json_word (es_cycle_time_us s) @
          insert_optional ''dc_sync0_period_us'' json_word (es_dc_sync0_period_us s) @
          insert_optional ''dc_sync0_shift_us'' json_word (es_dc_sync0_shift_us s) @
          insert_optional ''dc_start_delay_us'' json_word (es_dc_start_delay_us s) @
          [(''op_timeout_ms'', json_word (es_op_timeout_ms s))])"

definition put_all :: "(string \<times> json) list \<Rightarrow> json_map \<Rightarrow> json_map" where
  "put_all es m = fold (\<lambda>(k, v). bt_put k v) es m"

definition protocol_to_runtime_metadata ::
    "string \<Rightarrow> connection_protocol \<Rightarrow> asset_store option \<Rightarrow> (string \<times> json_map) resolved" where
  "protocol_to_runtime_metadata c p store =
     and_then (protocol_entries c store p) (\<lambda>es. Inr (resolve_connection_kind p, put_all es []))"

definition governance_json :: "connection_governance_spec \<Rightarrow> json" where
  "governance_json g =
     json_object
       [(''connect_timeout_ms'', json_word (cg_connect_timeout_ms g)),
        (''operation_timeout_ms'', json_word (cg_operation_timeout_ms g)),
        (''heartbeat_interval_ms'', json_word (cg_heartbeat_interval_ms g)),
        (''heartbeat_timeout_ms'', json_word (cg_heartbeat_timeout_ms g)),
        (''rate_limit_max_attempts'', json_word (cg_rate_limit_max_attempts g)),
        (''rate_limit_window_ms'', json_word (cg_rate_limit_window_ms g)),
        (''rate_limit_cooldown_ms'', json_word (cg_rate_limit_cooldown_ms g)),
        (''circuit_failure_threshold'', json_word (cg_circuit_failure_threshold g)),
        (''circuit_open_ms'', json_word (cg_circuit_open_ms g)),
        (''reconnect_base_ms'', json_word (cg_reconnect_base_ms g)),
        (''reconnect_max_ms'', json_word (cg_reconnect_max_ms g))]"

definition insert_governance_metadata :: "connection_governance_spec \<Rightarrow> json_map \<Rightarrow> json_map" where
  "insert_governance_metadata g m = bt_put ''governance'' (governance_json g) m"

definition insert_secret :: "string \<Rightarrow> asset_store option \<Rightarrow> json_map \<Rightarrow> string \<times> string \<Rightarrow> json_map resolved" where
  "insert_secret c store m kr =
     and_then (resolve_secret_ref c (snd kr) store) (\<lambda>v. Inr (bt_put (fst kr) (JString v) m))"

definition insert_secret_metadata ::
    "string \<Rightarrow> json_map \<Rightarrow> (string \<times> string) list \<Rightarrow> asset_store option \<Rightarrow> json_map resolved" where
  "insert_secret_metadata c m secrets store = try_fold (insert_secret c store) m secrets"

definition apply_local_overrides ::
    "string \<Rightarrow> string option \<Rightarrow> json_map \<Rightarrow> asset_store option \<Rightarrow> json_map resolved" where
  "apply_local_overrides c environment m store =
     (case (environment, store) of
        (Some env, Some st) \<Rightarrow>
          (case list_local_overrides st c env of
             Inl e \<Rightarrow> Inl (Msg ''overrides-unreadable'' [c])
           | Inr items \<Rightarrow> Inr (put_all items m))
      | _ \<Rightarrow> Inr m)"

definition runtime_metadata ::
    "connection_spec \<Rightarrow> string option \<Rightarrow> asset_store option \<Rightarrow> (string \<times> json_map) resolved" where
  "runtime_metadata spec environment store =
     and_then (protocol_to_runtime_metadata (ca_id spec) (ca_protocol spec) store) (\<lambda>(kind, m0).
     and_then (insert_secret_metadata (ca_id spec) (insert_governance_metadata (ca_governance spec) m0) (ca_secrets spec) store)
       (\<lambda>m1.
     and_then (apply_local_overrides (ca_id spec) environment m1 store) (\<lambda>m2. Inr (kind, m2))))"

definition build_probe_metadata ::
    "connection_spec \<Rightarrow> string option \<Rightarrow> asset_store option \<Rightarrow> json_map resolved" where
  "build_probe_metadata spec environment store = and_then (runtime_metadata spec environment store) (\<lambda>(_, m). Inr m)"

definition resolve_definition ::
    "connection_spec \<Rightarrow> string option \<Rightarrow> asset_store option \<Rightarrow> connection_definition resolved" where
  "resolve_definition spec environment store =
     and_then (runtime_metadata spec environment store)
       (\<lambda>(kind, m). Inr \<lparr>cd_id = ca_id spec, cd_kind = kind, cd_metadata = JObject m\<rparr>)"

text \<open>An asset file is what reading and parsing it gave.\<close>

definition resolve_file ::
    "string option \<Rightarrow> asset_store option \<Rightarrow> string set option \<Rightarrow> connection_definition list \<times> nat \<Rightarrow>
     connection_spec resolved \<Rightarrow> (connection_definition list \<times> nat) resolved" where
  "resolve_file environment store ids acc read_result =
     and_then read_result (\<lambda>spec.
     and_then (map_sum (\<lambda>e. Msg ''asset-invalid'' [ca_id spec]) id (connection_spec_validate spec)) (\<lambda>_.
     if (case ids of Some wanted \<Rightarrow> ca_id spec \<notin> wanted | None \<Rightarrow> False) then Inr (fst acc, snd acc + 1)
     else and_then (resolve_definition spec environment store) (\<lambda>d. Inr (fst acc @ [d], snd acc))))"

definition resolve_connection_definitions ::
    "string option \<Rightarrow> asset_store option \<Rightarrow> string list option \<Rightarrow> connection_spec resolved list \<Rightarrow>
     (connection_definition list \<times> nat) resolved" where
  "resolve_connection_definitions environment store ids assets =
     try_fold (resolve_file environment store (map_option set ids)) ([], 0) assets"

end
