(* ===== verification/Conn_Spec_Correct.thy ===== *)
theory Conn_Spec_Correct
  imports Conn_Spec Conn_Validation Serde
begin

text \<open>
  What resolving a connection asset gives: when it succeeds, what the metadata holds, that the pool takes
  the definition of a validated asset, and the governance policy then in force.
\<close>

section \<open>Secrets\<close>

definition secret_value :: "string \<Rightarrow> asset_store option \<Rightarrow> string \<Rightarrow> string option" where
  "secret_value c store ref =
     (case store of
        Some st \<Rightarrow>
          if starts_with ref secret_prefix then
            (case load_connection_secret st c (drop (length secret_prefix) ref) of Inr v \<Rightarrow> v | Inl _ \<Rightarrow> None)
          else None
      | None \<Rightarrow> None)"

lemma resolve_secret_ref_Inr: "resolve_secret_ref c ref store = Inr v \<longleftrightarrow> secret_value c store ref = Some v"
  by (auto simp: resolve_secret_ref_def secret_value_def Let_def split: option.splits sum.splits)

lemma is_ok_secret: "is_ok (resolve_secret_ref c ref store) \<longleftrightarrow> secret_value c store ref \<noteq> None"
  by (auto simp: is_ok_iff resolve_secret_ref_Inr)

definition secret_entries :: "string \<Rightarrow> asset_store option \<Rightarrow> (string \<times> string) list \<Rightarrow> (string \<times> json) list" where
  "secret_entries c store secrets = map (\<lambda>(k, r). (k, JString (the (secret_value c store r)))) secrets"

lemma insert_secret_Inr:
  "insert_secret_metadata c m secrets store = Inr m' \<longleftrightarrow>
    (\<forall>r\<in>snd ` set secrets. secret_value c store r \<noteq> None) \<and> m' = put_all (secret_entries c store secrets) m"
proof (induction secrets arbitrary: m)
  case (Cons kr secrets)
  obtain k r where kr: "kr = (k, r)" by (cases kr)
  show ?case
  proof (cases "resolve_secret_ref c r store")
    case (Inl e)
    then have "secret_value c store r = None" using is_ok_secret [of c r store] by (simp add: is_ok_iff)
    then show ?thesis by (simp add: kr insert_secret_metadata_def insert_secret_def Inl)
  next
    case (Inr v)
    then have "secret_value c store r = Some v" by (simp add: resolve_secret_ref_Inr)
    then show ?thesis
      using Cons.IH [of "bt_put k (JString v) m"]
      by (simp add: kr insert_secret_metadata_def insert_secret_def Inr secret_entries_def put_all_def)
  qed
qed (auto simp: insert_secret_metadata_def secret_entries_def put_all_def)

fun header_secrets :: "connection_protocol \<Rightarrow> string set" where
  "header_secrets (Http url verb hs) = {r. \<exists>h\<in>set hs. hs_value h = SecretRef r}"
| "header_secrets _ = {}"

lemma header_fold_ok:
  "is_ok (try_fold (insert_header c store) m hs) \<longleftrightarrow>
    (\<forall>h\<in>set hs. \<forall>r. hs_value h = SecretRef r \<longrightarrow> secret_value c store r \<noteq> None)"
proof (induction hs arbitrary: m)
  case (Cons h hs)
  have "is_ok (resolve_header_value c (hs_value h) store) \<longleftrightarrow> (\<forall>r. hs_value h = SecretRef r \<longrightarrow> secret_value c store r \<noteq> None)"
    by (cases "hs_value h") (simp_all add: resolve_header_value_def is_ok_secret is_ok_iff [of "Inr _"])
  then show ?case
    using Cons.IH by (cases "resolve_header_value c (hs_value h) store") (simp_all add: insert_header_def is_ok_iff)
qed (simp add: is_ok_iff)

lemma protocol_entries_ok:
  "is_ok (protocol_entries c store p) \<longleftrightarrow> (\<forall>r\<in>header_secrets p. secret_value c store r \<noteq> None)"
proof (cases p)
  case (Http url verb hs)
  then show ?thesis using header_fold_ok [of c store "[]" hs]
    by (cases "try_fold (insert_header c store) [] hs") (auto simp: is_ok_iff)
qed (simp_all add: is_ok_iff)

section \<open>The layers of the metadata\<close>

definition overrides_readable :: "string \<Rightarrow> string option \<Rightarrow> asset_store option \<Rightarrow> bool" where
  "overrides_readable c environment store \<longleftrightarrow>
     (case (environment, store) of (Some env, Some st) \<Rightarrow> is_ok (list_local_overrides st c env) | _ \<Rightarrow> True)"

definition override_items :: "string \<Rightarrow> string option \<Rightarrow> asset_store option \<Rightarrow> (string \<times> json) list" where
  "override_items c environment store =
     (case (environment, store) of
        (Some env, Some st) \<Rightarrow> (case list_local_overrides st c env of Inr items \<Rightarrow> items | Inl _ \<Rightarrow> [])
      | _ \<Rightarrow> [])"

lemma apply_overrides_Inr:
  "apply_local_overrides c environment m store = Inr m' \<longleftrightarrow>
    overrides_readable c environment store \<and> m' = put_all (override_items c environment store) m"
  by (auto simp: apply_local_overrides_def overrides_readable_def override_items_def put_all_def is_ok_iff
      split: option.splits sum.splits)

lemma map_of_put_all: "map_of (put_all es m) = map_of m ++ map_of (rev es)"
proof (induction es arbitrary: m)
  case (Cons e es)
  obtain k v where e: "e = (k, v)" by (cases e)
  show ?case using Cons.IH [of "bt_put k v m"]
    by (auto simp: put_all_def e fun_eq_iff map_add_def map_of_bt_put split: option.splits)
qed (simp add: put_all_def)

definition layered :: "connection_spec \<Rightarrow> string option \<Rightarrow> asset_store option \<Rightarrow> (string \<times> json) list \<Rightarrow> json_map" where
  "layered spec environment store es =
     put_all (override_items (ca_id spec) environment store)
       (put_all (secret_entries (ca_id spec) store (ca_secrets spec))
         (insert_governance_metadata (ca_governance spec) (put_all es [])))"

lemma resolve_definition_Inr:
  "resolve_definition spec environment store = Inr d \<longleftrightarrow>
    (\<forall>r\<in>snd ` set (ca_secrets spec). secret_value (ca_id spec) store r \<noteq> None) \<and>
    overrides_readable (ca_id spec) environment store \<and>
    (\<exists>es. protocol_entries (ca_id spec) store (ca_protocol spec) = Inr es \<and>
       d = \<lparr>cd_id = ca_id spec, cd_kind = resolve_connection_kind (ca_protocol spec),
            cd_metadata = JObject (layered spec environment store es)\<rparr>)"
  by (auto simp: resolve_definition_def runtime_metadata_def protocol_to_runtime_metadata_def and_then_Inr
      insert_secret_Inr apply_overrides_Inr layered_def)

text \<open>
  C32: resolving an asset fails exactly when a secret it names, in a header or in its list of secrets, is
  not to be had from the store, or the local overrides of the environment cannot be read.
\<close>

theorem resolution_succeeds_iff:
  "is_ok (resolve_definition spec environment store) \<longleftrightarrow>
    (\<forall>r\<in>header_secrets (ca_protocol spec) \<union> snd ` set (ca_secrets spec). secret_value (ca_id spec) store r \<noteq> None) \<and>
    overrides_readable (ca_id spec) environment store"
proof -
  have "is_ok (resolve_definition spec environment store) \<longleftrightarrow>
      (\<forall>r\<in>snd ` set (ca_secrets spec). secret_value (ca_id spec) store r \<noteq> None) \<and>
      overrides_readable (ca_id spec) environment store \<and>
      is_ok (protocol_entries (ca_id spec) store (ca_protocol spec))"
    by (auto simp: is_ok_iff resolve_definition_Inr)
  then show ?thesis by (auto simp: protocol_entries_ok)
qed

text \<open>
  C33: a field of the resolved metadata is the local override of the environment, where there is one;
  otherwise the secret of that name; otherwise, for \<open>governance\<close>, the policy of the asset; otherwise
  what the protocol says.
\<close>

theorem metadata_layers:
  assumes "resolve_definition spec environment store = Inr d"
    and "protocol_entries (ca_id spec) store (ca_protocol spec) = Inr es"
  shows "\<exists>m. cd_metadata d = JObject m \<and>
    map_of m = map_of (rev es) ++ [''governance'' \<mapsto> governance_json (ca_governance spec)] ++
      map_of (rev (secret_entries (ca_id spec) store (ca_secrets spec))) ++
      map_of (rev (override_items (ca_id spec) environment store))"
  using assms
  by (auto simp: resolve_definition_Inr layered_def map_of_put_all insert_governance_metadata_def map_of_bt_put
      fun_eq_iff map_add_def split: option.splits)

section \<open>The pool takes a validated asset\<close>

text \<open>The fields that secrets and overrides set.\<close>

definition local_keys :: "connection_spec \<Rightarrow> string option \<Rightarrow> asset_store option \<Rightarrow> string set" where
  "local_keys spec environment store =
     fst ` set (ca_secrets spec) \<union> fst ` set (override_items (ca_id spec) environment store)"

lemma layered_local:
  assumes "k \<notin> local_keys spec environment store"
  shows "map_of (layered spec environment store es) k =
    (if k = ''governance'' then Some (governance_json (ca_governance spec)) else map_of (rev es) k)"
proof -
  have "k \<notin> fst ` set (override_items (ca_id spec) environment store)"
    "k \<notin> fst ` set (secret_entries (ca_id spec) store (ca_secrets spec))"
    using assms by (force simp: local_keys_def secret_entries_def)+
  then have "map_of (rev (override_items (ca_id spec) environment store)) k = None"
    "map_of (rev (secret_entries (ca_id spec) store (ca_secrets spec))) k = None"
    by (simp_all add: map_of_eq_None_iff)
  then show ?thesis
    by (simp add: layered_def map_of_put_all insert_governance_metadata_def map_of_bt_put map_add_def)
qed

text \<open>The fields of a protocol that the pool looks at.\<close>

fun checked_fields :: "connection_protocol \<Rightarrow> string set" where
  "checked_fields (ModbusTcp _ _ _) = {''host'', ''port''}"
| "checked_fields (Serial _) = {''port_path'', ''baud_rate''}"
| "checked_fields (Mqtt _ _ _ _) = {''host'', ''topic''}"
| "checked_fields (Http _ _ _) = {''url''}"
| "checked_fields (Bark _ _) = {''server_url''}"
| "checked_fields (CanSlcan _ _ _) = {''interface'', ''channel'', ''baud_rate'', ''bitrate''}"
| "checked_fields (Ethercat _) =
     {''backend'', ''interface'', ''cycle_time_ms'', ''cycle_time_us'', ''dc_sync0_period_us'', ''dc_start_delay_us'',
      ''op_timeout_ms''}"

text \<open>What the pool asks beyond the checks of the asset: an address that parses and, for Bark, a device key.\<close>

fun pool_extra :: "(string \<Rightarrow> string option) \<Rightarrow> json_map option \<Rightarrow> connection_protocol \<Rightarrow> bool" where
  "pool_extra u md (Http url verb hs) \<longleftrightarrow> u (trim_utf8 url) = None"
| "pool_extra u md (Bark server_url timeout) \<longleftrightarrow>
     text_field md ''device_key'' \<noteq> [] \<and> u (trim_utf8 server_url) = None"
| "pool_extra u md _ \<longleftrightarrow> True"

lemma first_error_None: "first_error_of es = None \<longleftrightarrow> (\<forall>e\<in>set es. e = None)"
proof (induction es)
  case (Cons e es)
  then show ?case by (cases e) auto
qed simp

lemma spec_valid:
  "connection_spec_validate spec = Inr () \<longleftrightarrow>
    validate_non_empty ''connection'' ''id'' (ca_id spec) = None \<and> protocol_error (ca_id spec) (ca_protocol spec) = None \<and>
    governance_error (ca_id spec) (ca_governance spec) = None \<and> validate_secret_refs (ca_id spec) (ca_secrets spec) = None"
  proof -
  have "connection_spec_validate spec = Inr () \<longleftrightarrow> first_error_of
      [validate_non_empty ''connection'' ''id'' (ca_id spec), protocol_error (ca_id spec) (ca_protocol spec),
       governance_error (ca_id spec) (ca_governance spec), validate_secret_refs (ca_id spec) (ca_secrets spec)] = None"
    by (simp add: connection_spec_validate_def split: option.split)
  then show ?thesis by (simp only: first_error_None list.set ball_simps simp_thms)
qed

lemma non_empty_None [simp]: "validate_non_empty c f v = None \<longleftrightarrow> trim_utf8 v \<noteq> []"
  by (simp add: validate_non_empty_def)

lemma positive_None [simp]: "validate_positive c f v = None \<longleftrightarrow> v \<noteq> 0"
  by (simp add: validate_positive_def)

lemma port_None [simp]: "validate_port c f v = None \<longleftrightarrow> v \<noteq> 0"
  by (simp add: validate_port_def)

lemma positive_opt_None [simp]: "validate_positive_opt c f v = None \<longleftrightarrow> v \<noteq> Some 0"
  by (cases v) (simp_all add: validate_positive_opt_def)

lemma insert_optional_simps [simp]:
  "insert_optional k f None = []" "insert_optional k f (Some x) = [(k, f x)]"
  by (simp_all add: insert_optional_def)

lemma map_of_optional [simp]:
  "map_of (rev (insert_optional k f v)) k' = (if k' = k then map_option f v else None)"
  by (cases v) simp_all

lemma field_layered:
  assumes "f \<notin> local_keys spec environment store" and "f \<noteq> ''governance''"
  shows "field (Some (layered spec environment store es)) f = map_of (rev es) f"
  using layered_local [OF assms(1), of es] assms(2) by (simp add: field_def)

lemma ucast_zero: "LENGTH('a) \<le> 64 \<Longrightarrow> (ucast w :: u64) = 0 \<longleftrightarrow> w = (0 :: 'a::len word)"
  by (metis unat_ucast_u64 unsigned_eq_0_iff)

lemma u64_word [simp]: "as_u64 (json_word w) = Some (ucast w)"
  by (simp add: json_word_def as_u64_Some)

lemmas plain_texts = normalize_connection_kind_def trim_utf8_ascii ascii_def trim_def trim_start_def is_space_def
  to_ascii_lowercase_def ascii_lower_def

lemma known_texts:
  "normalize_connection_kind ''modbus'' = ''modbus''" "normalize_connection_kind ''serial'' = ''serial''"
  "normalize_connection_kind ''mqtt'' = ''mqtt''" "normalize_connection_kind ''http'' = ''http''"
  "normalize_connection_kind ''bark'' = ''bark''" "normalize_connection_kind ''can-slcan'' = ''can-slcan''"
  "normalize_connection_kind ''ethercat'' = ''ethercat''"
  "trim_utf8 ''slcan'' = ''slcan''"
  by (simp_all add: plain_texts)

lemma backend_texts: "trim_utf8 (backend_tag b) = backend_tag b" "to_ascii_lowercase (backend_tag b) = backend_tag b"
proof -
  have "trim_utf8 ''ethercrab'' = ''ethercrab''" "trim_utf8 ''mock'' = ''mock''"
    "to_ascii_lowercase ''ethercrab'' = ''ethercrab''" "to_ascii_lowercase ''mock'' = ''mock''"
    by (simp_all add: plain_texts)
  then show "trim_utf8 (backend_tag b) = backend_tag b" "to_ascii_lowercase (backend_tag b) = backend_tag b"
    by (cases b; simp)+
qed

lemma supported_bitrate: "v \<in> set supported_bitrates \<Longrightarrow> ucast v \<in> set can_bitrates \<and> ucast v \<noteq> (0 :: u64)"
  by (auto simp: supported_bitrates_def can_bitrates_def)

text \<open>\<open>reads md es p\<close>: the fields the pool looks at hold what the protocol inserted.\<close>

definition reads :: "json_map option \<Rightarrow> (string \<times> json) list \<Rightarrow> connection_protocol \<Rightarrow> bool" where
  "reads md es p \<longleftrightarrow> (\<forall>f\<in>checked_fields p. field md f = map_of (rev es) f)"

lemma reads_field: "reads md es p \<Longrightarrow> f \<in> checked_fields p \<Longrightarrow> field md f = map_of (rev es) f"
  by (simp add: reads_def)

lemma accepted_modbus:
  assumes "reads md es (ModbusTcp host port unit_id)" and "protocol_entries c store (ModbusTcp host port unit_id) = Inr es"
    and "protocol_error c (ModbusTcp host port unit_id) = None"
  shows "validate_modbus md = None"
proof -
  have "field md ''host'' = Some (JString host)" "field md ''port'' = Some (json_word port)"
    using assms(1,2) by (cases unit_id; auto simp: reads_def)+
  moreover have "unat port < 2 ^ 16" using unsigned_less [of port] by simp
  then have "ucast port \<le> (65535 :: u64)" by (simp add: word_le_nat_alt unat_ucast_u64)
  ultimately show ?thesis
    using assms(3) by (simp add: validate_modbus_def text_field_def u64_field_def first_error_None ucast_zero not_less)
qed

lemma accepted_serial:
  assumes "reads md es (Serial s)" and "protocol_entries c store (Serial s) = Inr es" and "protocol_error c (Serial s) = None"
  shows "validate_serial md = None"
proof -
  note es = assms(2) [simplified, symmetric]
  have "field md ''port_path'' = Some (JString (ss_port_path s))" "field md ''baud_rate'' = Some (json_word (ss_baud_rate s))"
    by (simp_all add: reads_field [OF assms(1)] es map_add_def split: option.split)
  then show ?thesis
    using assms(3) by (simp add: validate_serial_def text_field_def u64_field_def first_error_None ucast_zero)
qed

lemma accepted_mqtt:
  assumes "reads md es (Mqtt host port topic client_id)" and "protocol_entries c store (Mqtt host port topic client_id) = Inr es"
    and "protocol_error c (Mqtt host port topic client_id) = None"
  shows "validate_mqtt md = None"
proof -
  have "field md ''host'' = Some (JString host)" "field md ''topic'' = Some (JString topic)"
    using assms(1,2) by (cases client_id; auto simp: reads_def)+
  then show ?thesis using assms(3) by (simp add: validate_mqtt_def text_field_def first_error_None)
qed

lemma accepted_http:
  assumes "reads md es (Http url verb hs)" and "protocol_entries c store (Http url verb hs) = Inr es"
    and "protocol_error c (Http url verb hs) = None"
  shows "validate_http u md = None \<longleftrightarrow> u (trim_utf8 url) = None"
proof -
  have "field md ''url'' = Some (JString url)"
    using assms(1,2) by (auto simp: reads_def and_then_Inr split: if_splits)
  then show ?thesis using assms(3) by (simp add: validate_http_def text_field_def first_error_None)
qed

lemma accepted_bark:
  assumes "reads md es (Bark server_url timeout)" and "protocol_entries c store (Bark server_url timeout) = Inr es"
    and "protocol_error c (Bark server_url timeout) = None"
  shows "validate_bark u md = None \<longleftrightarrow> text_field md ''device_key'' \<noteq> [] \<and> u (trim_utf8 server_url) = None"
proof -
  have "field md ''server_url'' = Some (JString server_url)"
    using assms(1,2) by (cases timeout; auto simp: reads_def)
  then have "text_field md ''server_url'' = trim_utf8 server_url" by (simp add: text_field_def)
  then show ?thesis using assms(3) by (simp add: validate_bark_def first_error_None)
qed

lemma accepted_can:
  assumes "reads md es (CanSlcan channel baud_rate bitrate)"
    and "protocol_entries c store (CanSlcan channel baud_rate bitrate) = Inr es"
    and "protocol_error c (CanSlcan channel baud_rate bitrate) = None"
  shows "validate_can md = None"
proof -
  have f: "field md ''interface'' = Some (JString ''slcan'')" "field md ''channel'' = Some (JString channel)"
    "field md ''baud_rate'' = Some (json_word baud_rate)" "field md ''bitrate'' = Some (json_word bitrate)"
    using assms(1,2) by (auto simp: reads_def)
  have "bitrate \<in> set supported_bitrates" "trim_utf8 channel \<noteq> []" "baud_rate \<noteq> 0"
    using assms(3) by (simp_all add: first_error_None validate_can_bitrate_def split: if_splits)
  then show ?thesis
    using supported_bitrate [of bitrate] f
    by (simp add: known_texts validate_can_def text_field_def u64_field_def ucast_zero)
qed

lemma accepted_ethercat:
  assumes "reads md es (Ethercat s)" and "protocol_entries c store (Ethercat s) = Inr es"
    and "protocol_error c (Ethercat s) = None"
  shows "validate_ethercat md = None"
proof -
  note es = assms(2) [simplified, symmetric]
  have f: "field md ''backend'' = Some (JString (backend_tag (es_backend s)))"
    "field md ''interface'' = Some (JString (es_interface s))"
    "field md ''cycle_time_ms'' = Some (json_word (es_cycle_time_ms s))"
    "field md ''op_timeout_ms'' = Some (json_word (es_op_timeout_ms s))"
    "field md ''cycle_time_us'' = map_option json_word (es_cycle_time_us s)"
    "field md ''dc_sync0_period_us'' = map_option json_word (es_dc_sync0_period_us s)"
    "field md ''dc_start_delay_us'' = map_option json_word (es_dc_start_delay_us s)"
    by (simp_all add: reads_field [OF assms(1)] es map_add_def split: option.split)
  have "trim_utf8 (es_interface s) \<noteq> []" "es_cycle_time_ms s \<noteq> 0" "es_op_timeout_ms s \<noteq> 0" "es_cycle_time_us s \<noteq> Some 0"
    "es_dc_sync0_period_us s \<noteq> Some 0" "es_dc_start_delay_us s \<noteq> Some 0"
    using assms(3) by (simp_all add: validate_ethercat_params_def first_error_None)
  moreover have "backend_tag (es_backend s) \<in> {''ethercrab'', ''mock''}" by (cases "es_backend s") simp_all
  ultimately show ?thesis
    using f by (auto simp: backend_texts validate_ethercat_def text_field_def u64_field_def zero_field_def ucast_zero
        split: option.split)
qed

text \<open>
  C31: the pool takes every definition resolved from a validated asset whose secrets and local overrides
  leave the fields of its protocol alone, except that the address of an HTTP or Bark asset also has to
  parse and that a Bark asset needs a device key, which only a secret or an override can give.
\<close>

theorem validated_asset_accepted:
  assumes valid: "connection_spec_validate spec = Inr ()"
    and resolved: "resolve_definition spec environment store = Inr d"
    and local: "checked_fields (ca_protocol spec) \<inter> local_keys spec environment store = {}"
  shows "validate_connection_definition u (cd_kind d) (cd_metadata d) = Inr () \<longleftrightarrow>
    pool_extra u (metadata_object (cd_metadata d)) (ca_protocol spec)"
proof -
  obtain es where es: "protocol_entries (ca_id spec) store (ca_protocol spec) = Inr es"
    and d: "d = \<lparr>cd_id = ca_id spec, cd_kind = resolve_connection_kind (ca_protocol spec),
            cd_metadata = JObject (layered spec environment store es)\<rparr>"
    using resolved by (auto simp: resolve_definition_Inr)
  let ?md = "Some (layered spec environment store es)"
  have md: "metadata_object (JObject (layered spec environment store es)) = ?md" by (simp add: metadata_object_def)
  have "''governance'' \<notin> checked_fields (ca_protocol spec)" by (cases "ca_protocol spec") simp_all
  then have own: "reads ?md es (ca_protocol spec)"
    unfolding reads_def using local by (intro ballI field_layered) auto
  have p: "protocol_error (ca_id spec) (ca_protocol spec) = None" using valid by (simp add: spec_valid)
  note pool = validate_connection_definition_def Let_def d md known_texts no_reason
  show ?thesis
  proof (cases "ca_protocol spec")
    case (ModbusTcp host port unit_id)
    from accepted_modbus [OF own [unfolded this] es [unfolded this] p [unfolded this]] show ?thesis
      by (simp add: ModbusTcp pool)
  next
    case (Serial s)
    from accepted_serial [OF own [unfolded this] es [unfolded this] p [unfolded this]] show ?thesis
      by (simp add: Serial pool)
  next
    case (Mqtt host port topic client_id)
    from accepted_mqtt [OF own [unfolded this] es [unfolded this] p [unfolded this]] show ?thesis
      by (simp add: Mqtt pool)
  next
    case (Http url verb hs)
    from accepted_http [OF own [unfolded this] es [unfolded this] p [unfolded this]] show ?thesis
      by (simp add: Http pool)
  next
    case (Bark server_url timeout)
    from accepted_bark [OF own [unfolded this] es [unfolded this] p [unfolded this]] show ?thesis
      by (simp add: Bark pool)
  next
    case (CanSlcan channel baud_rate bitrate)
    from accepted_can [OF own [unfolded this] es [unfolded this] p [unfolded this]] show ?thesis
      by (simp add: CanSlcan pool)
  next
    case (Ethercat s)
    from accepted_ethercat [OF own [unfolded this] es [unfolded this] p [unfolded this]] show ?thesis
      by (simp add: Ethercat pool)
  qed
qed

section \<open>The policy in force\<close>

text \<open>The lower limits applied to a policy.\<close>

definition floored :: "connection_governance_spec \<Rightarrow> governance_policy" where
  "floored g =
     \<lparr>connect_timeout_ms = max (cg_connect_timeout_ms g) 200, operation_timeout_ms = max (cg_operation_timeout_ms g) 200,
      heartbeat_interval_ms = max (cg_heartbeat_interval_ms g) 250,
      heartbeat_timeout_ms = max (cg_heartbeat_timeout_ms g) 500,
      rate_limit_max_attempts = max (cg_rate_limit_max_attempts g) 1,
      rate_limit_window_ms = max (cg_rate_limit_window_ms g) 500,
      rate_limit_cooldown_ms = max (cg_rate_limit_cooldown_ms g) 500,
      circuit_failure_threshold = max (cg_circuit_failure_threshold g) 1,
      circuit_open_ms = max (cg_circuit_open_ms g) 1000, reconnect_base_ms = max (cg_reconnect_base_ms g) 200,
      reconnect_max_ms = max (cg_reconnect_max_ms g) 500\<rparr>"

lemma u32_word: "u32_try_from (ucast (w :: u32)) = Some w"
proof -
  have "unat w < 2 ^ 32" using unsigned_less [of w] by simp
  then show ?thesis by (simp add: u32_try_from_def unat_ucast_u64 ucast_ucast_u64 del: One_nat_def)
qed

lemma policy_of_governance:
  assumes "map_of m ''governance'' = Some (governance_json g)"
  shows "policy_from_metadata (JObject m) = floored g"
  using assms
  by (simp add: policy_from_metadata_def governance_u64_def governance_u32_def governance_value_def metadata_object_def
        governance_json_def json_object_members u32_word floored_def Let_def)

text \<open>
  The governance policy of a resolved asset, unless a secret or an override replaces it, is the one
  of the asset with the lower limits of the pool applied; the limits keep the heartbeat timeout above its
  interval and the longest wait before a reconnect above the shortest.
\<close>

theorem policy_in_force:
  assumes "connection_spec_validate spec = Inr ()" and "resolve_definition spec environment store = Inr d"
    and "''governance'' \<notin> local_keys spec environment store"
  shows "policy_from_metadata (cd_metadata d) = floored (ca_governance spec) \<and>
    heartbeat_interval_ms (policy_from_metadata (cd_metadata d)) < heartbeat_timeout_ms (policy_from_metadata (cd_metadata d)) \<and>
    reconnect_base_ms (policy_from_metadata (cd_metadata d)) \<le> reconnect_max_ms (policy_from_metadata (cd_metadata d))"
proof -
  let ?g = "ca_governance spec"
  obtain es where "cd_metadata d = JObject (layered spec environment store es)"
    using assms(2) by (auto simp: resolve_definition_Inr)
  then have policy: "policy_from_metadata (cd_metadata d) = floored ?g"
    using policy_of_governance layered_local [OF assms(3), of es] by simp
  have "governance_error (ca_id spec) ?g = None" using assms(1) by (simp add: spec_valid)
  then have "cg_heartbeat_interval_ms ?g < cg_heartbeat_timeout_ms ?g" "cg_reconnect_base_ms ?g \<le> cg_reconnect_max_ms ?g"
    by (simp_all add: governance_error_def first_error_None not_le not_less split: if_splits)
  then show ?thesis
    unfolding policy by (auto simp: floored_def less_max_iff_disj max_less_iff_conj le_max_iff_disj not_less not_le
        intro: order_le_less_trans [of _ 500] order_trans [of _ 500])
qed

section \<open>A small store\<close>

definition demo_governance :: connection_governance_spec where
  "demo_governance =
     \<lparr>cg_connect_timeout_ms = 100, cg_operation_timeout_ms = 5000, cg_heartbeat_interval_ms = 100,
      cg_heartbeat_timeout_ms = 200, cg_rate_limit_max_attempts = 8, cg_rate_limit_window_ms = 10000,
      cg_rate_limit_cooldown_ms = 4000, cg_circuit_failure_threshold = 3, cg_circuit_open_ms = 15000,
      cg_reconnect_base_ms = 800, cg_reconnect_max_ms = 8000\<rparr>"

definition demo_push :: connection_spec where
  "demo_push =
     \<lparr>ca_id = ''push'', ca_protocol = Bark ''https://b'' (Some 900), ca_governance = demo_governance,
      ca_secrets = [(''device_key'', ''secret://k'')], ca_labels = [], ca_description = None\<rparr>"

definition demo_store :: asset_store where
  "demo_store =
     \<lparr>load_connection_secret = (\<lambda>c k. if k = ''k'' then Inr (Some ''abc'') else Inr None),
      list_local_overrides = (\<lambda>c env. Inr [(''group'', JString env)])\<rparr>"

lemma demo_push_valid: "connection_spec_validate demo_push = Inr ()"
  by code_simp

lemma demo_push_entries: "protocol_entries (ca_id demo_push) (Some demo_store) (ca_protocol demo_push) =
  Inr [(''server_url'', JString ''https://b''), (''request_timeout_ms'', JNumber (PosInt 900))]"
  by (simp add: demo_push_def json_word_def)

lemma demo_push_resolved:
  obtains d where "resolve_definition demo_push (Some ''lab'') (Some demo_store) = Inr d"
proof -
  have "\<forall>r\<in>snd ` set (ca_secrets demo_push). secret_value (ca_id demo_push) (Some demo_store) r \<noteq> None"
    by code_simp
  moreover have "overrides_readable (ca_id demo_push) (Some ''lab'') (Some demo_store)"
    by (simp add: overrides_readable_def demo_store_def is_ok_iff)
  ultimately show thesis using that demo_push_entries resolve_definition_Inr by blast
qed

lemma demo_push_local: "local_keys demo_push (Some ''lab'') (Some demo_store) = {''group'', ''device_key''}"
  by (simp add: local_keys_def override_items_def demo_push_def demo_store_def)

theorem resolution_succeeds_iff_witness:
  "is_ok (resolve_definition demo_push (Some ''lab'') (Some demo_store)) \<and>
    \<not> is_ok (resolve_definition demo_push (Some ''lab'') None)"
proof -
  have "\<forall>r\<in>header_secrets (ca_protocol demo_push) \<union> snd ` set (ca_secrets demo_push).
      secret_value (ca_id demo_push) (Some demo_store) r = Some ''abc''"
    by (simp add: demo_push_def demo_store_def secret_value_def secret_prefix_def starts_with_def)
  moreover have "overrides_readable (ca_id demo_push) (Some ''lab'') (Some demo_store)"
    by (simp add: overrides_readable_def demo_store_def is_ok_iff)
  moreover have "secret_value (ca_id demo_push) None ''secret://k'' = None" "''secret://k'' \<in> snd ` set (ca_secrets demo_push)"
    by (simp_all add: secret_value_def demo_push_def)
  ultimately show ?thesis
    using resolution_succeeds_iff [of demo_push "Some ''lab''" "Some demo_store"]
      resolution_succeeds_iff [of demo_push "Some ''lab''" None] by auto
qed

theorem metadata_layers_witness:
  "\<exists>d m. resolve_definition demo_push (Some ''lab'') (Some demo_store) = Inr d \<and> cd_metadata d = JObject m \<and>
    map_of m ''device_key'' = Some (JString ''abc'') \<and> map_of m ''group'' = Some (JString ''lab'')"
proof -
  obtain d where d: "resolve_definition demo_push (Some ''lab'') (Some demo_store) = Inr d" by (rule demo_push_resolved)
  have "secret_entries (ca_id demo_push) (Some demo_store) (ca_secrets demo_push) = [(''device_key'', JString ''abc'')]"
    by code_simp
  then show ?thesis
    using metadata_layers [OF d demo_push_entries] d
    by (auto simp: override_items_def demo_store_def)
qed

theorem validated_asset_accepted_witness:
  "\<exists>d. resolve_definition demo_push (Some ''lab'') (Some demo_store) = Inr d \<and>
    validate_connection_definition (\<lambda>_. None) (cd_kind d) (cd_metadata d) = Inr ()"
proof -
  obtain d where d: "resolve_definition demo_push (Some ''lab'') (Some demo_store) = Inr d" by (rule demo_push_resolved)
  have local: "checked_fields (ca_protocol demo_push) \<inter> local_keys demo_push (Some ''lab'') (Some demo_store) = {}"
    unfolding demo_push_local by (simp add: demo_push_def)
  obtain es where m: "cd_metadata d = JObject (layered demo_push (Some ''lab'') (Some demo_store) es)"
    using d by (auto simp: resolve_definition_Inr)
  have "secret_entries (ca_id demo_push) (Some demo_store) (ca_secrets demo_push) = [(''device_key'', JString ''abc'')]"
    by code_simp
  then have "map_of (layered demo_push (Some ''lab'') (Some demo_store) es) ''device_key'' = Some (JString ''abc'')"
    by (simp add: layered_def map_of_put_all map_add_def override_items_def demo_store_def split: option.split)
  then have "text_field (metadata_object (cd_metadata d)) ''device_key'' = ''abc''"
    by (simp add: m text_field_def field_def metadata_object_def plain_texts)
  then show ?thesis
    using validated_asset_accepted [OF demo_push_valid d local, of "\<lambda>_. None"] d by (simp add: demo_push_def)
qed

theorem policy_in_force_witness:
  "\<exists>d. resolve_definition demo_push (Some ''lab'') (Some demo_store) = Inr d \<and>
    heartbeat_interval_ms (policy_from_metadata (cd_metadata d)) = 250"
proof -
  obtain d where d: "resolve_definition demo_push (Some ''lab'') (Some demo_store) = Inr d" by (rule demo_push_resolved)
  have "''governance'' \<notin> local_keys demo_push (Some ''lab'') (Some demo_store)" by (simp add: demo_push_local)
  then show ?thesis
    using policy_in_force [OF demo_push_valid d] d by (simp add: floored_def demo_push_def demo_governance_def)
qed

text \<open>A Bark asset without secrets passes its own validation but never that of the pool.\<close>

lemma bark_without_key:
  "connection_spec_validate (demo_push\<lparr>ca_secrets := []\<rparr>) = Inr () \<and>
    (\<exists>d. resolve_definition (demo_push\<lparr>ca_secrets := []\<rparr>) None None = Inr d \<and>
       validate_connection_definition u (cd_kind d) (cd_metadata d) = Inl (Msg ''bark-device-key'' []))"
proof
  show "connection_spec_validate (demo_push\<lparr>ca_secrets := []\<rparr>) = Inr ()" by code_simp
  show "\<exists>d. resolve_definition (demo_push\<lparr>ca_secrets := []\<rparr>) None None = Inr d \<and>
       validate_connection_definition u (cd_kind d) (cd_metadata d) = Inl (Msg ''bark-device-key'' [])"
    by (auto simp: resolve_definition_Inr demo_push_def overrides_readable_def layered_def map_of_put_all override_items_def
        secret_entries_def insert_governance_metadata_def map_of_bt_put validate_connection_definition_def known_texts
        metadata_object_def validate_bark_def text_field_def field_def)
qed

end
