(* ===== verification/Dsl_Generate.thy ===== *)
theory Dsl_Generate
  imports Dsl_Capability
begin

text \<open>
  How the validators of \<open>device.rs\<close> and \<open>capability.rs\<close> fit together: what a valid device is, and when
  the capability generated from one of its signals is itself valid.
\<close>

section \<open>Valid devices\<close>

definition device_ok :: "device_spec \<Rightarrow> bool" where
  "device_ok dev \<longleftrightarrow>
     ids_ok (map sg_id (dv_signals dev)) \<and> ids_ok (map al_id (dv_alarms dev)) \<and>
     (\<forall>s\<in>set (dv_signals dev). valid_signal_id (sg_id s) \<and>
        (\<forall>r. sg_range s = Some r \<longrightarrow> rg_min r < rg_max r) \<and> (\<forall>e. sg_scale s = Some e \<longrightarrow> paren_depth 0 e = 0)) \<and>
     (\<forall>a\<in>set (dv_alarms dev). trim_utf8 (al_condition a) \<noteq> [] \<and> paren_depth 0 (trim_utf8 (al_condition a)) = 0)"

lemma result_is_valid_simps [simp]:
  "result_is_valid []"
  "result_is_valid (ds @ es) \<longleftrightarrow> result_is_valid ds \<and> result_is_valid es"
  "result_is_valid (d # ds) \<longleftrightarrow> vd_level d \<noteq> LevelError \<and> result_is_valid ds"
  "vd_level (diag_error_at p m) = LevelError"
  "vd_level (diag_warning_at p m) = LevelWarning"
  by (auto simp: result_is_valid_def diag_error_at_def diag_warning_at_def)

definition signal_ok :: "signal_spec \<Rightarrow> bool" where
  "signal_ok s \<longleftrightarrow>
     trim_utf8 (sg_id s) \<noteq> [] \<and> valid_signal_id (sg_id s) \<and>
     (\<forall>r. sg_range s = Some r \<longrightarrow> rg_min r < rg_max r) \<and> (\<forall>e. sg_scale s = Some e \<longrightarrow> paren_depth 0 e = 0)"

lemma check_signal_valid:
  "check_signal dev (ds, seen) (i, s) = (ds', seen') \<Longrightarrow>
    (result_is_valid ds' \<longleftrightarrow> result_is_valid ds \<and> signal_ok s \<and> sg_id s \<notin> seen) \<and>
    (result_is_valid ds' \<longrightarrow> seen' = insert (sg_id s) seen)"
proof -
  assume c: "check_signal dev (ds, seen) (i, s) = (ds', seen')"
  have r: "result_is_valid (range_diagnostics i s) \<longleftrightarrow> (\<forall>r. sg_range s = Some r \<longrightarrow> rg_min r < rg_max r)"
    by (auto simp: range_diagnostics_def not_le split: option.split)
  have a: "result_is_valid (analog_diagnostics i s)" "result_is_valid (protocol_diagnostics dev i s)"
    by (simp_all add: analog_diagnostics_def protocol_diagnostics_def split: option.split)
  have e: "result_is_valid (scale_diagnostics i s) \<longleftrightarrow> (\<forall>e. sg_scale s = Some e \<longrightarrow> paren_depth 0 e = 0)"
    by (simp add: scale_diagnostics_def split: option.split)
  have n: "result_is_valid (fst (id_diagnostics seen i s)) \<longleftrightarrow>
      trim_utf8 (sg_id s) \<noteq> [] \<and> valid_signal_id (sg_id s) \<and> sg_id s \<notin> seen"
    "trim_utf8 (sg_id s) \<noteq> [] \<Longrightarrow> snd (id_diagnostics seen i s) = insert (sg_id s) seen"
    by (simp_all add: id_diagnostics_def)
  have "ds' = ds @ fst (id_diagnostics seen i s) @ range_diagnostics i s @ analog_diagnostics i s @
      protocol_diagnostics dev i s @ scale_diagnostics i s" "seen' = snd (id_diagnostics seen i s)"
    using c by (auto simp: check_signal_def Let_def split: prod.splits)
  then show ?thesis using r a e n by (auto simp: signal_ok_def)
qed

lemma check_signals_valid:
  "result_is_valid (fst (foldl (check_signal dev) (ds, seen) (enumerate k ss))) \<longleftrightarrow>
    result_is_valid ds \<and> (\<forall>s\<in>set ss. signal_ok s) \<and> distinct (map sg_id ss) \<and> sg_id ` set ss \<inter> seen = {}"
proof (induction ss arbitrary: ds seen k)
  case (Cons s ss)
  obtain ds' seen' where c: "check_signal dev (ds, seen) (k, s) = (ds', seen')" by (rule prod.exhaust)
  show ?case
    using check_signal_valid [OF c] by (cases "result_is_valid ds'") (auto simp: c Cons.IH)
qed simp

definition alarm_ok :: "alarm_spec \<Rightarrow> bool" where
  "alarm_ok a \<longleftrightarrow> trim_utf8 (al_id a) \<noteq> [] \<and> trim_utf8 (al_condition a) \<noteq> [] \<and>
     paren_depth 0 (trim_utf8 (al_condition a)) = 0"

lemma check_alarm_valid:
  "check_alarm (ds, seen) (i, a) = (ds', seen') \<Longrightarrow>
    (result_is_valid ds' \<longleftrightarrow> result_is_valid ds \<and> alarm_ok a \<and> al_id a \<notin> seen) \<and>
    (result_is_valid ds' \<longrightarrow> seen' = insert (al_id a) seen)"
  by (auto simp: check_alarm_def Let_def alarm_ok_def split: if_splits)

lemma check_alarms_valid:
  "result_is_valid (fst (foldl check_alarm (ds, seen) (enumerate k xs))) \<longleftrightarrow>
    result_is_valid ds \<and> (\<forall>a\<in>set xs. alarm_ok a) \<and> distinct (map al_id xs) \<and> al_id ` set xs \<inter> seen = {}"
proof (induction xs arbitrary: ds seen k)
  case (Cons a xs)
  obtain ds' seen' where c: "check_alarm (ds, seen) (k, a) = (ds', seen')" by (rule prod.exhaust)
  show ?case
    using check_alarm_valid [OF c] by (cases "result_is_valid ds'") (auto simp: c Cons.IH)
qed simp

lemma device_validate_iff: "result_is_valid (device_validate dev) \<longleftrightarrow> device_ok dev"
  by (auto simp: device_validate_def Let_def check_signals_valid check_alarms_valid device_ok_def ids_ok_def
      signal_ok_def alarm_ok_def)

section \<open>Templates put together\<close>

lemma brace_depth_append:
  "brace_depth d (s @ t) = Option.bind (brace_depth d s) (\<lambda>d'. brace_depth d' t)"
  by (induction s arbitrary: d) auto

lemma brace_depth_nonneg: "brace_depth d s = Some d' \<Longrightarrow> 0 \<le> d \<Longrightarrow> 0 \<le> d'"
  by (induction s arbitrary: d) (auto split: if_splits)

lemma brace_depth_open: "brace_depth d s = Some d' \<Longrightarrow> CHR ''}'' \<notin> set s \<Longrightarrow> d \<le> d'"
proof (induction s arbitrary: d)
  case (Cons c s)
  then have "brace_depth (if c = CHR ''{'' then d + 1 else d) s = Some d'" by auto
  from Cons.IH [OF this] Cons.prems(2) show ?case by (auto split: if_splits)
qed simp

lemma brace_depth_value: "brace_depth d (CHR '' '' # value_reference) = Some d" if "0 \<le> d"
  using that by (simp add: value_reference_def)

lemma extract_append:
  "brace_depth d s = Some 0 \<Longrightarrow> 0 \<le> d \<Longrightarrow>
    extract_template_variables (s @ CHR '' '' # t) = extract_template_variables s @ extract_template_variables (CHR '' '' # t)"
proof (induction s arbitrary: d rule: extract_template_variables.induct)
  case (1 a b rest)
  show ?case
  proof (cases "a = CHR ''$'' \<and> b = CHR ''{''")
    case True
    then have rest: "brace_depth (d + 1) rest = Some 0" using "1.prems"(1) by simp
    then have close: "CHR ''}'' \<in> set rest"
      using brace_depth_open [of "d + 1" rest 0] "1.prems"(2) by fastforce
    define name where "name = takeWhile (\<lambda>c. c \<noteq> CHR ''}'') rest"
    define rest' where "rest' = tl (dropWhile (\<lambda>c. c \<noteq> CHR ''}'') rest)"
    have "dropWhile (\<lambda>c. c \<noteq> CHR ''}'') rest \<noteq> []" using close by (auto simp: dropWhile_eq_Nil_conv)
    moreover from hd_dropWhile [OF this] have "hd (dropWhile (\<lambda>c. c \<noteq> CHR ''}'') rest) = CHR ''}''" by simp
    ultimately have "dropWhile (\<lambda>c. c \<noteq> CHR ''}'') rest = CHR ''}'' # rest'"
      unfolding rest'_def by (metis list.collapse)
    then have split: "rest = name @ CHR ''}'' # rest'"
      unfolding name_def by (metis takeWhile_dropWhile_id)
    have no: "CHR ''}'' \<notin> set name" unfolding name_def by (auto dest: set_takeWhileD)
    obtain d' where d': "brace_depth (d + 1) name = Some d'" "brace_depth d' (CHR ''}'' # rest') = Some 0"
      using rest unfolding split brace_depth_append by (auto simp: bind_eq_Some_conv)
    have "d + 1 \<le> d'" by (rule brace_depth_open [OF d'(1) no])
    then have "brace_depth (d' - 1) rest' = Some 0" "0 \<le> d' - 1"
      using d'(2) "1.prems"(2) by (auto split: if_splits)
    moreover have "drop (Suc (length name)) rest = rest'" by (simp add: split)
    moreover have tw: "takeWhile (\<lambda>c. c \<noteq> CHR ''}'') (rest @ u) = name" for u
      unfolding split append_assoc by (subst takeWhile_append2) (use no in auto)
    ultimately show ?thesis
      using "1.IH"(1) [OF _ name_def, of "d' - 1"] True close
      by (simp add: Let_def tw tw [of "[]", simplified]) (simp add: split)
  next
    case False
    then have ex: "extract_template_variables (a # b # u) = extract_template_variables (b # u)" for u by auto
    define e where "e = (if a = CHR ''{'' then d + 1 else if a = CHR ''}'' then d - 1 else d)"
    have "brace_depth e (b # rest) = Some 0" "0 \<le> e"
      using "1.prems" by (auto simp: e_def simp del: brace_depth.simps(2) simp: brace_depth.simps(2) [of _ a] split: if_splits)
    moreover have "\<not> (a = CHR ''$'' \<and> b = CHR ''{'' \<and> CHR ''}'' \<in> set rest)" using False by blast
    ultimately have "extract_template_variables ((b # rest) @ CHR '' '' # t) =
        extract_template_variables (b # rest) @ extract_template_variables (CHR '' '' # t)"
      using "1.IH"(2) [of e] by blast
    then show ?thesis by (simp add: ex del: extract_template_variables.simps(1))
  qed
qed auto

lemma template_ok_command:
  "template_ok {''value''} (c @ CHR '' '' # value_reference) \<longleftrightarrow> template_ok {''value''} c"
proof -
  have d: "brace_depth 0 (c @ CHR '' '' # value_reference) = brace_depth 0 c"
  proof (cases "brace_depth 0 c")
    case (Some d)
    then show ?thesis
      using brace_depth_nonneg [OF Some] brace_depth_value [of d] by (simp only: brace_depth_append) simp
  qed (simp add: brace_depth_append)
  have "extract_template_variables (CHR '' '' # value_reference) = [''value'']"
    by code_simp
  then have "brace_depth 0 c = Some 0 \<Longrightarrow>
      extract_template_variables (c @ CHR '' '' # value_reference) = extract_template_variables c @ [''value'']"
    using extract_append [of 0 c value_reference] by simp
  then show ?thesis by (auto simp: template_ok_def d)
qed

section \<open>Generated capabilities\<close>

lemma wide_space_high: "wide_space bs \<or> wide_space (rev bs) \<Longrightarrow> \<forall>b\<in>set bs. 128 \<le> b"
proof -
  have "wide_space bs \<Longrightarrow> \<forall>b\<in>set bs. 128 \<le> b" for bs by (auto simp: wide_space_def)
  then show "wide_space bs \<or> wide_space (rev bs) \<Longrightarrow> ?thesis" by (metis set_rev)
qed

lemma drop_spaces_stops:
  assumes "of_char c < (128 :: nat)" and "\<not> is_space c"
  shows "\<forall>bs. wide bs \<longrightarrow> (\<forall>b\<in>set bs. 128 \<le> b) \<Longrightarrow> c \<in> set s \<Longrightarrow> c \<in> set (drop_spaces wide s)"
proof (induction wide s rule: drop_spaces.induct)
  case (1 wide s)
  show ?case
  proof (cases "s = [] \<or> space_width wide s = 0")
    case True
    then show ?thesis using "1.prems"(2) by (simp add: drop_spaces.simps [of wide s])
  next
    case False
    have "c \<notin> set (take (space_width wide s) s)"
    proof -
      have w: "c \<notin> set (take k s)" if "wide (map of_char (take k s))" for k
        using "1.prems"(1) that assms(1) by fastforce
      consider "s \<noteq> []" "is_space (hd s)" "space_width wide s = 1"
        | "wide (map of_char (take 2 s))" "space_width wide s = 2"
        | "wide (map of_char (take 3 s))" "space_width wide s = 3"
        using False by (auto simp: space_width_def split: list.splits if_splits)
      then show ?thesis
      proof cases
        case 1
        then show ?thesis using assms(2) by (cases s) auto
      qed (use w in auto)
    qed
    then have "c \<in> set (drop (space_width wide s) s)"
      using "1.prems"(2) by (metis Un_iff append_take_drop_id set_append)
    then show ?thesis using "1.IH" "1.prems"(1) False by (simp add: drop_spaces.simps [of wide s])
  qed
qed


lemma set_drop_spaces: "set (drop_spaces wide s) \<subseteq> set s"
proof (induction wide s rule: drop_spaces.induct)
  case (1 wide s)
  then show ?case
    using set_drop_subset [of "space_width wide s" s] by (subst drop_spaces.simps) auto
qed

lemma trim_utf8_subset: "set (trim_utf8 s) \<subseteq> set s"
  unfolding trim_utf8_def set_rev
  by (rule subset_trans [OF set_drop_spaces]) (simp add: set_drop_spaces)

lemma trim_utf8_Nil [simp]: "trim_utf8 [] = []"
  using trim_utf8_subset [of "[]"] by simp

lemma trim_utf8_keeps:
  assumes "c \<in> set s" and "of_char c < (128 :: nat)" and "\<not> is_space c"
  shows "c \<in> set (trim_utf8 s)"
proof -
  have "c \<in> set (drop_spaces wide_space s)"
    using drop_spaces_stops [OF assms(2,3)] wide_space_high assms(1) by metis
  then have "c \<in> set (rev (drop_spaces wide_space s))" by simp
  then have "c \<in> set (drop_spaces (\<lambda>bs. wide_space (rev bs)) (rev (drop_spaces wide_space s)))"
    using drop_spaces_stops [OF assms(2,3), of "\<lambda>bs. wide_space (rev bs)"] wide_space_high by metis
  then show ?thesis by (simp add: trim_utf8_def)
qed

lemma rhai_depths_plain:
  "list_all (\<lambda>c. c \<notin> set ''()[]'') s \<Longrightarrow> rhai_depths p b s = Some (p, b)"
  by (induction s) auto

lemma ident_char: "ident_continue c \<Longrightarrow> of_char c < (128 :: nat) \<and> \<not> is_space c \<and> c \<notin> set ''()[]''"
  by (auto simp: ident_continue_def ident_start_def is_digit_def is_space_def Let_def)

lemma signal_effect_ok:
  assumes "valid_signal_id i" and "i \<noteq> []"
  shows "is_ok (validate_rhai_like_expr (i @ modified_suffix))"
proof -
  have i: "ident_continue c" if "c \<in> set i" for c
    using assms that by (cases i) (auto simp: valid_signal_id_def ident_continue_def list_all_iff)
  have "list_all (\<lambda>c. c \<notin> set ''()[]'') (i @ modified_suffix)"
    using i ident_char by (auto simp: list_all_iff modified_suffix_def)
  then have plain: "list_all (\<lambda>c. c \<notin> set ''()[]'') (trim_utf8 (i @ modified_suffix))"
    using trim_utf8_subset [of "i @ modified_suffix"] by (auto simp: list_all_iff)
  have "hd i \<in> set (trim_utf8 (i @ modified_suffix))"
    by (rule trim_utf8_keeps) (use assms(2) i [of "hd i"] ident_char in auto)
  then have "trim_utf8 (i @ modified_suffix) \<noteq> []" by auto
  then show ?thesis by (simp add: validate_rhai_like_expr_def rhai_depths_plain [OF plain])
qed

text \<open>
  C27: of a valid device, the capability generated from a writable signal is valid exactly when the
  signal declares a range and, for a serial signal, the command is a template over the value. The
  validator of devices demands neither, so that a valid device can give invalid capabilities.
\<close>

theorem generated_capability_validates:
  assumes "result_is_valid (device_validate dev)" and "s \<in> set (writable_signals dev)"
  shows "capability_validate (build_capability_from_signal dev s) = Inr () \<longleftrightarrow>
    sg_range s \<noteq> None \<and> (\<forall>c. sg_source s = SerialCommandSource c \<longrightarrow> template_ok {''value''} c)"
proof -
  have s: "valid_signal_id (sg_id s)" "sg_id s \<noteq> []"
    using assms by (auto simp: device_validate_iff device_ok_def ids_ok_def writable_signals_def)
  have v: "template_ok {''value''} value_reference" by code_simp
  have t: "trim_utf8 ''value'' \<noteq> []" by code_simp
  have w: "is_writable_signal (sg_signal_type s) (sg_source s)" using assms(2) by (simp add: writable_signals_def)
  have "(\<forall>t. impl_template (implementation_of s (sg_source s)) = Some t \<longrightarrow> template_ok {''value''} t) \<longleftrightarrow>
      (\<forall>c. sg_source s = SerialCommandSource c \<longrightarrow> template_ok {''value''} c)"
    using v w template_ok_command by (cases "sg_source s") (auto simp: is_writable_signal_def)
  then show ?thesis
    using signal_effect_ok [OF s] t
    by (simp add: capability_validate_iff capability_ok_def build_capability_from_signal_def ids_ok_def)
qed

definition demo_valve :: signal_spec where
  "demo_valve = \<lparr>sg_id = ''valve'', sg_signal_type = DigitalOutput, sg_unit = None, sg_range = None,
     sg_source = Register 40001 AccessWrite DtBool None, sg_scale = None\<rparr>"

definition demo_heater :: signal_spec where
  "demo_heater = \<lparr>sg_id = ''heater'', sg_signal_type = AnalogOutput, sg_unit = Some ''C'',
     sg_range = Some \<lparr>rg_min = 0, rg_max = 90\<rparr>, sg_source = SerialCommandSource ''SET'', sg_scale = None\<rparr>"

definition demo_device :: device_spec where
  "demo_device = \<lparr>dv_id = ''press'', dv_device_type = ''press'', dv_manufacturer = None, dv_model = None,
     dv_connection = None, dv_network_group = None, dv_ethercat_identity = None,
     dv_signals = [demo_valve, demo_heater],
     dv_alarms = [\<lparr>al_id = ''hot'', al_condition = ''(heater > 80)'', al_severity = SevCritical, al_action = None\<rparr>]\<rparr>"

theorem generated_capability_validates_witness:
  "capability_validate (build_capability_from_signal demo_device demo_valve) \<noteq> Inr () \<and>
   capability_validate (build_capability_from_signal demo_device demo_heater) = Inr ()"
proof -
  have d: "result_is_valid (device_validate demo_device)" by code_simp
  have m: "demo_valve \<in> set (writable_signals demo_device)" "demo_heater \<in> set (writable_signals demo_device)"
    by (simp_all add: writable_signals_def demo_device_def demo_valve_def demo_heater_def is_writable_signal_def
        is_output_type_def)
  have c: "template_ok {''value''} ''SET''" by code_simp
  show ?thesis
    using generated_capability_validates [OF d m(1)] generated_capability_validates [OF d m(2)] c
    by (simp add: demo_valve_def demo_heater_def)
qed

text \<open>
  Output signals of an EtherCAT device generate no capability at all, although
  \<open>implementation_of\<close> has a case for them.
\<close>

lemma ethercat_not_generated:
  "\<forall>s\<in>set (dv_signals dev). \<exists>a b c d e f g h i. sg_source s = EthercatPdo a b c d e f g h i \<Longrightarrow>
    generate_capabilities_from_device dev = []"
  by (fastforce simp: generate_capabilities_from_device_def try_generate_capabilities_from_device_def
      writable_signals_def filter_empty_conv is_writable_signal_def)

end
