(* ===== verification/Can_Codec.thy ===== *)
theory Can_Codec
  imports Can
begin

text \<open>
  What the SLCAN text keeps of a frame: the round trip of data frames and its exceptions, the frames
  a \<open>canWrite\<close> node can produce, and what reaches the receiver through the reader thread.
\<close>

section \<open>Round trip\<close>

definition data_frame :: "can_frame \<Rightarrow> bool" where
  "data_frame f \<longleftrightarrow>
     length (cf_data f) = unat (cf_dlc f) \<and> unat (cf_dlc f) \<le> 8 \<and> \<not> cf_is_fd f \<and> \<not> cf_is_remote f \<and>
     cf_id f \<le> (if cf_is_extended f then 0x1FFFFFFF else 0x7FF)"

lemma ascii_upper_hex: "hex_char c \<Longrightarrow> ascii_upper c = c"
proof -
  have "list_all (\<lambda>c. ascii_upper c = c) HEX_CHARS" by code_simp
  then show "hex_char c \<Longrightarrow> ascii_upper c = c" by (simp add: hex_char_def list_all_iff)
qed

lemma hex_encode_upper: "to_ascii_uppercase (hex_encode bs) = hex_encode bs"
  unfolding to_ascii_uppercase_def by (rule map_idI) (simp add: ascii_upper_hex hex_encode_chars)

lemma dec_digit:
  assumes "n < 10"
  shows "dec_digits n = [HEX_CHARS ! n]" and "unsigned_from_str_radix 256 10 (dec_digits n) = Some (int n)"
proof -
  have "list_all (\<lambda>n. dec_digits n = [HEX_CHARS ! n] \<and>
      unsigned_from_str_radix 256 10 (dec_digits n) = Some (int n)) [0..<10]"
    by code_simp
  moreover have "n \<in> set [0..<10]" using assms by (simp only: set_upt atLeastLessThan_iff le0 simp_thms)
  ultimately show "dec_digits n = [HEX_CHARS ! n]" and "unsigned_from_str_radix 256 10 (dec_digits n) = Some (int n)"
    unfolding list_all_iff by blast+
qed

definition slcan_line :: "char \<Rightarrow> nat \<Rightarrow> can_frame \<Rightarrow> string" where
  "slcan_line c w f = c # format_hex w (unat (cf_id f)) @ dec_digits (unat (cf_dlc f)) @ hex_encode (cf_data f)"

lemma slcan_line_chars:
  assumes "unat (cf_dlc f) \<le> 8" and "d \<in> set (slcan_line c w f)"
  shows "d = c \<or> hex_char d"
  using assms dec_digit(1) [of "unat (cf_dlc f)"]
  by (auto simp: slcan_line_def hex_char_nth hex_encode_chars format_hex_chars)

lemma slcan_line_trim:
  assumes "unat (cf_dlc f) \<le> 8" and "of_char c < (128 :: nat)" and "\<not> is_space c"
  shows "trim_utf8 (slcan_line c w f @ [CHR 0x0D]) = slcan_line c w f"
proof -
  let ?s = "slcan_line c w f"
  have facts: "\<not> is_space d \<and> of_char d < (128 :: nat)" if "d \<in> set ?s" for d
    using slcan_line_chars [OF assms(1) that] assms(2,3) hex_char_facts by auto
  have ne: "?s \<noteq> []" by (simp add: slcan_line_def)
  have "ascii (?s @ [CHR 0x0D])" using facts by (auto simp: ascii_def)
  then have "trim_utf8 (?s @ [CHR 0x0D]) = trim (?s @ [CHR 0x0D])" by (rule trim_utf8_ascii)
  also have "\<dots> = ?s" using facts ne by (intro trim_unchanged) simp_all
  finally show ?thesis .
qed

lemma decode_data_line:
  assumes f: "data_frame f" and w: "unat (cf_id f) < 16 ^ w" "0 < w" and c: "of_char c < (128 :: nat)"
  shows "decode_data now (slcan_line c w f) w minlen extended =
    (if 2 + w + 2 * length (cf_data f) < minlen then Some None
     else Some (Some (f\<lparr>cf_is_extended := extended, cf_timestamp := Some now\<rparr>)))"
proof -
  let ?s = "slcan_line c w f" and ?ids = "format_hex w (unat (cf_id f))"
  have dlc: "unat (cf_dlc f) \<le> 8" "length (cf_data f) = unat (cf_dlc f)" using f by (simp_all add: data_frame_def)
  have ids: "length ?ids = w" using length_format_hex [OF w] .
  have digit: "dec_digits (unat (cf_dlc f)) = [HEX_CHARS ! unat (cf_dlc f)]"
    using dec_digit(1) dlc(1) by simp
  have len: "length ?s = 2 + w + 2 * length (cf_data f)" by (simp add: slcan_line_def ids digit)
  have ascii: "ascii ?s"
    using slcan_line_chars [OF dlc(1)] c hex_char_facts(3) by (auto simp: ascii_def)
  have slices: "str_slice ?s 1 (1 + w) = Some ?ids"
    "str_slice ?s (1 + w) (2 + w) = Some (dec_digits (unat (cf_dlc f)))"
    "str_slice ?s (2 + w) (2 + w + 2 * unat (cf_dlc f)) = Some (hex_encode (cf_data f))"
    using ids digit dlc(2) len
    by (simp_all add: ascii_slice [OF ascii]) (simp_all add: slcan_line_def)
  have "int (unat (cf_id f)) < 2 ^ 32" using unsigned_less [of "cf_id f", where ?'a = int] by simp
  then have parse: "unsigned_from_str_radix (2 ^ 32) 16 ?ids = Some (int (unat (cf_id f)))"
    "unsigned_from_str_radix (2 ^ 8) 10 (dec_digits (unat (cf_dlc f))) = Some (int (unat (cf_dlc f)))"
    using parse_format_hex [of "unat (cf_id f)" "2 ^ 32" w] dec_digit(2) [of "unat (cf_dlc f)"] dlc(1)
    by simp_all
  show ?thesis
    using len slices parse f dlc(2)
    by (simp add: decode_data_def hex_decode_encode data_frame_def)
qed

definition lost_by_decode :: "can_frame \<Rightarrow> bool" where
  "lost_by_decode f \<longleftrightarrow> cf_is_extended f \<and> cf_data f = []"

lemma encode_data_frame:
  assumes "data_frame f"
  shows "encode_slcan_frame f =
    Some (Inr ((if cf_is_extended f then slcan_line CHR ''T'' 8 f else slcan_line CHR ''t'' 3 f) @ [CHR 0x0D]))"
  using assms
  by (auto simp: encode_slcan_frame_def data_frame_def slcan_line_def hex_encode_upper Let_def split: if_splits)

lemma decode_line:
  "trim_utf8 s = c # cs \<Longrightarrow> decode_slcan_frame now s =
    (if c = CHR ''t'' then decode_data now (c # cs) 3 5 False
     else if c = CHR ''T'' then decode_data now (c # cs) 8 11 True
     else if c = CHR ''r'' then decode_remote now (c # cs) 3 5 False
     else if c = CHR ''R'' then decode_remote now (c # cs) 8 10 True else Some None)"
  by (simp add: decode_slcan_frame_def)

lemma slcan_round_trip_spec:
  assumes f: "data_frame f"
  shows "\<exists>s. encode_slcan_frame f = Some (Inr (s @ [CHR 0x0D])) \<and> newline \<notin> set s \<and> ascii s \<and>
    decode_slcan_frame now (s @ [CHR 0x0D]) =
      Some (if lost_by_decode f then None else Some (f\<lparr>cf_timestamp := Some now\<rparr>))"
proof -
  define c where "c = (if cf_is_extended f then CHR ''T'' else CHR ''t'')"
  define w :: nat where "w = (if cf_is_extended f then 8 else 3)"
  have chars: "of_char c < (128 :: nat)" "\<not> is_space c" "c \<noteq> newline"
    unfolding c_def by (auto simp: newline_def is_space_def)
  have dlc: "unat (cf_dlc f) \<le> 8" using f by (simp add: data_frame_def)
  have fits: "unat (cf_id f) < 16 ^ w" "0 < w"
    using f by (auto simp: data_frame_def w_def word_le_nat_alt split: if_splits)
  have upd: "f\<lparr>cf_is_extended := cf_is_extended f, cf_timestamp := t\<rparr> = f\<lparr>cf_timestamp := t\<rparr>" for t
    by simp
  let ?s = "slcan_line c w f"
  have trim: "trim_utf8 (?s @ [CHR 0x0D]) = c # tl ?s"
    using slcan_line_trim [OF dlc chars(1,2), of w] by (simp add: slcan_line_def)
  have "decode_slcan_frame now (?s @ [CHR 0x0D]) =
      decode_data now ?s w (if cf_is_extended f then 11 else 5) (cf_is_extended f)"
    using decode_line [OF trim, of now] by (simp add: c_def w_def slcan_line_def)
  also have "\<dots> = Some (if lost_by_decode f then None else Some (f\<lparr>cf_timestamp := Some now\<rparr>))"
    using decode_data_line [OF f fits chars(1)] upd
    by (cases "cf_data f") (auto simp: w_def lost_by_decode_def)
  finally have dec: "decode_slcan_frame now (?s @ [CHR 0x0D]) =
      Some (if lost_by_decode f then None else Some (f\<lparr>cf_timestamp := Some now\<rparr>))" .
  have "\<not> is_space d" if "d \<in> set ?s" for d
    using slcan_line_chars [OF dlc that] chars hex_char_facts by auto
  moreover have "is_space newline" unfolding newline_def by code_simp
  ultimately have "newline \<notin> set ?s" by blast
  moreover have "ascii ?s"
    using slcan_line_chars [OF dlc] chars(1) hex_char_facts(3) by (auto simp: ascii_def)
  moreover have "encode_slcan_frame f = Some (Inr (?s @ [CHR 0x0D]))"
    using encode_data_frame [OF f] by (simp add: c_def w_def)
  ultimately show ?thesis using dec by blast
qed

text \<open>
  C19: sending a data frame as SLCAN text never panics or fails, and reading the text back gives the
  frame, with the instant of reading, for every standard frame and every extended frame with data;
  an extended frame without data is not read back.
\<close>

theorem slcan_round_trip:
  assumes "data_frame f"
  shows "\<exists>s. encode_slcan_frame f = Some (Inr (s @ [CHR 0x0D])) \<and>
    decode_slcan_frame now (s @ [CHR 0x0D]) =
      Some (if lost_by_decode f then None else Some (f\<lparr>cf_timestamp := Some now\<rparr>))"
  using slcan_round_trip_spec [OF assms] by blast

definition demo_frame :: can_frame where
  "demo_frame = new_extended 5 0x18FF1234 [0xAB, 0xCD]"

theorem slcan_round_trip_witness:
  "\<exists>s. encode_slcan_frame demo_frame = Some (Inr s) \<and>
    decode_slcan_frame 9 s = Some (Some (demo_frame\<lparr>cf_timestamp := Some 9\<rparr>))"
proof -
  have "data_frame demo_frame" "\<not> lost_by_decode demo_frame" by code_simp+
  then show ?thesis using slcan_round_trip [of demo_frame 9] by auto
qed

text \<open>What the text does not keep, and what the parser takes besides.\<close>

lemma remote_frame_panics:
  "encode_slcan_frame \<lparr>cf_id = 0x123, cf_data = [], cf_dlc = 4, cf_is_extended = False,
     cf_is_fd = False, cf_is_remote = True, cf_timestamp = None\<rparr> = None"
  by code_simp

lemma remote_flag_lost:
  "encode_slcan_frame (f\<lparr>cf_is_remote := b\<rparr>) = encode_slcan_frame f"
proof -
  have "cf_id (f\<lparr>cf_is_remote := b\<rparr>) = cf_id f" "cf_data (f\<lparr>cf_is_remote := b\<rparr>) = cf_data f"
    "cf_dlc (f\<lparr>cf_is_remote := b\<rparr>) = cf_dlc f"
    "cf_is_extended (f\<lparr>cf_is_remote := b\<rparr>) = cf_is_extended f"
    by simp_all
  then show ?thesis unfolding encode_slcan_frame_def by presburger
qed

lemma nine_bytes_accepted:
  "map_option (map_option (length \<circ> cf_data)) (decode_slcan_frame 0 ''t1239010203040506070809'') = Some (Some 9)"
  by code_simp

lemma signed_id_accepted: "map_option (map_option cf_id) (decode_slcan_frame 0 ''t+120'') = Some (Some 0x12)"
  by code_simp

lemma foreign_text_panics:
  "utf8_valid [CHR ''t'', CHR ''1'', CHR ''2'', CHR 0xC3, CHR 0xA9] \<and>
   decode_slcan_frame 0 [CHR ''t'', CHR ''1'', CHR ''2'', CHR 0xC3, CHR 0xA9] = None"
  by code_simp

section \<open>Frames from a payload\<close>

lemma new_frame_data_frame:
  "validate_can_id i extended = Inr () \<Longrightarrow> data_frame (new_frame extended now i data)"
  by (auto simp: data_frame_def new_frame_def Let_def validate_can_id_def unat_of_nat split: if_splits)

lemma frame_from_payload_frame:
  assumes "frame_from_payload now n config payload = Inr (m, f)"
  obtains i extended data where "f = new_frame extended now i data" and "validate_can_id i extended = Inr ()"
proof -
  define extended where "extended = (case map_of (into_payload_map payload) ''is_extended'' of
    Some (JBool b) \<Rightarrow> b | _ \<Rightarrow> cw_is_extended config)"
  have ok: "map_sum g id (x :: can_error + unit) = Inr u \<Longrightarrow> x = Inr ()" for g :: "can_error \<Rightarrow> engine_error" and x u
    by (cases x) simp_all
  obtain i u data where "map_sum (\<lambda>_. NodeConfig n (Msg ''can-id-out-of-range'' [])) id (validate_can_id i extended) = Inr u"
    "f = (if extended then new_extended now i data else new_standard now i data)"
    using assms unfolding frame_from_payload_def Let_def and_then_Inr extended_def [symmetric] by auto
  then show thesis
    using that [of extended i data] ok by (simp add: new_standard_def new_extended_def split: if_splits)
qed

text \<open>
  Whatever payload a \<open>canWrite\<close> node is given, it reports an error or builds a frame that the
  SLCAN bus sends without a panic or an error, and that is read back unchanged unless it is an
  extended frame without data.
\<close>

theorem written_frames_are_sendable:
  assumes "frame_from_payload now n config payload = Inr (m, f)"
  shows "\<exists>s. encode_slcan_frame f = Some (Inr s) \<and>
    (\<not> lost_by_decode f \<longrightarrow> decode_slcan_frame now s = Some (Some f))"
proof -
  obtain i extended data where f: "f = new_frame extended now i data" and "validate_can_id i extended = Inr ()"
    using frame_from_payload_frame [OF assms] .
  then have "data_frame f" by (simp add: new_frame_data_frame)
  then obtain s where "encode_slcan_frame f = Some (Inr (s @ [CHR 0x0D]))"
    "decode_slcan_frame now (s @ [CHR 0x0D]) =
      Some (if lost_by_decode f then None else Some (f\<lparr>cf_timestamp := Some now\<rparr>))"
    using slcan_round_trip_spec by blast
  moreover have "f\<lparr>cf_timestamp := Some now\<rparr> = f" by (simp add: f new_frame_def Let_def)
  ultimately show ?thesis by (intro exI [of _ "s @ [CHR 0x0D]"]) simp
qed

definition demo_write_config :: can_write_config where
  "demo_write_config = \<lparr>cw_connection_id = None, cw_simulation = True, cw_can_id = Some 0x123, cw_is_extended = False\<rparr>"

definition demo_write_payload :: json where
  "demo_write_payload = JObject [(''data'', JString ''0x01 02:ff'')]"

lemma demo_write:
  "frame_from_payload 3 ''w'' demo_write_config demo_write_payload =
    Inr ([(''data'', JString ''0x01 02:ff'')], new_standard 3 0x123 [1, 2, 255])"
  by code_simp

theorem written_frames_are_sendable_witness:
  "\<exists>s. encode_slcan_frame (new_standard 3 0x123 [1, 2, 255]) = Some (Inr s) \<and>
    decode_slcan_frame 3 s = Some (Some (new_standard 3 0x123 [1, 2, 255]))"
proof -
  have "\<not> lost_by_decode (new_standard 3 0x123 [1, 2, 255])" by code_simp
  then show ?thesis using written_frames_are_sendable [OF demo_write] by blast
qed

section \<open>The reader thread\<close>

text \<open>
  Frames are read line by line, and a line ends with a line feed. A frame followed by one is
  delivered; the carriage return that ends every frame of the protocol ends no line, and what was
  read before a time-out is dropped.
\<close>

lemma reader_collects:
  "newline \<notin> set s \<Longrightarrow> slcan_reader now (map SByte s @ es) line = slcan_reader now es (line @ s)"
  by (induction s arbitrary: line) auto

lemma ascii_utf8: "ascii s \<Longrightarrow> utf8_valid s"
  unfolding ascii_def utf8_valid_def by (induction s) auto

lemma trim_space_end: "is_space c \<Longrightarrow> trim (s @ [c]) = trim s"
proof -
  assume c: "is_space c"
  show ?thesis
  proof (cases "trim_start s = []")
    case True
    then have "\<forall>x\<in>set s. is_space x" by (simp add: trim_start_def dropWhile_eq_Nil_conv)
    then have "trim_start (s @ [c]) = []" using c by (auto simp: trim_start_def dropWhile_eq_Nil_conv)
    then show ?thesis using True by (simp add: trim_def)
  next
    case False
    then have "trim_start (s @ [c]) = trim_start s @ [c]"
      unfolding trim_start_def by (metis dropWhile_append1 dropWhile_eq_Nil_conv)
    then show ?thesis using c by (simp add: trim_def) (simp add: trim_start_def)
  qed
qed

lemma decode_line_feed: "ascii s \<Longrightarrow> decode_slcan_frame now (s @ [newline]) = decode_slcan_frame now s"
proof -
  assume s: "ascii s"
  have nl: "is_space newline" "ascii (s @ [newline])"
    using s by (auto simp: ascii_def newline_def is_space_def)
  then show ?thesis by (simp add: decode_slcan_frame_def trim_utf8_ascii s trim_space_end)
qed

text \<open>The text of a frame, and what the reader gives for it.\<close>

definition sent_text :: "can_frame \<Rightarrow> string" where
  "sent_text f = (case encode_slcan_frame f of Some (Inr s) \<Rightarrow> s | _ \<Rightarrow> [])"

lemma frames_through_reader:
  assumes "\<forall>f\<in>set fs. data_frame f"
  shows "slcan_reader now (map SByte (concat (map (\<lambda>f. sent_text f @ [newline]) fs))) [] =
    Some (map (\<lambda>f. f\<lparr>cf_timestamp := Some now\<rparr>) (filter (\<lambda>f. \<not> lost_by_decode f) fs), BusActive)"
  using assms
proof (induction fs)
  case (Cons f fs)
  then obtain s where s: "encode_slcan_frame f = Some (Inr (s @ [CHR 0x0D]))" "newline \<notin> set s" "ascii s"
    "decode_slcan_frame now (s @ [CHR 0x0D]) =
      Some (if lost_by_decode f then None else Some (f\<lparr>cf_timestamp := Some now\<rparr>))"
    using slcan_round_trip_spec [of f now] by auto
  let ?t = "s @ [CHR 0x0D]"
  have t: "newline \<notin> set ?t" "ascii ?t" "utf8_valid (?t @ [newline])" "decode_slcan_frame now (?t @ [newline]) =
      Some (if lost_by_decode f then None else Some (f\<lparr>cf_timestamp := Some now\<rparr>))"
  proof -
    show "newline \<notin> set ?t" using s(2) by (simp add: newline_def)
    show "ascii ?t" using s(3) by (auto simp: ascii_def)
    then have "ascii (?t @ [newline])" by (auto simp: ascii_def newline_def)
    then show "utf8_valid (?t @ [newline])" by (rule ascii_utf8)
    show "decode_slcan_frame now (?t @ [newline]) =
      Some (if lost_by_decode f then None else Some (f\<lparr>cf_timestamp := Some now\<rparr>))"
      using decode_line_feed [OF \<open>ascii ?t\<close>] s(4) by simp
  qed
  have "map SByte (concat (map (\<lambda>f. sent_text f @ [newline]) (f # fs))) =
      map SByte ?t @ SByte newline # map SByte (concat (map (\<lambda>f. sent_text f @ [newline]) fs))"
    using s(1) by (simp add: sent_text_def)
  then have "slcan_reader now (map SByte (concat (map (\<lambda>f. sent_text f @ [newline]) (f # fs)))) [] =
      slcan_reader now (SByte newline # map SByte (concat (map (\<lambda>f. sent_text f @ [newline]) fs))) ?t"
    using reader_collects [OF t(1)] by (simp only: append_Nil)
  then show ?case using t(3,4) Cons by simp
qed simp

text \<open>So without line feeds nothing is ever delivered.\<close>

lemma reader_without_newline:
  "(\<forall>e\<in>set es. e \<noteq> SByte newline) \<Longrightarrow> \<exists>s. slcan_reader now (es @ [STimedOut]) line = Some ([], s)"
  by (induction es arbitrary: line) (auto, metis serial_event.exhaust slcan_reader.simps)

end
