(* ===== verification/Signal_Round_Trip.thy ===== *)
theory Signal_Round_Trip
  imports Byte_Codec Dsl_Types Can_Codec
begin

text \<open>
  What a capability writes into a CAN frame is what a signal of the same type, position and byte order
  reads out of it; and where the two sides do not fit.
\<close>

section \<open>Bytes\<close>

lemma take_bit_byte: "take_bit (8 * Suc n) x = take_bit 8 x + 256 * take_bit (8 * n) (drop_bit 8 x)" for x :: int
proof -
  have "x mod (256 * 2 ^ (8 * n)) = 256 * (x div 256 mod 2 ^ (8 * n)) + x mod 256"
    by (rule zmod_zmult2_eq) simp
  then show ?thesis by (simp add: take_bit_eq_mod drop_bit_eq_div power_add)
qed

lemma le_value_bytes:
  "le_value (map (\<lambda>i. ucast (drop_bit (8 * (i + k)) w)) [0..<n]) = take_bit (8 * n) (uint (drop_bit (8 * k) w))"
  for w :: "'a::len word"
proof (induction n arbitrary: k)
  case (Suc n)
  have shift: "map (\<lambda>i. ucast (drop_bit (8 * (i + k)) w)) [0..<Suc n] =
      ucast (drop_bit (8 * k) w) # (map (\<lambda>i. ucast (drop_bit (8 * (i + Suc k)) w)) [0..<n] :: u8 list)"
    by (simp add: upt_conv_Cons map_Suc_upt [symmetric] add_ac del: upt_Suc)
  have "drop_bit 8 (uint (drop_bit (8 * k) w)) = uint (drop_bit (8 * Suc k) w)"
    by (simp add: unsigned_drop_bit_eq drop_bit_take_bit add.commute)
  moreover have "le_value (map (\<lambda>i. ucast (drop_bit (8 * (i + Suc k)) w)) [0..<n]) =
      take_bit (8 * n) (uint (drop_bit (8 * Suc k) w))"
    by (rule Suc.IH)
  ultimately show ?case
    unfolding shift le_value.simps take_bit_byte by (simp add: unsigned_ucast_eq)
qed simp


lemma le_value_to_le_bytes: "LENGTH('a) mod 8 = 0 \<Longrightarrow> le_value (to_le_bytes w) = uint (w :: 'a::len word)"
proof -
  assume "LENGTH('a) mod 8 = 0"
  then have l: "8 * (LENGTH('a) div 8) = LENGTH('a)" by auto
  have "le_value (to_le_bytes w) = take_bit (8 * (LENGTH('a) div 8)) (uint w)"
    using le_value_bytes [of 0 w "LENGTH('a) div 8"] by (simp add: to_le_bytes_def)
  then show ?thesis by (simp add: l take_bit_int_eq_self uint_lt2p)
qed

lemma from_le_bytes_to [simp]: "LENGTH('a) mod 8 = 0 \<Longrightarrow> from_le_bytes (to_le_bytes w) = (w :: 'a::len word)"
  by (simp add: from_le_bytes_def le_value_to_le_bytes)

lemma from_be_bytes_to [simp]: "LENGTH('a) mod 8 = 0 \<Longrightarrow> from_be_bytes (to_be_bytes w) = (w :: 'a::len word)"
  by (simp add: from_be_bytes_def to_be_bytes_def)

lemma length_word_bytes [simp]: "length (word_bytes order (w :: 'a::len word)) = LENGTH('a) div 8"
  by (simp add: word_bytes_def to_be_bytes_def to_le_bytes_def)

text \<open>The names of types and byte orders as the reader writes them.\<close>

fun data_type_snapshot_tag :: "data_type_snapshot \<Rightarrow> string" where
  "data_type_snapshot_tag SnBool = ''bool''"
| "data_type_snapshot_tag SnU16 = ''u16''"
| "data_type_snapshot_tag SnI16 = ''i16''"
| "data_type_snapshot_tag SnU32 = ''u32''"
| "data_type_snapshot_tag SnI32 = ''i32''"
| "data_type_snapshot_tag SnFloat32 = ''float32''"
| "data_type_snapshot_tag SnFloat64 = ''float64''"
| "data_type_snapshot_tag SnString = ''string''"

fun byte_order_snapshot_tag :: "byte_order_snapshot \<Rightarrow> string" where
  "byte_order_snapshot_tag SnBigEndian = ''big_endian''"
| "byte_order_snapshot_tag SnLittleEndian = ''little_endian''"

lemma from_bytes_word_bytes:
  "LENGTH('a) mod 8 = 0 \<Longrightarrow> from_bytes order (word_bytes (byte_order_snapshot_tag order) w) = (w :: 'a::len word)"
  by (cases order) (simp_all add: from_bytes_def word_bytes_def is_little_def)

section \<open>The round trip\<close>

fun integer_range :: "data_type_snapshot \<Rightarrow> int set" where
  "integer_range SnU16 = {0..<2 ^ 16}"
| "integer_range SnI16 = {- (2 ^ 15)..<2 ^ 15}"
| "integer_range SnU32 = {0..<2 ^ 32}"
| "integer_range SnI32 = {- (2 ^ 31)..<2 ^ 31}"
| "integer_range _ = {}"

lemma print_int_trim: "trim_utf8 (print_int i) = print_int i"
proof -
  have "ascii (CHR ''-'' # dec_digits n)" for n using dec_digits_ascii [of n] by (simp add: ascii_def)
  moreover have "\<not> is_space CHR ''-''" by (simp add: is_space_def)
  ultimately have "trim_utf8 (CHR ''-'' # dec_digits n) = CHR ''-'' # dec_digits n" for n
    using dec_digits_ascii [of n] by (intro trim_utf8_digits) simp_all
  then show ?thesis by (simp add: print_int_def trim_printed)
qed

lemma parsed_print:
  "0 \<le> i \<Longrightarrow> i < 2 ^ LENGTH('a) \<Longrightarrow> parsed_unsigned (print_int i) = Some (word_of_int i :: 'a::len word)"
  "- (2 ^ (LENGTH('a) - 1)) \<le> i \<Longrightarrow> i < 2 ^ (LENGTH('a) - 1) \<Longrightarrow>
    parsed_signed (print_int i) = Some (word_of_int i :: 'a::len word)"
  using parse_unsigned_dec [of "nat i" "LENGTH('a)"] parse_signed_print [of "LENGTH('a)" i]
  by (simp_all add: parsed_unsigned_def parsed_signed_def print_int_trim) (simp add: print_int_def)

lemma sint_of_int: "- (2 ^ (LENGTH('a) - 1)) \<le> i \<Longrightarrow> i < 2 ^ (LENGTH('a) - 1) \<Longrightarrow> sint (word_of_int i :: 'a::len word) = i"
  by (simp add: sint_sbintrunc' signed_take_bit_int_eq_self)

lemma encode_decode_value:
  assumes "i \<in> integer_range ty"
  shows "\<exists>bs. encode_value_to_bytes fp (print_int i) (data_type_snapshot_tag ty) (byte_order_snapshot_tag order) node = Inr bs \<and>
    length bs = byte_count ty \<and> decode_raw_bytes fp bs ty order None = Inr (json_int i)"
proof -
  have d: "decode_u16 bs order = Inr (from_bytes order bs)" if "length bs = 2" for bs
    using that by (simp add: decode_u16_def read_bytes_def)
  have u: "uint (word_of_int i :: 'a::len word) = i" if "0 \<le> i" "i < 2 ^ LENGTH('a)"
    using that by (simp add: take_bit_int_eq_self unsigned_of_int)
  have s16: "sint (word_of_int i :: 16 word) = i" if "- (2 ^ 15) \<le> i" "i < 2 ^ 15"
    using sint_of_int [of i, where 'a = 16] that by simp
  have s32: "sint (word_of_int i :: 32 word) = i" if "- (2 ^ 31) \<le> i" "i < 2 ^ 31"
    using sint_of_int [of i, where 'a = 32] that by simp
  show ?thesis
    using assms parsed_print(1) [of i, where 'a = 16] parsed_print(1) [of i, where 'a = 32]
      parsed_print(2) [of i, where 'a = 16] parsed_print(2) [of i, where 'a = 32] s16 s32
      from_bytes_word_bytes [of order "word_of_int i :: 16 word"] from_bytes_word_bytes [of order "word_of_int i :: 32 word"]
    by (cases ty)
      (simp_all add: encode_value_to_bytes_def decode_raw_bytes_def decode_u16_value_def decode_i16_value_def
        decode_u32_value_def decode_i32_value_def d read_bytes_def written_word_def u)
qed


lemma frame_region:
  assumes "encode_value_to_bytes fp v dt order node = Inr bs" and "length bs = n" and "0 < n" and "n \<le> 8"
    and "unat off + n \<le> 8"
  shows "\<exists>data. encode_can_frame_data fp v off (of_nat n) dt order node = Inr data \<and> length data = 8 \<and>
    take n (drop (unat off) data) = bs"
proof -
  have n: "unat (of_nat n :: u8) = n" using assms(4) by (simp add: unat_of_nat)
  then have "(of_nat n :: u8) \<noteq> 0" using assms(3) by (metis less_irrefl unat_0)
  then show ?thesis
    using assms n by (simp add: encode_can_frame_data_def)
qed

text \<open>
  C26: an integer in the range of its type, written into a CAN frame by a capability whose length is the
  number of bytes of the type, at a position where these bytes fit into the eight of the frame, comes
  back as itself when a signal of the same type, position, length and byte order reads the frame on the
  other side of the serial line, for every identifier the bus accepts. (With a shorter length the value
  is cut, see below.)
\<close>

theorem value_over_can:
  assumes "i \<in> integer_range ty" and "unat off + byte_count ty \<le> 8" and "validate_can_id cid ext = Inr ()"
  shows "\<exists>data line f bs.
    encode_can_frame_data fp (print_int i) off (of_nat (byte_count ty)) (data_type_snapshot_tag ty)
      (byte_order_snapshot_tag order) node = Inr data \<and>
    encode_slcan_frame (new_frame ext sent cid data) = Some (Inr line) \<and>
    decode_slcan_frame now line = Some (Some f) \<and> cf_id f = cid \<and> cf_is_extended f = ext \<and>
    extract_bytes f off (of_nat (byte_count ty)) = Some bs \<and>
    decode_raw_bytes fp bs ty order None = Inr (json_int i)"
proof -
  have n: "0 < byte_count ty" "byte_count ty \<le> 8" using assms(1) by (cases ty; simp)+
  obtain bs where bs: "encode_value_to_bytes fp (print_int i) (data_type_snapshot_tag ty) (byte_order_snapshot_tag order) node = Inr bs"
    "length bs = byte_count ty" "decode_raw_bytes fp bs ty order None = Inr (json_int i)"
    using encode_decode_value [OF assms(1)] by blast
  obtain data where data: "encode_can_frame_data fp (print_int i) off (of_nat (byte_count ty)) (data_type_snapshot_tag ty)
      (byte_order_snapshot_tag order) node = Inr data" "length data = 8" "take (byte_count ty) (drop (unat off) data) = bs"
    using frame_region [OF bs(1,2) n assms(2)] by blast
  define f where "f = new_frame ext sent cid data"
  have df: "data_frame f" unfolding f_def by (rule new_frame_data_frame [OF assms(3)])
  have f: "\<not> lost_by_decode f" "cf_data f = data" "cf_id f = cid" "cf_is_extended f = ext"
    using data(2) by (auto simp: f_def lost_by_decode_def new_frame_def)
  obtain s where s: "encode_slcan_frame f = Some (Inr (s @ [CHR 0x0D]))"
    "decode_slcan_frame now (s @ [CHR 0x0D]) = Some (Some (f\<lparr>cf_timestamp := Some now\<rparr>))"
    using slcan_round_trip_spec [OF df] f(1) by fastforce
  have "unat (of_nat (byte_count ty) :: u8) = byte_count ty" using n(2) by (simp add: unat_of_nat)
  then have "extract_bytes (f\<lparr>cf_timestamp := Some now\<rparr>) off (of_nat (byte_count ty)) = Some bs"
    using data(2,3) f(2) assms(2) by (simp add: extract_bytes_def)
  then show ?thesis
    using data(1) s bs(3) f(3,4) unfolding f_def
    by (intro exI [of _ data] exI [of _ "s @ [CHR 0x0D]"] exI [of _ "f\<lparr>cf_timestamp := Some now\<rparr>"] exI [of _ bs])
      (simp add: f_def)
qed

definition demo_floats :: float_ops where
  "demo_floats = \<lparr>parse_f32 = (\<lambda>_. None), parse_f64 = (\<lambda>_. None), value_f32 = (\<lambda>_. None), value_f64 = (\<lambda>_. None)\<rparr>"

theorem value_over_can_witness:
  "\<exists>data line f bs.
    encode_can_frame_data demo_floats ''-2'' 4 4 ''i32'' ''little_endian'' ''n'' = Inr data \<and>
    encode_slcan_frame (new_frame True 7 0x18FF1234 data) = Some (Inr line) \<and>
    decode_slcan_frame 9 line = Some (Some f) \<and> cf_id f = 0x18FF1234 \<and> cf_is_extended f = True \<and>
    extract_bytes f 4 4 = Some bs \<and> decode_raw_bytes demo_floats bs SnI32 SnLittleEndian None = Inr (json_int (- 2))"
proof -
  have p: "print_int (- 2) = ''-2''" by code_simp
  have v: "validate_can_id 0x18FF1234 True = Inr ()" by code_simp
  show ?thesis
    using value_over_can [of "- 2" SnI32 4 "0x18FF1234" True demo_floats SnLittleEndian "''n''" 7 9] v
    by (simp add: p)
qed

section \<open>Where the two sides differ\<close>

text \<open>
  A region shorter than the type keeps the last bytes. In big-endian order those are the low bytes of
  the value, in little-endian order the high ones: a small value becomes zero.
\<close>

lemma short_region_keeps_high_bytes:
  "encode_can_frame_data demo_floats ''4660'' 0 2 ''u32'' ''big_endian'' ''n'' = Inr [0x12, 0x34, 0, 0, 0, 0, 0, 0]"
  "encode_can_frame_data demo_floats ''4660'' 0 2 ''u32'' ''little_endian'' ''n'' = Inr [0, 0, 0, 0, 0, 0, 0, 0]"
  by code_simp+

text \<open>A bool is written as one byte and read as two.\<close>

lemma bool_not_read_back:
  "encode_value_to_bytes fp ''true'' ''bool'' order node = Inr [1] \<and>
   decode_raw_bytes fp [1] SnBool order' None = Inl (BufferTooShort 2 1)"
proof -
  have "trim_utf8 ''true'' = ''true''" by code_simp
  moreover have "to_ascii_lowercase ''true'' = ''true''" by code_simp
  ultimately show ?thesis
    by (simp add: encode_value_to_bytes_def parse_bool_value_def decode_raw_bytes_def decode_bool_def
        decode_u16_def read_bytes_def)
qed

text \<open>
  The language writes a byte order in one word, the writer and the reader know it with an underscore:
  a little-endian order of a capability is taken for a big-endian one, and neither tag of the
  language is a tag of the reader.
\<close>

lemma language_byte_order_ignored: "word_bytes (byte_order_tag order) w = to_be_bytes w"
  by (cases order) (simp_all add: word_bytes_def is_little_def)

lemma byte_order_tags_differ: "byte_order_tag a \<noteq> byte_order_snapshot_tag b"
  by (cases a; cases b) simp_all

lemma documented_tags_rejected:
  "byte_order_of_tag ''big_endian'' = None" "byte_order_of_tag ''little_endian'' = None"
  "access_mode_of_tag ''read_write'' = None"
  by (simp_all add: byte_order_of_tag_def access_mode_of_tag_def of_tag_def)

end
