(* ===== verification/Serial_Trigger.thy ===== *)
theory Serial_Trigger
  imports Hex Numbers Node Conn_Manager
begin

text \<open>
  \<open>crates/nodes-io/src/serial_trigger/\<close>: how the serial trigger cuts the bytes of a port into frames, what
  it makes of a frame, and what it reports to the connection pool. A string of the configuration is its
  bytes. The clock is read once per pass of the read loop.
\<close>

section \<open>The delimiter (\<open>loop.rs\<close>)\<close>

definition hex_nibble :: "u8 \<Rightarrow> u8 option" where
  "hex_nibble v =
     (if 48 \<le> v \<and> v \<le> 57 then Some (v - 48)
      else if 97 \<le> v \<and> v \<le> 102 then Some (v - 97 + 10)
      else if 65 \<le> v \<and> v \<le> 70 then Some (v - 65 + 10)
      else None)"

fun nibble_pairs :: "u8 list \<Rightarrow> u8 list" where
  "nibble_pairs (a # b # ns) = (push_bit 4 a OR b) # nibble_pairs ns"
| "nibble_pairs _ = []"

definition parse_hex_bytes :: "string \<Rightarrow> u8 list" where
  "parse_hex_bytes s = nibble_pairs (List.map_filter hex_nibble (map of_char s))"

definition escaped_byte :: "char \<Rightarrow> u8" where
  "escaped_byte c =
     (if c = CHR ''n'' then 10 else if c = CHR ''r'' then 13 else if c = CHR ''t'' then 9 else of_char c)"

text \<open>A backslash at the end stands for itself.\<close>

fun unescape :: "string \<Rightarrow> u8 list" where
  "unescape [] = []"
| "unescape [c] = [of_char c]"
| "unescape (c # d # ds) =
     (if c \<noteq> CHR 0x5C then of_char c # unescape (d # ds) else escaped_byte d # unescape ds)"

definition decode_serial_delimiter :: "string \<Rightarrow> u8 list" where
  "decode_serial_delimiter v =
     (if v = [] then []
      else
        (let trimmed = trim_utf8 v in
         if starts_with trimmed ''hex:'' then parse_hex_bytes (drop 4 trimmed)
         else if starts_with trimmed ''0x'' then parse_hex_bytes (drop 2 trimmed)
         else unescape v))"

section \<open>Frames (\<open>loop.rs\<close>)\<close>

fun window_position :: "u8 list \<Rightarrow> u8 list \<Rightarrow> nat option" where
  "window_position d [] = (if d = [] then Some 0 else None)"
| "window_position d (x # xs) =
     (if take (length d) (x # xs) = d then Some 0 else map_option Suc (window_position d xs))"

definition drain_delimited_frame :: "u8 list \<Rightarrow> u8 list \<Rightarrow> (u8 list \<times> u8 list) option" where
  "drain_delimited_frame d buffer =
     (if d = [] \<or> length buffer < length d then None
      else map_option (\<lambda>i. (take i buffer, drop (i + length d) buffer)) (window_position d buffer))"

lemma drain_shorter: "drain_delimited_frame d b = Some (f, b') \<Longrightarrow> length b' < length b"
  by (cases b) (auto simp: drain_delimited_frame_def intro!: diff_less split: if_splits)

function drain_frames :: "u8 list \<Rightarrow> u8 list \<Rightarrow> u8 list list \<times> u8 list" where
  "drain_frames d b =
     (case drain_delimited_frame d b of
        None \<Rightarrow> ([], b)
      | Some (f, b') \<Rightarrow> (case drain_frames d b' of (fs, rest) \<Rightarrow> (f # fs, rest)))"
  by pat_completeness auto
termination drain_frames
  by (relation "measure (\<lambda>(d, b). length b)") (auto dest: drain_shorter)

declare drain_frames.simps [simp del]

section \<open>The read loop (\<open>loop.rs\<close>)\<close>

record serial_trigger_config =
  sc_port_path :: string
  sc_baud_rate :: u32
  sc_data_bits :: u8
  sc_parity :: string
  sc_stop_bits :: u8
  sc_flow_control :: string
  sc_encoding :: string
  sc_delimiter :: string
  sc_read_timeout_ms :: u64
  sc_idle_gap_ms :: u64
  sc_max_frame_bytes :: u64
  sc_trim :: bool
  sc_inject :: json_map

text \<open>What \<open>run_serial_loop\<close> computes before it reads.\<close>

record read_limits =
  rl_delimiter :: "u8 list"
  rl_idle_gap :: time
  rl_max_frame :: nat
  rl_heartbeat :: time

definition clamp_word :: "'a::len word \<Rightarrow> 'a word \<Rightarrow> 'a word \<Rightarrow> 'a word" where
  "clamp_word lo hi v = (if v < lo then lo else if v > hi then hi else v)"

definition heartbeat_interval :: "json \<Rightarrow> time" where
  "heartbeat_interval metadata = duration_ms (clamp_word 250 30000 (governance_u64 metadata ''heartbeat_interval_ms'' 3000))"

definition read_limits_of :: "serial_trigger_config \<Rightarrow> json \<Rightarrow> read_limits" where
  "read_limits_of c metadata =
     \<lparr>rl_delimiter = decode_serial_delimiter (sc_delimiter c),
      rl_idle_gap = duration_ms (clamp_word 1 10000 (sc_idle_gap_ms c)),
      rl_max_frame = unat (clamp_word 1 8192 (sc_max_frame_bytes c)),
      rl_heartbeat = heartbeat_interval metadata\<rparr>"

record read_state =
  rd_buffer :: "u8 list"
  rd_last_byte_at :: "time option"
  rd_last_heartbeat :: time

datatype port_read = ReadBytes "u8 list" | ReadTimedOut | ReadFailed string

datatype serial_effect = EmitFrame "u8 list" | RecordHeartbeat

definition submit_frame :: "u8 list \<Rightarrow> serial_effect list" where
  "submit_frame f = (if f = [] then [] else [EmitFrame f])"

definition flush_idle :: "read_limits \<Rightarrow> time \<Rightarrow> read_state \<Rightarrow> serial_effect list \<times> read_state" where
  "flush_idle p now st =
     (if rd_buffer st = [] then ([], st)
      else if (case rd_last_byte_at st of Some t \<Rightarrow> now - t \<ge> rl_idle_gap p | None \<Rightarrow> False)
      then (submit_frame (rd_buffer st), st\<lparr>rd_buffer := []\<rparr>)
      else ([], st))"

definition serial_heartbeat :: "read_limits \<Rightarrow> time \<Rightarrow> read_state \<Rightarrow> serial_effect list \<times> read_state" where
  "serial_heartbeat p now st =
     (if now - rd_last_heartbeat st \<ge> rl_heartbeat p then ([RecordHeartbeat], st\<lparr>rd_last_heartbeat := now\<rparr>)
      else ([], st))"

definition take_oversize :: "nat \<Rightarrow> u8 list \<Rightarrow> u8 list list \<times> u8 list" where
  "take_oversize n b = (if length b \<ge> n then ([take n b], drop n b) else ([], b))"

definition receive_bytes :: "read_limits \<Rightarrow> time \<Rightarrow> u8 list \<Rightarrow> read_state \<Rightarrow> serial_effect list \<times> read_state" where
  "receive_bytes p now bs st =
     (let st1 = st\<lparr>rd_buffer := rd_buffer st @ bs, rd_last_byte_at := Some now\<rparr>;
          (hb, st2) = serial_heartbeat p now st1;
          (fs, b1) = drain_frames (rl_delimiter p) (rd_buffer st2);
          (gs, b2) = take_oversize (rl_max_frame p) b1
      in (hb @ concat (map submit_frame (fs @ gs)), st2\<lparr>rd_buffer := b2\<rparr>))"

text \<open>One pass of the loop; \<open>Inl\<close> is the \<open>break\<close> on an error.\<close>

definition read_pass :: "read_limits \<Rightarrow> time \<Rightarrow> port_read \<Rightarrow> read_state \<Rightarrow> string + serial_effect list \<times> read_state" where
  "read_pass p now ev st =
     (case ev of
        ReadBytes bs \<Rightarrow>
          if bs = [] then
            (let (es, st1) = flush_idle p now st; (hb, st2) = serial_heartbeat p now st1 in Inr (es @ hb, st2))
          else Inr (receive_bytes p now bs st)
      | ReadTimedOut \<Rightarrow>
          if rd_buffer st = [] then Inr (serial_heartbeat p now st)
          else
            (case rd_last_byte_at st of
               None \<Rightarrow> Inr ([], st)
             | Some t \<Rightarrow> if now - t < rl_idle_gap p then Inr ([], st) else Inr (flush_idle p now st))
      | ReadFailed e \<Rightarrow> Inl e)"

text \<open>
  The inner loop over what the port answers; at the end of the list the token is seen cancelled. The
  first component is the error it broke off with.
\<close>

fun read_loop :: "read_limits \<Rightarrow> (time \<times> port_read) list \<Rightarrow> read_state \<Rightarrow> string option \<times> serial_effect list \<times> read_state" where
  "read_loop p [] st = (None, [], st)"
| "read_loop p ((now, ev) # evs) st =
     (case read_pass p now ev st of
        Inl e \<Rightarrow> (Some e, [], st)
      | Inr (es, st') \<Rightarrow> (case read_loop p evs st' of (r, es', st'') \<Rightarrow> (r, es @ es', st'')))"

definition session_start :: "time \<Rightarrow> read_state" where
  "session_start now = \<lparr>rd_buffer = [], rd_last_byte_at = None, rd_last_heartbeat = now\<rparr>"

text \<open>A session; \<open>cancelled\<close> is whether the token is cancelled when the loop has ended.\<close>

definition read_session ::
    "read_limits \<Rightarrow> time \<Rightarrow> (time \<times> port_read) list \<Rightarrow> bool \<Rightarrow> string option \<times> serial_effect list" where
  "read_session p start evs cancelled =
     (case read_loop p evs (session_start start) of
        (r, es, st) \<Rightarrow>
          (r, es @ (if \<not> cancelled \<and> rd_buffer st \<noteq> [] then submit_frame (rd_buffer st) else [])))"

section \<open>The connection (\<open>loop.rs\<close>)\<close>

definition session_opened :: "string \<Rightarrow> u64 \<Rightarrow> time \<Rightarrow> conn_manager \<Rightarrow> conn_manager" where
  "session_opened cid latency now m = snd (record_connect_success cid (Msg ''serial-listening'' []) (Some latency) now m)"

text \<open>The end of a session that failed, or could not be opened: the failure is recorded, then the guard dropped.\<close>

definition session_failed ::
    "string \<Rightarrow> nat \<Rightarrow> connection_lease \<Rightarrow> string \<Rightarrow> time \<Rightarrow> conn_manager \<Rightarrow> u64 result \<times> conn_manager" where
  "session_failed cid r lease reason now m =
     (let (retry, m1) = record_connect_failure cid (Msg ''reason'' [reason]) now m
      in (retry, drop_guard now r lease (Failure reason) m1))"

definition retry_after_ms :: "u64 result \<Rightarrow> u64" where
  "retry_after_ms retry = (case retry of Inr ms \<Rightarrow> ms | Inl _ \<Rightarrow> 800)"

definition session_cancelled :: "string \<Rightarrow> nat \<Rightarrow> connection_lease \<Rightarrow> time \<Rightarrow> conn_manager \<Rightarrow> conn_manager" where
  "session_cancelled cid r lease now m =
     snd (mark_disconnected cid (Msg ''serial-stopped'' []) now (drop_guard now r lease Success m))"

section \<open>What a frame becomes (\<open>frame.rs\<close>)\<close>

fun bytes_to_hex :: "u8 list \<Rightarrow> string" where
  "bytes_to_hex [] = []"
| "bytes_to_hex [b] = hex_byte b"
| "bytes_to_hex (b # c # bs) = hex_byte b @ CHR '' '' # bytes_to_hex (c # bs)"

text \<open>\<open>split_whitespace\<close>; the first argument is the piece read so far.\<close>

function split_whitespace :: "string \<Rightarrow> string \<Rightarrow> string list" where
  "split_whitespace piece s =
     (let pieces = (if piece = [] then [] else [piece]); k = space_width wide_space s in
      if s = [] then pieces
      else if k = 0 then split_whitespace (piece @ [hd s]) (tl s)
      else pieces @ split_whitespace [] (drop k s))"
  by pat_completeness auto
termination split_whitespace
  by (relation "measure (\<lambda>(_, s). length s)") auto

declare split_whitespace.simps [simp del]

fun join_spaces :: "string list \<Rightarrow> string" where
  "join_spaces [] = []"
| "join_spaces [w] = w"
| "join_spaces (w # v # ws) = w @ CHR '' '' # join_spaces (v # ws)"

text \<open>\<open>upper\<close> is \<open>str::to_uppercase\<close>, \<open>lossy\<close> is \<open>String::from_utf8_lossy\<close>.\<close>

definition normalize_hex :: "(string \<Rightarrow> string) \<Rightarrow> string \<Rightarrow> string" where
  "normalize_hex upper s = upper (join_spaces (split_whitespace [] s))"

definition normalize_ascii :: "bool \<Rightarrow> string \<Rightarrow> string" where
  "normalize_ascii trims s = (if trims then trim_utf8 s else s)"

definition build_serial_payload ::
    "(u8 list \<Rightarrow> string) \<Rightarrow> (string \<Rightarrow> string) \<Rightarrow> u8 list \<Rightarrow> serial_trigger_config \<Rightarrow> json \<times> u64 \<times> string" where
  "build_serial_payload lossy upper frame c =
     (let ascii_text = normalize_ascii (sc_trim c) (lossy frame);
          hex_text = normalize_hex upper (bytes_to_hex frame);
          encoding = to_ascii_lowercase (trim_utf8 (sc_encoding c));
          serial_data = (if encoding = ''hex'' then hex_text else ascii_text);
          m = fold (\<lambda>(k, v). bt_put k v) (sc_inject c) [];
          m1 = bt_put ''serial_data'' (JString serial_data) m;
          m2 = bt_put ''serial_ascii'' (JString ascii_text) m1;
          m3 = bt_put ''serial_hex'' (JString hex_text) m2
      in (JObject m3, of_nat (length frame), encoding))"

end
