(* ===== verification/Serial_Correct.thy ===== *)
theory Serial_Correct
  imports Serial_Trigger "HOL-Library.Sublist"
begin

text \<open>
  Frames of the serial trigger: how the byte stream is cut, that no byte is lost, how large a frame and the
  buffer get, and that the hexadecimal text of a frame can be read back.
\<close>

section \<open>Delimiters\<close>

lemma window_position_length: "window_position d b = Some i \<Longrightarrow> i + length d \<le> length b"
proof (induction b arbitrary: i)
  case (Cons x xs)
  show ?case
  proof (cases "take (length d) (x # xs) = d")
    case True
    then have "length d \<le> length (x # xs)" by (metis length_take min.cobounded1)
    then show ?thesis using Cons.prems True by simp
  next
    case False
    then show ?thesis using Cons by auto
  qed
qed (simp split: if_splits)

lemma window_position_Some: "window_position d b = Some i \<Longrightarrow> b = take i b @ d @ drop (i + length d) b"
proof (induction b arbitrary: i)
  case (Cons x xs)
  show ?case
  proof (cases "take (length d) (x # xs) = d")
    case True
    then show ?thesis using Cons.prems by simp (metis append_take_drop_id)
  next
    case False
    then show ?thesis using Cons by auto
  qed
qed (simp split: if_splits)

lemma window_position_None: "window_position d b = None \<longleftrightarrow> \<not> sublist d b"
proof (induction b)
  case (Cons x xs)
  have "take (length d) (x # xs) = d \<longleftrightarrow> prefix d (x # xs)"
    by (metis append_eq_conv_conj append_take_drop_id prefix_def)
  then show ?case using Cons by (auto simp: sublist_Cons_right)
qed auto

lemma window_position_append: "window_position d b = Some i \<Longrightarrow> window_position d (b @ c) = Some i"
proof (induction b arbitrary: i)
  case Nil
  then show ?case by (cases c) (auto split: if_splits)
next
  case (Cons x xs)
  show ?case
  proof (cases "take (length d) (x # xs) = d")
    case True
    then have "length d \<le> length (x # xs)" by (metis length_take min.cobounded1)
    then have "take (length d) ((x # xs) @ c) = take (length d) (x # xs)" by (subst take_append) simp
    then have "take (length d) ((x # xs) @ c) = d" using True by (rule trans)
    then show ?thesis using Cons.prems True by simp
  next
    case False
    then obtain j where j: "window_position d xs = Some j" "i = Suc j" using Cons.prems by auto
    then have "length d \<le> length xs" using window_position_length by fastforce
    then have "take (length d) ((x # xs) @ c) = take (length d) (x # xs)" by (subst take_append) simp
    then have "take (length d) ((x # xs) @ c) \<noteq> d" using False by (simp only:) simp
    then show ?thesis using Cons.IH [OF j(1)] j(2) by simp
  qed
qed

text \<open>The position found is the first: there is no delimiter that ends earlier.\<close>

lemma window_position_first: "window_position d b = Some i \<Longrightarrow> d \<noteq> [] \<Longrightarrow> \<not> sublist d (butlast (take i b @ d))"
proof
  assume i: "window_position d b = Some i" and d: "d \<noteq> []" and sub: "sublist d (butlast (take i b @ d))"
  let ?u = "butlast (take i b @ d)"
  obtain j where j: "window_position d ?u = Some j" using sub window_position_None by blast
  have "take i b @ d = ?u @ [last d]" using d by (metis append_butlast_last_id append_is_Nil_conv last_appendR)
  then have "b = ?u @ last d # drop (i + length d) b"
    using window_position_Some [OF i] by (metis append_assoc append_Cons append_Nil)
  then have "window_position d b = Some j" using window_position_append [OF j] by metis
  then have "j = i" using i by simp
  then have "i + length d \<le> length ?u" using window_position_length [OF j] by (simp only:)
  moreover have "length ?u = i + length d - 1"
    using window_position_length [OF i] by (simp add: min_absorb2)
  moreover have "0 < length d" using d by simp
  ultimately show False by linarith
qed

lemma drain_None: "d \<noteq> [] \<Longrightarrow> drain_delimited_frame d b = None \<longleftrightarrow> \<not> sublist d b"
  by (auto simp: drain_delimited_frame_def window_position_None dest: sublist_length_le)

lemma drain_Some:
  assumes "drain_delimited_frame d b = Some (f, b')"
  shows "b = f @ d @ b'" and "d \<noteq> []" and "\<not> sublist d (butlast (f @ d))"
  using assms window_position_Some [of d b] window_position_first [of d b]
  by (auto simp: drain_delimited_frame_def split: if_splits)

lemma drain_append: "drain_delimited_frame d b = Some (f, b') \<Longrightarrow> drain_delimited_frame d (b @ c) = Some (f, b' @ c)"
  using window_position_append [of d b _ c] window_position_length [of d b]
  by (auto simp: drain_delimited_frame_def split: if_splits)

lemma drain_frames_append:
  "drain_frames d (b @ c) =
    (case drain_frames d b of (fs, r) \<Rightarrow> (case drain_frames d (r @ c) of (gs, r') \<Rightarrow> (fs @ gs, r')))"
proof (induction d b rule: drain_frames.induct)
  case (1 d b)
  show ?case
  proof (cases "drain_delimited_frame d b")
    case None
    then show ?thesis by (simp add: drain_frames.simps [of d b])
  next
    case (Some fb)
    obtain f b' where fb: "fb = (f, b')" by (cases fb)
    then show ?thesis
      using 1 [OF Some fb [symmetric]] drain_append [of d b f b' c] Some
      by (simp add: drain_frames.simps [of d b] drain_frames.simps [of d "b @ c"] split: prod.split)
  qed
qed

lemma drain_frames_spec:
  "drain_frames d b = (fs, r) \<Longrightarrow>
    b = concat (map (\<lambda>f. f @ d) fs) @ r \<and> (fs \<noteq> [] \<longrightarrow> d \<noteq> []) \<and>
    (\<forall>f\<in>set fs. \<not> sublist d (butlast (f @ d))) \<and> (d \<noteq> [] \<longrightarrow> \<not> sublist d r)"
proof (induction d b arbitrary: fs rule: drain_frames.induct)
  case (1 d b)
  show ?case
  proof (cases "drain_delimited_frame d b")
    case None
    then show ?thesis using "1.prems" drain_None [of d b] by (auto simp: drain_frames.simps [of d b])
  next
    case (Some fb)
    obtain f b' where fb: "fb = (f, b')" by (cases fb)
    obtain gs where gs: "drain_frames d b' = (gs, r)" "fs = f # gs"
      using "1.prems" Some fb by (auto simp: drain_frames.simps [of d b] split: prod.splits)
    show ?thesis
      using "1.IH" [OF Some fb [symmetric] gs(1)] drain_Some [of d b f b'] Some fb gs(2) by auto
  qed
qed

section \<open>Frames and bytes\<close>

definition frames :: "serial_effect list \<Rightarrow> u8 list list" where
  "frames es = concat (map (\<lambda>e. case e of EmitFrame f \<Rightarrow> [f] | RecordHeartbeat \<Rightarrow> []) es)"

lemma frames_simps [simp]:
  "frames [] = []" "frames (es @ es') = frames es @ frames es'" "frames (submit_frame f) = filter (\<lambda>f. f \<noteq> []) [f]"
  "frames (concat (map submit_frame fs)) = filter (\<lambda>f. f \<noteq> []) fs"
proof -
  show "frames (concat (map submit_frame fs)) = filter (\<lambda>f. f \<noteq> []) fs"
    by (induction fs) (simp_all add: frames_def submit_frame_def)
qed (simp_all add: frames_def submit_frame_def)

lemma heartbeat_fields:
  assumes "serial_heartbeat p now st = (es, st')"
  shows "frames es = []" and "rd_buffer st' = rd_buffer st" and "rd_last_byte_at st' = rd_last_byte_at st"
  using assms by (auto simp: serial_heartbeat_def frames_def split: if_splits)

text \<open>The bytes of an event, and those received before the loop breaks off.\<close>

definition event_bytes :: "port_read \<Rightarrow> u8 list" where
  "event_bytes ev = (case ev of ReadBytes bs \<Rightarrow> bs | _ \<Rightarrow> [])"

fun received :: "(time \<times> port_read) list \<Rightarrow> u8 list" where
  "received [] = []"
| "received ((t, ev) # evs) = (case ev of ReadFailed e \<Rightarrow> [] | _ \<Rightarrow> event_bytes ev @ received evs)"

text \<open>
  The pieces the stream is cut into: each is followed by a delimiter or was cut off by an idle gap, by
  the size limit or at the end.
\<close>

definition pieces_bytes :: "u8 list \<Rightarrow> (u8 list \<times> bool) list \<Rightarrow> u8 list" where
  "pieces_bytes d segs = concat (map (\<lambda>(f, delimited). if delimited then f @ d else f) segs)"

lemma pieces_append [simp]:
  "pieces_bytes d [] = []" "pieces_bytes d (xs @ ys) = pieces_bytes d xs @ pieces_bytes d ys"
  "pieces_bytes d [(f, False)] = f"
  by (simp_all add: pieces_bytes_def)

lemma pieces_delimited: "pieces_bytes d (map (\<lambda>f. (f, True)) fs) = concat (map (\<lambda>f. f @ d) fs)"
  by (induction fs) (simp_all add: pieces_bytes_def)

definition clean :: "u8 list \<Rightarrow> u8 list \<Rightarrow> bool" where
  "clean d b \<longleftrightarrow> (d \<noteq> [] \<longrightarrow> \<not> sublist d b)"

lemma clean_part: "clean d (b @ c) \<Longrightarrow> clean d b \<and> clean d c"
  by (metis clean_def sublist_appendI sublist_append_leftI sublist_append_rightI sublist_order.order_trans)

lemma clean_take_drop: "clean d b \<Longrightarrow> clean d (take n b) \<and> clean d (drop n b)"
  by (metis append_take_drop_id clean_part)

lemma clean_frame: "\<not> sublist d (butlast (f @ d)) \<Longrightarrow> clean d f"
  using clean_part [of d f "butlast d"] by (cases "d = []") (auto simp: clean_def butlast_append)

text \<open>\<open>cuts d b segs b'\<close>: the bytes \<open>b\<close> are the pieces \<open>segs\<close> and the rest \<open>b'\<close>, which have no delimiter in them.\<close>

definition cuts :: "u8 list \<Rightarrow> u8 list \<Rightarrow> (u8 list \<times> bool) list \<Rightarrow> u8 list \<Rightarrow> bool" where
  "cuts d b segs b' \<longleftrightarrow> b = pieces_bytes d segs @ b' \<and> clean d b' \<and> (\<forall>f\<in>fst ` set segs. clean d f)"

lemma flush_cuts:
  assumes "flush_idle p now st = (es, st')" and "clean d (rd_buffer st)"
  shows "\<exists>segs. cuts d (rd_buffer st) segs (rd_buffer st') \<and> frames es = filter (\<lambda>f. f \<noteq> []) (map fst segs)"
proof (cases "rd_buffer st' = rd_buffer st")
  case True
  then have "frames es = []" using assms(1) by (auto simp: flush_idle_def split: if_splits)
  then show ?thesis using True assms(2) by (intro exI [of _ "[]"]) (simp add: cuts_def)
next
  case False
  then have "es = submit_frame (rd_buffer st)" "rd_buffer st' = []"
    using assms(1) by (auto simp: flush_idle_def split: if_splits)
  then show ?thesis using assms(2) by (intro exI [of _ "[(rd_buffer st, False)]"]) (auto simp: cuts_def clean_def)
qed

text \<open>What a read with data does, in terms of the two cuts.\<close>

lemma receive_shape:
  assumes "receive_bytes p now bs st = (es, st')" and "drain_frames (rl_delimiter p) (rd_buffer st @ bs) = (fs, b1)"
    and "take_oversize (rl_max_frame p) b1 = (gs, b2)"
  shows "frames es = filter (\<lambda>f. f \<noteq> []) (fs @ gs)" and "rd_buffer st' = b2"
proof -
  define st1 where "st1 = st\<lparr>rd_buffer := rd_buffer st @ bs, rd_last_byte_at := Some now\<rparr>"
  obtain hb st2 where hb: "serial_heartbeat p now st1 = (hb, st2)" by (rule prod.exhaust)
  have st2: "rd_buffer st2 = rd_buffer st @ bs" "frames hb = []"
    using heartbeat_fields [OF hb] by (simp_all add: st1_def)
  have "es = hb @ concat (map submit_frame (fs @ gs))" and st': "rd_buffer st' = b2"
    using assms hb by (auto simp: receive_bytes_def st1_def [symmetric] st2 Let_def)
  then show "frames es = filter (\<lambda>f. f \<noteq> []) (fs @ gs)" "rd_buffer st' = b2"
    by (simp_all only: frames_simps st2 append_Nil)
qed

lemma receive_cuts:
  assumes "receive_bytes p now bs st = (es, st')"
  shows "\<exists>segs. cuts (rl_delimiter p) (rd_buffer st @ bs) segs (rd_buffer st') \<and>
    frames es = filter (\<lambda>f. f \<noteq> []) (map fst segs)"
proof -
  let ?d = "rl_delimiter p"
  obtain fs b1 where fs: "drain_frames ?d (rd_buffer st @ bs) = (fs, b1)" by (rule prod.exhaust)
  obtain gs b2 where gs: "take_oversize (rl_max_frame p) b1 = (gs, b2)" by (rule prod.exhaust)
  note shape = receive_shape [OF assms fs gs]
  note spec = drain_frames_spec [OF fs]
  have b1: "clean ?d b1" using spec by (auto simp: clean_def)
  have cut: "b1 = concat gs @ b2" "\<forall>g\<in>set gs. clean ?d g" "clean ?d b2"
    using gs clean_take_drop [OF b1, of "rl_max_frame p"] b1 by (auto simp: take_oversize_def split: if_splits)
  have flat: "pieces_bytes ?d (map (\<lambda>g. (g, False)) gs) = concat gs" by (induction gs) (simp_all add: pieces_bytes_def)
  have "cuts ?d (rd_buffer st @ bs) (map (\<lambda>f. (f, True)) fs @ map (\<lambda>g. (g, False)) gs) (rd_buffer st')"
    using spec cut by (auto simp: cuts_def pieces_delimited flat shape(2) intro: clean_frame)
  then show ?thesis
    by (intro exI [of _ "map (\<lambda>f. (f, True)) fs @ map (\<lambda>g. (g, False)) gs"]) (simp add: shape(1) comp_def)
qed

lemma read_pass_cuts:
  assumes "read_pass p now ev st = Inr (es, st')" and "clean (rl_delimiter p) (rd_buffer st)"
  shows "\<exists>segs. cuts (rl_delimiter p) (rd_buffer st @ event_bytes ev) segs (rd_buffer st') \<and>
    frames es = filter (\<lambda>f. f \<noteq> []) (map fst segs)"
proof -
  have same: ?thesis if "rd_buffer st' = rd_buffer st" "event_bytes ev = []" "frames es = []"
    using that assms(2) by (intro exI [of _ "[]"]) (simp add: cuts_def)
  have flushed: ?thesis if "flush_idle p now st = (es1, st1)" "event_bytes ev = []" "frames es = frames es1"
    "rd_buffer st' = rd_buffer st1" for es1 st1
    using flush_cuts [OF that(1) assms(2)] that(2-4) by simp
  show ?thesis
  proof (cases ev)
    case (ReadBytes bs)
    show ?thesis
    proof (cases "bs = []")
      case True
      obtain es1 st1 hb st2 where "flush_idle p now st = (es1, st1)" "serial_heartbeat p now st1 = (hb, st2)"
        by (metis prod.exhaust)
      then show ?thesis
        using assms(1) ReadBytes True heartbeat_fields [of p now st1 hb st2]
        by (intro flushed [of es1 st1]) (auto simp: read_pass_def event_bytes_def)
    next
      case False
      then show ?thesis using assms(1) ReadBytes receive_cuts by (simp add: read_pass_def event_bytes_def)
    qed
  next
    case ReadTimedOut
    obtain es1 st1 where "flush_idle p now st = (es1, st1)" by (rule prod.exhaust)
    then show ?thesis
      using assms(1) ReadTimedOut heartbeat_fields [of p now st es st'] same flushed [of es1 st1]
      by (auto simp: read_pass_def event_bytes_def split: if_splits option.splits)
  qed (use assms(1) in \<open>simp add: read_pass_def\<close>)
qed

lemma cuts_append: "cuts d b segs b' \<Longrightarrow> cuts d (b' @ c) segs' b'' \<Longrightarrow> cuts d (b @ c) (segs @ segs') b''"
  by (auto simp: cuts_def)

lemma read_loop_cuts:
  "read_loop p evs st = (r, es, st') \<Longrightarrow> clean (rl_delimiter p) (rd_buffer st) \<Longrightarrow>
    \<exists>segs. cuts (rl_delimiter p) (rd_buffer st @ received evs) segs (rd_buffer st') \<and>
      frames es = filter (\<lambda>f. f \<noteq> []) (map fst segs)"
proof (induction evs arbitrary: st es)
  case Nil
  then show ?case by (intro exI [of _ "[]"]) (simp add: cuts_def)
next
  case (Cons tev evs)
  obtain now ev where tev: "tev = (now, ev)" by (cases tev)
  show ?case
  proof (cases "read_pass p now ev st")
    case (Inl e)
    then have "\<exists>e. ev = ReadFailed e" by (cases ev) (auto simp: read_pass_def split: if_splits option.splits prod.splits)
    then show ?thesis using Cons.prems Inl tev by (intro exI [of _ "[]"]) (auto simp: cuts_def)
  next
    case (Inr est)
    obtain es1 st1 where est: "est = (es1, st1)" by (cases est)
    obtain es2 where loop: "read_loop p evs st1 = (r, es2, st')" and es: "es = es1 @ es2"
      using Cons.prems(1) Inr by (auto simp: tev est split: prod.splits)
    obtain segs where segs: "cuts (rl_delimiter p) (rd_buffer st @ event_bytes ev) segs (rd_buffer st1)"
      "frames es1 = filter (\<lambda>f. f \<noteq> []) (map fst segs)"
      using read_pass_cuts Inr Cons.prems(2) est by blast
    then obtain segs' where segs': "cuts (rl_delimiter p) (rd_buffer st1 @ received evs) segs' (rd_buffer st')"
      "frames es2 = filter (\<lambda>f. f \<noteq> []) (map fst segs')"
      using Cons.IH [OF loop] by (auto simp: cuts_def)
    have "received (tev # evs) = event_bytes ev @ received evs"
      using Inr by (cases ev) (simp_all add: tev read_pass_def)
    then show ?thesis
      using cuts_append [OF segs(1) segs'(1)] segs(2) segs'(2) by (intro exI [of _ "segs @ segs'"]) (simp add: es)
  qed
qed

text \<open>
  C34: a session neither loses, repeats nor reorders a byte. What was received is, in order, the frames sent,
  each with the delimiter that ended it or none, empty frames between delimiters left out, and a rest that
  is empty unless the session was cancelled; no frame has a delimiter in it.
\<close>

theorem serial_bytes_conserved:
  assumes "read_session p start evs cancelled = (r, es)"
  shows "\<exists>segs rest. received evs = pieces_bytes (rl_delimiter p) segs @ rest \<and>
    frames es = filter (\<lambda>f. f \<noteq> []) (map fst segs) \<and> (\<forall>f\<in>set (frames es). clean (rl_delimiter p) f) \<and>
    (\<not> cancelled \<longrightarrow> rest = [])"
proof -
  obtain es1 st where loop: "read_loop p evs (session_start start) = (r, es1, st)"
    and es: "es = es1 @ (if \<not> cancelled \<and> rd_buffer st \<noteq> [] then submit_frame (rd_buffer st) else [])"
    using assms by (auto simp: read_session_def split: prod.splits)
  have "clean (rl_delimiter p) (rd_buffer (session_start start))" by (simp add: clean_def session_start_def)
  then obtain segs where segs: "cuts (rl_delimiter p) (received evs) segs (rd_buffer st)"
    "frames es1 = filter (\<lambda>f. f \<noteq> []) (map fst segs)"
    using read_loop_cuts [OF loop] by (auto simp: session_start_def)
  show ?thesis
  proof (cases cancelled)
    case True
    then show ?thesis using segs by (intro exI [of _ segs] exI [of _ "rd_buffer st"]) (auto simp: es cuts_def)
  next
    case False
    then show ?thesis
      using segs by (intro exI [of _ "segs @ [(rd_buffer st, False)]"] exI [of _ "[]"]) (auto simp: es cuts_def)
  qed
qed

theorem serial_bytes_conserved_witness:
  "\<exists>r es segs. read_session \<lparr>rl_delimiter = [10], rl_idle_gap = 80, rl_max_frame = 512, rl_heartbeat = 3000\<rparr> 0
      [(1, ReadBytes [65, 10]), (2, ReadBytes [66]), (3, ReadFailed ''gone'')] False = (r, es) \<and>
    [65, 10, 66] = pieces_bytes [10] segs \<and> frames es = filter (\<lambda>f. f \<noteq> []) (map fst segs)"
proof -
  let ?p = "\<lparr>rl_delimiter = [10], rl_idle_gap = 80, rl_max_frame = 512, rl_heartbeat = 3000\<rparr> :: read_limits"
  let ?evs = "[(1, ReadBytes [65, 10]), (2, ReadBytes [66]), (3, ReadFailed ''gone'')]"
  obtain r es where s: "read_session ?p 0 ?evs False = (r, es)" by (rule prod.exhaust)
  have "received ?evs = [65, 10, 66]" by (simp add: event_bytes_def)
  then show ?thesis using serial_bytes_conserved [OF s] s by auto
qed

section \<open>How the bytes arrive does not matter\<close>

text \<open>
  Reads that let the delimiters alone cut the stream: no read fails, the rest left after each read stays
  below the size limit, and the device pauses for the idle gap only between frames. \<open>seen\<close> are the bytes so
  far, \<open>last_at\<close> the instant of the last of them.
\<close>

definition undelimited :: "read_limits \<Rightarrow> u8 list \<Rightarrow> u8 list" where
  "undelimited p bs = snd (drain_frames (rl_delimiter p) bs)"

fun steady :: "read_limits \<Rightarrow> u8 list \<Rightarrow> time \<Rightarrow> (time \<times> port_read) list \<Rightarrow> bool" where
  "steady p seen last_at [] \<longleftrightarrow> True"
| "steady p seen last_at ((t, ReadFailed e) # evs) \<longleftrightarrow> False"
| "steady p seen last_at ((t, ReadTimedOut) # evs) \<longleftrightarrow>
     (undelimited p seen = [] \<or> t - last_at < rl_idle_gap p) \<and> steady p seen last_at evs"
| "steady p seen last_at ((t, ReadBytes bs) # evs) \<longleftrightarrow>
     (if bs = [] then (undelimited p seen = [] \<or> t - last_at < rl_idle_gap p) \<and> steady p seen last_at evs
      else length (undelimited p (seen @ bs)) < rl_max_frame p \<and> steady p (seen @ bs) t evs)"

lemma undelimited_append: "undelimited p (seen @ bs) = undelimited p (undelimited p seen @ bs)"
  by (simp add: undelimited_def drain_frames_append [of _ seen] split: prod.split)

lemma undelimited_rest: "drain_frames (rl_delimiter p) (undelimited p seen) = ([], undelimited p seen)"
proof -
  obtain fs rest where d: "drain_frames (rl_delimiter p) seen = (fs, rest)" by (rule prod.exhaust)
  then show ?thesis
    using drain_frames_append [of "rl_delimiter p" seen "[]"] by (auto simp: undelimited_def split: prod.splits)
qed

lemma receive_last_byte: "receive_bytes p now bs st = (es, st') \<Longrightarrow> rd_last_byte_at st' = Some now"
  by (auto simp: receive_bytes_def Let_def dest!: heartbeat_fields(3) split: prod.splits)

text \<open>A read without bytes does nothing when no frame is begun or the gap has not passed.\<close>

lemma idle_pass:
  assumes "read_pass p now ev st = Inr (es, st')" and "event_bytes ev = []"
    and "rd_buffer st = [] \<or> (\<exists>u. rd_last_byte_at st = Some u \<and> now - u < rl_idle_gap p)"
  shows "frames es = []" and "rd_buffer st' = rd_buffer st" and "rd_last_byte_at st' = rd_last_byte_at st"
proof -
  have flush: "flush_idle p now st = ([], st)" using assms(3) by (auto simp: flush_idle_def)
  have "frames es = [] \<and> rd_buffer st' = rd_buffer st \<and> rd_last_byte_at st' = rd_last_byte_at st"
  proof (cases ev)
    case (ReadBytes bs)
    then have "serial_heartbeat p now st = (es, st')"
      using assms(1,2) by (auto simp: read_pass_def event_bytes_def flush split: prod.splits)
    from heartbeat_fields [OF this] show ?thesis by simp
  next
    case ReadTimedOut
    then show ?thesis
      using assms(1,3) heartbeat_fields [of p now st es st']
      by (cases "rd_buffer st = []") (auto simp: read_pass_def flush frames_def split: option.splits if_splits)
  qed (use assms(1) in \<open>simp add: read_pass_def\<close>)
  then show "frames es = []" "rd_buffer st' = rd_buffer st" "rd_last_byte_at st' = rd_last_byte_at st" by simp_all
qed

definition reader_at :: "read_limits \<Rightarrow> u8 list \<Rightarrow> time \<Rightarrow> read_state \<Rightarrow> bool" where
  "reader_at p seen last_at st \<longleftrightarrow>
     rd_buffer st = undelimited p seen \<and> (rd_buffer st \<noteq> [] \<longrightarrow> rd_last_byte_at st = Some last_at)"

lemma received_cons: "\<forall>e. ev \<noteq> ReadFailed e \<Longrightarrow> received ((t, ev) # evs) = event_bytes ev @ received evs"
  by (cases ev) auto

lemma steady_pass:
  assumes "steady p seen last_at ((now, ev) # evs)" and "reader_at p seen last_at st"
  obtains es st1 last' fs where "read_pass p now ev st = Inr (es, st1)" and "steady p (seen @ event_bytes ev) last' evs"
    and "reader_at p (seen @ event_bytes ev) last' st1"
    and "drain_frames (rl_delimiter p) (rd_buffer st @ event_bytes ev) = (fs, rd_buffer st1)"
    and "frames es = filter (\<lambda>f. f \<noteq> []) fs" and "\<forall>e. ev \<noteq> ReadFailed e"
proof (cases "event_bytes ev = []")
  case True
  have quiet: "undelimited p seen = [] \<or> now - last_at < rl_idle_gap p" "steady p seen last_at evs" "\<forall>e. ev \<noteq> ReadFailed e"
    using assms(1) True by (cases ev; auto simp: event_bytes_def split: if_splits)+
  obtain es st1 where pass: "read_pass p now ev st = Inr (es, st1)"
    using quiet(3) by (cases "read_pass p now ev st") (auto simp: read_pass_def split: port_read.splits if_splits option.splits prod.splits)
  have "rd_buffer st = [] \<or> (\<exists>u. rd_last_byte_at st = Some u \<and> now - u < rl_idle_gap p)"
    using assms(2) quiet(1) by (auto simp: reader_at_def)
  note idle = idle_pass [OF pass True this]
  show thesis
  proof (rule that [where last' = last_at and fs = "[]", OF pass])
    show "drain_frames (rl_delimiter p) (rd_buffer st @ event_bytes ev) = ([], rd_buffer st1)"
      using assms(2) by (simp add: idle True reader_at_def undelimited_rest)
  qed (use True quiet idle assms(2) in \<open>simp_all add: reader_at_def\<close>)
next
  case False
  then obtain bs where ev: "ev = ReadBytes bs" "bs \<noteq> []" "event_bytes ev = bs"
    by (cases ev) (auto simp: event_bytes_def)
  obtain es st1 where step: "receive_bytes p now bs st = (es, st1)" by (rule prod.exhaust)
  obtain fs b1 where d: "drain_frames (rl_delimiter p) (rd_buffer st @ bs) = (fs, b1)" by (rule prod.exhaust)
  have b1: "b1 = undelimited p (seen @ bs)"
    using d assms(2) by (simp add: undelimited_append [of p seen] reader_at_def) (simp add: undelimited_def)
  have "take_oversize (rl_max_frame p) b1 = ([], b1)"
    using assms(1) ev by (simp add: take_oversize_def b1)
  note shape = receive_shape [OF step d this]
  show thesis
  proof (rule that [where last' = now and fs = fs])
    show "read_pass p now ev st = Inr (es, st1)" by (simp add: ev read_pass_def step)
    show "reader_at p (seen @ event_bytes ev) now st1"
      using shape(2) receive_last_byte [OF step] by (simp add: reader_at_def ev(3) b1)
  qed (use assms(1) ev shape d in simp_all)
qed

lemma read_loop_drains:
  assumes "steady p seen last_at evs" and "reader_at p seen last_at st" and "read_loop p evs st = (r, es, st')"
  shows "\<exists>fs. drain_frames (rl_delimiter p) (rd_buffer st @ received evs) = (fs, rd_buffer st') \<and>
    frames es = filter (\<lambda>f. f \<noteq> []) fs \<and> r = None"
  using assms
proof (induction evs arbitrary: seen last_at st es)
  case Nil
  then show ?case using undelimited_rest [of p seen] by (auto simp: reader_at_def)
next
  case (Cons tev evs)
  obtain now ev where tev: "tev = (now, ev)" by (cases tev)
  obtain es1 st1 last' fs where pass: "read_pass p now ev st = Inr (es1, st1)"
    and next_st: "steady p (seen @ event_bytes ev) last' evs" "reader_at p (seen @ event_bytes ev) last' st1"
    and d: "drain_frames (rl_delimiter p) (rd_buffer st @ event_bytes ev) = (fs, rd_buffer st1)"
    and fs: "frames es1 = filter (\<lambda>f. f \<noteq> []) fs" and ok: "\<forall>e. ev \<noteq> ReadFailed e"
    by (rule steady_pass [OF Cons.prems(1) [unfolded tev] Cons.prems(2)])
  obtain es2 where loop: "read_loop p evs st1 = (r, es2, st')" and es: "es = es1 @ es2"
    using Cons.prems(3) pass by (auto simp: tev split: prod.splits)
  obtain gs where gs: "drain_frames (rl_delimiter p) (rd_buffer st1 @ received evs) = (gs, rd_buffer st')"
    "frames es2 = filter (\<lambda>f. f \<noteq> []) gs" "r = None"
    using Cons.IH [OF next_st loop] by blast
  have "received (tev # evs) = event_bytes ev @ received evs"
    using received_cons [OF ok] by (simp add: tev)
  then have "drain_frames (rl_delimiter p) (rd_buffer st @ received (tev # evs)) = (fs @ gs, rd_buffer st')"
    using drain_frames_append [of "rl_delimiter p" "rd_buffer st @ event_bytes ev" "received evs"] d gs(1) by simp
  then show ?case using fs gs(2,3) by (auto simp: es)
qed

text \<open>
  C35: with a delimiter that is not empty, however the bytes are split over the reads and whatever reads
  time out or give nothing in between, as long as no read fails, none leaves as much as the size limit
  undelimited and the device does not pause for the idle gap within a frame, the frames sent are the
  non-empty pieces between the delimiters of the whole stream, taken from left to right, and what follows
  the last delimiter stays in the buffer. (A longer pause within a frame cuts it, see below.)
\<close>

theorem serial_framing_chunk_independent:
  assumes "steady p [] start evs" and "rl_delimiter p \<noteq> []"
    and "read_loop p evs (session_start start) = (r, es, st)"
  shows "\<exists>fs. received evs = concat (map (\<lambda>f. f @ rl_delimiter p) fs) @ rd_buffer st \<and>
    (\<forall>f\<in>set fs. \<not> sublist (rl_delimiter p) (butlast (f @ rl_delimiter p))) \<and>
    \<not> sublist (rl_delimiter p) (rd_buffer st) \<and> frames es = filter (\<lambda>f. f \<noteq> []) fs \<and> r = None"
proof -
  have "reader_at p [] start (session_start start)"
    by (simp add: reader_at_def session_start_def undelimited_def drain_frames.simps [of _ "[]"] drain_delimited_frame_def)
  from read_loop_drains [OF assms(1) this assms(3)]
  obtain fs where fs: "drain_frames (rl_delimiter p) (received evs) = (fs, rd_buffer st)"
    "frames es = filter (\<lambda>f. f \<noteq> []) fs" "r = None"
    by (auto simp: session_start_def)
  then show ?thesis using drain_frames_spec [OF fs(1)] assms(2) by blast
qed

definition demo_limits :: read_limits where
  "demo_limits = \<lparr>rl_delimiter = [13, 10], rl_idle_gap = 80, rl_max_frame = 512, rl_heartbeat = 3000\<rparr>"

definition demo_reads :: "(time \<times> port_read) list" where
  "demo_reads = [(1, ReadBytes [65, 13]), (70, ReadTimedOut), (75, ReadBytes [10]), (900, ReadTimedOut), (901, ReadBytes [66])]"

theorem serial_framing_chunk_independent_witness:
  "\<exists>r es st fs. read_loop demo_limits demo_reads (session_start 0) = (r, es, st) \<and>
    [65, 13, 10, 66] = concat (map (\<lambda>f. f @ [13, 10]) fs) @ rd_buffer st \<and> r = None"
proof -
  obtain r es st where l: "read_loop demo_limits demo_reads (session_start 0) = (r, es, st)" by (metis prod.exhaust)
  have steady: "steady demo_limits [] 0 demo_reads" by code_simp
  have "received demo_reads = [65, 13, 10, 66]" by code_simp
  moreover have "rl_delimiter demo_limits = [13, 10]" by (simp add: demo_limits_def)
  ultimately show ?thesis using serial_framing_chunk_independent [OF steady _ l] l by force
qed

text \<open>A pause of the idle gap after the first half of a frame sends the halves apart.\<close>

lemma pause_cuts_frame:
  "frames (fst (snd (read_loop demo_limits
      [(1, ReadBytes [65]), (81, ReadTimedOut), (82, ReadBytes [66, 13, 10])] (session_start 0)))) = [[65], [66]]"
  by code_simp

section \<open>Sizes\<close>

lemma drained_length: "drain_frames d b = (fs, r) \<Longrightarrow> length r \<le> length b \<and> (\<forall>f\<in>set fs. length f \<le> length b)"
proof (induction d b arbitrary: fs rule: drain_frames.induct)
  case (1 d b)
  show ?case
  proof (cases "drain_delimited_frame d b")
    case (Some fb)
    obtain f b' where fb: "fb = (f, b')" by (cases fb)
    obtain gs where gs: "drain_frames d b' = (gs, r)" "fs = f # gs"
      using "1.prems" Some fb by (auto simp: drain_frames.simps [of d b] split: prod.splits)
    show ?thesis using "1.IH" [OF Some fb [symmetric] gs(1)] drain_Some(1) [of d b f b'] Some fb gs(2) by fastforce
  qed (use "1.prems" in \<open>simp add: drain_frames.simps [of d b]\<close>)
qed

lemma receive_sizes:
  assumes "receive_bytes p now bs st = (es, st')" and "length bs \<le> 64" and "64 \<le> rl_max_frame p"
    and "length (rd_buffer st) < rl_max_frame p"
  shows "length (rd_buffer st') < rl_max_frame p" and "\<forall>f\<in>set (frames es). length f < rl_max_frame p + 64"
proof -
  obtain fs b1 where fs: "drain_frames (rl_delimiter p) (rd_buffer st @ bs) = (fs, b1)" by (rule prod.exhaust)
  obtain gs b2 where gs: "take_oversize (rl_max_frame p) b1 = (gs, b2)" by (rule prod.exhaust)
  note shape = receive_shape [OF assms(1) fs gs]
  have b1: "length b1 < rl_max_frame p + 64" "\<forall>f\<in>set fs. length f < rl_max_frame p + 64"
    using drained_length [OF fs] assms(2,4) by auto
  then show "length (rd_buffer st') < rl_max_frame p"
    using gs assms(3) by (auto simp: shape(2) take_oversize_def split: if_splits)
  have "\<forall>g\<in>set gs. length g \<le> rl_max_frame p" using gs by (auto simp: take_oversize_def split: if_splits)
  then show "\<forall>f\<in>set (frames es). length f < rl_max_frame p + 64"
    using b1(2) by (auto simp: shape(1))
qed

lemma other_pass_sizes:
  assumes "read_pass p now ev st = Inr (es, st')" and "event_bytes ev = []"
  shows "length (rd_buffer st') \<le> length (rd_buffer st)" and "\<forall>f\<in>set (frames es). length f \<le> length (rd_buffer st)"
proof -
  have flush: "length (rd_buffer st1) \<le> length (rd_buffer st) \<and> (\<forall>f\<in>set (frames es1). length f \<le> length (rd_buffer st))"
    if "flush_idle p now st = (es1, st1)" for es1 st1
    using that by (auto simp: flush_idle_def split: if_splits)
  have "length (rd_buffer st') \<le> length (rd_buffer st) \<and> (\<forall>f\<in>set (frames es). length f \<le> length (rd_buffer st))"
  proof (cases ev)
    case (ReadBytes bs)
    obtain es1 st1 hb st2 where f: "flush_idle p now st = (es1, st1)" "serial_heartbeat p now st1 = (hb, st2)"
      by (metis prod.exhaust)
    then have "es = es1 @ hb" "st' = st2" using assms ReadBytes by (auto simp: read_pass_def event_bytes_def)
    then show ?thesis using flush [OF f(1)] heartbeat_fields [OF f(2)] by simp
  next
    case ReadTimedOut
    then show ?thesis
      using assms(1) flush [of es st'] heartbeat_fields [of p now st es st']
      by (auto simp: read_pass_def split: if_splits option.splits)
  qed (use assms(1) in \<open>simp add: read_pass_def\<close>)
  then show "length (rd_buffer st') \<le> length (rd_buffer st)" "\<forall>f\<in>set (frames es). length f \<le> length (rd_buffer st)"
    by simp_all
qed

lemma read_loop_sizes:
  assumes "read_loop p evs st = (r, es, st')" and "\<forall>(t, ev)\<in>set evs. length (event_bytes ev) \<le> 64"
    and "64 \<le> rl_max_frame p" and "length (rd_buffer st) < rl_max_frame p"
  shows "length (rd_buffer st') < rl_max_frame p \<and> (\<forall>f\<in>set (frames es). length f < rl_max_frame p + 64)"
  using assms
proof (induction evs arbitrary: st es)
  case (Cons tev evs)
  obtain now ev where tev: "tev = (now, ev)" by (cases tev)
  show ?case
  proof (cases "read_pass p now ev st")
    case (Inl e)
    then show ?thesis using Cons.prems by (simp add: tev)
  next
    case (Inr est)
    obtain es1 st1 where est: "est = (es1, st1)" by (cases est)
    obtain es2 where loop: "read_loop p evs st1 = (r, es2, st')" and es: "es = es1 @ es2"
      using Cons.prems(1) Inr by (auto simp: tev est split: prod.splits)
    have "length (rd_buffer st1) < rl_max_frame p \<and> (\<forall>f\<in>set (frames es1). length f < rl_max_frame p + 64)"
    proof (cases "event_bytes ev = []")
      case True
      then show ?thesis using other_pass_sizes [of p now ev st es1 st1] Inr est Cons.prems(4) by fastforce
    next
      case False
      then obtain bs where "ev = ReadBytes bs" "bs \<noteq> []" by (cases ev) (auto simp: event_bytes_def)
      then show ?thesis
        using receive_sizes [of p now bs st es1 st1] Inr est Cons.prems(2-4)
        by (simp add: read_pass_def tev event_bytes_def)
    qed
    then show ?thesis using Cons.IH [OF loop] Cons.prems(2,3) by (auto simp: es tev)
  qed
qed simp

text \<open>
  C36: with a size limit of at least 64 bytes, the size of the read buffer, the bytes waiting stay below
  the limit, and no frame reaches the limit plus 64.
\<close>

theorem serial_frames_bounded:
  assumes "read_loop p evs (session_start start) = (r, es, st)" and "\<forall>(t, ev)\<in>set evs. length (event_bytes ev) \<le> 64"
    and "64 \<le> rl_max_frame p"
  shows "length (rd_buffer st) < rl_max_frame p \<and> (\<forall>f\<in>set (frames es). length f < rl_max_frame p + 64)"
  using read_loop_sizes [OF assms] assms(3) by (simp add: session_start_def)

theorem serial_frames_bounded_witness:
  "\<exists>r es st. read_loop \<lparr>rl_delimiter = [], rl_idle_gap = 80, rl_max_frame = 64, rl_heartbeat = 3000\<rparr>
      [(1, ReadBytes (replicate 60 0)), (2, ReadBytes (replicate 60 0))] (session_start 0) = (r, es, st) \<and>
    length (rd_buffer st) < 64"
proof -
  let ?p = "\<lparr>rl_delimiter = [], rl_idle_gap = 80, rl_max_frame = 64, rl_heartbeat = 3000\<rparr> :: read_limits"
  let ?evs = "[(1, ReadBytes (replicate 60 0)), (2, ReadBytes (replicate 60 0))] :: (time \<times> port_read) list"
  obtain r es st where l: "read_loop ?p ?evs (session_start 0) = (r, es, st)" by (metis prod.exhaust)
  have "length (rd_buffer st) < rl_max_frame ?p"
    using serial_frames_bounded [OF l] by (simp add: event_bytes_def)
  then show ?thesis using l by auto
qed

text \<open>
  Below 64 the limit does not hold: one frame of the limit's size is cut off per read, so a device that
  sends faster than that fills the buffer without end.
\<close>

lemma small_limit_grows:
  assumes "rl_delimiter p = []" and "rl_max_frame p = 1"
    and "read_loop p (replicate n (t, ReadBytes (replicate 64 x))) st = (r, es, st')"
  shows "length (rd_buffer st') = length (rd_buffer st) + 63 * n"
  using assms(3)
proof (induction n arbitrary: st es)
  case (Suc n)
  let ?bs = "replicate 64 x"
  obtain es1 st1 where step: "receive_bytes p t ?bs st = (es1, st1)" by (rule prod.exhaust)
  have "drain_frames (rl_delimiter p) (rd_buffer st @ ?bs) = ([], rd_buffer st @ ?bs)"
    by (simp add: drain_frames.simps drain_delimited_frame_def assms(1))
  moreover have "take_oversize (rl_max_frame p) (rd_buffer st @ ?bs) = ([take 1 (rd_buffer st @ ?bs)], drop 1 (rd_buffer st @ ?bs))"
    by (simp add: take_oversize_def assms(2))
  ultimately have "rd_buffer st1 = drop 1 (rd_buffer st @ ?bs)" by (rule receive_shape(2) [OF step])
  then have len: "length (rd_buffer st1) = length (rd_buffer st) + 63" by simp
  have ne: "?bs \<noteq> []" by (metis length_0_conv length_replicate zero_neq_numeral)
  obtain es2 where "read_loop p (replicate n (t, ReadBytes ?bs)) st1 = (r, es2, st')"
    using Suc.prems ne step by (auto simp: read_pass_def split: prod.splits)
  from Suc.IH [OF this] show ?case by (simp add: len)
qed simp

section \<open>Hexadecimal text\<close>

lemma nibble_digits:
  assumes "n < 16"
  shows "hex_nibble (of_char (HEX_CHARS ! n)) = Some (of_nat n)"
proof -
  have "list_all (\<lambda>n. hex_nibble (of_char (HEX_CHARS ! n)) = Some (of_nat n)) [0..<16]" by code_simp
  then show ?thesis using assms by (simp add: list_all_iff)
qed

lemma parse_hex_cons:
  "parse_hex_bytes (hex_byte b @ cs) = b # parse_hex_bytes cs" "parse_hex_bytes (CHR '' '' # cs) = parse_hex_bytes cs"
proof -
  have "hex_nibble (of_char CHR '' '') = None" by code_simp
  then show "parse_hex_bytes (CHR '' '' # cs) = parse_hex_bytes cs" by (simp add: parse_hex_bytes_def)
  show "parse_hex_bytes (hex_byte b @ cs) = b # parse_hex_bytes cs"
    using nibbles [of b] by (simp add: parse_hex_bytes_def hex_byte_def nibble_digits unsigned_of_nat)
qed

lemma parse_bytes_to_hex: "parse_hex_bytes (bytes_to_hex bs) = bs"
proof (induction bs rule: bytes_to_hex.induct)
  case (2 b)
  then show ?case using parse_hex_cons(1) [of b "[]"] by (simp add: parse_hex_bytes_def)
next
  case (3 b c bs)
  then show ?case by (simp only: bytes_to_hex.simps parse_hex_cons)
qed (simp add: parse_hex_bytes_def)

lemma ascii_space_width:
  assumes "ascii s"
  shows "space_width wide_space s = (case s of [] \<Rightarrow> 0 | c # _ \<Rightarrow> if is_space c then 1 else 0)"
proof (cases s)
  case (Cons c cs)
  have "\<not> wide_space (map of_char (take k s))" for k
    using wide_space_ascii [of "map of_char (take k s)"] assms by (force simp: ascii_def dest: in_set_takeD)
  from this [of 2] this [of 3] show ?thesis by (simp add: space_width_def Cons)
qed (simp add: space_width_def)

definition plain_word :: "string \<Rightarrow> bool" where
  "plain_word w \<longleftrightarrow> w \<noteq> [] \<and> ascii w \<and> (\<forall>c\<in>set w. \<not> is_space c)"

lemma split_word:
  assumes "ascii (w @ s)" and "\<forall>c\<in>set w. \<not> is_space c"
  shows "split_whitespace piece (w @ s) = split_whitespace (piece @ w) s"
  using assms
proof (induction w arbitrary: piece)
  case (Cons c w)
  have "space_width wide_space ((c # w) @ s) = 0" using Cons.prems ascii_space_width [of "(c # w) @ s"] by simp
  then have "split_whitespace piece ((c # w) @ s) = split_whitespace (piece @ [c]) (w @ s)"
    by (subst split_whitespace.simps) (simp add: Let_def)
  then show ?case using Cons.IH [of "piece @ [c]"] Cons.prems by (simp add: ascii_def)
qed simp

lemma split_last_word: "plain_word w \<Longrightarrow> split_whitespace [] w = [w]"
  using split_word [of w "[]" "[]"] by (simp add: plain_word_def split_whitespace.simps [of w "[]"])

lemma split_first_word:
  assumes "plain_word w" and "ascii s"
  shows "split_whitespace [] (w @ CHR '' '' # s) = w # split_whitespace [] s"
proof -
  have a: "ascii (w @ CHR '' '' # s)" "ascii (CHR '' '' # s)" using assms by (auto simp: plain_word_def ascii_def)
  have "is_space CHR '' ''" by (simp add: is_space_def)
  then have "space_width wide_space (CHR '' '' # s) = 1" using ascii_space_width [OF a(2)] by simp
  then have "split_whitespace w (CHR '' '' # s) = w # split_whitespace [] s"
    using assms(1) by (subst split_whitespace.simps) (simp add: Let_def plain_word_def)
  then show ?thesis using split_word [OF a(1), of "[]"] assms(1) by (simp add: plain_word_def)
qed

lemma hex_byte_word: "plain_word (hex_byte b)"
  using nibbles [of b] hex_char_values by (auto simp: plain_word_def hex_byte_def ascii_def)

lemma bytes_to_hex_chars: "c \<in> set (bytes_to_hex bs) \<Longrightarrow> hex_char c \<or> c = CHR '' ''"
  using nibbles by (induction bs rule: bytes_to_hex.induct) (auto simp: hex_byte_def intro: hex_char_nth)

lemma bytes_to_hex_ascii: "ascii (bytes_to_hex bs)"
  using bytes_to_hex_chars hex_char_facts by (fastforce simp: ascii_def)

lemma split_bytes_to_hex: "split_whitespace [] (bytes_to_hex bs) = map hex_byte bs"
proof (induction bs rule: bytes_to_hex.induct)
  case 1
  then show ?case by (simp add: split_whitespace.simps)
next
  case (2 b)
  then show ?case by (simp add: split_last_word hex_byte_word)
next
  case (3 b c bs)
  then show ?case using split_first_word [OF hex_byte_word bytes_to_hex_ascii] by simp
qed

lemma join_hex_bytes: "join_spaces (map hex_byte bs) = bytes_to_hex bs"
  by (induction bs rule: bytes_to_hex.induct) simp_all

text \<open>Upper case leaves ASCII text that has no lower case letter as it is.\<close>

definition upper_ok :: "(string \<Rightarrow> string) \<Rightarrow> bool" where
  "upper_ok upper \<longleftrightarrow> (\<forall>s. ascii s \<longrightarrow> upper s = to_ascii_uppercase s)"

lemma upper_hex_text: "to_ascii_uppercase (bytes_to_hex bs) = bytes_to_hex bs"
proof -
  have "list_all (\<lambda>c. ascii_upper c = c) (CHR '' '' # HEX_CHARS)" by code_simp
  then have "ascii_upper c = c" if "c \<in> set (bytes_to_hex bs)" for c
    using bytes_to_hex_chars [OF that] by (auto simp: hex_char_def list_all_iff)
  then show ?thesis by (simp add: to_ascii_uppercase_def map_idI)
qed

lemma normalized_hex: "upper_ok upper \<Longrightarrow> normalize_hex upper (bytes_to_hex bs) = bytes_to_hex bs"
  by (simp add: normalize_hex_def split_bytes_to_hex join_hex_bytes upper_ok_def bytes_to_hex_ascii upper_hex_text)

lemma trim_same: "\<not> is_space (hd s) \<Longrightarrow> \<not> is_space (last s) \<Longrightarrow> trim s = s"
proof -
  assume "\<not> is_space (hd s)" "\<not> is_space (last s)"
  then have "trim_start s = s" "trim_start (rev s) = rev s" by (simp_all add: trim_start_trimmed hd_rev)
  then show ?thesis by (simp add: trim_def)
qed

lemma trimmed_delimiter: "trim_utf8 (''hex:'' @ bytes_to_hex bs) = ''hex:'' @ bytes_to_hex bs"
proof -
  have "ascii (''hex:'' @ bytes_to_hex bs)" using bytes_to_hex_ascii [of bs] by (simp add: ascii_def)
  moreover have "\<not> is_space (last (''hex:'' @ bytes_to_hex bs))"
  proof (cases "bs = []")
    case False
    have "\<not> is_space (last (bytes_to_hex bs)) \<and> bytes_to_hex bs \<noteq> []"
      using False nibbles hex_char_values by (induction bs rule: bytes_to_hex.induct) (auto simp: hex_byte_def)
    then show ?thesis by simp
  qed (simp add: is_space_def)
  moreover have "\<not> is_space CHR ''h''" by (simp add: is_space_def)
  ultimately show ?thesis
    using trim_same [of "''hex:'' @ bytes_to_hex bs"] by (simp add: trim_utf8_ascii)
qed

text \<open>
  The hexadecimal text of a frame holds exactly its bytes: the parser of delimiters reads them back,
  and the text after \<open>hex:\<close> is a delimiter that is the frame.
\<close>

theorem serial_hex_readable:
  assumes "upper_ok upper" and "build_serial_payload lossy upper frame c = (payload, n, encoding)"
  shows "\<exists>h. json_get payload ''serial_hex'' = Some (JString h) \<and> parse_hex_bytes h = frame \<and>
    decode_serial_delimiter (''hex:'' @ h) = frame"
proof -
  have "json_get payload ''serial_hex'' = Some (JString (bytes_to_hex frame))"
    using assms by (auto simp: build_serial_payload_def Let_def normalized_hex json_get_Some map_of_bt_put)
  moreover have "decode_serial_delimiter (''hex:'' @ bytes_to_hex frame) = frame"
    using trimmed_delimiter [of frame] by (simp add: decode_serial_delimiter_def starts_with_def parse_bytes_to_hex)
  ultimately show ?thesis using parse_bytes_to_hex by blast
qed

definition demo_serial :: serial_trigger_config where
  "demo_serial =
     \<lparr>sc_port_path = ''COM3'', sc_baud_rate = 9600, sc_data_bits = 8, sc_parity = ''none'', sc_stop_bits = 1,
      sc_flow_control = ''none'', sc_encoding = ''hex'', sc_delimiter = ''hex:0A'', sc_read_timeout_ms = 100,
      sc_idle_gap_ms = 80, sc_max_frame_bytes = 512, sc_trim = True, sc_inject = []\<rparr>"

theorem serial_hex_readable_witness:
  "\<exists>payload n encoding h.
    build_serial_payload (map (\<lambda>b. char_of (unat b))) to_ascii_uppercase [0x0A, 0xFF] demo_serial = (payload, n, encoding) \<and>
    json_get payload ''serial_hex'' = Some (JString h) \<and> parse_hex_bytes h = [0x0A, 0xFF]"
proof -
  have "upper_ok to_ascii_uppercase" by (simp add: upper_ok_def)
  moreover obtain payload n encoding where
    "build_serial_payload (map (\<lambda>b. char_of (unat b))) to_ascii_uppercase [0x0A, 0xFF] demo_serial = (payload, n, encoding)"
    by (metis prod.exhaust)
  ultimately show ?thesis using serial_hex_readable by blast
qed

section \<open>The end of a session\<close>

lemma failure_counts:
  "total_failures (health (snd (apply_runtime_failure r p now reason t))) = sat_add (total_failures (health r)) 1"
  "cn_metadata (snd (apply_runtime_failure r p now reason t)) = cn_metadata r"
  by (simp_all add: apply_runtime_failure_def Let_def)

lemma overrun_counts:
  assumes "elapsed_ms now borrowed > operation_timeout_ms (policy_from_metadata (cn_metadata r))"
  shows "total_failures (health (finalize_release r now borrowed outcome)) = sat_add (total_failures (health r)) 1"
  using assms by (simp add: finalize_release_def Let_def failure_counts)

text \<open>
  The guard is held as long as the session lasts, and the pool takes a lease longer than the operation
  time-out for a failure: a session that lasted longer and was stopped in order is counted as a time-out.
\<close>

lemma stopped_session_counts_as_failure:
  assumes "r < length (records m)" and "map_of (connections m) cid = Some r"
    and "elapsed_ms now (borrowed_at lease) > operation_timeout_ms (policy_from_metadata (cn_metadata (records m ! r)))"
  shows "total_failures (health (records (session_cancelled cid r lease now m) ! r)) =
      sat_add (total_failures (health (records m ! r))) 1"
  using assms(1,2) overrun_counts [OF assms(3)]
  by (simp add: session_cancelled_def drop_guard_def mark_disconnected_def with_entry_def entry_def set_record_def
      disconnected_def)

text \<open>And one that is cut off is counted twice.\<close>

lemma broken_session_counts_twice:
  assumes "r < length (records m)" and "map_of (connections m) cid = Some r"
    and "elapsed_ms now (borrowed_at lease) > operation_timeout_ms (policy_from_metadata (cn_metadata (records m ! r)))"
  shows "total_failures (health (records (snd (session_failed cid r lease reason now m)) ! r)) =
      sat_add (sat_add (total_failures (health (records m ! r))) 1) 1"
proof -
  let ?x = "snd (apply_runtime_failure (records m ! r) (policy_from_metadata (cn_metadata (records m ! r))) now
    (Msg ''reason'' [reason]) False)"
  have "elapsed_ms now (borrowed_at lease) > operation_timeout_ms (policy_from_metadata (cn_metadata ?x))"
    using assms(3) by (simp add: failure_counts)
  from overrun_counts [OF this] show ?thesis
    using assms(1,2)
    by (simp add: session_failed_def drop_guard_def record_connect_failure_def with_entry_def entry_def set_record_def
        failure_counts case_prod_unfold Let_def)
qed

end
