(* ===== verification/Flow_Nodes.thy ===== *)
theory Flow_Nodes
  imports Node Texts Variables
begin

text \<open>
  \<open>crates/nodes-flow\<close> (if, switch, tryCatch, loop, code, passthrough) over the script base of
  \<open>crates/scripting\<close>. The script engine and its dynamic values are arguments: how a payload becomes a
  scope, what the script returns and does to the scope and to the workflow variables, and how a
  dynamic value is read. Every transform passes the state of the variables on.
\<close>

section \<open>The script base\<close>

record ('sc, 'dyn, 'v) script_base =
  sb_id :: string
  sb_to_scope :: "json \<Rightarrow> msg + 'sc"
  sb_eval :: "'v \<Rightarrow> 'sc \<Rightarrow> (msg + 'dyn) \<times> 'sc \<times> 'v"
  sb_scope_payload :: "'sc \<Rightarrow> 'dyn option"
  sb_to_json :: "'dyn \<Rightarrow> msg + json"
  sb_to_bool :: "'dyn \<Rightarrow> msg + bool"
  sb_is_unit :: "'dyn \<Rightarrow> bool"
  sb_to_text :: "'dyn \<Rightarrow> string"
  sb_to_i64 :: "'dyn \<Rightarrow> int option"
  sb_to_u64 :: "'dyn \<Rightarrow> u64 option"
  sb_to_array :: "'dyn \<Rightarrow> 'dyn list option"

definition prepare_scope :: "('sc, 'dyn, 'v) script_base \<Rightarrow> json \<Rightarrow> 'sc result" where
  "prepare_scope base payload = map_sum (PayloadConversion (sb_id base)) id (sb_to_scope base payload)"

definition evaluate ::
    "('sc, 'dyn, 'v) script_base \<Rightarrow> json \<Rightarrow> 'v \<Rightarrow> ('sc \<times> 'dyn) result \<times> 'v" where
  "evaluate base payload v =
     (case prepare_scope base payload of
        Inl e \<Rightarrow> (Inl e, v)
      | Inr scope \<Rightarrow>
          (case sb_eval base v scope of
             (Inl m, _, v') \<Rightarrow> (Inl (ScriptRuntime (sb_id base) m), v')
           | (Inr d, scope', v') \<Rightarrow> (Inr (scope', d), v')))"

definition evaluate_catching ::
    "('sc, 'dyn, 'v) script_base \<Rightarrow> json \<Rightarrow> 'v \<Rightarrow> ('sc \<times> (msg + 'dyn)) result \<times> 'v" where
  "evaluate_catching base payload v =
     (case prepare_scope base payload of
        Inl e \<Rightarrow> (Inl e, v)
      | Inr scope \<Rightarrow> (case sb_eval base v scope of (r, scope', v') \<Rightarrow> (Inr (scope', r), v')))"

definition dynamic_to_value :: "('sc, 'dyn, 'v) script_base \<Rightarrow> 'dyn \<Rightarrow> json result" where
  "dynamic_to_value base d = map_sum (PayloadConversion (sb_id base)) id (sb_to_json base d)"

definition payload_from_scope :: "('sc, 'dyn, 'v) script_base \<Rightarrow> 'sc \<Rightarrow> json result" where
  "payload_from_scope base scope =
     and_then (ok_or (PayloadConversion (sb_id base) (Msg ''payload-not-in-scope'' [])) (sb_scope_payload base scope))
       (dynamic_to_value base)"

text \<open>What scripts reach through \<open>vars\<close>; the texts of script errors are kept as messages.\<close>

definition require_vars :: "string \<Rightarrow> workflow_variables option \<Rightarrow> msg + workflow_variables" where
  "require_vars node_id variables = ok_or (Msg ''vars-not-injected'' [node_id]) variables"

definition rhai_get :: "string \<Rightarrow> workflow_variables option \<Rightarrow> string \<Rightarrow> msg + json" where
  "rhai_get node_id variables name =
     and_then (require_vars node_id variables)
       (\<lambda>w. ok_or (Msg ''unknown-variable'' [name]) (get_value w name))"

definition rhai_set ::
    "time \<Rightarrow> string \<Rightarrow> workflow_variables option \<Rightarrow> string \<Rightarrow> json \<Rightarrow> msg + workflow_variables" where
  "rhai_set now node_id variables name v =
     and_then (require_vars node_id variables)
       (\<lambda>w. map_sum (\<lambda>_. Msg ''set-failed'' [name]) id (set_var now w name v (Some node_id)))"

definition rhai_cas ::
    "time \<Rightarrow> string \<Rightarrow> workflow_variables option \<Rightarrow> string \<Rightarrow> json \<Rightarrow> json \<Rightarrow> msg + (bool \<times> workflow_variables)" where
  "rhai_cas now node_id variables name expected v =
     and_then (require_vars node_id variables)
       (\<lambda>w. map_sum (\<lambda>_. Msg ''cas-failed'' [name]) id
              (compare_and_swap now w name expected v (Some node_id)))"

section \<open>The nodes\<close>

definition exec_output_pin :: "string \<Rightarrow> string \<Rightarrow> string option \<Rightarrow> pin_definition" where
  "exec_output_pin i label description =
     \<lparr>pin_id = i, pin_label = label, pin_ty = TAny, pin_dir = Output, pin_required = False,
      pin_kind_of = Exec, pin_description = description, pin_empty_policy = BlockUntilReady,
      pin_block_timeout_ms = None, pin_ttl_ms = None\<rparr>"

definition if_output_pins :: "pin_definition list" where
  "if_output_pins =
     [exec_output_pin ''true'' ''true'' (Some ''script-returned-true''),
      exec_output_pin ''false'' ''false'' (Some ''script-returned-false'')]"

definition if_transform ::
    "('sc, 'dyn, 'v) script_base \<Rightarrow> json \<Rightarrow> 'v \<Rightarrow> node_execution result \<times> 'v" where
  "if_transform base payload v =
     (let (r, v') = evaluate base payload v in
      (and_then r (\<lambda>(scope, d).
         and_then (map_sum (\<lambda>_. PayloadConversion (sb_id base) (Msg ''if-needs-bool'' [])) id (sb_to_bool base d)) (\<lambda>branch.
           and_then (payload_from_scope base scope) (\<lambda>new_payload.
             Inr (route new_payload [if branch then ''true'' else ''false''])))), v'))"

record switch_branch =
  br_key :: string
  br_label :: "string option"

record switch_config =
  sw_branches :: "switch_branch list"
  sw_default_branch :: string

definition switch_new :: "switch_config \<Rightarrow> switch_config" where
  "switch_new config =
     (if trim_utf8 (sw_default_branch config) = [] then config\<lparr>sw_default_branch := ''default''\<rparr> else config)"

definition switch_output_pins :: "switch_config \<Rightarrow> pin_definition list" where
  "switch_output_pins config =
     (let pins = map (\<lambda>b. exec_output_pin (br_key b)
                        (case br_label b of Some l \<Rightarrow> l | None \<Rightarrow> br_key b) None) (sw_branches config)
      in if list_ex (\<lambda>p. pin_id p = sw_default_branch config) pins then pins
         else pins @ [exec_output_pin (sw_default_branch config) (sw_default_branch config @ '' (default)'')
                        (Some ''no-branch-matched'')])"

definition switch_branch_of :: "('sc, 'dyn, 'v) script_base \<Rightarrow> switch_config \<Rightarrow> 'dyn \<Rightarrow> string" where
  "switch_branch_of base config d =
     (if sb_is_unit base d then sw_default_branch config
      else
        (let normalized = trim_utf8 (sb_to_text base d)
         in if normalized = [] \<or> normalized = ''()'' then sw_default_branch config
            else if normalized = sw_default_branch config \<or>
                    list_ex (\<lambda>b. br_key b = normalized) (sw_branches config) then normalized
            else sw_default_branch config))"

definition switch_transform ::
    "('sc, 'dyn, 'v) script_base \<Rightarrow> switch_config \<Rightarrow> json \<Rightarrow> 'v \<Rightarrow> node_execution result \<times> 'v" where
  "switch_transform base config payload v =
     (let (r, v') = evaluate base payload v in
      (and_then r (\<lambda>(scope, d).
         and_then (payload_from_scope base scope) (\<lambda>new_payload.
           Inr (route new_payload [switch_branch_of base config d]))), v'))"

definition try_output_pins :: "pin_definition list" where
  "try_output_pins =
     [exec_output_pin ''try'' ''try'' (Some ''script-succeeded''),
      exec_output_pin ''catch'' ''catch'' (Some ''script-failed'')]"

definition msg_text :: "msg \<Rightarrow> string" where
  "msg_text m = (case m of Msg key args \<Rightarrow> concat (key # map (\<lambda>a. '' '' @ a) args))"

definition try_transform ::
    "('sc, 'dyn, 'v) script_base \<Rightarrow> json \<Rightarrow> 'v \<Rightarrow> node_execution result \<times> 'v" where
  "try_transform base input v =
     (let (r, v') = evaluate_catching base input v in
      (and_then r (\<lambda>(scope, script_result).
         case script_result of
           Inr d \<Rightarrow>
             and_then (if sb_is_unit base d then payload_from_scope base scope else dynamic_to_value base d)
               (\<lambda>payload. Inr (route payload [''try'']))
         | Inl m \<Rightarrow>
             (let base_payload = (case payload_from_scope base scope of Inr p \<Rightarrow> p | Inl _ \<Rightarrow> input)
              in Inr (route (JObject (bt_put ''_error'' (JString (msg_text m)) (into_payload_map base_payload)))
                        [''catch'']))), v'))"

definition MAX_LOOP_ITERATIONS :: nat where
  "MAX_LOOP_ITERATIONS = 10000"

definition loop_output_pins :: "pin_definition list" where
  "loop_output_pins =
     [exec_output_pin ''body'' ''body'' (Some ''each-item''),
      exec_output_pin ''done'' ''done'' (Some ''end-of-iteration'')]"

definition with_loop_state :: "json \<Rightarrow> string \<Rightarrow> nat option \<Rightarrow> nat \<Rightarrow> json option \<Rightarrow> json" where
  "with_loop_state payload phase index count item =
     (let m0 = bt_put ''count'' (JNumber (PosInt (of_nat count))) (bt_put ''phase'' (JString phase) []);
          m1 = (case index of Some i \<Rightarrow> bt_put ''index'' (JNumber (PosInt (of_nat i))) m0 | None \<Rightarrow> m0);
          m2 = (case item of Some x \<Rightarrow> bt_put ''item'' x m1 | None \<Rightarrow> m1)
      in JObject (bt_put ''_loop'' (JObject m2) (into_payload_map payload)))"

definition counted_items :: "string \<Rightarrow> nat \<Rightarrow> json option list result" where
  "counted_items node_id n =
     (if n > MAX_LOOP_ITERATIONS then Inl (PayloadConversion node_id (Msg ''too-many-iterations'' [dec_digits n]))
      else Inr (replicate n None))"

fun json_items :: "('sc, 'dyn, 'v) script_base \<Rightarrow> 'dyn list \<Rightarrow> json option list result" where
  "json_items base [] = Inr []"
| "json_items base (d # ds) =
     (case sb_to_json base d of
        Inl _ \<Rightarrow> Inl (PayloadConversion (sb_id base) (Msg ''item-not-json'' []))
      | Inr x \<Rightarrow> map_sum id ((#) (Some x)) (json_items base ds))"

definition collect_loop_items :: "('sc, 'dyn, 'v) script_base \<Rightarrow> 'dyn \<Rightarrow> json option list result" where
  "collect_loop_items base d =
     (case sb_to_i64 base d of
        Some count \<Rightarrow>
          if count < 0 then Inl (PayloadConversion (sb_id base) (Msg ''loop-needs-count-or-array'' []))
          else counted_items (sb_id base) (nat count)
      | None \<Rightarrow>
          (case sb_to_u64 base d of
             Some count \<Rightarrow> counted_items (sb_id base) (unat count)
           | None \<Rightarrow>
               (case sb_to_array base d of
                  Some items \<Rightarrow>
                    if length items > MAX_LOOP_ITERATIONS
                    then Inl (PayloadConversion (sb_id base) (Msg ''array-too-long'' [dec_digits (length items)]))
                    else json_items base items
                | None \<Rightarrow> Inl (PayloadConversion (sb_id base) (Msg ''loop-needs-count-or-array'' [])))))"

definition loop_output :: "json \<Rightarrow> string \<Rightarrow> node_output" where
  "loop_output payload port = \<lparr>no_payload = payload, no_metadata = None, no_dispatch = Route [port]\<rparr>"

definition loop_transform ::
    "('sc, 'dyn, 'v) script_base \<Rightarrow> json \<Rightarrow> 'v \<Rightarrow> node_execution result \<times> 'v" where
  "loop_transform base input v =
     (let (r, v') = evaluate base input v in
      (and_then r (\<lambda>(scope, d).
         and_then (payload_from_scope base scope) (\<lambda>payload.
           and_then (collect_loop_items base d) (\<lambda>items.
             (let count = length items
              in Inr (map (\<lambda>(index, item).
                       loop_output (with_loop_state payload ''body'' (Some index) count item) ''body'')
                     (enumerate 0 items) @
                   [loop_output (with_loop_state payload ''done'' None count None) ''done'']))))), v'))"

definition code_transform ::
    "('sc, 'dyn, 'v) script_base \<Rightarrow> json \<Rightarrow> 'v \<Rightarrow> node_execution result \<times> 'v" where
  "code_transform base payload v =
     (let (r, v') = evaluate base payload v in
      (and_then r (\<lambda>(scope, d).
         and_then (if sb_is_unit base d then payload_from_scope base scope else dynamic_to_value base d)
           (\<lambda>new_payload. Inr (broadcast new_payload))), v'))"

datatype passthrough_kind = SubgraphInput | SubgraphOutput | Fallback

definition passthrough_from_node_type :: "string \<Rightarrow> passthrough_kind" where
  "passthrough_from_node_type t =
     (if t = ''subgraphInput'' then SubgraphInput
      else if t = ''subgraphOutput'' then SubgraphOutput else Fallback)"

definition passthrough_kind_name :: "passthrough_kind \<Rightarrow> string" where
  "passthrough_kind_name k =
     (case k of SubgraphInput \<Rightarrow> ''subgraphInput'' | SubgraphOutput \<Rightarrow> ''subgraphOutput''
      | Fallback \<Rightarrow> ''passthrough'')"

definition passthrough_node :: "workflow_node_definition \<Rightarrow> node_trait" where
  "passthrough_node d =
     \<lparr>nt_id = wd_id d, nt_kind = passthrough_kind_name (passthrough_from_node_type (wd_node_type d)),
      nt_input_pins = [required_input TJson ''bridge-input''], nt_output_pins = [output_pin TJson ''bridge-output'']\<rparr>"

definition passthrough_transform :: "json \<Rightarrow> node_execution result" where
  "passthrough_transform payload = Inr (broadcast payload)"

section \<open>What the nodes promise\<close>

definition routes_into :: "pin_definition list \<Rightarrow> node_execution \<Rightarrow> bool" where
  "routes_into pins outs \<longleftrightarrow>
     (\<forall>out\<in>set outs. \<exists>port. no_dispatch out = Route [port] \<and> port \<in> set (map pin_id pins))"

lemma routes_into_route: "routes_into pins (route payload [port]) \<longleftrightarrow> port \<in> set (map pin_id pins)"
  by (simp add: routes_into_def route_def)

lemma exec_output_pin_id [simp]: "pin_id (exec_output_pin i l d) = i"
  by (simp add: exec_output_pin_def)

lemma switch_pin_ids:
  "set (map pin_id (switch_output_pins config)) = insert (sw_default_branch config) (br_key ` set (sw_branches config))"
  by (auto simp: switch_output_pins_def Let_def list_ex_iff image_image intro: rev_image_eqI)

lemma switch_branch_declared: "switch_branch_of base config d \<in> set (map pin_id (switch_output_pins config))"
  unfolding switch_pin_ids by (auto simp: switch_branch_of_def Let_def list_ex_iff intro: rev_image_eqI)

text \<open>
  C21: whatever the script of a branching node does, each message the node sends is routed to exactly
  one port, and that port is one the node declares, so that no message gets lost between the
  branches: true or false of an if, a configured or the default branch of a switch, try or catch,
  body or done.
\<close>

theorem branches_are_declared_ports:
  "(if_transform base p v = (Inr outs, v') \<longrightarrow> routes_into if_output_pins outs) \<and>
   (switch_transform base config p v = (Inr outs, v') \<longrightarrow> routes_into (switch_output_pins config) outs) \<and>
   (try_transform base p v = (Inr outs, v') \<longrightarrow> routes_into try_output_pins outs) \<and>
   (loop_transform base p v = (Inr outs, v') \<longrightarrow> routes_into loop_output_pins outs)"
proof (intro conjI impI)
  assume "if_transform base p v = (Inr outs, v')"
  then show "routes_into if_output_pins outs"
    by (auto simp: if_transform_def and_then_Inr split_beta Let_def routes_into_route if_output_pins_def)
next
  assume "switch_transform base config p v = (Inr outs, v')"
  then show "routes_into (switch_output_pins config) outs"
    using switch_branch_declared
    by (auto simp: switch_transform_def and_then_Inr split_beta Let_def routes_into_route simp del: set_map)
next
  assume t: "try_transform base p v = (Inr outs, v')"
  then obtain scope r where "fst (evaluate_catching base p v) = Inr (scope, r)"
    by (auto simp: try_transform_def split_beta Let_def and_then_Inr)
  then show "routes_into try_output_pins outs"
    using t by (cases r)
      (auto simp: try_transform_def and_then_Inr split_beta Let_def routes_into_route try_output_pins_def)
next
  assume "loop_transform base p v = (Inr outs, v')"
  then show "routes_into loop_output_pins outs"
    by (auto simp: loop_transform_def and_then_Inr split_beta Let_def routes_into_def loop_output_def loop_output_pins_def)
qed

text \<open>A concrete script: the dynamic values are JSON, the script returns what \<open>ret\<close> gives for its payload.\<close>

definition demo_script :: "(json \<Rightarrow> msg + json) \<Rightarrow> (json, json, unit) script_base" where
  "demo_script ret = \<lparr>sb_id = ''s'', sb_to_scope = Inr, sb_eval = (\<lambda>v sc. (ret sc, sc, v)),
     sb_scope_payload = Some, sb_to_json = Inr,
     sb_to_bool = (\<lambda>d. case d of JBool b \<Rightarrow> Inr b | _ \<Rightarrow> Inl (Msg ''not-a-bool'' [])),
     sb_is_unit = (\<lambda>d. d = JNull), sb_to_text = (\<lambda>d. case d of JString t \<Rightarrow> t | _ \<Rightarrow> []),
     sb_to_i64 = (\<lambda>d. case d of JNumber (PosInt n) \<Rightarrow> Some (uint n) | _ \<Rightarrow> None),
     sb_to_u64 = (\<lambda>_. None), sb_to_array = (\<lambda>d. case d of JArray ds \<Rightarrow> Some ds | _ \<Rightarrow> None)\<rparr>"

theorem branches_are_declared_ports_witness:
  "\<exists>outs. if_transform (demo_script (\<lambda>_. Inr (JBool False))) JNull () = (Inr outs, ()) \<and>
     routes_into if_output_pins outs"
proof -
  let ?b = "demo_script (\<lambda>_. Inr (JBool False))"
  have "if_transform ?b JNull () = (Inr (route JNull [''false'']), ())" by code_simp
  then show ?thesis using branches_are_declared_ports [of ?b JNull "()"] by blast
qed

text \<open>
  What a script may return to a loop: a count, which stands for that many turns without an item, or an
  array, whose elements are the items.
\<close>

definition loop_value_items :: "('sc, 'dyn, 'v) script_base \<Rightarrow> 'dyn \<Rightarrow> json option list \<Rightarrow> bool" where
  "loop_value_items base d items \<longleftrightarrow>
     (case (sb_to_i64 base d, sb_to_u64 base d, sb_to_array base d) of
        (Some n, _, _) \<Rightarrow> int (length items) = n \<and> set items \<subseteq> {None}
      | (None, Some n, _) \<Rightarrow> length items = unat n \<and> set items \<subseteq> {None}
      | (None, None, Some ds) \<Rightarrow> \<exists>xs. map (sb_to_json base) ds = map Inr xs \<and> items = map Some xs
      | (None, None, None) \<Rightarrow> False)"

lemma json_items: "json_items base ds = Inr items \<longleftrightarrow> (\<exists>xs. map (sb_to_json base) ds = map Inr xs \<and> items = map Some xs)"
proof (induction ds arbitrary: items)
  case (Cons d ds)
  show ?case
  proof (cases "sb_to_json base d")
    case (Inl e)
    then show ?thesis by (auto simp: Cons_eq_map_conv)
  next
    case (Inr x)
    then have "json_items base (d # ds) = Inr items \<longleftrightarrow>
        (\<exists>rest. json_items base ds = Inr rest \<and> items = Some x # rest)"
      by (cases "json_items base ds") auto
    then show ?thesis using Inr unfolding Cons.IH by (auto simp: Cons_eq_map_conv)
  qed
qed auto

lemma counted_items:
  "counted_items i n = Inr items \<longleftrightarrow> length items = n \<and> set items \<subseteq> {None} \<and> length items \<le> MAX_LOOP_ITERATIONS"
proof -
  have "items = replicate n None \<longleftrightarrow> length items = n \<and> set items \<subseteq> {None}"
    by (auto simp: subset_singleton_iff intro!: replicate_eqI)
  then show ?thesis by (auto simp: counted_items_def)
qed

lemma collect_loop_items:
  "collect_loop_items base d = Inr items \<longleftrightarrow> loop_value_items base d items \<and> length items \<le> MAX_LOOP_ITERATIONS"
proof (cases "sb_to_i64 base d")
  case (Some n)
  then show ?thesis by (auto simp: collect_loop_items_def loop_value_items_def counted_items)
next
  case None
  show ?thesis
  proof (cases "sb_to_u64 base d")
    case (Some n)
    then show ?thesis using None by (simp add: collect_loop_items_def loop_value_items_def counted_items)
  next
    case no_u64: None
    have "length xs = length ds" if "map (sb_to_json base) ds = map Inr xs" for ds and xs :: "json list"
      using that by (metis length_map)
    then show ?thesis
      using None no_u64
      by (cases "sb_to_array base d") (auto simp: collect_loop_items_def loop_value_items_def json_items)
  qed
qed

definition loop_member :: "json \<Rightarrow> string \<Rightarrow> json option" where
  "loop_member payload k = Option.bind (json_get payload ''_loop'') (\<lambda>l. json_get l k)"

lemma loop_member_with:
  "loop_member (with_loop_state payload phase index count item) ''phase'' = Some (JString phase)"
  "loop_member (with_loop_state payload phase index count item) ''count'' = Some (JNumber (PosInt (of_nat count)))"
  "loop_member (with_loop_state payload phase index count item) ''index'' =
     map_option (\<lambda>i. JNumber (PosInt (of_nat i))) index"
  "loop_member (with_loop_state payload phase index count item) ''item'' = item"
  by (simp_all add: loop_member_def with_loop_state_def Let_def map_of_bt_put split: option.split)

lemma with_loop_state_other:
  "m \<noteq> ''_loop'' \<Longrightarrow> json_get (with_loop_state payload phase index count item) m = map_of (into_payload_map payload) m"
  by (simp add: with_loop_state_def Let_def map_of_bt_put)

text \<open>
  C22: a loop node whose script returns a count or an array of at most 10000 items sends one message per
  item, in the order of the array, each with its index from 0, its item and the number of items beside the
  members of the payload, and then exactly one end message. On any other value of the script it fails
  and sends nothing.
\<close>

theorem loop_sends_every_item_once:
  assumes "evaluate base p v = (Inr (scope, d), v')" and "payload_from_scope base scope = Inr payload"
  shows "\<exists>r. loop_transform base p v = (r, v') \<and>
    (case r of
       Inl _ \<Rightarrow> \<not> (\<exists>items. loop_value_items base d items \<and> length items \<le> MAX_LOOP_ITERATIONS)
     | Inr outs \<Rightarrow> \<exists>items. loop_value_items base d items \<and> length items \<le> MAX_LOOP_ITERATIONS \<and>
         length outs = Suc (length items) \<and>
         (\<forall>k < length items. no_dispatch (outs ! k) = Route [''body''] \<and>
            loop_member (no_payload (outs ! k)) ''index'' = Some (JNumber (PosInt (of_nat k))) \<and>
            loop_member (no_payload (outs ! k)) ''item'' = items ! k) \<and>
         no_dispatch (last outs) = Route [''done''] \<and>
         (\<forall>out\<in>set outs. loop_member (no_payload out) ''count'' = Some (JNumber (PosInt (of_nat (length items)))) \<and>
            (\<forall>m. m \<noteq> ''_loop'' \<longrightarrow> json_get (no_payload out) m = map_of (into_payload_map payload) m)))"
proof (cases "collect_loop_items base d")
  case (Inl e)
  then have none: "\<not> (\<exists>items. loop_value_items base d items \<and> length items \<le> MAX_LOOP_ITERATIONS)"
    by (simp flip: collect_loop_items)
  have "loop_transform base p v = (Inl e, v')"
    using assms Inl by (simp add: loop_transform_def and_then_def)
  then show ?thesis using none by simp
next
  case (Inr items)
  let ?outs = "map (\<lambda>(index, item).
        loop_output (with_loop_state payload ''body'' (Some index) (length items) item) ''body'') (enumerate 0 items) @
      [loop_output (with_loop_state payload ''done'' None (length items) None) ''done'']"
  have "loop_transform base p v = (Inr ?outs, v')"
    using assms Inr by (simp add: loop_transform_def and_then_def Let_def)
  moreover have "loop_value_items base d items" "length items \<le> MAX_LOOP_ITERATIONS"
    using Inr by (simp_all add: collect_loop_items)
  ultimately show ?thesis
    by (intro exI [of _ "Inr ?outs"] conjI) (assumption, simp only: sum.case, intro exI [of _ items],
      auto simp: nth_append nth_enumerate_eq loop_output_def loop_member_with with_loop_state_other)
qed

theorem loop_sends_every_item_once_witness:
  "\<exists>outs items. loop_transform (demo_script (\<lambda>_. Inr (JArray [JNull, JBool True]))) JNull () = (Inr outs, ()) \<and>
     loop_value_items (demo_script (\<lambda>_. Inr (JArray [JNull, JBool True]))) (JArray [JNull, JBool True]) items \<and>
     length outs = Suc (length items) \<and> loop_member (no_payload (outs ! 1)) ''item'' = items ! 1 \<and>
     items = [Some JNull, Some (JBool True)]"
proof -
  let ?b = "demo_script (\<lambda>_. Inr (JArray [JNull, JBool True]))"
  have eval: "evaluate ?b JNull () = (Inr (JNull, JArray [JNull, JBool True]), ())" by code_simp
  have payload: "payload_from_scope ?b JNull = Inr JNull" by code_simp
  have items: "loop_value_items ?b (JArray [JNull, JBool True]) items \<longleftrightarrow> items = [Some JNull, Some (JBool True)]" for items
    by (auto simp: loop_value_items_def demo_script_def Cons_eq_map_conv)
  have "is_ok (fst (loop_transform ?b JNull ()))" by code_simp
  then show ?thesis
    using loop_sends_every_item_once [OF eval payload] by (fastforce simp: is_ok_iff items)
qed

text \<open>A script error never leaves a tryCatch node.\<close>

lemma try_catches:
  assumes "prepare_scope base p = Inr scope" and "sb_eval base v scope = (Inl m, scope', v')"
  shows "\<exists>payload. try_transform base p v = (Inr (route payload [''catch'']), v') \<and>
    json_get payload ''_error'' = Some (JString (msg_text m))"
proof (intro exI conjI)
  let ?base_payload = "case payload_from_scope base scope' of Inr q \<Rightarrow> q | Inl _ \<Rightarrow> p"
  let ?payload = "JObject (bt_put ''_error'' (JString (msg_text m)) (into_payload_map ?base_payload))"
  show "try_transform base p v = (Inr (route ?payload [''catch'']), v')"
    using assms by (simp add: try_transform_def evaluate_catching_def Let_def)
  show "json_get ?payload ''_error'' = Some (JString (msg_text m))"
    by (simp add: map_of_bt_put)
qed

end
