(* ===== verification/Human_Loop.thy ===== *)
theory Human_Loop
  imports Flow_Nodes
begin

text \<open>
  \<open>crates/nodes-io/src/human_loop/\<close>: the node that waits for a person's approval, the registry of pending
  approvals and the command that answers one (\<open>src-tauri/src/commands/human_loop.rs\<close>). A one-shot channel
  is a cell named by the approval that created it; the printing of identifiers is an argument.
\<close>

section \<open>Forms (\<open>form.rs\<close>)\<close>

record select_option =
  so_value :: string
  so_label :: string

datatype form_schema_field =
    BooleanField string string bool "bool option"
  | NumberField string string bool "rat option" "rat option" "rat option" "string option"
  | StringField string string bool "string option" bool "usize option"
  | SelectField string string bool "select_option list" "string option"

fun default_value :: "form_schema_field \<Rightarrow> (string \<times> json) option" where
  "default_value (BooleanField name label required dflt) = map_option (\<lambda>v. (name, JBool v)) dflt"
| "default_value (NumberField name label required dflt lo hi unt) = map_option (\<lambda>v. (name, JNumber (Float v))) dflt"
| "default_value (StringField name label required dflt multiline max_length) = map_option (\<lambda>v. (name, JString v)) dflt"
| "default_value (SelectField name label required options dflt) = map_option (\<lambda>v. (name, JString v)) dflt"

fun form_field_name :: "form_schema_field \<Rightarrow> string" where
  "form_field_name (BooleanField name _ _ _) = name"
| "form_field_name (NumberField name _ _ _ _ _ _) = name"
| "form_field_name (StringField name _ _ _ _ _) = name"
| "form_field_name (SelectField name _ _ _ _) = name"

section \<open>Configuration (\<open>config.rs\<close>)\<close>

datatype default_action = AutoApprove | AutoReject | FallbackNode string

record human_loop_config =
  hl_title :: "string option"
  hl_description :: "string option"
  hl_form_schema :: "form_schema_field list"
  hl_approval_timeout_ms :: "u64 option"
  hl_default_action :: default_action

record human_loop_node =
  hn_id :: string
  hn_config :: human_loop_config
  hn_workflow_id :: string

definition human_loop_output_pins :: "pin_definition list" where
  "human_loop_output_pins =
     [exec_output_pin ''approve'' ''approved'' (Some ''taken-when-approved''),
      exec_output_pin ''reject'' ''rejected'' (Some ''taken-when-rejected'')]"

section \<open>The registry (\<open>registry.rs\<close>)\<close>

datatype response_action = Approved | Rejected

record human_response =
  hr_action :: response_action
  hr_form_data :: json
  hr_comment :: "string option"
  hr_responded_by :: "string option"

record approval_slot =
  sl_workflow_id :: string
  sl_node_id :: string
  sl_node_label :: string
  sl_form_schema :: "form_schema_field list"
  sl_pending_since :: time
  sl_approval_timeout_ms :: "u64 option"
  sl_default_action :: default_action

text \<open>A one-shot channel: empty with both ends alive, filled, or with one end gone.\<close>

datatype oneshot = Open | Sent human_response | SenderDropped | ReceiverDropped

text \<open>A \<open>transform\<close> that is blocked, with the instant its time-out ends.\<close>

record waiting_transform =
  wt_node :: human_loop_node
  wt_payload :: json
  wt_deadline :: "time option"

record approvals =
  ap_slots :: "(uuid, approval_slot) hash_map"
  ap_channels :: "(uuid, oneshot) hash_map"
  ap_waiting :: "(uuid, waiting_transform) hash_map"

definition approvals_new :: approvals where
  "approvals_new = \<lparr>ap_slots = [], ap_channels = [], ap_waiting = []\<rparr>"

definition create_slot :: "uuid \<Rightarrow> approval_slot \<Rightarrow> approvals \<Rightarrow> approvals" where
  "create_slot i slot st =
     st\<lparr>ap_slots := hm_insert i slot (ap_slots st), ap_channels := hm_insert i Open (ap_channels st)\<rparr>"

text \<open>\<open>Sender::send\<close> fails when the receiver is gone.\<close>

definition respond :: "uuid \<Rightarrow> human_response \<Rightarrow> approvals \<Rightarrow> unit result \<times> approvals" where
  "respond i response st =
     (case map_of (ap_slots st) i of
        None \<Rightarrow> (Inl (InvalidGraph (Msg ''approval-unknown'' [])), st)
      | Some slot \<Rightarrow>
          (let st1 = st\<lparr>ap_slots := hm_remove i (ap_slots st)\<rparr> in
           if map_of (ap_channels st) i = Some Open
           then (Inr (), st1\<lparr>ap_channels := hm_insert i (Sent response) (ap_channels st1)\<rparr>)
           else (Inl (InvalidGraph (Msg ''approval-receiver-gone'' [])), st1)))"

text \<open>A removed slot drops its sender.\<close>

definition drop_sender :: "oneshot \<Rightarrow> oneshot" where
  "drop_sender c = (if c = Open then SenderDropped else c)"

definition cleanup_workflow :: "string \<Rightarrow> approvals \<Rightarrow> approvals" where
  "cleanup_workflow wid st =
     (let gone = map fst (filter (\<lambda>(i, s). sl_workflow_id s = wid) (ap_slots st)) in
      st\<lparr>ap_slots := filter (\<lambda>(i, s). sl_workflow_id s \<noteq> wid) (ap_slots st),
         ap_channels := map (\<lambda>(i, c). (i, if i \<in> set gone then drop_sender c else c)) (ap_channels st)\<rparr>)"

text \<open>The summaries, without the printing of their identifiers, times and forms.\<close>

record pending_summary =
  pa_approval_id :: uuid
  pa_workflow_id :: string
  pa_node_id :: string
  pa_node_label :: string
  pa_pending_since :: time
  pa_timeout_ms :: "u64 option"
  pa_form_schema :: "form_schema_field list"

definition list_pending :: "string option \<Rightarrow> approvals \<Rightarrow> pending_summary list" where
  "list_pending wid st =
     map (\<lambda>(i, s). \<lparr>pa_approval_id = i, pa_workflow_id = sl_workflow_id s, pa_node_id = sl_node_id s,
            pa_node_label = sl_node_label s, pa_pending_since = sl_pending_since s,
            pa_timeout_ms = sl_approval_timeout_ms s, pa_form_schema = sl_form_schema s\<rparr>)
       (filter (\<lambda>(i, s). case wid of None \<Rightarrow> True | Some w \<Rightarrow> sl_workflow_id s = w) (ap_slots st))"

text \<open>The command; reading the identifier is an argument.\<close>

definition respond_human_loop ::
    "(string \<Rightarrow> msg + uuid) \<Rightarrow> string \<Rightarrow> string \<Rightarrow> json \<Rightarrow> string option \<Rightarrow> string option \<Rightarrow> approvals \<Rightarrow>
     unit result \<times> approvals" where
  "respond_human_loop parse_uuid approval_id action form_data comment responded_by st =
     (if action \<noteq> ''approved'' \<and> action \<noteq> ''rejected'' then (Inl (InvalidGraph (Msg ''unknown-action'' [action])), st)
      else
        (case parse_uuid approval_id of
           Inl e \<Rightarrow> (Inl (InvalidGraph e), st)
         | Inr i \<Rightarrow>
             respond i \<lparr>hr_action = (if action = ''approved'' then Approved else Rejected), hr_form_data = form_data,
                hr_comment = comment, hr_responded_by = responded_by\<rparr> st))"

section \<open>The node (\<open>node.rs\<close>)\<close>

definition response_metadata :: "(uuid \<Rightarrow> string) \<Rightarrow> uuid \<Rightarrow> human_response \<Rightarrow> json_map" where
  "response_metadata uuid_text i r =
     (let m = bt_put ''form_data'' (hr_form_data r)
            (bt_put ''action'' (JString (case hr_action r of Approved \<Rightarrow> ''approved'' | Rejected \<Rightarrow> ''rejected''))
              (bt_put ''approval_id'' (JString (uuid_text i)) []));
          m1 = (case hr_comment r of Some c \<Rightarrow> bt_put ''comment'' (JString c) m | None \<Rightarrow> m);
          m2 = (case hr_responded_by r of Some b \<Rightarrow> bt_put ''responded_by'' (JString b) m1 | None \<Rightarrow> m1)
      in [(''human_loop'', JObject m2)])"

definition timeout_metadata :: "(uuid \<Rightarrow> string) \<Rightarrow> uuid \<Rightarrow> string \<Rightarrow> json option \<Rightarrow> json_map" where
  "timeout_metadata uuid_text i action form_defaults =
     (let m = bt_put ''timed_out'' (JBool True)
            (bt_put ''action'' (JString action) (bt_put ''approval_id'' (JString (uuid_text i)) []));
          m1 = (case form_defaults of Some d \<Rightarrow> bt_put ''form_defaults'' d m | None \<Rightarrow> m)
      in [(''human_loop'', JObject m1)])"

definition handle_response :: "(uuid \<Rightarrow> string) \<Rightarrow> uuid \<Rightarrow> json \<Rightarrow> human_response \<Rightarrow> node_execution result" where
  "handle_response uuid_text i payload r =
     Inr (with_metadata (Some (response_metadata uuid_text i r))
       (route payload [case hr_action r of Approved \<Rightarrow> ''approve'' | Rejected \<Rightarrow> ''reject'']))"

definition form_defaults :: "form_schema_field list \<Rightarrow> json_map" where
  "form_defaults schema = fold (\<lambda>f m. case default_value f of Some (k, v) \<Rightarrow> bt_put k v m | None \<Rightarrow> m) schema []"

definition handle_timeout :: "(uuid \<Rightarrow> string) \<Rightarrow> human_loop_node \<Rightarrow> uuid \<Rightarrow> json \<Rightarrow> node_execution result" where
  "handle_timeout uuid_text node i payload =
     (case hl_default_action (hn_config node) of
        AutoApprove \<Rightarrow>
          Inr (with_metadata (Some (timeout_metadata uuid_text i ''autoApprove''
                (Some (JObject (form_defaults (hl_form_schema (hn_config node)))))))
            (route payload [''approve'']))
      | AutoReject \<Rightarrow> Inl (InvalidGraph (Msg ''approval-timed-out'' [uuid_text i]))
      | FallbackNode target \<Rightarrow> Inl (InvalidGraph (Msg ''approval-fallback'' [uuid_text i, target])))"

text \<open>\<open>transform\<close> up to its await point.\<close>

definition start_approval :: "uuid \<Rightarrow> human_loop_node \<Rightarrow> json \<Rightarrow> time \<Rightarrow> approvals \<Rightarrow> approvals" where
  "start_approval i node payload now st =
     (let c = hn_config node;
          st1 = create_slot i
            \<lparr>sl_workflow_id = hn_workflow_id node, sl_node_id = hn_id node,
             sl_node_label = (case hl_title c of Some t \<Rightarrow> t | None \<Rightarrow> hn_id node),
             sl_form_schema = hl_form_schema c, sl_pending_since = now,
             sl_approval_timeout_ms = hl_approval_timeout_ms c, sl_default_action = hl_default_action c\<rparr> st
      in st1\<lparr>ap_waiting := hm_insert i
           \<lparr>wt_node = node, wt_payload = payload,
            wt_deadline = map_option (\<lambda>ms. now + int (unat ms) * 1000000) (hl_approval_timeout_ms c)\<rparr>
           (ap_waiting st1)\<rparr>)"

text \<open>
  The task of a blocked \<open>transform\<close> is polled: \<open>tokio::time::timeout\<close> looks at the channel first and at the
  clock afterwards (\<open>poll_finds\<close>; \<open>None\<close> is a task that stays blocked), and a task that goes on drops its
  receiver when the awaited future is dropped (\<open>drop_receiver\<close>). \<open>poll_approval\<close> is the two without
  anything in between. The registry runs on other threads, so a response may be sent in between: it is
  acknowledged and lost, see \<open>Human_Correct\<close>.
\<close>

definition poll_finds :: "(uuid \<Rightarrow> string) \<Rightarrow> uuid \<Rightarrow> time \<Rightarrow> approvals \<Rightarrow> node_execution result option" where
  "poll_finds uuid_text i now st =
     (case map_of (ap_waiting st) i of
        None \<Rightarrow> None
      | Some w \<Rightarrow>
          (case map_of (ap_channels st) i of
             Some (Sent r) \<Rightarrow> Some (handle_response uuid_text i (wt_payload w) r)
           | Some SenderDropped \<Rightarrow> Some (handle_timeout uuid_text (wt_node w) i (wt_payload w))
           | _ \<Rightarrow> if (case wt_deadline w of Some t \<Rightarrow> t \<le> now | None \<Rightarrow> False)
                then Some (handle_timeout uuid_text (wt_node w) i (wt_payload w)) else None))"

definition drop_receiver :: "uuid \<Rightarrow> approvals \<Rightarrow> approvals" where
  "drop_receiver i st =
     st\<lparr>ap_waiting := hm_remove i (ap_waiting st), ap_channels := hm_insert i ReceiverDropped (ap_channels st)\<rparr>"

definition poll_approval ::
    "(uuid \<Rightarrow> string) \<Rightarrow> uuid \<Rightarrow> time \<Rightarrow> approvals \<Rightarrow> node_execution result option \<times> approvals" where
  "poll_approval uuid_text i now st =
     (case poll_finds uuid_text i now st of
        None \<Rightarrow> (None, st)
      | Some res \<Rightarrow> (Some res, drop_receiver i st))"

text \<open>The task is dropped while it is blocked, as the time-out of its stage does.\<close>

definition abandon_approval :: "uuid \<Rightarrow> approvals \<Rightarrow> approvals" where
  "abandon_approval i st = (if map_of (ap_waiting st) i = None then st else drop_receiver i st)"

section \<open>Runs\<close>

datatype approval_event =
    Transform uuid human_loop_node json time
  | Respond uuid human_response
  | Cleanup string
  | Poll uuid time
  | Abandon uuid

datatype approval_reply = Silent | Responded "unit result" | Finished "node_execution result"

fun approval_step :: "(uuid \<Rightarrow> string) \<Rightarrow> approval_event \<Rightarrow> approvals \<Rightarrow> approval_reply \<times> approvals" where
  "approval_step u (Transform i node payload now) st = (Silent, start_approval i node payload now st)"
| "approval_step u (Respond i r) st = (case respond i r st of (res, st') \<Rightarrow> (Responded res, st'))"
| "approval_step u (Cleanup wid) st = (Silent, cleanup_workflow wid st)"
| "approval_step u (Poll i now) st =
     (case poll_approval u i now st of (Some res, st') \<Rightarrow> (Finished res, st') | (None, st') \<Rightarrow> (Silent, st'))"
| "approval_step u (Abandon i) st = (Silent, abandon_approval i st)"

text \<open>Identifiers are fresh; everything else may happen in any order.\<close>

inductive approval_trace :: "(uuid \<Rightarrow> string) \<Rightarrow> (approval_event \<times> approval_reply) list \<Rightarrow> approvals \<Rightarrow> bool" for u where
  start: "approval_trace u [] approvals_new"
| step: "approval_trace u tr st \<Longrightarrow>
    (\<forall>i node payload now. ev = Transform i node payload now \<longrightarrow> \<not> hm_contains (ap_channels st) i) \<Longrightarrow>
    approval_step u ev st = (reply, st') \<Longrightarrow> approval_trace u (tr @ [(ev, reply)]) st'"

end
