(* ===== verification/Human_Correct.thy ===== *)
theory Human_Correct
  imports Human_Loop
begin

text \<open>
  What the approval node promises whatever the order of responses, time-outs, undeployments and aborted
  runs: who decides an approval, that an acknowledged response counts, and that undeploying unblocks.
\<close>

section \<open>The history of an approval\<close>

text \<open>The responses acknowledged and the answers given, in order; and what it was begun with.\<close>

fun ack_of :: "uuid \<Rightarrow> approval_event \<times> approval_reply \<Rightarrow> human_response list" where
  "ack_of i (Respond j r, Responded (Inr _)) = (if j = i then [r] else [])"
| "ack_of i _ = []"

fun answer_of :: "uuid \<Rightarrow> approval_event \<times> approval_reply \<Rightarrow> node_execution result list" where
  "answer_of i (Poll j _, Finished res) = (if j = i then [res] else [])"
| "answer_of i _ = []"

definition acks :: "(approval_event \<times> approval_reply) list \<Rightarrow> uuid \<Rightarrow> human_response list" where
  "acks tr i = concat (map (ack_of i) tr)"

definition answers :: "(approval_event \<times> approval_reply) list \<Rightarrow> uuid \<Rightarrow> node_execution result list" where
  "answers tr i = concat (map (answer_of i) tr)"

definition begun :: "(approval_event \<times> approval_reply) list \<Rightarrow> uuid \<Rightarrow> human_loop_node \<Rightarrow> json \<Rightarrow> bool" where
  "begun tr i node payload \<longleftrightarrow> (\<exists>now. (Transform i node payload now, Silent) \<in> set tr)"

lemma history_simps [simp]:
  "acks [] i = []" "answers [] i = []"
  "acks (tr @ [e]) i = acks tr i @ ack_of i e" "answers (tr @ [e]) i = answers tr i @ answer_of i e"
  by (simp_all add: acks_def answers_def)

lemma begun_snoc: "begun tr i node p \<Longrightarrow> begun (tr @ [e]) i node p"
  by (auto simp: begun_def)

text \<open>What an answer has to be: that of the acknowledged response, or the default when there is none.\<close>

definition decision :: "(uuid \<Rightarrow> string) \<Rightarrow> uuid \<Rightarrow> human_response list \<Rightarrow> human_loop_node \<Rightarrow> json \<Rightarrow> node_execution result" where
  "decision u i rs node payload =
     (case rs of r # _ \<Rightarrow> handle_response u i payload r | [] \<Rightarrow> handle_timeout u node i payload)"

definition decided :: "(uuid \<Rightarrow> string) \<Rightarrow> (approval_event \<times> approval_reply) list \<Rightarrow> uuid \<Rightarrow> node_execution result \<Rightarrow> bool" where
  "decided u tr i res \<longleftrightarrow> (\<exists>node payload. begun tr i node payload \<and> res = decision u i (acks tr i) node payload)"

text \<open>What is known of one approval, from its slot, its channel and its blocked task.\<close>

definition approval_ok ::
    "(uuid \<Rightarrow> string) \<Rightarrow> (approval_event \<times> approval_reply) list \<Rightarrow> uuid \<Rightarrow>
     approval_slot option \<Rightarrow> oneshot option \<Rightarrow> waiting_transform option \<Rightarrow> bool" where
  "approval_ok u tr i sl ch wt \<longleftrightarrow>
     (sl \<noteq> None \<longrightarrow> ch = Some Open \<or> ch = Some ReceiverDropped) \<and>
     (\<forall>r. ch = Some (Sent r) \<longrightarrow> acks tr i = [r]) \<and>
     (acks tr i = [] \<or> (\<exists>r. acks tr i = [r] \<and> sl = None \<and> ch \<noteq> None \<and> (ch = Some (Sent r) \<or> wt = None))) \<and>
     (\<forall>w. wt = Some w \<longrightarrow>
        begun tr i (wt_node w) (wt_payload w) \<and> ch \<noteq> None \<and> ch \<noteq> Some ReceiverDropped \<and>
        (ch = Some Open \<longrightarrow> (\<exists>s. sl = Some s \<and> sl_workflow_id s = hn_workflow_id (wt_node w)))) \<and>
     (answers tr i = [] \<or> (\<exists>res. answers tr i = [res] \<and> wt = None \<and> ch = Some ReceiverDropped \<and> decided u tr i res))"

lemma decided_snoc: "decided u tr i res \<Longrightarrow> ack_of i e = [] \<Longrightarrow> decided u (tr @ [e]) i res"
  by (auto simp: decided_def intro: begun_snoc)

text \<open>An event that neither acknowledges a response nor gives an answer.\<close>

lemma ok_quiet:
  assumes "approval_ok u tr i sl ch wt" and "ack_of i e = []" and "answer_of i e = []"
  shows "approval_ok u (tr @ [e]) i sl ch wt"
  using assms by (auto simp: approval_ok_def intro: begun_snoc decided_snoc)

lemma ok_start:
  assumes "approval_ok u tr i sl None wt" and "sl_workflow_id s = hn_workflow_id node"
  shows "approval_ok u (tr @ [(Transform i node p now, Silent)]) i (Some s) (Some Open)
    (Some \<lparr>wt_node = node, wt_payload = p, wt_deadline = t\<rparr>)"
  using assms by (auto simp: approval_ok_def begun_def)

lemma ok_accept:
  assumes "approval_ok u tr i (Some s) (Some Open) wt"
  shows "approval_ok u (tr @ [(Respond i r, Responded (Inr ()))]) i None (Some (Sent r)) wt"
  using assms by (auto simp: approval_ok_def intro: begun_snoc)

lemma ok_unslot: "approval_ok u tr i sl ch wt \<Longrightarrow> ch \<noteq> Some Open \<Longrightarrow> approval_ok u tr i None ch wt"
  by (auto simp: approval_ok_def)

lemma ok_answer:
  assumes "approval_ok u tr i sl ch (Some w)"
    and "res = (case ch of Some (Sent r) \<Rightarrow> handle_response u i (wt_payload w) r | _ \<Rightarrow> handle_timeout u (wt_node w) i (wt_payload w))"
  shows "approval_ok u (tr @ [(Poll i now, Finished res)]) i sl (Some ReceiverDropped) None"
proof -
  have "res = decision u i (acks tr i) (wt_node w) (wt_payload w)"
    using assms by (auto simp: approval_ok_def decision_def split: option.splits oneshot.splits)
  moreover have "begun tr i (wt_node w) (wt_payload w)" using assms(1) by (simp add: approval_ok_def)
  ultimately have "decided u (tr @ [(Poll i now, Finished res)]) i res"
    by (intro decided_snoc) (auto simp: decided_def)
  then show ?thesis using assms(1) by (auto simp: approval_ok_def)
qed

lemma ok_abandon: "approval_ok u tr i sl ch (Some w) \<Longrightarrow> approval_ok u tr i sl (Some ReceiverDropped) None"
  by (auto simp: approval_ok_def)

lemma ok_cleanup: "approval_ok u tr i (Some s) ch wt \<Longrightarrow> approval_ok u tr i None (map_option drop_sender ch) wt"
  by (auto simp: approval_ok_def drop_sender_def)

lemma ok_new: "approval_ok u [] i None None None"
  by (simp add: approval_ok_def)

section \<open>Every run\<close>

abbreviation slot_of :: "approvals \<Rightarrow> uuid \<Rightarrow> approval_slot option" where
  "slot_of st i \<equiv> map_of (ap_slots st) i"

abbreviation channel_of :: "approvals \<Rightarrow> uuid \<Rightarrow> oneshot option" where
  "channel_of st i \<equiv> map_of (ap_channels st) i"

abbreviation waiting_of :: "approvals \<Rightarrow> uuid \<Rightarrow> waiting_transform option" where
  "waiting_of st i \<equiv> map_of (ap_waiting st) i"

definition history_ok :: "(uuid \<Rightarrow> string) \<Rightarrow> (approval_event \<times> approval_reply) list \<Rightarrow> approvals \<Rightarrow> bool" where
  "history_ok u tr st \<longleftrightarrow> hm_wf (ap_slots st) \<and> (\<forall>i. approval_ok u tr i (slot_of st i) (channel_of st i) (waiting_of st i))"

lemma map_of_filter_value:
  "distinct (map fst m) \<Longrightarrow>
    map_of (filter (\<lambda>(k, v). P v) m) k = (case map_of m k of Some v \<Rightarrow> if P v then Some v else None | None \<Rightarrow> None)"
  by (induction m) (auto simp: map_of_eq_None_iff split: option.splits)

lemma map_of_map_key: "map_of (map (\<lambda>(k, v). (k, f k v)) m) k = map_option (f k) (map_of m k)"
  by (induction m) auto

lemma cleanup_views:
  assumes "hm_wf (ap_slots st)"
  shows "slot_of (cleanup_workflow wid st) i =
      (case slot_of st i of Some s \<Rightarrow> if sl_workflow_id s = wid then None else Some s | None \<Rightarrow> None)"
    and "channel_of (cleanup_workflow wid st) i =
      (if (\<exists>s. slot_of st i = Some s \<and> sl_workflow_id s = wid) then map_option drop_sender (channel_of st i) else channel_of st i)"
    and "waiting_of (cleanup_workflow wid st) i = waiting_of st i" and "hm_wf (ap_slots (cleanup_workflow wid st))"
proof -
  have d: "distinct (map fst (ap_slots st))" using assms by (simp add: hm_wf_def)
  then show "slot_of (cleanup_workflow wid st) i =
      (case slot_of st i of Some s \<Rightarrow> if sl_workflow_id s = wid then None else Some s | None \<Rightarrow> None)"
    by (simp add: cleanup_workflow_def Let_def map_of_filter_value [of _ "\<lambda>s. sl_workflow_id s \<noteq> wid"] split: option.split)
  have "i \<in> set (map fst (filter (\<lambda>(i, s). sl_workflow_id s = wid) (ap_slots st))) \<longleftrightarrow>
      (\<exists>s. slot_of st i = Some s \<and> sl_workflow_id s = wid)"
    using d by (force simp: image_iff)
  then show "channel_of (cleanup_workflow wid st) i =
      (if (\<exists>s. slot_of st i = Some s \<and> sl_workflow_id s = wid) then map_option drop_sender (channel_of st i) else channel_of st i)"
    by (cases "channel_of st i") (auto simp: cleanup_workflow_def Let_def map_of_map_key simp del: set_map)
  show "waiting_of (cleanup_workflow wid st) i = waiting_of st i" by (simp add: cleanup_workflow_def Let_def)
  show "hm_wf (ap_slots (cleanup_workflow wid st))"
    using d by (simp add: cleanup_workflow_def Let_def hm_wf_def distinct_map_filter)
qed

lemma history_step:
  assumes "history_ok u tr st" and "\<forall>i node p now. ev = Transform i node p now \<longrightarrow> \<not> hm_contains (ap_channels st) i"
    and "approval_step u ev st = (reply, st')"
  shows "history_ok u (tr @ [(ev, reply)]) st'"
proof -
  have wf: "hm_wf (ap_slots st)" and ok: "\<And>i. approval_ok u tr i (slot_of st i) (channel_of st i) (waiting_of st i)"
    using assms(1) by (auto simp: history_ok_def)
  note quiet = ok_quiet [OF ok]
  show ?thesis
  proof (cases ev)
    case (Transform j node p now)
    then have "channel_of st j = None" using assms(2) by (auto simp: hm_contains_iff map_of_eq_None_iff)
    then have "approval_ok u tr j (slot_of st j) None (waiting_of st j)" using ok [of j] by simp
    from ok_start [OF this, of "the (slot_of st' j)" node p now]
    show ?thesis
      using assms(3) wf quiet
      by (auto simp: history_ok_def Transform start_approval_def create_slot_def Let_def)
  next
    case (Respond j r)
    show ?thesis
    proof (cases "slot_of st j")
      case None
      then show ?thesis using assms(3) wf quiet by (auto simp: history_ok_def Respond respond_def)
    next
      case (Some s)
      show ?thesis
      proof (cases "channel_of st j = Some Open")
        case True
        then have "approval_ok u tr j (Some s) (Some Open) (waiting_of st j)" using ok [of j] Some by simp
        from ok_accept [OF this, of r] show ?thesis
          using assms(3) wf quiet Some True by (auto simp: history_ok_def Respond respond_def Let_def)
      next
        case False
        have "approval_ok u (tr @ [(Respond j r, Responded (Inl e))]) j None (channel_of st j) (waiting_of st j)" for e
          by (rule ok_quiet [OF ok_unslot [OF ok False]]) simp_all
        then show ?thesis
          using assms(3) wf quiet Some False by (auto simp: history_ok_def Respond respond_def Let_def)
      qed
    qed
  next
    case (Cleanup wid)
    have "approval_ok u (tr @ [(Cleanup wid, Silent)]) i (slot_of (cleanup_workflow wid st) i)
        (channel_of (cleanup_workflow wid st) i) (waiting_of (cleanup_workflow wid st) i)" for i
      using ok [of i] ok_cleanup [of u tr i _ "channel_of st i" "waiting_of st i"]
      by (intro ok_quiet) (auto simp: cleanup_views [OF wf] split: option.split)
    then show ?thesis using assms(3) cleanup_views(4) [OF wf] by (auto simp: history_ok_def Cleanup)
  next
    case (Poll j now)
    show ?thesis
    proof (cases "poll_approval u j now st")
      case (Pair ans st1)
      show ?thesis
      proof (cases ans)
        case None
        then have "st1 = st"
          using Pair by (auto simp: poll_approval_def split: option.splits)
        then show ?thesis using assms(3) wf quiet Pair None by (auto simp: history_ok_def Poll)
      next
        case (Some res)
        then obtain w where w: "waiting_of st j = Some w"
          using Pair by (auto simp: poll_approval_def poll_finds_def split: option.splits)
        then have "approval_ok u tr j (slot_of st j) (channel_of st j) (Some w)" using ok [of j] by simp
        moreover have "res = (case channel_of st j of Some (Sent r) \<Rightarrow> handle_response u j (wt_payload w) r
            | _ \<Rightarrow> handle_timeout u (wt_node w) j (wt_payload w))"
          "st1 = st\<lparr>ap_waiting := hm_remove j (ap_waiting st), ap_channels := hm_insert j ReceiverDropped (ap_channels st)\<rparr>"
          using Pair Some w
          by (auto simp: poll_approval_def poll_finds_def drop_receiver_def split: option.splits oneshot.splits if_splits)
        ultimately show ?thesis
          using ok_answer [of u tr j "slot_of st j" "channel_of st j" w res now] assms(3) wf quiet Pair Some
          by (auto simp: history_ok_def Poll)
      qed
    qed
  next
    case (Abandon j)
    show ?thesis
    proof (cases "waiting_of st j")
      case None
      then show ?thesis using assms(3) wf quiet by (auto simp: history_ok_def Abandon abandon_approval_def)
    next
      case (Some w)
      then have "approval_ok u tr j (slot_of st j) (Some ReceiverDropped) None" using ok [of j] ok_abandon by metis
      then have "approval_ok u (tr @ [(Abandon j, Silent)]) j (slot_of st j) (Some ReceiverDropped) None"
        by (rule ok_quiet) simp_all
      then show ?thesis
        using assms(3) wf quiet Some by (auto simp: history_ok_def Abandon abandon_approval_def drop_receiver_def)
    qed
  qed
qed

lemma trace_history: "approval_trace u tr st \<Longrightarrow> history_ok u tr st"
proof (induction rule: approval_trace.induct)
  case start
  then show ?case by (simp add: history_ok_def approvals_new_def hm_wf_def ok_new)
next
  case (step tr st ev reply st')
  then show ?case by (blast intro: history_step)
qed

section \<open>Who decides\<close>

lemma acks_set: "r \<in> set (acks tr i) \<longleftrightarrow> (Respond i r, Responded (Inr ())) \<in> set tr"
proof -
  have "r \<in> set (ack_of i e) \<longleftrightarrow> e = (Respond i r, Responded (Inr ()))" for e
    by (cases "(i, e)" rule: ack_of.cases) auto
  then show ?thesis by (auto simp: acks_def)
qed

lemma answers_set: "res \<in> set (answers tr i) \<longleftrightarrow> (\<exists>now. (Poll i now, Finished res) \<in> set tr)"
proof -
  have "res \<in> set (answer_of i e) \<longleftrightarrow> (\<exists>now. e = (Poll i now, Finished res))" for e
    by (cases "(i, e)" rule: answer_of.cases) auto
  then show ?thesis by (auto simp: answers_def)
qed

lemma response_way:
  "handle_response u i p r = Inr ex \<Longrightarrow>
    map no_dispatch ex = [Route [case hr_action r of Approved \<Rightarrow> ''approve'' | Rejected \<Rightarrow> ''reject'']]"
  by (auto simp: handle_response_def with_metadata_def route_def)

lemma timeout_approves:
  "handle_timeout u node i p = Inr ex \<Longrightarrow> hl_default_action (hn_config node) = AutoApprove"
  by (simp add: handle_timeout_def split: default_action.splits)

lemma history_at: "history_ok u tr st \<Longrightarrow> approval_ok u tr i (slot_of st i) (channel_of st i) (waiting_of st i)"
  by (simp add: history_ok_def)

lemma ok_counts: "approval_ok u tr i sl ch wt \<Longrightarrow> length (acks tr i) \<le> 1 \<and> length (answers tr i) \<le> 1"
  by (auto simp: approval_ok_def)

lemma answer_decided: "approval_ok u tr i sl ch wt \<Longrightarrow> res \<in> set (answers tr i) \<Longrightarrow> decided u tr i res"
  by (auto simp: approval_ok_def)

text \<open>
  C37: an approval is decided once. At most one response to it is acknowledged and at most one answer
  given. The answer is that of the acknowledged response when there is one, wherever in the run it came,
  and the default action of the node when there is none. (A poll that goes on drops its receiver in the
  same step; a response that falls in between is acknowledged and lost, see below.)
\<close>

theorem approval_decided_once:
  assumes "approval_trace u tr st"
  shows "length (acks tr i) \<le> 1 \<and> length (answers tr i) \<le> 1 \<and>
    (\<forall>res\<in>set (answers tr i). \<exists>node payload. begun tr i node payload \<and>
       res = (case acks tr i of r # _ \<Rightarrow> handle_response u i payload r | [] \<Rightarrow> handle_timeout u node i payload))"
proof -
  have ok: "approval_ok u tr i (slot_of st i) (channel_of st i) (waiting_of st i)"
    by (rule history_at [OF trace_history [OF assms]])
  have "\<exists>node payload. begun tr i node payload \<and>
      res = (case acks tr i of r # _ \<Rightarrow> handle_response u i payload r | [] \<Rightarrow> handle_timeout u node i payload)"
    if "res \<in> set (answers tr i)" for res
    using answer_decided [OF ok that] by (simp add: decided_def decision_def)
  then show ?thesis using ok_counts [OF ok] by blast
qed

text \<open>
  C38: a message takes the way of approval only when the one response acknowledged to it approves it, or
  when no response to it was acknowledged and the node is set to approve by default. (As above, a poll is
  one step.)
\<close>

theorem approved_only_by_decision:
  assumes "approval_trace u tr st" and "(Poll i now, Finished (Inr ex)) \<in> set tr"
    and "map no_dispatch ex = [Route [''approve'']]"
  shows "(\<exists>r. acks tr i = [r] \<and> (Respond i r, Responded (Inr ())) \<in> set tr \<and> hr_action r = Approved) \<or>
    (acks tr i = [] \<and>
     (\<exists>node payload. begun tr i node payload \<and> hl_default_action (hn_config node) = AutoApprove))"
proof -
  note ok = history_at [OF trace_history [OF assms(1)], of i]
  have "Inr ex \<in> set (answers tr i)" using assms(2) by (auto simp: answers_set)
  then have "decided u tr i (Inr ex)" by (rule answer_decided [OF ok])
  then obtain node payload where b: "begun tr i node payload" "Inr ex = decision u i (acks tr i) node payload"
    by (auto simp: decided_def)
  show ?thesis
  proof (cases "acks tr i")
    case Nil
    then have "hl_default_action (hn_config node) = AutoApprove"
      using b(2) timeout_approves [of u node i payload ex] by (simp add: decision_def)
    then show ?thesis using b(1) Nil by blast
  next
    case (Cons r rs)
    then have "handle_response u i payload r = Inr ex" using b(2) by (simp add: decision_def)
    then have "hr_action r = Approved"
      using response_way [of u i payload r ex] assms(3) by (cases "hr_action r") simp_all
    moreover have "(Respond i r, Responded (Inr ())) \<in> set tr" using Cons acks_set [of r tr i] by simp
    moreover have "acks tr i = [r]" using Cons ok_counts [OF ok] by simp
    ultimately show ?thesis by blast
  qed
qed

text \<open>
  C39: once a response is acknowledged and its message is still waiting, the next poll of the message, at any
  time, answers with that response; and undeploying its workflow lets every waiting message go on at its
  next poll.
\<close>

theorem approval_unblocks:
  assumes "approval_trace u tr st" and "waiting_of st i = Some w"
  shows "((Respond i r, Responded (Inr ())) \<in> set tr \<longrightarrow>
      fst (approval_step u (Poll i now) st) = Finished (handle_response u i (wt_payload w) r)) \<and>
    (hn_workflow_id (wt_node w) = wid \<longrightarrow>
      (\<exists>res. fst (approval_step u (Poll i now) (cleanup_workflow wid st)) = Finished res))"
proof -
  note history = trace_history [OF assms(1)]
  have wf: "hm_wf (ap_slots st)" using history by (simp add: history_ok_def)
  have ok: "approval_ok u tr i (slot_of st i) (channel_of st i) (Some w)"
    using history_at [OF history, of i] assms(2) by simp
  have "fst (approval_step u (Poll i now) st) = Finished (handle_response u i (wt_payload w) r)"
    if "(Respond i r, Responded (Inr ())) \<in> set tr"
  proof -
    have "r \<in> set (acks tr i)" using that by (simp add: acks_set)
    then have "channel_of st i = Some (Sent r)" using ok by (auto simp: approval_ok_def)
    then show ?thesis using assms(2) by (simp add: poll_approval_def poll_finds_def)
  qed
  moreover have "\<exists>res. fst (approval_step u (Poll i now) (cleanup_workflow wid st)) = Finished res"
    if "hn_workflow_id (wt_node w) = wid"
  proof -
    have "channel_of st i = Some Open \<longrightarrow> (\<exists>s. slot_of st i = Some s \<and> sl_workflow_id s = wid)"
      "channel_of st i \<noteq> None" "channel_of st i \<noteq> Some ReceiverDropped"
      using ok that by (auto simp: approval_ok_def)
    then have "channel_of (cleanup_workflow wid st) i = Some SenderDropped \<or>
        (\<exists>r. channel_of (cleanup_workflow wid st) i = Some (Sent r))"
      by (cases "channel_of st i"; cases "the (channel_of st i)") (auto simp: cleanup_views(2) [OF wf] drop_sender_def)
    then show ?thesis
      using assms(2) by (auto simp: poll_approval_def poll_finds_def cleanup_views(3) [OF wf])
  qed
  ultimately show ?thesis by blast
qed

section \<open>Runs of one approval\<close>

definition demo_node :: "default_action \<Rightarrow> human_loop_node" where
  "demo_node action = \<lparr>hn_id = ''ask'', hn_config = \<lparr>hl_title = None, hl_description = None, hl_form_schema = [],
     hl_approval_timeout_ms = Some 5, hl_default_action = action\<rparr>, hn_workflow_id = ''w''\<rparr>"

definition demo_response :: human_response where
  "demo_response = \<lparr>hr_action = Approved, hr_form_data = JNull, hr_comment = None, hr_responded_by = None\<rparr>"

fun run_approvals :: "approval_event list \<Rightarrow> (approval_event \<times> approval_reply) list \<times> approvals" where
  "run_approvals evs = fold (\<lambda>ev (tr, st). case approval_step (\<lambda>_. ''id'') ev st of (reply, st') \<Rightarrow> (tr @ [(ev, reply)], st'))
     evs ([], approvals_new)"

lemma run_approvals_snoc:
  "run_approvals (evs @ [ev]) = (case run_approvals evs of (tr, st) \<Rightarrow>
     (case approval_step (\<lambda>_. ''id'') ev st of (reply, st') \<Rightarrow> (tr @ [(ev, reply)], st')))"
  by simp

text \<open>A run in which at most the first event begins an approval.\<close>

lemma run_approvals_trace:
  assumes "\<forall>ev\<in>set evs. \<forall>i node p now. ev \<noteq> Transform i node p now"
  shows "approval_trace (\<lambda>_. ''id'') (fst (run_approvals (Transform i node p now # evs))) (snd (run_approvals (Transform i node p now # evs)))"
  using assms
proof (induction evs rule: rev_induct)
  case Nil
  have "approval_trace (\<lambda>_. ''id'') ([] @ [(Transform i node p now, Silent)]) (start_approval i node p now approvals_new)"
    by (rule approval_trace.step [OF approval_trace.start]) (simp_all add: approvals_new_def hm_contains_def)
  then show ?case by simp
next
  case (snoc ev evs)
  obtain tr st where r: "run_approvals (Transform i node p now # evs) = (tr, st)" by fastforce
  obtain reply st' where s: "approval_step (\<lambda>_. ''id'') ev st = (reply, st')" by fastforce
  have "approval_trace (\<lambda>_. ''id'') (tr @ [(ev, reply)]) st'"
    using snoc r by (intro approval_trace.step [OF _ _ s]) auto
  moreover have "run_approvals (Transform i node p now # evs @ [ev]) = (tr @ [(ev, reply)], st')"
    using run_approvals_snoc [of "Transform i node p now # evs" ev] r s by simp
  ultimately show ?case by simp
qed

abbreviation decided_run :: "(approval_event \<times> approval_reply) list \<times> approvals" where
  "decided_run \<equiv> run_approvals [Transform 0 (demo_node AutoReject) JNull 0, Respond 0 demo_response, Poll 0 9000000]"

lemmas run_eval = start_approval_def create_slot_def respond_def poll_approval_def poll_finds_def drop_receiver_def Let_def approvals_new_def hm_insert_def
  hm_remove_def demo_node_def handle_response_def handle_timeout_def cleanup_workflow_def drop_sender_def with_metadata_def
  route_def demo_response_def

lemma decided_run_trace: "approval_trace (\<lambda>_. ''id'') (fst decided_run) (snd decided_run)"
  by (rule run_approvals_trace) simp

lemma decided_run_answer: "answers (fst decided_run) 0 = [handle_response (\<lambda>_. ''id'') 0 JNull demo_response]"
  by code_simp

theorem approval_decided_once_witness:
  "length (acks (fst decided_run) 0) \<le> 1 \<and> answers (fst decided_run) 0 = [handle_response (\<lambda>_. ''id'') 0 JNull demo_response]"
  using approval_decided_once [OF decided_run_trace, of 0] decided_run_answer by blast

definition approved_output :: node_execution where
  "approved_output = (case handle_response (\<lambda>_. ''id'') 0 JNull demo_response of Inr ex \<Rightarrow> ex | Inl _ \<Rightarrow> [])"

lemma approved_output_facts:
  "(Poll 0 9000000, Finished (Inr approved_output)) \<in> set (fst decided_run)"
  "map no_dispatch approved_output = [Route [''approve'']]"
  by (code_simp+)

theorem approved_only_by_decision_witness:
  "(\<exists>r. acks (fst decided_run) 0 = [r] \<and> (Respond 0 r, Responded (Inr ())) \<in> set (fst decided_run) \<and> hr_action r = Approved) \<or>
   (acks (fst decided_run) 0 = [] \<and>
    (\<exists>node payload. begun (fst decided_run) 0 node payload \<and> hl_default_action (hn_config node) = AutoApprove))"
  by (rule approved_only_by_decision [OF decided_run_trace approved_output_facts])

abbreviation answered_run :: "(approval_event \<times> approval_reply) list \<times> approvals" where
  "answered_run \<equiv> run_approvals [Transform 0 (demo_node AutoReject) JNull 0, Respond 0 demo_response]"

lemma answered_run_trace: "approval_trace (\<lambda>_. ''id'') (fst answered_run) (snd answered_run)"
  by (rule run_approvals_trace) simp

lemma answered_run_facts:
  "map_of (ap_waiting (snd answered_run)) 0 =
     Some \<lparr>wt_node = demo_node AutoReject, wt_payload = JNull, wt_deadline = Some 5000000\<rparr>"
  "(Respond 0 demo_response, Responded (Inr ())) \<in> set (fst answered_run)"
  by (code_simp+)

theorem approval_unblocks_witness:
  "fst (approval_step (\<lambda>_. ''id'') (Poll 0 9000000) (snd answered_run)) =
     Finished (handle_response (\<lambda>_. ''id'') 0 JNull demo_response)"
  using approval_unblocks [OF answered_run_trace answered_run_facts(1), of demo_response 9000000] answered_run_facts(2)
  by simp

section \<open>Where the code departs from its documents\<close>

text \<open>
  An approval that timed out keeps its slot: it is still listed as pending, and the person who answers it
  is told that the receiver is gone.
\<close>

lemma timed_out_approval_stays_listed:
  "let (tr, st) = run_approvals [Transform 0 (demo_node AutoReject) JNull 0, Poll 0 9000000] in
   answers tr 0 = [Inl (InvalidGraph (Msg ''approval-timed-out'' [''id'']))] \<and>
   map pa_approval_id (list_pending None st) = [0] \<and>
   fst (respond 0 demo_response st) = Inl (InvalidGraph (Msg ''approval-receiver-gone'' []))"
  by code_simp

text \<open>
  A response sent after the poll has seen the time-out and before the receiver is dropped: the person is
  told that the rejection counts, and the message takes the way of approval.
\<close>

lemma response_lost_while_finishing:
  "let st = snd (run_approvals [Transform 0 (demo_node AutoApprove) JNull 0]);
       found = poll_finds (\<lambda>_. ''id'') 0 9000000 st;
       (res, st') = respond 0 (demo_response\<lparr>hr_action := Rejected\<rparr>) st
   in map_option (map_sum id (map no_dispatch)) found = Some (Inr [Route [''approve'']]) \<and> res = Inr () \<and>
     map_of (ap_channels (drop_receiver 0 st')) 0 = Some ReceiverDropped"
  by code_simp

text \<open>Undeploying a workflow approves what waits in a node that approves by default, long before its time-out.\<close>

lemma undeploy_approves:
  "let (tr, st) = run_approvals [Transform 0 (demo_node AutoApprove) JNull 0, Cleanup ''w'', Poll 0 1] in
   map (map_sum id (map no_dispatch)) (answers tr 0) = [Inr [Route [''approve'']]]"
  by code_simp

end
