(* ===== verification/Pure_Nodes.thy ===== *)
theory Pure_Nodes
  imports Pull Serde Byte_Codec Compiler_Safety
begin

text \<open>
  \<open>crates/nodes-pure/\<close>: the nodes that are evaluated on demand, and how they behave behind the memo of
  \<open>Pull\<close>. The library they call is an argument: printing numbers, rounding to a double (\<open>None\<close> is an
  overflow), reading a time stamp.
\<close>

section \<open>The nodes\<close>

record pure_library =
  pl_number_text :: "json_number \<Rightarrow> string"
  pl_round :: "rat \<Rightarrow> rat option"
  pl_parse_time :: "string \<Rightarrow> msg + time"

record lookup_config =
  lc_table :: "(string, json) hash_map"
  lc_default :: "json option"

text \<open>The derived reader; a default that is \<open>null\<close> reads as none.\<close>

definition de_lookup_config :: "json \<Rightarrow> lookup_config option" where
  "de_lookup_config v =
     do { m \<leftarrow> as_object v;
          t \<leftarrow> de_field_or m ''table'' (de_map Some) [];
          d \<leftarrow> de_field_or m ''default'' (de_option Some) None;
          Some \<lparr>lc_table = t, lc_default = d\<rparr> }"

datatype pure_node = C2f string | Lookup string lookup_config | MinutesSince string

definition data_pin :: "string \<Rightarrow> string \<Rightarrow> pin_type \<Rightarrow> pin_direction \<Rightarrow> bool \<Rightarrow> string \<Rightarrow> pin_definition" where
  "data_pin i l t d required desc =
     \<lparr>pin_id = i, pin_label = l, pin_ty = t, pin_dir = d, pin_required = required, pin_kind_of = Data,
      pin_description = Some desc, pin_empty_policy = BlockUntilReady, pin_block_timeout_ms = None, pin_ttl_ms = None\<rparr>"

fun pure_input_pin :: "pure_node \<Rightarrow> pin_definition" where
  "pure_input_pin (C2f _) = data_pin ''value'' ''celsius'' TFloat Input True ''celsius-to-convert''"
| "pure_input_pin (Lookup _ _) = data_pin ''key'' ''lookup-key'' TAny Input True ''scalar-value''"
| "pure_input_pin (MinutesSince _) = data_pin ''since'' ''start-time'' TString Input True ''rfc3339-time-stamp''"

fun pure_output_pin :: "pure_node \<Rightarrow> pin_definition" where
  "pure_output_pin (C2f _) = data_pin ''out'' ''fahrenheit'' TFloat Output False ''converted''"
| "pure_output_pin (Lookup _ _) = data_pin ''out'' ''lookup-result'' TAny Output False ''value-or-default''"
| "pure_output_pin (MinutesSince _) = data_pin ''out'' ''minutes-since'' TInteger Output False ''minutes-since''"

definition pure_trait :: "pure_node \<Rightarrow> node_trait" where
  "pure_trait pn =
     \<lparr>nt_id = (case pn of C2f i \<Rightarrow> i | Lookup i _ \<Rightarrow> i | MinutesSince i \<Rightarrow> i),
      nt_kind = (case pn of C2f _ \<Rightarrow> ''c2f'' | Lookup _ _ \<Rightarrow> ''lookup'' | MinutesSince _ \<Rightarrow> ''minutesSince''),
      nt_input_pins = [pure_input_pin pn], nt_output_pins = [pure_output_pin pn]\<rparr>"

text \<open>The capabilities the plugin registers.\<close>

fun pure_capabilities :: "pure_node \<Rightarrow> u32" where
  "pure_capabilities (MinutesSince _) = 0"
| "pure_capabilities _ = PURE"

section \<open>\<open>transform\<close>\<close>

definition fahrenheit :: "(rat \<Rightarrow> rat option) \<Rightarrow> rat \<Rightarrow> rat option" where
  "fahrenheit rnd c = do { a \<leftarrow> rnd (c * 9); b \<leftarrow> rnd (a / 5); rnd (b + 32) }"

text \<open>A float that is not finite becomes \<open>null\<close>.\<close>

definition c2f_transform :: "pure_library \<Rightarrow> string \<Rightarrow> json \<Rightarrow> node_execution result" where
  "c2f_transform lib i payload =
     (case Option.bind (json_get payload ''value'') as_f64 of
        None \<Rightarrow> Inl (PayloadConversion i (Msg ''c2f-expects-float'' []))
      | Some c \<Rightarrow>
          Inr (broadcast (JObject
            [(''out'', case fahrenheit (pl_round lib) c of Some f \<Rightarrow> JNumber (Float f) | None \<Rightarrow> JNull)])))"

definition stringify_key :: "pure_library \<Rightarrow> string \<Rightarrow> json \<Rightarrow> string result" where
  "stringify_key lib i v =
     (case v of
        JString s \<Rightarrow> Inr s
      | JBool b \<Rightarrow> Inr (if b then ''true'' else ''false'')
      | JNumber n \<Rightarrow> Inr (pl_number_text lib n)
      | _ \<Rightarrow> Inl (PayloadConversion i (Msg ''lookup-key-not-scalar'' [])))"

definition lookup_transform :: "pure_library \<Rightarrow> string \<Rightarrow> lookup_config \<Rightarrow> json \<Rightarrow> node_execution result" where
  "lookup_transform lib i cfg payload =
     and_then (ok_or (PayloadConversion i (Msg ''lookup-key-missing'' [])) (json_get payload ''key'')) (\<lambda>v.
     and_then (stringify_key lib i v) (\<lambda>key.
       case (case map_of (lc_table cfg) key of Some x \<Rightarrow> Some x | None \<Rightarrow> lc_default cfg) of
         Some x \<Rightarrow> Inr (broadcast (JObject [(''out'', x)]))
       | None \<Rightarrow> Inl (PayloadConversion i (Msg ''lookup-missed'' [key]))))"

text \<open>Durations are cut towards zero: first to seconds, then to minutes.\<close>

definition cut_div :: "int \<Rightarrow> int \<Rightarrow> int" where
  "cut_div a b = (if a \<ge> 0 then a div b else - (- a div b))"

definition num_minutes :: "time \<Rightarrow> int" where
  "num_minutes d = cut_div (cut_div d 1000000000) 60"

definition minutes_since_transform :: "pure_library \<Rightarrow> time \<Rightarrow> string \<Rightarrow> json \<Rightarrow> node_execution result" where
  "minutes_since_transform lib now i payload =
     (case Option.bind (json_get payload ''since'') as_str of
        None \<Rightarrow> Inl (PayloadConversion i (Msg ''minutes-since-expects-string'' []))
      | Some s \<Rightarrow>
          (case pl_parse_time lib s of
             Inl e \<Rightarrow> Inl (PayloadConversion i e)
           | Inr since \<Rightarrow> Inr (broadcast (JObject [(''out'', json_int (num_minutes (now - since)))]))))"

fun pure_transform :: "pure_library \<Rightarrow> time \<Rightarrow> pure_node \<Rightarrow> json \<Rightarrow> node_execution result" where
  "pure_transform lib now (C2f i) payload = c2f_transform lib i payload"
| "pure_transform lib now (Lookup i cfg) payload = lookup_transform lib i cfg payload"
| "pure_transform lib now (MinutesSince i) payload = minutes_since_transform lib now i payload"

text \<open>The transforms of a workflow, for the pull; \<open>clock\<close> is the time of the k-th call.\<close>

definition pure_exec ::
    "pure_library \<Rightarrow> (nat \<Rightarrow> time) \<Rightarrow> (string \<times> pure_node) list \<Rightarrow> nat \<Rightarrow> string \<Rightarrow> json \<Rightarrow> node_execution outcome" where
  "pure_exec lib clock ps k n x =
     (case map_of ps n of Some pn \<Rightarrow> Finishes (pure_transform lib (clock k) pn x) | None \<Rightarrow> Hangs)"

section \<open>Behind the memo\<close>

lemma pure_trait_pure_form: "node_is_pure_form (pure_trait pn)"
  by (cases pn) (simp_all add: node_is_pure_form_def pure_trait_def is_pure_form_def data_pin_def)

lemma pure_out_pin: "pin_id (pure_output_pin pn) = ''out''"
  by (cases pn) (simp_all add: data_pin_def)

text \<open>Every answer carries the output port; and what declares \<open>PURE\<close> does not look at the clock.\<close>

lemma pure_transform_shape:
  assumes "pure_transform lib now pn x = Inr outs"
  shows "\<exists>v. outs = broadcast (JObject [(''out'', v)])"
  using assms
  by (cases pn)
    (auto simp: c2f_transform_def lookup_transform_def minutes_since_transform_def and_then_Inr split: option.splits sum.splits)

lemma pure_transform_timeless: "pure_capabilities pn = PURE \<Longrightarrow> pure_transform lib now pn x = pure_transform lib now' pn x"
  by (cases pn) (simp_all add: PURE_def)

definition shipped :: "pull_ctx \<Rightarrow> (string \<times> pure_node) list \<Rightarrow> bool" where
  "shipped ctx ps \<longleftrightarrow>
     list_all (\<lambda>(n, pn). pure_capabilities pn = PURE) ps \<and>
     list_all (\<lambda>(n, node). node_is_pure_form node \<longrightarrow> map_option pure_trait (map_of ps n) = Some node) (pc_nodes ctx)"

lemma shipped_memo_assumptions:
  assumes "shipped ctx ps" and "pc_exec ctx = pure_exec lib clock ps" and "inj_on (pc_hash ctx) (pure_inputs ctx)"
  shows "memo_assumptions ctx"
proof -
  have pure: "pure_capabilities pn = PURE" if "map_of ps n = Some pn" for n pn
    using assms(1) map_of_SomeD [OF that] by (auto simp: shipped_def list_all_iff)
  have node: "\<exists>pn. map_of ps n = Some pn \<and> node = pure_trait pn"
    if "map_of (pc_nodes ctx) n = Some node" "node_is_pure_form node" for n node
    using assms(1) map_of_SomeD [OF that(1)] that(2) by (auto simp: shipped_def list_all_iff)
  have "pc_exec ctx k n x = pc_exec ctx 0 n x" for k n x
    using pure pure_transform_timeless by (auto simp: assms(2) pure_exec_def split: option.split)
  moreover have "outs \<noteq> [] \<and> (\<forall>p\<in>set (nt_output_pins node).
      extract_pin_from_payload (no_payload (hd outs)) (pin_id p) \<noteq> None)"
    if h: "map_of (pc_nodes ctx) n = Some node" "node_is_pure_form node" "pc_exec ctx 0 n x = Finishes (Inr outs)"
    for n node x outs
  proof -
    obtain pn where pn: "map_of ps n = Some pn" "node = pure_trait pn" using node [OF h(1,2)] by blast
    then have "pure_transform lib (clock 0) pn x = Inr outs" using h(3) by (simp add: assms(2) pure_exec_def)
    then obtain v where "outs = broadcast (JObject [(''out'', v)])" using pure_transform_shape by blast
    then show ?thesis
      by (simp add: pn(2) pure_trait_def pure_out_pin broadcast_def extract_pin_from_payload_def)
  qed
  ultimately show ?thesis using assms(3) unfolding memo_assumptions_def by blast
qed

text \<open>
  In a workflow whose pure-form nodes are the shipped ones that declare themselves pure, a pull with the
  memo returns the values, makes the cache accesses and raises the errors of one without, provided the hash
  separates the payloads that occur.
\<close>

theorem shipped_pure_nodes_transparent:
  assumes "shipped ctx ps" and "pc_exec ctx = pure_exec lib clock ps" and "inj_on (pc_hash ctx) (pure_inputs ctx)"
    and "edges_declared ctx" and "memo_sound ctx (ps_memo st)"
    and "pull_data_inputs fuel ctx n node x st = Some (r, st')"
  shows "pull_data_inputs_with (pull_plain fuel ctx) ctx n node x (ps_tick st) = Some (r, ps_tick st') \<and>
    memo_sound ctx (ps_memo st')"
  by (rule memo_transparent_spec [OF shipped_memo_assumptions [OF assms(1-3)] assms(4-6)])

text \<open>The example: a pure node reads one port of a device's cache and feeds two ports of a view.\<close>

definition demo_library :: pure_library where
  "demo_library = \<lparr>pl_number_text = (\<lambda>_. ''1''), pl_round = Some, pl_parse_time = (\<lambda>_. Inr 0)\<rparr>"

definition demo_device :: node_trait where
  "demo_device = \<lparr>nt_id = ''dev'', nt_kind = ''modbusRead'', nt_input_pins = [default_input],
     nt_output_pins = [output_named_data ''t'' ''t'' TAny ''d'']\<rparr>"

definition demo_cache :: "json \<Rightarrow> output_cache" where
  "demo_cache v = [(''t'', \<lparr>slot_cell = \<lparr>wval = Some \<lparr>co_value = v, produced_at = 0, co_trace = 7\<rparr>, wversion = 1, wreceivers = 1\<rparr>,
     slot_rx_seen = 0\<rparr>)]"

definition demo_pure_edges :: "string \<Rightarrow> workflow_edge list" where
  "demo_pure_edges pin =
     \<lparr>e_from = ''dev'', e_to = ''k'', e_source_port_id = Some ''t'', e_target_port_id = Some pin,
      e_backpressure_policy = None\<rparr> # demo_pull_edges"

definition demo_pure_ctx :: "pure_node \<Rightarrow> json \<Rightarrow> pull_ctx" where
  "demo_pure_ctx pn v = \<lparr>pc_edges = build_edges_by_consumer (demo_pure_edges (pin_id (pure_input_pin pn))),
     pc_nodes = [(''k'', pure_trait pn), (''dev'', demo_device), (''view'', demo_view)], pc_timeouts = [], pc_trace = 7,
     pc_hash = (\<lambda>_. 0), pc_exec = pure_exec demo_library (\<lambda>k. int k * 60000000000) [(''k'', pn)],
     pc_env = (\<lambda>_. \<lparr>ce_caches = [(''dev'', demo_cache v)], ce_now = 0, ce_check = 0, ce_wait = SenderGone\<rparr>)\<rparr>"

lemma demo_pure_ctx_inputs: "pure_inputs (demo_pure_ctx (C2f ''k'') v) \<subseteq> {JObject [(''value'', v)]}"
proof
  let ?c = "demo_pure_ctx (C2f ''k'') v"
  fix x assume "x \<in> pure_inputs ?c"
  then obtain fuel up node k k' where node: "map_of (pc_nodes ?c) up = Some node" "node_is_pure_form node"
    and x: "pull_data_inputs_with (pull_plain fuel ?c) ?c up node (JObject []) k = Some (Inr x, k')"
    unfolding pure_inputs_def by blast
  have up: "up = ''k''" "node = pure_trait (C2f ''k'')" using node
    by (auto simp: demo_pure_ctx_def node_is_pure_form_def is_pure_form_def demo_view_def demo_device_def default_input_def
        split: if_splits)
  have dev: "\<not> node_is_pure_form demo_device"
    by (simp add: node_is_pure_form_def is_pure_form_def demo_device_def default_input_def)
  have e: "for_consumer (pc_edges ?c) ''k'' = [\<lparr>di_input_pin = ''value'', di_upstream = ''dev'', di_output_pin = ''t''\<rparr>]"
    by (simp add: demo_pure_ctx_def for_consumer_build demo_pure_edges_def demo_pull_edges_def demo_pull_edge_def
        data_in_edge_of_def data_pin_def)
  have "read_upstream (pc_env ?c k) ''dev'' ''t'' p b None = Inr v" for p b
    by (simp add: read_upstream_def demo_pure_ctx_def cache_read_def demo_cache_def ok_or_def expired_def)
  then show "x \<in> {JObject [(''value'', v)]}"
    using x dev e up by (cases fuel)
      (auto simp: pull_data_inputs_with_def consumer_policy_def pure_trait_def data_pin_def merge_payload_def
        demo_pure_ctx_def [of "C2f ''k''" v, THEN arg_cong [where f = pc_nodes]])
qed

theorem shipped_pure_nodes_transparent_witness:
  "pull_data_inputs_with (pull_plain 3 (demo_pure_ctx (C2f ''k'') (JNumber (PosInt 100))))
     (demo_pure_ctx (C2f ''k'') (JNumber (PosInt 100))) ''view'' demo_view JNull 0
   = Some (Inr (JObject [(''in'', JNull), (''x'', JNumber (Float 212)), (''y'', JNumber (Float 212))]), 2)"
proof -
  let ?c = "demo_pure_ctx (C2f ''k'') (JNumber (PosInt 100))"
  have S: "shipped ?c [(''k'', C2f ''k'')]"
    by (simp add: shipped_def demo_pure_ctx_def node_is_pure_form_def is_pure_form_def demo_device_def demo_view_def
        default_input_def)
  have I: "inj_on (pc_hash ?c) (pure_inputs ?c)"
    by (rule inj_on_subset [OF _ demo_pure_ctx_inputs]) simp
  have D: "edges_declared ?c"
    by (auto simp: edges_declared_def demo_pure_ctx_def for_consumer_build demo_pull_edges_def demo_pure_edges_def
        demo_pull_edge_def data_in_edge_of_def asks_declared_def pure_trait_def data_pin_def demo_device_def
        output_named_data_def)
  have M: "memo_sound ?c (ps_memo demo_start)" by (simp add: memo_sound_def demo_start_def memo_get_def)
  have E: "pc_exec ?c = pure_exec demo_library (\<lambda>k. int k * 60000000000) [(''k'', C2f ''k'')]"
    by (simp add: demo_pure_ctx_def)
  have "case pull_data_inputs 3 ?c ''view'' demo_view JNull demo_start of
      Some (r, st') \<Rightarrow>
        r = Inr (JObject [(''in'', JNull), (''x'', JNumber (Float 212)), (''y'', JNumber (Float 212))]) \<and> ps_tick st' = 2
    | None \<Rightarrow> False"
    by code_simp
  then show ?thesis using shipped_pure_nodes_transparent [OF S E I D M]
    by (auto simp: demo_start_def split: option.splits)
qed

section \<open>Time stamps\<close>

text \<open>Whole minutes, cut towards zero: a time stamp ahead of the clock is rounded up.\<close>

lemma cut_div_bounds:
  assumes "0 < b"
  shows "\<bar>cut_div a b\<bar> * b \<le> \<bar>a\<bar>" and "\<bar>a\<bar> < (\<bar>cut_div a b\<bar> + 1) * b"
proof -
  have d: "(x div b) * b \<le> x" "x < (x div b + 1) * b" for x
  proof -
    have "x = x div b * b + x mod b" by simp
    moreover have "0 \<le> x mod b" "x mod b < b" using assms by simp_all
    ultimately show "(x div b) * b \<le> x" "x < (x div b + 1) * b" unfolding distrib_right by linarith+
  qed
  have n: "0 \<le> x \<Longrightarrow> 0 \<le> x div b" for x using assms by (simp add: pos_imp_zdiv_nonneg_iff)
  have "\<bar>cut_div a b\<bar> = \<bar>a\<bar> div b" using n [of a] n [of "- a"] by (auto simp: cut_div_def)
  then show "\<bar>cut_div a b\<bar> * b \<le> \<bar>a\<bar>" "\<bar>a\<bar> < (\<bar>cut_div a b\<bar> + 1) * b" using d [of "\<bar>a\<bar>"] by simp_all
qed

lemma num_minutes_bounds:
  "\<bar>num_minutes d\<bar> * 60000000000 \<le> \<bar>d\<bar> \<and> \<bar>d\<bar> < (\<bar>num_minutes d\<bar> + 1) * 60000000000"
  using cut_div_bounds [of 1000000000 d] cut_div_bounds [of 60 "cut_div d 1000000000"]
  by (auto simp: num_minutes_def)

lemma future_minutes_rounded_up: "num_minutes (- 59000000000) = 0"
  by code_simp

text \<open>
  The memo goes by the ports of a node, not by its capabilities: a second pull of \<open>minutesSince\<close> in the same
  trace is given the minutes of the first, whatever the clock says.
\<close>

lemma minutes_since_is_memoised:
  "case pull_one 2 (demo_pure_ctx (MinutesSince ''k'') (JString ''t'')) ''k'' ''out'' Skip None None demo_start of
     None \<Rightarrow> False
   | Some (r, st') \<Rightarrow>
       r = Inr (json_int 0) \<and>
       map_option fst (pull_one 2 (demo_pure_ctx (MinutesSince ''k'') (JString ''t'')) ''k'' ''out'' Skip None None st') =
         Some (Inr (json_int 0)) \<and>
       minutes_since_transform demo_library 60000000000 ''k'' (JObject [(''since'', JString ''t'')]) =
         Inr (broadcast (JObject [(''out'', json_int 1)]))"
  by code_simp

end
