(* ===== verification/Serial_Node.thy ===== *)
theory Serial_Node
  imports Serial_Trigger Serde Json_Build Conn_Recovery
begin

text \<open>
  \<open>crates/nodes-io/src/serial_trigger/mod.rs\<close>: the configuration of the serial trigger, its manual dispatch
  and its deployment. The time stamp of a frame, \<open>lossy\<close> and \<open>upper\<close> are arguments.
\<close>

section \<open>The configuration\<close>

fun de_json_map :: "json \<Rightarrow> json_map option" where
  "de_json_map (JObject m) = Some m"
| "de_json_map _ = None"

definition de_serial_config :: "json \<Rightarrow> serial_trigger_config option" where
  "de_serial_config v =
     do { m \<leftarrow> as_object v;
          port \<leftarrow> de_alias_or m ''port_path'' ''port'' de_string [];
          baud \<leftarrow> de_field_or m ''baud_rate'' de_word 9600;
          db \<leftarrow> de_field_or m ''data_bits'' de_word 8;
          parity \<leftarrow> de_field_or m ''parity'' de_string ''none'';
          sb \<leftarrow> de_field_or m ''stop_bits'' de_word 1;
          flow \<leftarrow> de_field_or m ''flow_control'' de_string ''none'';
          enc \<leftarrow> de_field_or m ''encoding'' de_string ''ascii'';
          delim \<leftarrow> de_field_or m ''delimiter'' de_string [CHR 0x0A];
          timeout \<leftarrow> de_field_or m ''read_timeout_ms'' de_word 100;
          gap \<leftarrow> de_field_or m ''idle_gap_ms'' de_word 80;
          most \<leftarrow> de_field_or m ''max_frame_bytes'' de_word 512;
          trims \<leftarrow> de_field_or m ''trim'' de_bool True;
          inject \<leftarrow> de_field_or m ''inject'' de_json_map [];
          Some \<lparr>sc_port_path = port, sc_baud_rate = baud, sc_data_bits = db, sc_parity = parity, sc_stop_bits = sb,
            sc_flow_control = flow, sc_encoding = enc, sc_delimiter = delim, sc_read_timeout_ms = timeout,
            sc_idle_gap_ms = gap, sc_max_frame_bytes = most, sc_trim = trims, sc_inject = inject\<rparr> }"

record serial_trigger_node =
  sn_id :: string
  sn_config :: serial_trigger_config
  sn_connection_id :: "string option"

section \<open>Metadata\<close>

definition serial_metadata ::
    "string \<Rightarrow> string \<Rightarrow> string option \<Rightarrow> u64 \<Rightarrow> u64 \<Rightarrow> string \<Rightarrow> u64 \<Rightarrow> string \<Rightarrow> string \<Rightarrow> u64 \<Rightarrow> string \<Rightarrow> json_map" where
  "serial_metadata node_id port_path connection_id baud_rate data_bits parity stop_bits flow_control encoding byte_len received_at =
     [(''serial'', json_object
        [(''node_id'', JString node_id), (''port_path'', JString port_path), (''connection_id'', json_opt connection_id),
         (''baud_rate'', json_word baud_rate), (''data_bits'', json_word data_bits), (''parity'', JString parity),
         (''stop_bits'', json_word stop_bits), (''flow_control'', JString flow_control), (''encoding'', JString encoding),
         (''byte_len'', json_word byte_len), (''received_at'', JString received_at)])]"

text \<open>What \<open>submit_frame\<close> hands to the trigger handle.\<close>

definition frame_message ::
    "(u8 list \<Rightarrow> string) \<Rightarrow> (string \<Rightarrow> string) \<Rightarrow> string \<Rightarrow> serial_trigger_config \<Rightarrow> string \<Rightarrow> string \<Rightarrow> u8 list \<Rightarrow> json \<times> json_map" where
  "frame_message lossy upper node_id c connection_id now_text frame =
     (case build_serial_payload lossy upper frame c of
        (payload, byte_len, encoding) \<Rightarrow>
          (payload,
           [(''serial'', json_object
              [(''node_id'', JString node_id), (''port_path'', JString (sc_port_path c)),
               (''connection_id'', JString connection_id), (''baud_rate'', json_word (sc_baud_rate c)),
               (''data_bits'', json_word (sc_data_bits c)), (''parity'', JString (sc_parity c)),
               (''stop_bits'', json_word (sc_stop_bits c)), (''flow_control'', JString (sc_flow_control c)),
               (''encoding'', JString encoding), (''byte_len'', json_word byte_len),
               (''received_at'', JString now_text)])]))"

section \<open>Manual dispatch\<close>

definition frame_string :: "json_map \<Rightarrow> string \<Rightarrow> string \<Rightarrow> string" where
  "frame_string frame k fallback =
     (case Option.bind (map_of frame k) as_str of
        Some s \<Rightarrow> if trim_utf8 s \<noteq> [] then s else fallback
      | None \<Rightarrow> fallback)"

definition frame_u64 :: "json_map \<Rightarrow> string \<Rightarrow> u64 \<Rightarrow> u64" where
  "frame_u64 frame k fallback = (case Option.bind (map_of frame k) as_u64 of Some n \<Rightarrow> n | None \<Rightarrow> fallback)"

definition serial_transform ::
    "(string \<Rightarrow> string) \<Rightarrow> string \<Rightarrow> serial_trigger_node \<Rightarrow> json \<Rightarrow> node_execution result" where
  "serial_transform upper now_text node payload =
     (let c = sn_config node;
          m0 = fold (\<lambda>(k, v). bt_put k v) (sc_inject c) (into_payload_map payload);
          incoming = (case map_of m0 ''_serial_frame'' of Some (JObject f) \<Rightarrow> f | _ \<Rightarrow> []);
          m = bt_del ''_serial_frame'' m0;
          ascii_text = (case Option.bind (map_of incoming ''ascii'') as_str of
                          Some s \<Rightarrow> normalize_ascii (sc_trim c) s | None \<Rightarrow> []);
          raw = (case map_of incoming ''hex'' of Some v \<Rightarrow> Some v | None \<Rightarrow> map_of incoming ''raw_hex'');
          hex_text = (case Option.bind raw as_str of Some s \<Rightarrow> normalize_hex upper s | None \<Rightarrow> []);
          byte_len = (case Option.bind (map_of incoming ''byte_len'') as_u64 of Some n \<Rightarrow> n | None \<Rightarrow> 0);
          received_at = (case Option.bind (map_of incoming ''received_at'') as_str of Some s \<Rightarrow> s | None \<Rightarrow> now_text);
          port_path = frame_string incoming ''port_path'' (sc_port_path c);
          connection_id = (case Option.bind (map_of incoming ''connection_id'') as_str of
                             Some s \<Rightarrow> if trim_utf8 s \<noteq> [] then Some s else None | None \<Rightarrow> None);
          baud_rate = frame_u64 incoming ''baud_rate'' (ucast (sc_baud_rate c));
          data_bits = frame_u64 incoming ''data_bits'' (ucast (sc_data_bits c));
          stop_bits = frame_u64 incoming ''stop_bits'' (ucast (sc_stop_bits c));
          parity = frame_string incoming ''parity'' (sc_parity c);
          flow_control = frame_string incoming ''flow_control'' (sc_flow_control c);
          encoding = to_ascii_lowercase (trim_utf8 (frame_string incoming ''encoding'' (sc_encoding c)));
          serial_data = (if encoding = ''hex'' then hex_text else ascii_text);
          m1 = bt_put ''serial_hex'' (JString hex_text)
                 (bt_put ''serial_ascii'' (JString ascii_text) (bt_put ''serial_data'' (JString serial_data) m))
      in Inr (with_metadata
            (Some (serial_metadata (sn_id node) port_path connection_id baud_rate data_bits parity stop_bits flow_control
                     encoding byte_len received_at))
            (broadcast (JObject m1))))"

section \<open>Deployment\<close>

definition is_serial_connection_kind :: "string \<Rightarrow> bool" where
  "is_serial_connection_kind k =
     (to_ascii_lowercase (trim_utf8 k)
        \<in> set [''serial'', ''serialport'', ''serial_port'', ''uart'', ''rs232'', ''rs485''])"

text \<open>A resource that cannot be listened on is given back as failed and marked invalid.\<close>

definition refuse_resource ::
    "string \<Rightarrow> nat \<Rightarrow> connection_lease \<Rightarrow> string \<Rightarrow> time \<Rightarrow> conn_manager \<Rightarrow> conn_manager" where
  "refuse_resource cid r lease reason now m =
     snd (mark_invalid_configuration cid (Msg reason []) now (drop_guard now r lease (Failure reason) m))"

text \<open>
  The checks of \<open>on_deploy\<close>. \<open>Inr None\<close> is a node that does not listen, \<open>Inr (Some (cid, c))\<close> one whose loop
  is started on the connection with that configuration.
\<close>

definition serial_on_deploy ::
    "(string \<Rightarrow> string option) \<Rightarrow> time \<Rightarrow> serial_trigger_node \<Rightarrow> conn_manager \<Rightarrow>
     (string \<times> serial_trigger_config) option result \<times> conn_manager" where
  "serial_on_deploy u now node m =
     (case sn_connection_id node of
        None \<Rightarrow> (Inr None, m)
      | Some cid \<Rightarrow>
          (case acquire u now cid m of
             (Inl e, m1) \<Rightarrow> (Inl (NodeConfig (sn_id node) (Msg ''serial-borrow-failed'' [cid])), m1)
           | (Inr (r, lease), m1) \<Rightarrow>
               if \<not> is_serial_connection_kind (cl_kind lease) then
                 (Inl (NodeConfig (sn_id node) (Msg ''not-a-serial-resource'' [])),
                  refuse_resource cid r lease ''not-a-serial-resource'' now m1)
               else
                 (case de_serial_config (cl_metadata lease) of
                    None \<Rightarrow>
                      (Inl (NodeConfig (sn_id node) (Msg ''serial-metadata-unreadable'' [])),
                       drop_guard now r lease Pending m1)
                  | Some c0 \<Rightarrow>
                      (let c = c0\<lparr>sc_inject := sc_inject (sn_config node), sc_port_path := trim_utf8 (sc_port_path c0)\<rparr> in
                       if sc_port_path c = [] then
                         (Inl (NodeConfig (sn_id node) (Msg ''port-path-missing'' [])),
                          refuse_resource cid r lease ''port-path-missing'' now m1)
                       else
                         (Inr (Some (cid, c\<lparr>sc_encoding := sc_encoding (sn_config node), sc_trim := sc_trim (sn_config node)\<rparr>)),
                          drop_guard now r lease Success m1)))))"

section \<open>Manual dispatch and the read loop agree\<close>

lemma bt_ext:
  fixes m m' :: "('a::linorder \<times> 'b) list"
  assumes "bt_wf m" and "bt_wf m'" and "\<And>k. map_of m k = map_of m' k"
  shows "m = m'"
proof -
  have s: "set m = set m'"
  proof (rule set_eqI)
    fix p :: "'a \<times> 'b"
    show "p \<in> set m \<longleftrightarrow> p \<in> set m'"
      using map_of_eq_Some_iff [of m "fst p" "snd p"] map_of_eq_Some_iff [of m' "fst p" "snd p"] assms
      by (simp add: bt_wf_def)
  qed
  have "inj_on fst (set m \<union> set m')" using assms(1) s by (simp add: bt_wf_def distinct_map)
  then show ?thesis
    using assms(1,2) s by (intro map_sorted_distinct_set_unique [of fst]) (auto simp: bt_wf_def)
qed

lemma fold_put_wf: "bt_wf m \<Longrightarrow> bt_wf (fold (\<lambda>(k, v). bt_put k v) ms m)"
  by (induction ms arbitrary: m) (auto simp: bt_wf_bt_put)

lemma fold_put_other: "k \<notin> fst ` set ms \<Longrightarrow> map_of (fold (\<lambda>(k, v). bt_put k v) ms m) k = map_of m k"
  by (induction ms arbitrary: m) (auto simp: map_of_bt_put)

lemma fold_put_cong:
  "(map_of m k = map_of m' k \<or> k \<in> fst ` set ms) \<Longrightarrow>
    map_of (fold (\<lambda>(k, v). bt_put k v) ms m) k = map_of (fold (\<lambda>(k, v). bt_put k v) ms m') k"
  by (induction ms arbitrary: m m') (auto simp: map_of_bt_put)

lemma inject_del:
  assumes "k \<notin> fst ` set ms"
  shows "bt_del k (fold (\<lambda>(k, v). bt_put k v) ms [(k, x)]) = fold (\<lambda>(k, v). bt_put k v) ms []"
proof (rule bt_ext)
  show "bt_wf (bt_del k (fold (\<lambda>(k, v). bt_put k v) ms [(k, x)]))"
    by (intro bt_wf_bt_del fold_put_wf) (simp add: bt_wf_def)
  show "bt_wf (fold (\<lambda>(k, v). bt_put k v) ms [])" by (rule fold_put_wf) simp
  show "map_of (bt_del k (fold (\<lambda>(k, v). bt_put k v) ms [(k, x)])) k' = map_of (fold (\<lambda>(k, v). bt_put k v) ms []) k'" for k'
    using assms fold_put_other [of k ms "[]"] fold_put_cong [of "[(k, x)]" k' "[]" ms]
    by (auto simp: map_of_bt_del)
qed

text \<open>A frame as a manual dispatch carries it, with what the reader has read and not more.\<close>

definition manual_frame :: "(u8 list \<Rightarrow> string) \<Rightarrow> string \<Rightarrow> string \<Rightarrow> u8 list \<Rightarrow> json" where
  "manual_frame lossy cid now_text frame = JObject [(''_serial_frame'', json_object
     [(''ascii'', JString (lossy frame)), (''byte_len'', json_word (of_nat (length frame) :: u64)),
      (''connection_id'', JString cid), (''hex'', JString (bytes_to_hex frame)), (''received_at'', JString now_text)])]"

text \<open>
  A frame dispatched by hand gives the message the read loop sends for it: the same payload and the same
  metadata, for every configuration that does not inject a frame of its own.
\<close>

theorem manual_dispatch_agrees:
  assumes "''_serial_frame'' \<notin> fst ` set (sc_inject (sn_config node))" and "trim_utf8 cid \<noteq> []"
    and "frame_message lossy upper (sn_id node) (sn_config node) cid now_text frame = (payload, metadata)"
  shows "serial_transform upper t node (manual_frame lossy cid now_text frame) =
    Inr [\<lparr>no_payload = payload, no_metadata = Some metadata, no_dispatch = Broadcast\<rparr>]"
proof -
  let ?f = "json_object [(''ascii'', JString (lossy frame)), (''byte_len'', json_word (of_nat (length frame) :: u64)),
      (''connection_id'', JString cid), (''hex'', JString (bytes_to_hex frame)), (''received_at'', JString now_text)]"
  have f: "map_of (fold (\<lambda>(k, v). bt_put k v) (sc_inject (sn_config node)) [(''_serial_frame'', ?f)]) ''_serial_frame'' = Some ?f"
    using assms(1) by (simp add: fold_put_other)
  show ?thesis
    using assms(2,3) f inject_del [OF assms(1), of ?f]
    by (auto simp: serial_transform_def manual_frame_def into_payload_map_def frame_message_def build_serial_payload_def
        Let_def with_metadata_def broadcast_def serial_metadata_def frame_string_def frame_u64_def json_object_members
        json_word_def json_opt_def)
qed

section \<open>Deployment gives the connection back\<close>

text \<open>The pool after a handler that locked one record: nothing is lent that was not, no definition changes.\<close>

definition given_back :: "conn_manager \<Rightarrow> conn_manager \<Rightarrow> bool" where
  "given_back m m' \<longleftrightarrow>
     (\<exists>r x w. m' = (set_record r x m)\<lparr>attempt_windows := w\<rparr> \<and> same_definition x (records m ! r) \<and>
        (in_use x \<longrightarrow> in_use (records m ! r)) \<and> (timers_ok (health (records m ! r)) \<longrightarrow> timers_ok (health x)))"

lemma given_back_refl: "given_back m m"
proof -
  have "m = (set_record 0 (records m ! 0) m)\<lparr>attempt_windows := attempt_windows m\<rparr>"
    by (simp add: set_record_def)
  then show ?thesis
    unfolding given_back_def by (intro exI [of _ 0] exI [of _ "records m ! 0"] exI [of _ "attempt_windows m"])
      (simp add: same_definition_def)
qed

lemma given_back_in_use:
  assumes "given_back m m'" and "k < length (records m)" and "in_use (records m' ! k)"
  shows "in_use (records m ! k)"
proof -
  obtain r x w where "m' = (set_record r x m)\<lparr>attempt_windows := w\<rparr>" "in_use x \<longrightarrow> in_use (records m ! r)"
    using assms(1) by (auto simp: given_back_def)
  then show ?thesis using assms(2,3) by (cases "k = r") (simp_all add: set_record_def)
qed

lemma given_back_inv:
  assumes "given_back m m'" and "pool_inv u m"
  shows "pool_inv u m'"
proof -
  obtain r x w where m': "m' = (set_record r x m)\<lparr>attempt_windows := w\<rparr>" and x: "same_definition x (records m ! r)"
    "timers_ok (health (records m ! r)) \<longrightarrow> timers_ok (health x)"
    using assms(1) by (auto simp: given_back_def)
  show ?thesis
  proof (cases "r < length (records m)")
    case True
    then show ?thesis using pool_inv_set_record [OF assms(2) True x(1)] x(2) m' by simp
  next
    case False
    then show ?thesis using assms(2) m' by (simp add: set_record_def list_update_beyond)
  qed
qed

text \<open>What is borrowed, and how it can be given back.\<close>

lemma acquired:
  assumes "acquire u now cid m = (Inr (r, lease), m1)" and "r < length (records m)"
  shows "given_back m (drop_guard now' r lease outcome m1)"
    and "given_back m (refuse_resource cid r lease reason now' m1)"
proof -
  from assms(1) have r: "map_of (connections m) cid = Some r" and a: "acquire_at u now cid r m = (Inr lease, m1)"
    by (auto simp: acquire_def entry_def ok_or_def split: sum.splits option.splits prod.splits)
  from a obtain x w where m1: "m1 = (set_record r x m)\<lparr>attempt_windows := w\<rparr>"
    and x: "same_definition x (records m ! r)" "timers_ok (health (records m ! r)) \<Longrightarrow> timers_ok (health x)"
    by (rule acquire_at_cases) blast
  let ?y = "finalize_release x now' (borrowed_at lease) outcome"
  have d: "drop_guard now' r lease outcome m1 = (set_record r ?y m)\<lparr>attempt_windows := w\<rparr>"
    using assms(2) m1 by (simp add: drop_guard_def set_record_def)
  show "given_back m (drop_guard now' r lease outcome m1)"
    unfolding given_back_def using x finalize_keeps same_definition_trans [OF finalize_keeps(1) x(1)]
    by (intro exI [of _ r] exI [of _ ?y] exI [of _ w]) (auto simp: d)
  let ?z = "mark_invalid (finalize_release x now' (borrowed_at lease) (Failure reason)) (Msg reason []) now'"
  have "refuse_resource cid r lease reason now' m1 = (set_record r ?z m)\<lparr>attempt_windows := w\<rparr>"
    using assms(2) r m1
    by (simp add: refuse_resource_def drop_guard_def mark_invalid_configuration_def with_entry_def entry_def ok_or_def
        set_record_def)
  then show "given_back m (refuse_resource cid r lease reason now' m1)"
    unfolding given_back_def
    using plain_keeps_timers(5) same_definition_trans [OF plain_keeps_definition(5) same_definition_trans [OF finalize_keeps(1) x(1)]]
    by (intro exI [of _ r] exI [of _ ?z] exI [of _ w]) (auto simp: mark_invalid_def)
qed

lemma acquire_failed:
  assumes "acquire u now cid m = (Inl e, m1)"
  shows "given_back m m1"
proof (cases "entry m cid")
  case (Inl e')
  then show ?thesis using assms given_back_refl by (simp add: acquire_def)
next
  case (Inr r)
  then have "acquire_at u now cid r m = (Inl e, m1)"
    using assms by (auto simp: acquire_def split: prod.splits sum.splits)
  then show ?thesis by (rule acquire_at_cases) (auto simp: given_back_def)
qed

lemma on_deploy_given_back:
  assumes "serial_on_deploy u now node m = (res, m')" and "pool_inv u' m"
  shows "given_back m m'"
proof (cases "sn_connection_id node")
  case None
  then show ?thesis using assms(1) given_back_refl by (simp add: serial_on_deploy_def)
next
  case (Some cid)
  show ?thesis
  proof (cases "acquire u now cid m")
    case (Pair a m1)
    show ?thesis
    proof (cases a)
      case (Inl e)
      then show ?thesis using assms(1) Some Pair acquire_failed by (auto simp: serial_on_deploy_def)
    next
      case (Inr b)
      then obtain r lease where b: "acquire u now cid m = (Inr (r, lease), m1)" using Pair by (cases b) auto
      then have "map_of (connections m) cid = Some r"
        by (auto simp: acquire_def entry_def ok_or_def split: sum.splits option.splits prod.splits)
      then have "r < length (records m)" using assms(2) by (simp add: pool_inv_def)
      note returned = acquired [OF b this]
      show ?thesis
        using assms(1) Some b returned by (auto simp: serial_on_deploy_def Let_def split: if_splits option.splits)
    qed
  qed
qed

text \<open>
  C40: however the deployment of a serial trigger ends, the connection it looked at is not lent when it is
  over, nor is any other that was not before, and the pool keeps its invariant; and a trigger that listens
  does so on a serial resource with a port, with the encoding, trimming and injected fields of the node.
\<close>

theorem serial_deployment_returns_connection:
  assumes "serial_on_deploy u now node m = (res, m')" and "pool_inv u m"
  shows "pool_inv u m' \<and> (\<forall>k<length (records m). in_use (records m' ! k) \<longrightarrow> in_use (records m ! k)) \<and>
    (\<forall>cid c. res = Inr (Some (cid, c)) \<longrightarrow> sn_connection_id node = Some cid \<and> sc_port_path c \<noteq> [] \<and>
       sc_encoding c = sc_encoding (sn_config node) \<and> sc_trim c = sc_trim (sn_config node) \<and>
       sc_inject c = sc_inject (sn_config node))"
proof -
  note returned = on_deploy_given_back [OF assms]
  have "sn_connection_id node = Some cid \<and> sc_port_path c \<noteq> [] \<and> sc_encoding c = sc_encoding (sn_config node) \<and>
      sc_trim c = sc_trim (sn_config node) \<and> sc_inject c = sc_inject (sn_config node)"
    if "res = Inr (Some (cid, c))" for cid c
    using assms(1) that
    by (auto simp: serial_on_deploy_def Let_def split: option.splits prod.splits sum.splits if_splits)
  then show ?thesis using given_back_inv [OF returned assms(2)] given_back_in_use [OF returned] by blast
qed

section \<open>An example\<close>

definition demo_serial_node :: serial_trigger_node where
  "demo_serial_node = \<lparr>sn_id = ''s'', sn_config = \<lparr>sc_port_path = ''/dev/x'', sc_baud_rate = 9600, sc_data_bits = 8,
     sc_parity = ''none'', sc_stop_bits = 1, sc_flow_control = ''none'', sc_encoding = ''hex'', sc_delimiter = [CHR 0x0A],
     sc_read_timeout_ms = 100, sc_idle_gap_ms = 80, sc_max_frame_bytes = 512, sc_trim = True,
     sc_inject = [(''line'', JString ''A'')]\<rparr>, sn_connection_id = Some ''com''\<rparr>"

theorem manual_dispatch_agrees_witness:
  "\<exists>metadata. serial_transform id ''t'' demo_serial_node (manual_frame (\<lambda>_. ''AB'') ''com'' ''now'' [65, 66]) =
     Inr [\<lparr>no_payload = JObject [(''line'', JString ''A''), (''serial_ascii'', JString ''AB''),
             (''serial_data'', JString ''41 42''), (''serial_hex'', JString ''41 42'')],
           no_metadata = Some metadata, no_dispatch = Broadcast\<rparr>]"
proof -
  obtain payload metadata
    where m: "frame_message (\<lambda>_. ''AB'') id (sn_id demo_serial_node) (sn_config demo_serial_node) ''com'' ''now'' [65, 66] = (payload, metadata)"
    by fastforce
  have p: "payload = JObject [(''line'', JString ''A''), (''serial_ascii'', JString ''AB''),
      (''serial_data'', JString ''41 42''), (''serial_hex'', JString ''41 42'')]"
  proof -
    have "fst (frame_message (\<lambda>_. ''AB'') id (sn_id demo_serial_node) (sn_config demo_serial_node) ''com'' ''now'' [65, 66]) =
        JObject [(''line'', JString ''A''), (''serial_ascii'', JString ''AB''),
          (''serial_data'', JString ''41 42''), (''serial_hex'', JString ''41 42'')]"
      by code_simp
    then show ?thesis using m by simp
  qed
  have "trim_utf8 ''com'' \<noteq> []" by code_simp
  moreover have "''_serial_frame'' \<notin> fst ` set (sc_inject (sn_config demo_serial_node))"
    by (simp add: demo_serial_node_def)
  ultimately show ?thesis using manual_dispatch_agrees [OF _ _ m, of "''t''"] p by blast
qed

definition demo_serial_pool :: conn_manager where
  "demo_serial_pool = snd (register_connection (\<lambda>_. None)
     \<lparr>cd_id = ''com'', cd_kind = ''serial'', cd_metadata = JObject
        [(''baud_rate'', JNumber (PosInt 9600)), (''port_path'', JString ''/dev/x'')]\<rparr> shared_connection_manager)"

lemma lease_definition:
  assumes "acquire u now cid m = (Inr (r, lease), m1)"
  shows "cl_kind lease = cn_kind (records m ! r) \<and> cl_metadata lease = cn_metadata (records m ! r)"
proof -
  have "acquire_at u now cid r m = (Inr lease, m1)"
    using assms by (auto simp: acquire_def split: sum.splits prod.splits)
  then show ?thesis
    using keeps(4) [of "records m ! r" "policy_from_metadata (cn_metadata (records m ! r))" now]
    by (auto simp: acquire_at_def Let_def same_definition_def split: if_splits sum.splits option.splits prod.splits)
qed

lemma demo_serial_pool_facts:
  "map_of (connections demo_serial_pool) ''com'' = Some 0" "\<not> in_use (records demo_serial_pool ! 0)"
  "deadlines (records demo_serial_pool ! 0) = []" "window_of demo_serial_pool ''com'' = []"
  "is_serial_connection_kind (cn_kind (records demo_serial_pool ! 0))"
  "map_option (trim_utf8 \<circ> sc_port_path) (de_serial_config (cn_metadata (records demo_serial_pool ! 0))) = Some ''/dev/x''"
  by (code_simp+)

lemma demo_serial_pool_inv: "pool_inv (\<lambda>_. None) demo_serial_pool"
  unfolding demo_serial_pool_def by (rule pool_inv_register [OF pool_inv_init])

lemma demo_deployment:
  "\<exists>c. fst (serial_on_deploy (\<lambda>_. None) 0 demo_serial_node demo_serial_pool) = Inr (Some (''com'', c))"
proof -
  have "valid_record (\<lambda>_. None) (records demo_serial_pool ! 0)"
    using demo_serial_pool_inv demo_serial_pool_facts(1) unfolding pool_inv_def by blast
  then obtain lease where "fst (acquire (\<lambda>_. None) 0 ''com'' demo_serial_pool) = Inr (0, lease)"
    using acquire_after_deadlines [OF demo_serial_pool_facts(1,2), of "\<lambda>_. None" 0] demo_serial_pool_facts(3,4) by auto
  then obtain m1 where a: "acquire (\<lambda>_. None) 0 ''com'' demo_serial_pool = (Inr (0, lease), m1)"
    by (cases "acquire (\<lambda>_. None) 0 ''com'' demo_serial_pool") simp
  have n: "sn_connection_id demo_serial_node = Some ''com''" by (simp add: demo_serial_node_def)
  show ?thesis
    using lease_definition [OF a] demo_serial_pool_facts(5,6) a n
    by (auto simp: serial_on_deploy_def Let_def split: option.splits)
qed

theorem serial_deployment_returns_connection_witness:
  "\<exists>c m'. serial_on_deploy (\<lambda>_. None) 0 demo_serial_node demo_serial_pool = (Inr (Some (''com'', c)), m') \<and>
     sc_inject c = [(''line'', JString ''A'')] \<and> pool_inv (\<lambda>_. None) m'"
proof -
  obtain res m' where d: "serial_on_deploy (\<lambda>_. None) 0 demo_serial_node demo_serial_pool = (res, m')" by fastforce
  then obtain c where c: "res = Inr (Some (''com'', c))"
    using demo_deployment by auto
  from serial_deployment_returns_connection [OF d demo_serial_pool_inv] show ?thesis
    using d c by (simp add: demo_serial_node_def)
qed

end
