(* ===== verification/Io_Nodes.thy ===== *)
theory Io_Nodes
  imports Serial_Node
begin

text \<open>
  Smaller parts of \<open>crates/nodes-io/src/\<close>: the templates of outgoing messages (\<open>template.rs\<close>), the timer
  (\<open>timer.rs\<close>) and the native node (\<open>native.rs\<close>). Printing of JSON values and of time stamps is an argument.
\<close>

section \<open>Templates (\<open>template.rs\<close>)\<close>

text \<open>What stands before and after the first occurrence of a text.\<close>

fun find_text :: "string \<Rightarrow> string \<Rightarrow> (string \<times> string) option" where
  "find_text p [] = (if p = [] then Some ([], []) else None)"
| "find_text p (c # s) =
     (if starts_with (c # s) p then Some ([], drop (length p) (c # s))
      else map_option (\<lambda>(a, b). (c # a, b)) (find_text p s))"

fun split_dots :: "string \<Rightarrow> string \<Rightarrow> string list" where
  "split_dots piece [] = [piece]"
| "split_dots piece (c # s) = (if c = CHR ''.'' then piece # split_dots [] s else split_dots (piece @ [c]) s)"

definition path_step :: "json \<Rightarrow> string \<Rightarrow> json option" where
  "path_step v segment =
     (case v of
        JObject m \<Rightarrow> map_of m segment
      | JArray items \<Rightarrow>
          Option.bind (parse_unsigned 64 segment) (\<lambda>i. if nat i < length items then Some (items ! nat i) else None)
      | _ \<Rightarrow> None)"

definition resolve_json_path :: "json \<Rightarrow> string \<Rightarrow> json option" where
  "resolve_json_path v path =
     foldl (\<lambda>acc segment. Option.bind acc (\<lambda>x. path_step x segment)) (Some v)
       (filter (\<lambda>segment. segment \<noteq> []) (split_dots [] path))"

definition value_to_display_string :: "(json \<Rightarrow> string) \<Rightarrow> json \<Rightarrow> string" where
  "value_to_display_string pj v = (case v of JNull \<Rightarrow> [] | JString s \<Rightarrow> s | _ \<Rightarrow> pj v)"

record template_vars =
  tv_payload :: json
  tv_trace_id :: string
  tv_node_id :: string
  tv_timestamp :: string
  tv_extras :: "(string \<times> string) list"

definition resolve_key :: "(json \<Rightarrow> string) \<Rightarrow> template_vars \<Rightarrow> string \<Rightarrow> string" where
  "resolve_key pj vars key =
     (if key = ''trace_id'' then tv_trace_id vars
      else if key = ''node_id'' then tv_node_id vars
      else if key = ''timestamp'' \<or> key = ''event_at'' then tv_timestamp vars
      else if key = ''payload'' then pj (tv_payload vars)
      else
        (case map_of (tv_extras vars) key of
           Some s \<Rightarrow> s
         | None \<Rightarrow>
             if starts_with key ''payload.'' then
               (case resolve_json_path (tv_payload vars) (drop 8 key) of
                  Some v \<Rightarrow> value_to_display_string pj v | None \<Rightarrow> [])
             else []))"

lemma find_text_shorter: "find_text p s = Some (a, b) \<Longrightarrow> p \<noteq> [] \<Longrightarrow> length a + length b < length s"
  by (induction p s arbitrary: a rule: find_text.induct)
    (auto simp: starts_with_def split: if_splits intro!: diff_less)

function render_with :: "(string \<Rightarrow> string) \<Rightarrow> string \<Rightarrow> string" where
  "render_with f t =
     (case find_text ''{{'' t of
        None \<Rightarrow> t
      | Some (a, b) \<Rightarrow>
          (case find_text ''}}'' b of
             Some (key, rest) \<Rightarrow> a @ f (trim_utf8 key) @ render_with f rest
           | None \<Rightarrow> t))"
  by pat_completeness auto
termination render_with
  by (relation "measure (\<lambda>(f, t). length t)") (auto dest!: find_text_shorter)

declare render_with.simps [simp del]

definition render :: "(json \<Rightarrow> string) \<Rightarrow> template_vars \<Rightarrow> string \<Rightarrow> string" where
  "render pj vars template = render_with (resolve_key pj vars) template"

subsection \<open>Rendering is substitution\<close>

datatype segment = Text string | Var string

fun segment_text :: "segment \<Rightarrow> string" where
  "segment_text (Text s) = s"
| "segment_text (Var k) = ''{{'' @ k @ ''}}''"

fun segment_value :: "(string \<Rightarrow> string) \<Rightarrow> segment \<Rightarrow> string" where
  "segment_value f (Text s) = s"
| "segment_value f (Var k) = f (trim_utf8 k)"

fun plain_segment :: "segment \<Rightarrow> bool" where
  "plain_segment (Text s) = (CHR ''{'' \<notin> set s)"
| "plain_segment (Var k) = (CHR ''}'' \<notin> set k)"

lemma find_text_first:
  "x \<notin> set a \<Longrightarrow> find_text [x, x] (a @ [x, x] @ b) = Some (a, b)"
proof (induction a)
  case Nil
  then show ?case by (simp add: starts_with_def)
next
  case (Cons c a)
  then show ?case by (auto simp: starts_with_def)
qed

lemma find_text_none: "x \<notin> set a \<Longrightarrow> find_text [x, x] a = None"
proof (induction a)
  case Nil
  then show ?case by simp
next
  case (Cons c a)
  then show ?case by (cases a) (auto simp: starts_with_def)
qed

lemma render_text: "CHR ''{'' \<notin> set s \<Longrightarrow> render_with f s = s"
  by (simp add: render_with.simps find_text_none)

lemma render_var:
  assumes "CHR ''{'' \<notin> set s" and "CHR ''}'' \<notin> set k"
  shows "render_with f (s @ ''{{'' @ k @ ''}}'' @ r) = s @ f (trim_utf8 k) @ render_with f r"
  using find_text_first [OF assms(1), of "k @ ''}}'' @ r"] find_text_first [OF assms(2), of r]
  by (subst render_with.simps) simp

lemma render_prefixed:
  assumes "list_all plain_segment segs" and "CHR ''{'' \<notin> set s"
  shows "render_with f (s @ concat (map segment_text segs)) = s @ concat (map (segment_value f) segs)"
  using assms
proof (induction segs arbitrary: s)
  case Nil
  then show ?case by (simp add: render_text)
next
  case (Cons g segs)
  show ?case
  proof (cases g)
    case (Text t)
    then show ?thesis using Cons.IH [of "s @ t"] Cons.prems by simp
  next
    case (Var k)
    then show ?thesis using Cons.IH [of "[]"] Cons.prems render_var [of s k f "concat (map segment_text segs)"] by simp
  qed
qed

text \<open>
  Rendering a template replaces every placeholder by its value and copies the rest; what a value contains
  is not rendered again, whatever braces it has.
\<close>

theorem render_substitutes:
  assumes "list_all plain_segment segs"
  shows "render pj vars (concat (map segment_text segs)) = concat (map (segment_value (resolve_key pj vars)) segs)"
  using render_prefixed [OF assms, of "[]"] by (simp add: render_def)

theorem render_substitutes_witness:
  "render (\<lambda>_. ''?'') \<lparr>tv_payload = JObject [(''a'', JArray [JNull, JString ''{{node_id}}''])], tv_trace_id = ''7'',
      tv_node_id = ''n'', tv_timestamp = ''now'', tv_extras = []\<rparr> ''v={{ payload.a.1 }} at {{timestamp}}''
   = ''v={{node_id}} at now''"
proof -
  have "segment_value (resolve_key (\<lambda>_. ''?'') \<lparr>tv_payload = JObject [(''a'', JArray [JNull, JString ''{{node_id}}''])],
      tv_trace_id = ''7'', tv_node_id = ''n'', tv_timestamp = ''now'', tv_extras = []\<rparr>) (Var '' payload.a.1 '') = ''{{node_id}}''"
    "segment_value (resolve_key (\<lambda>_. ''?'') \<lparr>tv_payload = JObject [(''a'', JArray [JNull, JString ''{{node_id}}''])],
      tv_trace_id = ''7'', tv_node_id = ''n'', tv_timestamp = ''now'', tv_extras = []\<rparr>) (Var ''timestamp'') = ''now''"
    by (code_simp+)
  then show ?thesis
    using render_substitutes [of "[Text ''v='', Var '' payload.a.1 '', Text '' at '', Var ''timestamp'']" "\<lambda>_. ''?''"
      "\<lparr>tv_payload = JObject [(''a'', JArray [JNull, JString ''{{node_id}}''])], tv_trace_id = ''7'', tv_node_id = ''n'',
        tv_timestamp = ''now'', tv_extras = []\<rparr>"]
    by simp
qed

section \<open>The timer (\<open>timer.rs\<close>)\<close>

record timer_config =
  tc_interval_ms :: u64
  tc_immediate :: bool
  tc_inject :: json_map

definition de_timer_config :: "json \<Rightarrow> timer_config option" where
  "de_timer_config v =
     do { m \<leftarrow> as_object v;
          i \<leftarrow> de_field_or m ''interval_ms'' de_word 5000;
          now \<leftarrow> de_field_or m ''immediate'' de_bool False;
          inject \<leftarrow> de_field_or m ''inject'' de_json_map [];
          Some \<lparr>tc_interval_ms = i, tc_immediate = now, tc_inject = inject\<rparr> }"

definition trigger_payload :: "timer_config \<Rightarrow> json" where
  "trigger_payload c = json_object (tc_inject c)"

definition timer_metadata :: "string \<Rightarrow> timer_config \<Rightarrow> string \<Rightarrow> json_map" where
  "timer_metadata node_id c now_text =
     [(''timer'', json_object
        [(''node_id'', JString node_id), (''interval_ms'', json_word (max 1 (tc_interval_ms c))),
         (''immediate'', JBool (tc_immediate c)), (''triggered_at'', JString now_text)])]"

definition timer_transform :: "string \<Rightarrow> timer_config \<Rightarrow> string \<Rightarrow> json \<Rightarrow> node_execution result" where
  "timer_transform node_id c now_text payload =
     Inr (with_metadata (Some (timer_metadata node_id c now_text))
       (broadcast (JObject (fold (\<lambda>(k, v). bt_put k v) (tc_inject c) (into_payload_map payload)))))"

text \<open>
  The background task, from \<open>now\<close> on: the instants at which it emits. The list says how long each emission
  takes, as far as it is followed; \<open>cancel\<close> is when the token is cancelled, and cancellation is looked at first.
\<close>

fun timer_loop :: "time \<Rightarrow> time \<Rightarrow> time list \<Rightarrow> time \<Rightarrow> time list" where
  "timer_loop interval cancel [] now = []"
| "timer_loop interval cancel (d # ds) now =
     (if cancel \<le> now + interval then []
      else (now + interval) # timer_loop interval cancel ds (now + interval + d))"

definition timer_interval :: "timer_config \<Rightarrow> time" where
  "timer_interval c = duration_ms (max 1 (tc_interval_ms c))"

definition timer_task :: "timer_config \<Rightarrow> time \<Rightarrow> time list \<Rightarrow> time \<Rightarrow> time list" where
  "timer_task c cancel ds now =
     (if tc_immediate c \<and> now < cancel then
        (case ds of [] \<Rightarrow> [now] | d # ds' \<Rightarrow> now # timer_loop (timer_interval c) cancel ds' (now + d))
      else timer_loop (timer_interval c) cancel ds now)"

text \<open>Emissions never come closer than the interval, and none at or after the cancellation.\<close>

lemma successively_before: "successively P xs \<Longrightarrow> \<forall>t\<in>set xs. P x t \<Longrightarrow> successively P (x # xs)"
  by (cases xs) auto

lemma timer_loop_spaced:
  assumes "list_all (\<lambda>d. 0 \<le> d) ds" and "0 \<le> interval"
  shows "successively (\<lambda>s t. s + interval \<le> t) (timer_loop interval cancel ds now) \<and>
    (\<forall>t\<in>set (timer_loop interval cancel ds now). now + interval \<le> t \<and> t < cancel)"
  using assms
proof (induction ds arbitrary: now)
  case Nil
  then show ?case by simp
next
  case (Cons d ds)
  let ?rest = "timer_loop interval cancel ds (now + interval + d)"
  have IH: "successively (\<lambda>s t. s + interval \<le> t) ?rest"
    "\<forall>t\<in>set ?rest. now + interval + d + interval \<le> t \<and> t < cancel"
    using Cons.IH [of "now + interval + d"] Cons.prems by simp_all
  have "0 \<le> d" "0 \<le> interval" using Cons.prems by simp_all
  then have "\<forall>t\<in>set ?rest. now + interval + interval \<le> t \<and> now + interval \<le> t \<and> t < cancel" using IH(2) by fastforce
  then show ?case using successively_before [OF IH(1), of "now + interval"] by auto
qed

lemma timer_interval_pos: "0 < timer_interval c"
proof -
  have "(1::u64) \<le> max 1 (tc_interval_ms c)" by simp
  then have "0 < unat (max 1 (tc_interval_ms c))" by (simp add: word_le_nat_alt)
  then show ?thesis by (simp add: timer_interval_def duration_ms_def)
qed

text \<open>
  A timer emits at most once per interval, not at all once it is cancelled, and at once when it is
  immediate, whatever its interval is set to and however long the emissions take.
\<close>

theorem timer_paces:
  assumes "list_all (\<lambda>d. 0 \<le> d) ds"
  shows "successively (\<lambda>s t. s + timer_interval c \<le> t) (timer_task c cancel ds now) \<and>
    list_all (\<lambda>t. now \<le> t \<and> t < cancel) (timer_task c cancel ds now) \<and>
    (tc_immediate c \<and> now < cancel \<longrightarrow> hd (timer_task c cancel ds now) = now)"
proof (cases "tc_immediate c \<and> now < cancel")
  case True
  show ?thesis
  proof (cases ds)
    case Nil
    then show ?thesis using True by (simp add: timer_task_def)
  next
    case (Cons d ds')
    have "0 \<le> d" "list_all (\<lambda>d. 0 \<le> d) ds'" using assms Cons by simp_all
    then have "successively (\<lambda>s t. s + timer_interval c \<le> t) (timer_loop (timer_interval c) cancel ds' (now + d))"
      and l: "\<forall>t\<in>set (timer_loop (timer_interval c) cancel ds' (now + d)). now + timer_interval c \<le> t \<and> now \<le> t \<and> t < cancel"
      using timer_interval_pos [of c] timer_loop_spaced [of ds' "timer_interval c" cancel "now + d"] by fastforce+
    then show ?thesis
      using True Cons successively_before [of "\<lambda>s t. s + timer_interval c \<le> t" _ now]
      by (auto simp: timer_task_def list_all_iff)
  qed
next
  case False
  have "successively (\<lambda>s t. s + timer_interval c \<le> t) (timer_loop (timer_interval c) cancel ds now) \<and>
      (\<forall>t\<in>set (timer_loop (timer_interval c) cancel ds now). now + timer_interval c \<le> t \<and> t < cancel)"
    using timer_interval_pos [of c] by (intro timer_loop_spaced assms) simp
  then show ?thesis
    using False timer_interval_pos [of c] by (force simp: timer_task_def list_all_iff)
qed

section \<open>The native node (\<open>native.rs\<close>)\<close>

record native_config =
  nc_message :: "string option"
  nc_inject :: json_map
  nc_connection_id :: "string option"

definition native_payload :: "native_config \<Rightarrow> json \<Rightarrow> json" where
  "native_payload c payload =
     (let m = into_payload_map payload;
          m1 = (case nc_message c of Some t \<Rightarrow> bt_put ''native_message'' (JString t) m | None \<Rightarrow> m)
      in JObject (fold (\<lambda>(k, v). bt_put k v) (nc_inject c) m1))"

definition connection_metadata :: "(time \<Rightarrow> string) \<Rightarrow> connection_lease \<Rightarrow> string \<times> json" where
  "connection_metadata time_text lease =
     (''connection'', json_object
        [(''id'', JString (cl_id lease)), (''kind'', JString (cl_kind lease)), (''metadata'', cl_metadata lease),
         (''borrowed_at'', JString (time_text (borrowed_at lease)))])"

definition native_transform ::
    "(string \<Rightarrow> string option) \<Rightarrow> (time \<Rightarrow> string) \<Rightarrow> time \<Rightarrow> native_config \<Rightarrow> json \<Rightarrow> conn_manager \<Rightarrow>
     node_execution result \<times> conn_manager" where
  "native_transform u time_text now c payload m =
     (let finish = (\<lambda>metadata. Inr (with_metadata (Some metadata) (broadcast (native_payload c payload)))) in
      case nc_connection_id c of
        None \<Rightarrow> (finish [], m)
      | Some cid \<Rightarrow>
          (case acquire u now cid m of
             (Inl e, m1) \<Rightarrow> (Inl e, m1)
           | (Inr (r, lease), m1) \<Rightarrow>
               (finish [connection_metadata time_text lease], drop_guard now r lease Success m1)))"

lemma native_gives_back:
  assumes "native_transform u time_text now c payload m = (res, m')" and "pool_inv u' m"
  shows "given_back m m'"
proof (cases "nc_connection_id c")
  case None
  then show ?thesis using assms(1) given_back_refl by (simp add: native_transform_def Let_def)
next
  case (Some cid)
  obtain a m1 where a: "acquire u now cid m = (a, m1)" by fastforce
  show ?thesis
  proof (cases a)
    case (Inl e)
    then show ?thesis using assms(1) Some a acquire_failed by (auto simp: native_transform_def)
  next
    case (Inr b)
    then obtain r lease where b: "acquire u now cid m = (Inr (r, lease), m1)" using a by (cases b) auto
    then have "map_of (connections m) cid = Some r"
      by (auto simp: acquire_def entry_def ok_or_def split: sum.splits option.splits prod.splits)
    then have "r < length (records m)" using assms(2) by (simp add: pool_inv_def)
    then show ?thesis using assms(1) Some b acquired(1) [OF b] by (auto simp: native_transform_def)
  qed
qed

end
