(* ===== verification/Spec2Isabelle.thy ===== *)
theory Spec2Isabelle
  imports Deploy_Safety Conn_Recovery Conn_Refs Safety_Correct Conn_Spec_Correct Dsl_Generate Signal_Round_Trip
    Serial_Correct Human_Correct Pure_Nodes Io_Nodes
begin

text \<open>
  \<^bold>\<open>Nazh: the workflow engine and its connections\<close>

  Nazh runs industrial workflows: a directed graph of nodes that exchange JSON payloads. A workflow
  file is parsed, checked and deployed (\<open>crates/graph\<close>) over the contracts of \<open>crates/core\<close>; nodes reach
  devices through a shared pool of connections (\<open>crates/connections\<close>). Workflow files can be written by
  hand or compiled from a language of devices, capabilities and state machines (\<open>crates/dsl-core\<close>,
  \<open>crates/dsl-compiler\<close>), and connections are described by assets of their own, which
  \<open>src-tauri/src/connection_resolver.rs\<close> turns into definitions. Sources are under \<open>src/crates/\<close> unless
  said otherwise.

  \<^bold>\<open>Shared ground.\<close>
  \<^item> \<open>Prelude\<close>: errors as sums, early return (\<open>and_then\<close>, \<open>try_fold\<close>), saturating words, the map interface
    with its two instances, association lists (hash maps, \<open>hm_\<close>) and sorted lists (\<open>BTreeMap\<close>, \<open>bt_\<close>).
  \<^item> \<open>Texts\<close>: methods of \<open>str\<close>; UTF-8, slices and their panics. \<open>Hex\<close>: hexadecimal digits and numbers.
  \<^item> \<open>Json\<close>: \<open>serde_json::Value\<close>. \<open>Engine_Error\<close>: \<open>core/src/error.rs\<close>.
  \<^item> \<open>Channels\<close>: bounded \<open>mpsc\<close> queues and \<open>watch\<close> cells as tokio documents them.

  \<^bold>\<open>Core contracts\<close> (\<open>core/src\<close>).
  \<^item> \<open>Pin\<close> (\<open>pin.rs\<close>): port kinds and types. The two compatibility matrices are characterised by
    delivery facets and by unification.
  \<^item> \<open>Node\<close> (\<open>node.rs\<close>, \<open>plugin.rs\<close>): outputs, node definitions, the registry of factories.
  \<^item> \<open>Data_Store\<close> (\<open>data.rs\<close>): the arena of reference-counted payloads. \<open>payload_lifetime\<close> says how long a
    payload lives, \<open>capacity_bound_interleaved\<close> how far concurrent writers overshoot.
  \<^item> \<open>Output_Cache\<close> (\<open>cache.rs\<close>), \<open>Guard\<close> (\<open>guard.rs\<close>), \<open>Events\<close> (\<open>event.rs\<close>).
  \<^item> \<open>Variables\<close> (\<open>variables/\<close>, \<open>graph/src/variables_init.rs\<close>): typed variables with change events. They
    keep their types, no successful compare-and-swap is lost, and the events of interleaved operations
    mirror the values when those of one variable are published in the order of its writes.
  \<^item> \<open>Lifecycle\<close> (\<open>lifecycle.rs\<close>): trigger handles and guards of background tasks.

  \<^bold>\<open>The graph\<close> (\<open>graph/src\<close>).
  \<^item> \<open>Graph_Types\<close>, \<open>Kahn\<close>, \<open>Topology\<close> (\<open>types.rs\<close>, \<open>topology/\<close>): validation, the deployment order, the
    classification of edges and the cycle check, each against its declarative meaning.
  \<^item> \<open>Pin_Validator\<close> (\<open>pin_validator.rs\<close>): the port checks are the port contract.
  \<^item> \<open>Pull\<close> (\<open>pull/\<close>): the recursive pull of data inputs with its memo. It terminates on acyclic data
    edges, its memo is transparent, and what it returns is fresh.
  \<^item> \<open>Edge_Window\<close> (\<open>edge_window.rs\<close>): per-edge statistics, which account for every transmission once.
  \<^item> \<open>Runner\<close> (\<open>runner.rs\<close>), \<open>Ingress\<close> (\<open>types.rs\<close>): one turn of a node loop, submissions, the result
    stream. \<open>Accounting\<close> counts references; \<open>Engine_Run\<close> has the step relation \<open>engine_step\<close> of a running
    workflow and shows that references are conserved, that queued payloads can be read and that a drained
    store is empty, along every run in which no receiver disappears between the two tests of a refused
    send (\<open>engine_step False\<close>). \<open>engine_step True\<close> lets it disappear, and a payload is then released twice.
  \<^item> \<open>Deploy\<close>, \<open>Deploy_Safety\<close> (\<open>deploy.rs\<close>): a deployment is sound, conserves references from its first
    moment on, and cancels what it started, first to last, when it fails.
  \<^item> \<open>Conn_Refs\<close> (\<open>connection_collector.rs\<close>): the connections a workflow refers to.

  \<^bold>\<open>Connections\<close> (\<open>connections/src\<close>).
  \<^item> \<open>Conn_Policy\<close> (\<open>policy.rs\<close>), \<open>Conn_Validation\<close> (\<open>validation.rs\<close>), \<open>Conn_Health\<close> (\<open>health.rs\<close>,
    \<open>types.rs\<close>), \<open>Conn_Manager\<close> (\<open>manager/\<close>, \<open>guard.rs\<close>): policies, checks, the health state machine and
    the pool, whose records are addresses so that a stale record can be told from the current one.
  \<^item> \<open>Conn_Safety\<close>: the step relation \<open>conn_step\<close> of concurrent borrowers and its invariants.
    \<open>Conn_Recovery\<close>: circuit breaker, rate limit, availability, batches, releases and sessions.

  \<^bold>\<open>Nodes\<close> (\<open>nodes-flow/src\<close>, \<open>scripting/src/lib.rs\<close>, \<open>nodes-io/src\<close>).
  \<^item> \<open>Flow_Nodes\<close>: the if, switch, tryCatch, loop, code and passthrough nodes over the script base.
  \<^item> \<open>State_Machine\<close>: the state machine node refines an abstract machine, stated on its configuration alone;
    conditions may fail, but having evaluated one must not change what another gives.
  \<^item> \<open>Can\<close>, \<open>Can_Codec\<close>: frames, filters and the SLCAN text, its round trip, and the reader thread.

  \<^item> \<open>Capability_Call\<close> (\<open>nodes-io/src/capability_call.rs\<close>, \<open>executor.rs\<close>): the configuration of a capability
    node, its templates and the request it makes of a protocol. \<open>Byte_Codec\<close> (\<open>executor.rs\<close>,
    \<open>signal_decode/\<close>): values to registers, bytes and frames and back; \<open>Signal_Round_Trip\<close> sends an integer
    through a CAN frame and the serial text and reads it back.

  \<^item> \<open>Serial_Trigger\<close> (\<open>nodes-io/src/serial_trigger\<close>): the delimiter, the cutting of a byte stream into frames
    and what a session reports to the pool. \<open>Serial_Correct\<close>: no byte is lost, frames do not depend on how
    reads split the stream unless the device pauses within one, and their size is bounded. \<open>Serial_Node\<close>: its configuration, manual dispatch and
    deployment, which gives the connection back however it ends.
  \<^item> \<open>Human_Loop\<close> (\<open>nodes-io/src/human_loop\<close>, \<open>src-tauri/src/commands/human_loop.rs\<close>): the node that waits for a
    person and the registry of approvals. \<open>Human_Correct\<close>: along every run of the step relation
    \<open>approval_trace\<close> an approval is decided once, by a person or by default, and an undeployment lets waiting messages go on;
    a poll is one step there, and what a response sent in the middle of one does is shown apart.

  \<^item> \<open>Pure_Nodes\<close> (\<open>nodes-pure/src\<close>): the nodes evaluated on demand; the shipped ones that declare themselves
    pure meet what the memo of \<open>Pull\<close> relies on.
  \<^item> \<open>Io_Nodes\<close> (\<open>template.rs\<close>, \<open>timer.rs\<close>, \<open>native.rs\<close>): rendering of templates is substitution, the timer keeps its
    pace, the native node returns its connection.

  \<^bold>\<open>The language and its compiler\<close> (\<open>dsl-core/src\<close>, \<open>dsl-compiler/src\<close>).
  \<^item> \<open>Numbers\<close>, \<open>Serde\<close>, \<open>Json_Build\<close>: number texts, the derived readers of JSON, the \<open>json!\<close> macro.
  \<^item> \<open>Dsl_Types\<close>, \<open>Dsl_Validate\<close>, \<open>Dsl_Capability\<close> (\<open>device.rs\<close>, \<open>capability.rs\<close>, \<open>workflow.rs\<close>, \<open>ranges.rs\<close>):
    devices, signals, capabilities, workflows, durations and their validation; \<open>Dsl_Generate\<close> says which
    generated capabilities are valid.
  \<^item> \<open>Compiler_Checks\<close>, \<open>Compiler\<close> (\<open>context.rs\<close>, \<open>validate.rs\<close>, \<open>output/\<close>): the checks and the workflow file
    written. \<open>Workflow_Json\<close> reads such a file. \<open>Compiler_Correct\<close>, \<open>Compile_Accepts\<close> and \<open>Compiled\<close> show
    what is accepted and that what is written is read as the intended graph; \<open>Compiled_Run\<close> composes
    this with the state machine node.
  \<^item> \<open>Cycle_Search\<close>, \<open>Compiler_Safety\<close> (\<open>safety.rs\<close>, \<open>safety/\<close>): the six safety rules. \<open>Safety_Correct\<close>: what they
    stop, and that what they report of the state graph is true of the running machine.

  \<^bold>\<open>Connection assets.\<close> \<open>Conn_Spec\<close> (\<open>dsl-core/src/connection.rs\<close>, \<open>connection_resolver.rs\<close>): assets, their
  validation and their resolution with secrets and local overrides. \<open>Conn_Spec_Correct\<close>: when resolution
  succeeds, which layer a field comes from, that the pool takes the result, and the policy then in force.

  \<^bold>\<open>Conventions.\<close> A struct is a record, an enum a datatype, a fixed-width integer a word. A hash map
  is an association list with distinct keys (\<open>hm_wf\<close>) in an order nothing may depend on; where the code
  iterates over one, the order is arbitrary. A result is a sum; an outer \<open>option\<close> is a panic or a run
  that does not end. Texts for people become a key with arguments (\<open>Msg\<close>). Instants are nanoseconds
  (\<open>int\<close>), JSON floats and averages rationals. Concurrency is a sequence of atomic steps.

  \<^bold>\<open>Bounds and fuel.\<close> The pull recursion takes fuel: as much as there are nodes on data edges, plus one,
  is enough (\<open>pull_terminates\<close>, \<open>deployed_pulls_return\<close>). All other loops are total functions.

  \<^bold>\<open>Parameters.\<close> Code outside the repository is an argument of what uses it: node factories and the
  transform and \<open>on_deploy\<close> methods of a node, the Rhai engine, \<open>Url::parse\<close>, the iteration order of
  hash maps, fresh identifiers, clocks, float parsing and formatting, the Unicode tables, YAML parsing, the
  store of secrets, and what other tasks do at an await point.

  \<^bold>\<open>Not modelled.\<close> The rest of the desktop shell (\<open>src-tauri\<close>) and the web front end; the SQLite store; the
  AI clients; the exchange of I/O nodes with their devices, which is calls of client libraries; tracing output. The proxy that forwards events during a deployment only adds room to the
  queues and is merged with them.
\<close>

end
